(* ===== verification/Crawler_Errors.thy ===== *)
theory Crawler_Errors
  imports Sahabino_Prelude
begin

text \<open>
  The crawler's error hierarchy (\<open>crawler/domain/errors.py\<close>), the Python exceptions the crawler
  handles beside it, the HTTP status classification (\<open>crawler/infrastructure/http_errors.py\<close>),
  the classifier that turns a library exception into a crawler error
  (\<open>crawler/infrastructure/adapters/classifier.py\<close>) and the sanitiser of persisted error texts.

  An error object is a record: its class, its message and the two attributes the classes carry.
  \<open>isinstance\<close> follows the class hierarchy of the source: every class derives from
  \<open>CrawlerError\<close>, and \<open>GatewayFailure\<close> from \<open>UpstreamFailure\<close>.
\<close>

section \<open>Definitions\<close>

datatype error_class =
    CrawlerErrorC | RateLimited | AccessForbidden | NetworkTimeout | LocalRateLimitWaitExceeded
  | TemporaryConnectionFailure | ProxyConnectionFailure | ProxyAuthenticationFailure
  | ProxyUnavailable | UpstreamFailure | GatewayFailure | AppNotFound | AppGone | LegalRestriction
  | ClientRequestFailure | InvalidPackage | ParseFailure | SchemaFailure | AdapterFailure
  | CircuitOpen | RegistryUnavailable | MessagingPublishFailure

record crawler_error =
  err_class :: error_class
  err_message :: string
  retry_after_seconds :: "seconds option"
  retry_with_new_egress :: bool

primrec error_code :: "error_class \<Rightarrow> string" where
  "error_code CrawlerErrorC = ''CRAWLER_ERROR''"
| "error_code RateLimited = ''RATE_LIMITED''"
| "error_code AccessForbidden = ''ACCESS_FORBIDDEN''"
| "error_code NetworkTimeout = ''NETWORK_TIMEOUT''"
| "error_code LocalRateLimitWaitExceeded = ''LOCAL_RATE_LIMIT_WAIT_EXCEEDED''"
| "error_code TemporaryConnectionFailure = ''CONNECTION_FAILED''"
| "error_code ProxyConnectionFailure = ''PROXY_CONNECTION_FAILED''"
| "error_code ProxyAuthenticationFailure = ''PROXY_AUTHENTICATION_FAILED''"
| "error_code ProxyUnavailable = ''PROXY_UNAVAILABLE''"
| "error_code UpstreamFailure = ''UPSTREAM_FAILURE''"
| "error_code GatewayFailure = ''UPSTREAM_GATEWAY_FAILURE''"
| "error_code AppNotFound = ''APP_NOT_FOUND''"
| "error_code AppGone = ''APP_GONE''"
| "error_code LegalRestriction = ''LEGAL_RESTRICTION''"
| "error_code ClientRequestFailure = ''CLIENT_REQUEST_FAILED''"
| "error_code InvalidPackage = ''INVALID_PACKAGE''"
| "error_code ParseFailure = ''PARSE_FAILURE''"
| "error_code SchemaFailure = ''SCHEMA_FAILURE''"
| "error_code AdapterFailure = ''ADAPTER_FAILURE''"
| "error_code CircuitOpen = ''CIRCUIT_OPEN''"
| "error_code RegistryUnavailable = ''REGISTRY_UNAVAILABLE''"
| "error_code MessagingPublishFailure = ''KAFKA_PUBLISH_FAILED''"

text \<open>The base class of each class of the hierarchy (\<open>None\<close> for the root).\<close>

definition base_class :: "error_class \<Rightarrow> error_class option" where
  "base_class c = (if c = CrawlerErrorC then None
                   else if c = GatewayFailure then Some UpstreamFailure else Some CrawlerErrorC)"

text \<open>\<open>isinstance(e, c)\<close> for a class of the hierarchy, whose depth is two.\<close>

definition is_subclass :: "error_class \<Rightarrow> error_class \<Rightarrow> bool" where
  "is_subclass c d \<longleftrightarrow> c = d \<or> base_class c = Some d
     \<or> (case base_class c of None \<Rightarrow> False | Some b \<Rightarrow> base_class b = Some d)"

definition err_isinstance :: "crawler_error \<Rightarrow> error_class list \<Rightarrow> bool" where
  "err_isinstance e cs \<longleftrightarrow> list_ex (is_subclass (err_class e)) cs"

definition mk_err :: "error_class \<Rightarrow> string \<Rightarrow> crawler_error" where
  "mk_err c m = \<lparr>err_class = c, err_message = m, retry_after_seconds = None,
                 retry_with_new_egress = False\<rparr>"

text \<open>
  Exceptions at large. \<open>Py\<close> is any exception of a library or of Python itself, described by what
  the crawler inspects of it: the class name, the text, whether it derives from \<open>ValueError\<close>,
  and the attributes \<open>status_code\<close>, \<open>code\<close>, \<open>retry_after_seconds\<close> and \<open>headers\<close>.
\<close>

datatype attr_value = AInt int | AStr string | AOther

record py_exn =
  exn_type :: string
  exn_text :: string
  exn_is_value_error :: bool
  attr_status_code :: "attr_value option"
  attr_code :: "attr_value option"
  attr_retry_after :: "seconds option"
  attr_headers :: "(string \<times> string) list option"

datatype exn = Crawler crawler_error | ValidationError string | Py py_exn
  | ExceptionGroup string "exn list"

definition mk_exn :: "string \<Rightarrow> string \<Rightarrow> bool \<Rightarrow> exn" where
  "mk_exn n t v = Py \<lparr>exn_type = n, exn_text = t, exn_is_value_error = v, attr_status_code = None,
     attr_code = None, attr_retry_after = None, attr_headers = None\<rparr>"

abbreviation value_error :: "string \<Rightarrow> exn" where
  "value_error t \<equiv> mk_exn ''ValueError'' t True"

abbreviation lookup_error :: "string \<Rightarrow> exn" where
  "lookup_error t \<equiv> mk_exn ''LookupError'' t False"

text \<open>\<open>isinstance(e, ValueError)\<close>; pydantic documents its \<open>ValidationError\<close> as a \<open>ValueError\<close>.\<close>

definition is_value_error :: "exn \<Rightarrow> bool" where
  "is_value_error e = (case e of Crawler _ \<Rightarrow> False | ValidationError _ \<Rightarrow> True
     | Py p \<Rightarrow> exn_is_value_error p | ExceptionGroup _ _ \<Rightarrow> False)"

definition is_crawler_error :: "exn \<Rightarrow> bool" where
  "is_crawler_error e = (case e of Crawler _ \<Rightarrow> True | _ \<Rightarrow> False)"

primrec class_name :: "error_class \<Rightarrow> string" where
  "class_name CrawlerErrorC = ''CrawlerError''"
| "class_name RateLimited = ''RateLimited''"
| "class_name AccessForbidden = ''AccessForbidden''"
| "class_name NetworkTimeout = ''NetworkTimeout''"
| "class_name LocalRateLimitWaitExceeded = ''LocalRateLimitWaitExceeded''"
| "class_name TemporaryConnectionFailure = ''TemporaryConnectionFailure''"
| "class_name ProxyConnectionFailure = ''ProxyConnectionFailure''"
| "class_name ProxyAuthenticationFailure = ''ProxyAuthenticationFailure''"
| "class_name ProxyUnavailable = ''ProxyUnavailable''"
| "class_name UpstreamFailure = ''UpstreamFailure''"
| "class_name GatewayFailure = ''GatewayFailure''"
| "class_name AppNotFound = ''AppNotFound''"
| "class_name AppGone = ''AppGone''"
| "class_name LegalRestriction = ''LegalRestriction''"
| "class_name ClientRequestFailure = ''ClientRequestFailure''"
| "class_name InvalidPackage = ''InvalidPackage''"
| "class_name ParseFailure = ''ParseFailure''"
| "class_name SchemaFailure = ''SchemaFailure''"
| "class_name AdapterFailure = ''AdapterFailure''"
| "class_name CircuitOpen = ''CircuitOpen''"
| "class_name RegistryUnavailable = ''RegistryUnavailable''"
| "class_name MessagingPublishFailure = ''MessagingPublishFailure''"

text \<open>\<open>str(e)\<close> and \<open>type(e).__name__\<close>.\<close>

definition exn_str :: "exn \<Rightarrow> string" where
  "exn_str e = (case e of Crawler c \<Rightarrow> err_message c | ValidationError t \<Rightarrow> t | Py p \<Rightarrow> exn_text p
     | ExceptionGroup m es \<Rightarrow> m @ '' ('' @ nat_str (length es) @ '' sub-exception''
         @ (if length es = 1 then '''' else ''s'') @ '')'')"

definition exn_name :: "exn \<Rightarrow> string" where
  "exn_name e = (case e of Crawler c \<Rightarrow> class_name (err_class c)
     | ValidationError _ \<Rightarrow> ''ValidationError'' | Py p \<Rightarrow> exn_type p
     | ExceptionGroup _ _ \<Rightarrow> ''ExceptionGroup'')"

subsection \<open>Redaction of endpoints: safe_error_message\<close>

text \<open>
  The regular expression \<open>\b(?:https?|socks[45]?)://\S+\<close>: at a word boundary, one of the five
  schemes, the separator and at least one character that is not white space.
  \<open>url_rest\<close> returns the text after the separator when the schemes match at the head.
\<close>

definition url_schemes :: "string list" where
  "url_schemes = [''https'', ''http'', ''socks4'', ''socks5'', ''socks'']"

definition url_rest :: "string \<Rightarrow> string option" where
  "url_rest s = (case find (\<lambda>p. starts_with (p @ ''://'') s) url_schemes of
     None \<Rightarrow> None
   | Some p \<Rightarrow> (case drop (length p + 3) s of
        [] \<Rightarrow> None
      | c # cs \<Rightarrow> if is_space c then None else Some (c # cs)))"

definition url_at :: "bool \<Rightarrow> string \<Rightarrow> bool" where
  "url_at prev_word s \<longleftrightarrow> \<not> prev_word \<and> url_rest s \<noteq> None"

lemma url_rest_drop: "url_rest s = Some r \<Longrightarrow> \<exists>p \<in> set url_schemes. r = drop (length p + 3) s \<and> r \<noteq> []"
  by (auto simp: url_rest_def split: option.splits list.splits if_splits dest!: find_SomeD)

lemma url_rest_shorter: "url_rest s = Some r \<Longrightarrow> length r < length s"
  by (fastforce dest!: url_rest_drop)

text \<open>\<open>re.sub(pattern, "[redacted endpoint]", s)\<close>: scan from the left, replace each match.\<close>

function redact :: "bool \<Rightarrow> string \<Rightarrow> string" where
  "redact prev_word [] = []"
| "redact prev_word (c # cs) =
     (if prev_word then c # redact (is_word_char c) cs
      else (case url_rest (c # cs) of
         Some r \<Rightarrow> ''[redacted endpoint]'' @ redact False (dropWhile (\<lambda>d. \<not> is_space d) r)
       | None \<Rightarrow> c # redact (is_word_char c) cs))"
  by pat_completeness auto
termination
  by (relation "measure (\<lambda>(p, s). length s)")
    (auto dest!: url_rest_shorter intro: le_less_trans [OF length_dropWhile_le])

text \<open>
  \<open>safe_error_message(error)\<close> with the default maximum length: redact, squeeze white space, fall
  back to the class name, truncate.
\<close>

definition safe_error_message :: "exn \<Rightarrow> string" where
  "safe_error_message e =
     (let message = join_space (py_split (redact False (exn_str e)))
      in take 500 (if message = [] then exn_name e else message))"

subsection \<open>HTTP status classification\<close>

text \<open>
  \<open>retry_after_seconds\<close>: \<open>to_float\<close> stands for Python's \<open>float(value)\<close> (\<open>None\<close> where it raises
  \<open>ValueError\<close>) and \<open>http_date\<close> for \<open>parsedate_to_datetime\<close> followed by the subtraction of the
  current time in seconds: \<open>None\<close> where it raises or the date is naive.
\<close>

definition retry_after_value ::
  "(string \<Rightarrow> seconds option) \<Rightarrow> (string \<Rightarrow> seconds option) \<Rightarrow> string option \<Rightarrow> seconds option" where
  "retry_after_value to_float http_date value =
     (case value of None \<Rightarrow> None
      | Some v \<Rightarrow> (case to_float v of Some x \<Rightarrow> Some (max 0 x)
          | None \<Rightarrow> map_option (max 0) (http_date v)))"

definition retry_after_header :: "(string \<times> string) list option \<Rightarrow> string option" where
  "retry_after_header headers = (case headers of None \<Rightarrow> None
     | Some hs \<Rightarrow> map_option snd (find (\<lambda>(k, v). lower k = ''retry-after'') hs))"

definition classify_http_status :: "int \<Rightarrow> seconds option \<Rightarrow> bool \<Rightarrow> crawler_error option" where
  "classify_http_status status retry_after proxied =
     (if status < 400 then None
      else if status = 403 then
        Some ((mk_err AccessForbidden ''Google Play returned HTTP 403'')
                \<lparr>retry_with_new_egress := proxied\<rparr>)
      else if status = 407 then
        Some ((mk_err ProxyAuthenticationFailure ''proxy authentication was rejected'')
                \<lparr>retry_with_new_egress := proxied\<rparr>)
      else if status = 408 then Some (mk_err NetworkTimeout ''Google Play returned HTTP 408'')
      else if status = 429 then
        Some ((mk_err RateLimited ''Google Play returned HTTP 429'')
                \<lparr>retry_after_seconds := retry_after\<rparr>)
      else if status = 404 then
        Some (mk_err AppNotFound ''application is unavailable in Google Play'')
      else if status = 410 then
        Some (mk_err AppGone ''application is no longer available in Google Play'')
      else if status = 451 then
        Some (mk_err LegalRestriction ''Google Play returned HTTP 451'')
      else if status \<in> {502, 504} then
        Some (mk_err GatewayFailure (''Google Play returned HTTP '' @ int_str status))
      else if status \<ge> 500 then
        Some ((mk_err UpstreamFailure (''Google Play returned HTTP '' @ int_str status))
                \<lparr>retry_after_seconds := retry_after\<rparr>)
      else Some (mk_err ClientRequestFailure (''Google Play returned HTTP '' @ int_str status)))"

subsection \<open>The error classifier\<close>

text \<open>
  \<open>py_int\<close> stands for \<open>int(raw_status)\<close>, \<open>None\<close> where it raises \<open>TypeError\<close> or \<open>ValueError\<close>;
  only on strings does it depend on the parameter \<open>str_int\<close>.
\<close>

definition py_int :: "(string \<Rightarrow> int option) \<Rightarrow> attr_value \<Rightarrow> int option" where
  "py_int str_int v = (case v of AInt i \<Rightarrow> Some i | AStr s \<Rightarrow> str_int s | AOther \<Rightarrow> None)"

definition raw_status :: "py_exn \<Rightarrow> attr_value option" where
  "raw_status p = (case attr_status_code p of Some v \<Rightarrow> Some v | None \<Rightarrow> attr_code p)"

text \<open>The branches on the class name and the lower-cased text, in the order of the source.\<close>

definition classify_by_name :: "string \<Rightarrow> string \<Rightarrow> seconds option \<Rightarrow> crawler_error" where
  "classify_by_name name lowered retry_after =
     (if name = ''InvalidAppIdError'' then mk_err InvalidPackage ''package name is invalid''
      else if name \<in> {''AppNotFoundError'', ''NotFoundError''} then
        mk_err AppNotFound ''application is unavailable in Google Play''
      else if name \<in> {''DataParsingError'', ''JSONDecodeError''} then
        mk_err ParseFailure ''Google Play response could not be parsed''
      else if name = ''RateLimitError'' \<or> contains ''429'' lowered then
        (mk_err RateLimited ''Google Play rate limited the request'')
          \<lparr>retry_after_seconds := retry_after\<rparr>
      else if contains ''proxy'' lowered then
        mk_err ProxyConnectionFailure ''proxy connection failed''
      else if contains ''timeout'' lowered then
        mk_err NetworkTimeout ''Google Play request timed out''
      else if contains ''connection'' lowered \<or> contains ''network'' lowered then
        mk_err TemporaryConnectionFailure ''Google Play connection failed''
      else if name \<in> {''IndexError'', ''KeyError'', ''TypeError''} then
        mk_err AdapterFailure ''known scraper implementation failure''
      else mk_err CrawlerErrorC ''unexpected Play Store adapter failure'')"

record py_parsers =
  str_int :: "string \<Rightarrow> int option"
  to_float :: "string \<Rightarrow> seconds option"
  http_date :: "string \<Rightarrow> seconds option"

definition classify :: "py_parsers \<Rightarrow> exn \<Rightarrow> crawler_error" where
  "classify ps e = (case e of
     Crawler c \<Rightarrow> c
   | ValidationError _ \<Rightarrow>
       mk_err SchemaFailure ''scraper response did not satisfy the normalized schema''
   | ExceptionGroup _ _ \<Rightarrow>
       classify_by_name (exn_name e) (lower (exn_name e @ '' '' @ exn_str e)) None
   | Py p \<Rightarrow>
       (let lowered = lower (exn_type p @ '' '' @ exn_text p);
            status = (case raw_status p of None \<Rightarrow> None | Some v \<Rightarrow> py_int (str_int ps) v);
            from_status = (case status of None \<Rightarrow> None
              | Some n \<Rightarrow>
                  (let retry_after = (case attr_retry_after p of Some r \<Rightarrow> Some r
                        | None \<Rightarrow> retry_after_value (to_float ps) (http_date ps)
                                     (retry_after_header (attr_headers p)))
                   in classify_http_status n retry_after False))
        in case from_status of Some c \<Rightarrow> c
           | None \<Rightarrow> classify_by_name (exn_type p) lowered (attr_retry_after p)))"

section \<open>The class hierarchy and the classification\<close>

lemma err_class_mk_err [simp]: "err_class (mk_err c m) = c"
  by (simp add: mk_err_def)

lemma is_subclass_refl [simp]: "is_subclass c c"
  by (simp add: is_subclass_def)

lemma is_subclass_root [simp]: "is_subclass c CrawlerErrorC"
  by (simp add: is_subclass_def base_class_def)

lemma is_subclass_upstream [simp]:
  "is_subclass c UpstreamFailure \<longleftrightarrow> c = UpstreamFailure \<or> c = GatewayFailure"
  by (auto simp: is_subclass_def base_class_def)

lemma is_subclass_leaf:
  "d \<noteq> CrawlerErrorC \<Longrightarrow> d \<noteq> UpstreamFailure \<Longrightarrow> is_subclass c d \<longleftrightarrow> c = d"
  by (auto simp: is_subclass_def base_class_def)

lemmas is_subclass_simps = is_subclass_refl is_subclass_root is_subclass_upstream is_subclass_leaf

lemma classify_crawler [simp]: "classify ps (Crawler c) = c"
  by (simp add: classify_def)

text \<open>Which class a status maps to, as one table; a status below 400 is no error.\<close>

definition status_class :: "int \<Rightarrow> error_class option" where
  "status_class n = (if n < 400 then None
     else case map_of [(403, AccessForbidden), (407, ProxyAuthenticationFailure),
            (408, NetworkTimeout), (429, RateLimited), (404, AppNotFound), (410, AppGone),
            (451, LegalRestriction), (502, GatewayFailure), (504, GatewayFailure)] n of
       Some c \<Rightarrow> Some c
     | None \<Rightarrow> Some (if n \<ge> 500 then UpstreamFailure else ClientRequestFailure))"

lemma classify_http_status_class:
  "map_option err_class (classify_http_status n ra px) = status_class n"
  by (simp add: classify_http_status_def status_class_def)

lemma classify_http_status_egress:
  "classify_http_status n ra px = Some e \<Longrightarrow> retry_with_new_egress e \<Longrightarrow>
     px \<and> err_class e \<in> {AccessForbidden, ProxyAuthenticationFailure}"
  by (auto simp: classify_http_status_def mk_err_def split: if_splits)

section \<open>Redaction\<close>

text \<open>A match of the endpoint pattern somewhere in the text.\<close>

fun has_url :: "bool \<Rightarrow> string \<Rightarrow> bool" where
  "has_url pw [] = False"
| "has_url pw (c # cs) = (url_at pw (c # cs) \<or> has_url (is_word_char c) cs)"

lemma schemes_no_colon:
  "p \<in> set url_schemes \<Longrightarrow> CHR '':'' \<notin> set p \<and> list_all (\<lambda>c. \<not> is_space c) p \<and> CHR ''['' \<notin> set p
     \<and> p \<noteq> []"
  by (auto simp: url_schemes_def is_space_def)

lemma scheme_takeWhile:
  "p \<in> set url_schemes \<Longrightarrow> starts_with (p @ ''://'') s \<Longrightarrow> takeWhile (\<lambda>c. c \<noteq> CHR '':'') s = p"
  using schemes_no_colon [of p]
  by (auto simp: starts_with_iff) (subst takeWhile_append2, auto)

lemma url_rest_iff:
  "url_rest s \<noteq> None \<longleftrightarrow>
     (\<exists>p c w. p \<in> set url_schemes \<and> s = p @ ''://'' @ c # w \<and> \<not> is_space c)" (is "_ \<longleftrightarrow> ?R")
proof
  assume "url_rest s \<noteq> None"
  then obtain p c w where "find (\<lambda>p. starts_with (p @ ''://'') s) url_schemes = Some p"
    and d: "drop (length p + 3) s = c # w" "\<not> is_space c"
    by (auto simp: url_rest_def split: option.splits list.splits if_splits)
  then have p: "p \<in> set url_schemes" "starts_with (p @ ''://'') s"
    by (auto dest: find_SomeD)
  then obtain t where "s = (p @ ''://'') @ t"
    by (auto simp: starts_with_iff)
  with d p(1) show ?R by auto
next
  assume ?R
  then obtain p c w where p: "p \<in> set url_schemes" and s: "s = p @ ''://'' @ c # w"
    and c: "\<not> is_space c" by blast
  from s have st: "starts_with (p @ ''://'') s" by (simp add: starts_with_iff)
  then obtain q where q: "find (\<lambda>p. starts_with (p @ ''://'') s) url_schemes = Some q"
    using p by (fastforce simp: find_None_iff dest: find_NoneD)
  then have "q = p"
    using scheme_takeWhile [OF p st] by (metis find_SomeD scheme_takeWhile)
  with q s c show "url_rest s \<noteq> None" by (simp add: url_rest_def)
qed

lemma url_at_iff:
  "url_at pw s \<longleftrightarrow> \<not> pw \<and>
     (\<exists>p c w. p \<in> set url_schemes \<and> s = p @ ''://'' @ c # w \<and> \<not> is_space c)"
  using url_rest_iff [of s] by (simp add: url_at_def)

lemma url_at_append: "url_at pw s \<Longrightarrow> url_at pw (s @ t)"
  by (fastforce simp: url_at_iff)

lemma has_url_append: "has_url pw s \<Longrightarrow> has_url pw (s @ t)"
  by (induction pw s rule: has_url.induct) (auto dest: url_at_append [where t = t])

lemma has_url_take: "has_url pw (take n s) \<Longrightarrow> has_url pw s"
  by (metis append_take_drop_id has_url_append)

text \<open>White space cuts the text into parts that match on their own.\<close>

lemma url_at_space:
  assumes sp: "is_space c" and w: "list_all (\<lambda>d. \<not> is_space d) w"
  shows "url_at pw (w @ c # t) \<longleftrightarrow> url_at pw w"
proof
  assume "url_at pw (w @ c # t)"
  then obtain p d v where pw: "\<not> pw" and p: "p \<in> set url_schemes"
    and eq: "w @ c # t = (p @ ''://'' @ [d]) @ v" and d: "\<not> is_space d"
    by (auto simp: url_at_iff)
  define m where "m = p @ ''://'' @ [d]"
  have ns: "list_all (\<lambda>d. \<not> is_space d) m"
    using schemes_no_colon [OF p] d by (auto simp: m_def is_space_def)
  from eq have "w @ c # t = m @ v" by (simp add: m_def)
  then consider us where "w = m @ us" | us where "w @ us = m" "c # t = us @ v"
    by (auto simp: append_eq_append_conv2)
  then obtain us where "w = m @ us"
  proof cases
    case 2
    with ns sp have "us = []" by (cases us) auto
    with 2 that [of "[]"] show ?thesis by simp
  qed (rule that)
  then have "w = p @ ''://'' @ d # us" by (simp add: m_def)
  with pw p d show "url_at pw w" by (auto simp: url_at_iff)
qed (rule url_at_append)

lemma has_url_space:
  "is_space c \<Longrightarrow> list_all (\<lambda>d. \<not> is_space d) w \<Longrightarrow>
     has_url pw (w @ c # t) \<longleftrightarrow> has_url pw w \<or> has_url False t"
proof (induction w arbitrary: pw)
  case Nil
  then have "\<not> is_word_char c" by (auto simp: is_space_def is_word_char_def is_letter_def
    is_upper_def is_lower_def is_digit_def)
  moreover have "\<not> url_at pw (c # t)" using url_at_space [OF Nil.prems(1), of "[]" pw t]
    by (auto simp: url_at_iff dest: schemes_no_colon)
  ultimately show ?case by simp
next
  case (Cons x w)
  then show ?case using url_at_space [of c "x # w" pw t] by auto
qed

lemma has_url_split:
  "list_all (\<lambda>d. \<not> is_space d) w \<Longrightarrow>
     has_url False (join_space (split_acc w s)) \<Longrightarrow> has_url False (w @ s)"
proof (induction w s rule: split_acc.induct)
  case (1 w)
  then show ?case by (auto split: if_splits)
next
  case (2 w c cs)
  show ?case
  proof (cases "is_space c")
    case False
    with 2 show ?thesis by simp
  next
    case sp: True
    show ?thesis
    proof (cases "w = []")
      case True
      with sp 2 show ?thesis using has_url_space [OF sp, of "[]" False cs] by auto
    next
      case w: False
      obtain j where j: "has_url False (join_space (w # split_acc [] cs))"
        "split_acc [] cs = j" using 2 sp w by auto
      then have "has_url False w \<or> has_url False (join_space j)"
        using has_url_space [OF is_space_space "2.prems"(1), of False]
        by (cases j) auto
      with 2 sp w j(2) show ?thesis using has_url_space [OF sp "2.prems"(1)] by auto
    qed
  qed
qed

text \<open>The replaced text never completes a new match.\<close>

lemma redact_Nil [simp]: "redact pw s = [] \<longleftrightarrow> s = []"
  by (cases s) (auto split: option.splits)

lemma redact_nonspace:
  assumes "redact pw (d # ds) = x # xs" and "\<not> is_space x" shows "\<not> is_space d"
  using assms schemes_no_colon url_rest_iff [of "d # ds"]
  by (auto split: if_splits option.splits) (metis hd_append2 list.sel(1) list.set_sel(1) list_all_iff)

lemma redact_prefix:
  "starts_with p (redact pw s) \<Longrightarrow> CHR ''['' \<notin> set p \<Longrightarrow>
     starts_with p s \<and> (\<exists>pw'. drop (length p) (redact pw s) = redact pw' (drop (length p) s))"
proof (induction p arbitrary: pw s)
  case Nil
  then show ?case by auto
next
  case (Cons a p)
  then obtain c cs where s: "s = c # cs" by (cases s) auto
  with Cons.prems have "redact pw s = c # redact (is_word_char c) cs"
    by (auto split: if_splits option.splits)
  with Cons s show ?case by fastforce
qed

lemma url_at_redact: "url_at pw (c # redact (is_word_char c) cs) \<Longrightarrow> url_at pw (c # cs)"
proof -
  assume "url_at pw (c # redact (is_word_char c) cs)"
  then obtain p d w where pw: "\<not> pw" and p: "p \<in> set url_schemes" and d: "\<not> is_space d"
    and eq: "c # redact (is_word_char c) cs = p @ ''://'' @ d # w"
    by (auto simp: url_at_iff)
  define q where "q = tl (p @ ''://'')"
  have pq: "p @ ''://'' = c # q" and r: "redact (is_word_char c) cs = q @ d # w"
    using eq schemes_no_colon [OF p] by (cases p; simp add: q_def)+
  have "CHR ''['' \<notin> set (c # q)"
    unfolding pq [symmetric] using schemes_no_colon [OF p] by simp
  then have "CHR ''['' \<notin> set q" by simp
  moreover have "starts_with q (redact (is_word_char c) cs)" by (simp add: r starts_with_iff)
  ultimately obtain t pw' where cs: "cs = q @ t" and t: "redact pw' t = d # w"
    using redact_prefix [of q "is_word_char c" cs] r by (auto simp: starts_with_iff)
  then obtain e es where "t = e # es" "\<not> is_space e"
    using redact_nonspace [of pw'] d by (cases t) auto
  with cs have "c # cs = (c # q) @ e # es" by simp
  then have "c # cs = p @ ''://'' @ e # es" unfolding pq [symmetric] by simp
  with pw p \<open>\<not> is_space e\<close> show ?thesis unfolding url_at_iff by blast
qed

lemma no_url_token: "has_url pw (''[redacted endpoint]'' @ s) \<Longrightarrow> has_url False s"
  by (auto simp: url_at_iff url_schemes_def)
    (auto simp: is_word_char_def is_letter_def is_upper_def is_lower_def is_digit_def)

lemma redact_no_url: "\<not> has_url pw (redact pw s)"
proof (induction pw s rule: redact.induct)
  case (1 pw)
  then show ?case by simp
next
  case (2 pw c cs)
  show ?case
  proof (cases "url_at pw (c # cs)")
    case True
    then obtain r where "\<not> pw" "url_rest (c # cs) = Some r" by (auto simp: url_at_def)
    with 2 show ?thesis using no_url_token by auto
  next
    case False
    then have "redact pw (c # cs) = c # redact (is_word_char c) cs"
      by (auto simp: url_at_def split: option.splits)
    moreover have "\<not> has_url (is_word_char c) (redact (is_word_char c) cs)"
      using 2 False by (cases pw) (auto simp: url_at_def)
    ultimately show ?thesis using False url_at_redact by auto
  qed
qed

lemma word_chars_no_url: "list_all is_word_char s \<Longrightarrow> \<not> has_url pw s"
proof (induction pw s rule: has_url.induct)
  case (2 pw c cs)
  have "\<not> url_at pw (c # cs)"
  proof
    assume "url_at pw (c # cs)"
    then obtain p d w where eq: "c # cs = p @ ''://'' @ d # w" by (auto simp: url_at_iff)
    have "CHR '':'' \<in> set (c # cs)" unfolding eq by simp
    with 2 have "is_word_char (CHR '':'')" by (auto simp: list_all_iff)
    then show False by (simp add: is_word_char_def is_letter_def is_upper_def is_lower_def is_digit_def)
  qed
  with 2 show ?case by auto
qed simp

lemma safe_error_message_length: "length (safe_error_message e) \<le> 500"
  by (simp add: safe_error_message_def Let_def)

lemma safe_error_message_no_url:
  "list_all is_word_char (exn_name e) \<Longrightarrow> \<not> has_url False (safe_error_message e)"
  using has_url_split [of "[]" "redact False (exn_str e)"] redact_no_url [of False "exn_str e"]
    word_chars_no_url [of "exn_name e" False]
  by (auto simp: safe_error_message_def Let_def py_split_def dest!: has_url_take split: if_splits)

section \<open>Properties\<close>



text \<open>
  The class of an HTTP failure is decided by the status alone, by one table; a fresh egress is
  asked for exactly when the request went through a proxy and was refused with 403 or 407, and the
  server's retry delay is kept exactly for rate limiting and for server errors other than bad
  gateways.
\<close>

theorem http_status_classification:
  "map_option (\<lambda>e. (err_class e, retry_with_new_egress e, retry_after_seconds e))
      (classify_http_status n retry_after proxied) =
   map_option (\<lambda>c. (c, proxied \<and> c \<in> {AccessForbidden, ProxyAuthenticationFailure},
                     if c \<in> {RateLimited, UpstreamFailure} then retry_after else None)) (status_class n)"
  by (simp add: classify_http_status_def status_class_def mk_err_def)

end
