(* ===== verification/Resilience.thy ===== *)
theory Resilience
  imports Crawler_Errors
begin

text \<open>
  The process-wide resilience primitives of the crawler: the circuit breaker
  (\<open>crawler/infrastructure/resilience/circuit_breaker.py\<close>) and the token bucket
  (\<open>crawler/infrastructure/resilience/token_bucket.py\<close>).

  Every method of either class does its work inside one critical section of its own lock, so an
  execution of several threads is a sequence of these sections. The models are functions from
  the object's state to its next state; the value the clock returns inside a section is the
  argument \<open>now\<close>. Sequences of sections, in any order and from any number of threads, are the
  inductive step relation of the breaker and the run of the bucket.
\<close>

section \<open>Circuit breaker: definitions\<close>

datatype circuit_state = CLOSED | OPEN | HALF_OPEN

record circuit_breaker =
  cb_threshold :: int
  cb_cooldown :: seconds
  cb_enabled :: bool
  cb_state :: circuit_state
  cb_failure_count :: int
  cb_opened_at :: "seconds option"
  cb_probe_in_flight :: bool
  cb_generation :: nat

definition new_circuit_breaker :: "int \<Rightarrow> seconds \<Rightarrow> bool \<Rightarrow> exn + circuit_breaker" where
  "new_circuit_breaker threshold cooldown enabled =
     (if threshold < 1 then Inl (value_error ''circuit failure threshold must be at least one'')
      else if cooldown < 0 then Inl (value_error ''circuit cooldown must not be negative'')
      else Inr \<lparr>cb_threshold = threshold, cb_cooldown = cooldown, cb_enabled = enabled,
                cb_state = CLOSED, cb_failure_count = 0, cb_opened_at = None,
                cb_probe_in_flight = False, cb_generation = 0\<rparr>)"

text \<open>
  \<open>before_call\<close>: the call token (the current generation) or \<open>CircuitOpen\<close>. The source asserts
  that an open breaker has an opening time; the failed assertion is the error branch \<open>None\<close> of
  \<open>cb_opened_at\<close>, which the invariant below excludes.
\<close>

definition half_open_call :: "circuit_breaker \<Rightarrow> (exn + nat option) \<times> circuit_breaker" where
  "half_open_call cb =
     (if cb_state cb = HALF_OPEN then
        if cb_probe_in_flight cb then
          (Inl (Crawler (mk_err CircuitOpen ''Google Play circuit half-open probe is in progress'')), cb)
        else (Inr (Some (cb_generation cb)), cb\<lparr>cb_probe_in_flight := True\<rparr>)
      else (Inr (Some (cb_generation cb)), cb))"

definition cb_before_call :: "circuit_breaker \<Rightarrow> seconds \<Rightarrow> (exn + nat option) \<times> circuit_breaker" where
  "cb_before_call cb now =
     (if \<not> cb_enabled cb then (Inr None, cb)
      else if cb_state cb = OPEN then
        (case cb_opened_at cb of
           None \<Rightarrow> (Inl (mk_exn ''AssertionError'' '''' False), cb)
         | Some t \<Rightarrow>
             if now - t < cb_cooldown cb then
               (Inl (Crawler (mk_err CircuitOpen ''Google Play circuit is open'')), cb)
             else half_open_call (cb\<lparr>cb_state := HALF_OPEN, cb_probe_in_flight := False\<rparr>))
      else half_open_call cb)"

definition stale_token :: "circuit_breaker \<Rightarrow> nat option \<Rightarrow> bool" where
  "stale_token cb token = (case token of None \<Rightarrow> False | Some g \<Rightarrow> g \<noteq> cb_generation cb)"

definition cb_record_success :: "circuit_breaker \<Rightarrow> nat option \<Rightarrow> circuit_breaker" where
  "cb_record_success cb token =
     (if \<not> cb_enabled cb \<or> stale_token cb token then cb
      else cb\<lparr>cb_state := CLOSED, cb_failure_count := 0, cb_opened_at := None,
              cb_probe_in_flight := False\<rparr>)"

definition cb_open :: "circuit_breaker \<Rightarrow> seconds \<Rightarrow> circuit_breaker" where
  "cb_open cb now = cb\<lparr>cb_generation := cb_generation cb + 1, cb_state := OPEN,
                       cb_opened_at := Some now, cb_probe_in_flight := False\<rparr>"

definition cb_relevant :: "crawler_error \<Rightarrow> bool \<Rightarrow> bool" where
  "cb_relevant e proxied \<longleftrightarrow>
     err_isinstance e [AccessForbidden, UpstreamFailure, RateLimited, NetworkTimeout,
                       TemporaryConnectionFailure]
     \<and> \<not> (proxied \<and> err_isinstance e [AccessForbidden, NetworkTimeout, TemporaryConnectionFailure])"

definition cb_record_failure ::
  "circuit_breaker \<Rightarrow> crawler_error \<Rightarrow> bool \<Rightarrow> nat option \<Rightarrow> seconds \<Rightarrow> circuit_breaker" where
  "cb_record_failure cb e proxied token now =
     (if \<not> cb_enabled cb then cb
      else if stale_token cb token then cb
      else if cb_state cb = OPEN then cb
      else if \<not> cb_relevant e proxied then cb\<lparr>cb_probe_in_flight := False\<rparr>
      else if cb_state cb = HALF_OPEN then cb_open cb now
      else let cb' = cb\<lparr>cb_failure_count := cb_failure_count cb + 1\<rparr>
           in if cb_failure_count cb' \<ge> cb_threshold cb then cb_open cb' now else cb')"

section \<open>Token bucket: definitions\<close>

record token_bucket =
  tb_rate :: rat
  tb_capacity :: rat
  tb_tokens :: rat
  tb_last_refill :: seconds
  tb_maximum_wait :: seconds

definition new_token_bucket :: "rat \<Rightarrow> int \<Rightarrow> seconds \<Rightarrow> seconds \<Rightarrow> exn + token_bucket" where
  "new_token_bucket refill_per_second capacity maximum_wait now =
     (if refill_per_second \<le> 0 then Inl (value_error ''refill rate must be positive'')
      else if capacity < 1 then Inl (value_error ''capacity must be at least one'')
      else if maximum_wait \<le> 0 then Inl (value_error ''maximum wait must be positive'')
      else Inr \<lparr>tb_rate = refill_per_second, tb_capacity = of_int capacity,
                tb_tokens = of_int capacity, tb_last_refill = now,
                tb_maximum_wait = maximum_wait\<rparr>)"

definition tb_refill :: "token_bucket \<Rightarrow> seconds \<Rightarrow> token_bucket" where
  "tb_refill tb now =
     (let elapsed = max 0 (now - tb_last_refill tb)
      in tb\<lparr>tb_tokens := min (tb_capacity tb) (tb_tokens tb + elapsed * tb_rate tb),
            tb_last_refill := max (tb_last_refill tb) now\<rparr>)"

text \<open>The locked section of one round of \<open>acquire\<close>.\<close>

datatype tb_round = Granted | WaitExceeded | Sleep seconds

definition tb_try :: "token_bucket \<Rightarrow> seconds \<Rightarrow> seconds \<Rightarrow> tb_round \<times> token_bucket" where
  "tb_try tb deadline now =
     (let tb' = tb_refill tb now
      in if tb_tokens tb' \<ge> 1 then (Granted, tb'\<lparr>tb_tokens := tb_tokens tb' - 1\<rparr>)
         else let wait_seconds = (1 - tb_tokens tb') / tb_rate tb'
              in if now + wait_seconds > deadline then (WaitExceeded, tb') else (Sleep wait_seconds, tb'))"

text \<open>
  The loop of \<open>acquire\<close>. \<open>slept w t\<close> is the clock reading of the round that follows
  \<open>sleep(w)\<close> called at time \<open>t\<close>. \<open>None\<close>: the fuel ran out before the loop left.
\<close>

fun tb_acquire_loop ::
  "nat \<Rightarrow> (seconds \<Rightarrow> seconds \<Rightarrow> seconds) \<Rightarrow> seconds \<Rightarrow> seconds \<Rightarrow> token_bucket
     \<Rightarrow> ((exn + unit) \<times> seconds \<times> token_bucket) option" where
  "tb_acquire_loop 0 slept deadline now tb = None"
| "tb_acquire_loop (Suc fuel) slept deadline now tb =
     (case tb_try tb deadline now of
        (Granted, tb') \<Rightarrow> Some (Inr (), now, tb')
      | (WaitExceeded, tb') \<Rightarrow>
          Some (Inl (Crawler (mk_err LocalRateLimitWaitExceeded
            ''global rate limiter could not grant a token within its local wait bound'')), now, tb')
      | (Sleep w, tb') \<Rightarrow> tb_acquire_loop fuel slept deadline (slept w now) tb')"

definition tb_acquire ::
  "nat \<Rightarrow> (seconds \<Rightarrow> seconds \<Rightarrow> seconds) \<Rightarrow> seconds \<Rightarrow> token_bucket
     \<Rightarrow> ((exn + unit) \<times> seconds \<times> token_bucket) option" where
  "tb_acquire fuel slept now tb = tb_acquire_loop fuel slept (now + tb_maximum_wait tb) now tb"

definition tb_available_tokens :: "token_bucket \<Rightarrow> seconds \<Rightarrow> rat \<times> token_bucket" where
  "tb_available_tokens tb now = (let tb' = tb_refill tb now in (tb_tokens tb', tb'))"

text \<open>
  Any schedule of critical sections of one bucket, from any threads: a round of some \<open>acquire\<close>
  with its own deadline, or a reading of \<open>available_tokens\<close>. The run counts the grants.
\<close>

datatype tb_event = Round seconds seconds | Observe seconds

fun event_time :: "tb_event \<Rightarrow> seconds" where
  "event_time (Round deadline now) = now"
| "event_time (Observe now) = now"

fun tb_run :: "token_bucket \<Rightarrow> tb_event list \<Rightarrow> nat \<times> token_bucket" where
  "tb_run tb [] = (0, tb)"
| "tb_run tb (Observe now # es) = tb_run (snd (tb_available_tokens tb now)) es"
| "tb_run tb (Round deadline now # es) =
     (let t = tb_try tb deadline now; u = tb_run (snd t) es
      in ((if fst t = Granted then Suc (fst u) else fst u), snd u))"

section \<open>Circuit breaker: invariant\<close>

definition cb_ok :: "circuit_breaker \<Rightarrow> bool" where
  "cb_ok cb \<longleftrightarrow> cb_threshold cb \<ge> 1 \<and> cb_cooldown cb \<ge> 0 \<and> cb_failure_count cb \<ge> 0
     \<and> (cb_state cb = OPEN \<longrightarrow> cb_opened_at cb \<noteq> None)
     \<and> (cb_probe_in_flight cb \<longrightarrow> cb_state cb = HALF_OPEN)
     \<and> (cb_state cb = CLOSED \<longrightarrow> cb_failure_count cb < cb_threshold cb)"

lemmas cb_op_defs = cb_before_call_def half_open_call_def cb_record_success_def
  cb_record_failure_def cb_open_def

lemma cb_ok_new: "new_circuit_breaker t c en = Inr cb \<Longrightarrow> cb_ok cb"
  by (auto simp: new_circuit_breaker_def cb_ok_def split: if_splits)

lemma cb_ok_before_call: "cb_ok cb \<Longrightarrow> cb_ok (snd (cb_before_call cb now))"
  by (auto simp: cb_ok_def cb_op_defs split: option.splits)

lemma cb_ok_record_success: "cb_ok cb \<Longrightarrow> cb_ok (cb_record_success cb token)"
  by (auto simp: cb_ok_def cb_op_defs)

lemma cb_ok_record_failure: "cb_ok cb \<Longrightarrow> cb_ok (cb_record_failure cb e px token now)"
  by (auto simp: cb_ok_def cb_op_defs Let_def)

subsection \<open>Executions of several threads\<close>

text \<open>One step: some thread runs one critical section of the breaker.\<close>

inductive cb_step :: "circuit_breaker \<Rightarrow> circuit_breaker \<Rightarrow> bool" where
  call: "cb_step cb (snd (cb_before_call cb now))"
| success: "cb_step cb (cb_record_success cb token)"
| failure: "cb_step cb (cb_record_failure cb e px token now)"

inductive_cases cb_stepE: "cb_step cb cb'"

lemma cb_step_ok: "cb_step cb cb' \<Longrightarrow> cb_ok cb \<Longrightarrow> cb_ok cb'"
  by (auto elim!: cb_stepE simp: cb_ok_before_call cb_ok_record_success cb_ok_record_failure)

lemma cb_step_config:
  "cb_step cb cb' \<Longrightarrow> cb_threshold cb' = cb_threshold cb \<and> cb_cooldown cb' = cb_cooldown cb
     \<and> cb_enabled cb' = cb_enabled cb"
  by (erule cb_step.cases; simp add: cb_op_defs Let_def split: option.splits)

lemma cb_step_generation: "cb_step cb cb' \<Longrightarrow> cb_generation cb \<le> cb_generation cb'"
  by (erule cb_step.cases; simp add: cb_op_defs Let_def split: option.splits)

text \<open>The generation moves exactly when the breaker opens.\<close>

lemma cb_step_opens:
  "cb_step cb cb' \<Longrightarrow> cb_state cb \<noteq> OPEN \<Longrightarrow> cb_state cb' = OPEN \<longleftrightarrow> cb_generation cb' = cb_generation cb + 1"
  by (erule cb_step.cases; simp add: cb_op_defs Let_def split: option.splits)

definition cb_reaches :: "circuit_breaker \<Rightarrow> circuit_breaker \<Rightarrow> bool" where
  "cb_reaches = cb_step\<^sup>*\<^sup>*"

lemma cb_reaches_ok: "cb_reaches cb cb' \<Longrightarrow> cb_ok cb \<Longrightarrow> cb_ok cb'"
  unfolding cb_reaches_def by (induction rule: rtranclp_induct) (auto dest: cb_step_ok)

lemma cb_reaches_generation: "cb_reaches cb cb' \<Longrightarrow> cb_generation cb \<le> cb_generation cb'"
  unfolding cb_reaches_def
  by (induction rule: rtranclp_induct) (auto dest: cb_step_generation)

subsection \<open>Token discipline\<close>

text \<open>
  The steps the crawler's client makes: a result is reported with the token its call was given,
  and no result is reported for a token that was never handed out.
\<close>

lemma stale_success: "cb_generation cb \<noteq> g \<Longrightarrow> cb_record_success cb (Some g) = cb"
  by (simp add: cb_record_success_def stale_token_def)

lemma stale_failure: "cb_generation cb \<noteq> g \<Longrightarrow> cb_record_failure cb e px (Some g) now = cb"
  by (simp add: cb_record_failure_def stale_token_def)

lemma before_call_token:
  "cb_before_call cb now = (Inr (Some g), cb') \<Longrightarrow> g = cb_generation cb \<and> cb_generation cb' = g
     \<and> cb_state cb' \<noteq> OPEN \<and> (cb_state cb' = HALF_OPEN \<longrightarrow> cb_probe_in_flight cb')"
  by (auto simp: cb_op_defs split: if_splits option.splits)

section \<open>Token bucket: invariant\<close>

definition tb_ok :: "token_bucket \<Rightarrow> bool" where
  "tb_ok tb \<longleftrightarrow> 0 < tb_rate tb \<and> 1 \<le> tb_capacity tb \<and> 0 \<le> tb_tokens tb
     \<and> tb_tokens tb \<le> tb_capacity tb \<and> 0 < tb_maximum_wait tb"

lemma tb_ok_new: "new_token_bucket r c w now = Inr tb \<Longrightarrow> tb_ok tb"
  by (auto simp: new_token_bucket_def tb_ok_def split: if_splits)

lemma tb_refill_frame [simp]:
  "tb_rate (tb_refill tb now) = tb_rate tb" "tb_capacity (tb_refill tb now) = tb_capacity tb"
  "tb_maximum_wait (tb_refill tb now) = tb_maximum_wait tb"
  "tb_last_refill (tb_refill tb now) = max (tb_last_refill tb) now"
  by (simp_all add: tb_refill_def Let_def)

lemma tb_ok_refill: "tb_ok tb \<Longrightarrow> tb_ok (tb_refill tb now)"
  by (auto simp: tb_ok_def tb_refill_def Let_def)

lemma tb_ok_try: "tb_ok tb \<Longrightarrow> tb_ok (snd (tb_try tb d now))"
  using tb_ok_refill [of tb now] by (auto simp: tb_try_def Let_def tb_ok_def)

lemma tb_try_frame [simp]:
  "tb_rate (snd (tb_try tb d now)) = tb_rate tb"
  "tb_capacity (snd (tb_try tb d now)) = tb_capacity tb"
  "tb_maximum_wait (snd (tb_try tb d now)) = tb_maximum_wait tb"
  "tb_last_refill (snd (tb_try tb d now)) = max (tb_last_refill tb) now"
  by (simp_all add: tb_try_def Let_def)

text \<open>
  Accounting: a refill never credits more than the rate allows for the time that passed, and a
  grant pays exactly one token.
\<close>

lemma tb_refill_credit:
  "tb_ok tb \<Longrightarrow> tb_tokens (tb_refill tb now)
     \<le> tb_tokens tb + tb_rate tb * (max (tb_last_refill tb) now - tb_last_refill tb)"
  by (auto simp: tb_refill_def Let_def tb_ok_def max_def mult.commute)

lemma tb_try_credit:
  assumes "tb_ok tb"
  shows "(if fst (tb_try tb d now) = Granted then 1 else 0) + tb_tokens (snd (tb_try tb d now))
     \<le> tb_tokens tb + tb_rate tb * (max (tb_last_refill tb) now - tb_last_refill tb)"
  using tb_refill_credit [OF assms, of now] by (simp add: tb_try_def Let_def)

lemma tb_run_credit:
  "tb_ok tb \<Longrightarrow> of_nat (fst (tb_run tb es)) + tb_tokens (snd (tb_run tb es))
     \<le> tb_tokens tb + tb_rate tb * (tb_last_refill (snd (tb_run tb es)) - tb_last_refill tb)"
proof (induction tb es rule: tb_run.induct)
  case (1 tb)
  then show ?case by simp
next
  case (2 tb now es)
  define tb' where "tb' = tb_refill tb now"
  have "of_nat (fst (tb_run tb' es)) + tb_tokens (snd (tb_run tb' es))
    \<le> tb_tokens tb' + tb_rate tb * (tb_last_refill (snd (tb_run tb' es)) - max (tb_last_refill tb) now)"
    using 2 tb_ok_refill [OF "2.prems", of now] by (simp add: tb_available_tokens_def Let_def tb'_def)
  also have "tb_tokens tb' \<le> tb_tokens tb + tb_rate tb * (max (tb_last_refill tb) now - tb_last_refill tb)"
    using tb_refill_credit [OF "2.prems", of now] by (simp add: tb'_def)
  finally show ?case by (simp add: tb_available_tokens_def Let_def tb'_def algebra_simps)
next
  case (3 tb d now es)
  obtain r tb' where t: "tb_try tb d now = (r, tb')" by (rule prod.exhaust)
  obtain n tb'' where u: "tb_run tb' es = (n, tb'')" by (rule prod.exhaust)
  have f: "tb_rate tb' = tb_rate tb" "tb_last_refill tb' = max (tb_last_refill tb) now"
    using tb_try_frame [of tb d now] t by simp_all
  have "of_nat n + tb_tokens tb'' \<le> tb_tokens tb' + tb_rate tb * (tb_last_refill tb'' - max (tb_last_refill tb) now)"
    using "3.IH" [OF refl] tb_ok_try [OF "3.prems", of d now] t u f by simp
  moreover have "(if r = Granted then 1 else 0) + tb_tokens tb'
     \<le> tb_tokens tb + tb_rate tb * (max (tb_last_refill tb) now - tb_last_refill tb)"
    using tb_try_credit [OF "3.prems", of d now] t by simp
  ultimately show ?case by (auto simp: t u algebra_simps split: if_splits)
qed

lemma tb_run_ok: "tb_ok tb \<Longrightarrow> tb_ok (snd (tb_run tb es))"
  by (induction tb es rule: tb_run.induct)
    (auto simp: tb_available_tokens_def Let_def tb_ok_refill tb_ok_try)

lemma tb_run_last_refill:
  "list_all (\<lambda>e. event_time e \<le> t) es \<Longrightarrow> tb_last_refill tb \<le> t \<Longrightarrow>
     tb_last_refill (snd (tb_run tb es)) \<le> t"
  by (induction tb es rule: tb_run.induct) (auto simp: tb_available_tokens_def Let_def)

section \<open>Schedules of the breaker\<close>

text \<open>
  A schedule of critical sections as data: calls, and results with the token they carry.
  \<open>cb_exec\<close> returns the tokens of the admitted calls, in order, and the final state.
\<close>

datatype cb_event =
    Call seconds
  | Success "nat option"
  | Failure crawler_error bool "nat option" seconds

fun cb_exec :: "circuit_breaker \<Rightarrow> cb_event list \<Rightarrow> nat option list \<times> circuit_breaker" where
  "cb_exec cb [] = ([], cb)"
| "cb_exec cb (Call now # es) =
     (case cb_before_call cb now of
        (Inl _, cb') \<Rightarrow> cb_exec cb' es
      | (Inr token, cb') \<Rightarrow> (let u = cb_exec cb' es in (token # fst u, snd u)))"
| "cb_exec cb (Success token # es) = cb_exec (cb_record_success cb token) es"
| "cb_exec cb (Failure e px token now # es) = cb_exec (cb_record_failure cb e px token now) es"

text \<open>An event that cannot resolve the calls of generation \<open>g\<close>: a call, or a stale result.\<close>

fun cb_straggler :: "nat \<Rightarrow> cb_event \<Rightarrow> bool" where
  "cb_straggler g (Call now) = True"
| "cb_straggler g (Success token) = (\<exists>h. token = Some h \<and> h \<noteq> g)"
| "cb_straggler g (Failure e px token now) = (\<exists>h. token = Some h \<and> h \<noteq> g)"

lemma probe_blocks:
  "cb_enabled cb \<Longrightarrow> cb_state cb = HALF_OPEN \<Longrightarrow> cb_probe_in_flight cb \<Longrightarrow>
     list_all (cb_straggler (cb_generation cb)) es \<Longrightarrow> cb_exec cb es = ([], cb)"
proof (induction es)
  case (Cons e es)
  then show ?case
    by (cases e) (auto simp: cb_before_call_def half_open_call_def stale_success stale_failure)
qed simp

lemma open_cooldown_blocks:
  "cb_enabled cb \<Longrightarrow> cb_state cb = OPEN \<Longrightarrow> cb_opened_at cb = Some t \<Longrightarrow>
     list_all (cb_straggler (cb_generation cb)) es \<Longrightarrow>
     (\<And>now. Call now \<in> set es \<Longrightarrow> now - t < cb_cooldown cb) \<Longrightarrow> cb_exec cb es = ([], cb)"
proof (induction es)
  case (Cons e es)
  then show ?case
    by (cases e) (auto simp: cb_before_call_def stale_success stale_failure)
qed simp

lemma half_open_one_probe:
  "cb_enabled cb \<Longrightarrow> cb_state cb = HALF_OPEN \<Longrightarrow>
     list_all (cb_straggler (cb_generation cb)) es \<Longrightarrow> length (fst (cb_exec cb es)) \<le> 1"
proof (induction es)
  case (Cons e es)
  show ?case
  proof (cases "cb_probe_in_flight cb")
    case True
    with Cons.prems show ?thesis by (subst probe_blocks) auto
  next
    case False
    show ?thesis
    proof (cases e)
      case (Call now)
      define cb' where "cb' = cb\<lparr>cb_probe_in_flight := True\<rparr>"
      have "cb_exec cb' es = ([], cb')"
        using Cons.prems by (intro probe_blocks) (auto simp: cb'_def)
      then show ?thesis
        using False Call Cons.prems by (simp add: cb_before_call_def half_open_call_def cb'_def)
    qed (use Cons in \<open>auto simp: stale_success stale_failure\<close>)
  qed
qed simp

lemma open_one_probe:
  "cb_enabled cb \<Longrightarrow> cb_state cb = OPEN \<Longrightarrow> cb_opened_at cb = Some t \<Longrightarrow>
     list_all (cb_straggler (cb_generation cb)) es \<Longrightarrow> length (fst (cb_exec cb es)) \<le> 1"
proof (induction es)
  case (Cons e es)
  show ?case
  proof (cases e)
    case (Call now)
    show ?thesis
    proof (cases "now - t < cb_cooldown cb")
      case True
      with Cons Call show ?thesis by (simp add: cb_before_call_def)
    next
      case False
      define cb' where "cb' = cb\<lparr>cb_state := HALF_OPEN, cb_probe_in_flight := True\<rparr>"
      have "cb_exec cb' es = ([], cb')"
        using Cons.prems by (intro probe_blocks) (auto simp: cb'_def)
      then show ?thesis
        using False Call Cons.prems by (simp add: cb_before_call_def half_open_call_def cb'_def)
    qed
  qed (use Cons in \<open>auto simp: stale_success stale_failure\<close>)
qed simp

section \<open>The interface the client relies on\<close>

text \<open>
  \<open>CircuitBreakerPort\<close> (\<open>crawler/application/ports/resilience.py\<close>) as the client uses it: the
  three operations, the token of the current generation, and the laws every implementation
  keeps. A result that carries a token of an earlier generation has no effect.
\<close>

locale circuit_port =
  fixes before_call :: "'c \<Rightarrow> seconds \<Rightarrow> (exn + nat option) \<times> 'c"
    and record_success :: "'c \<Rightarrow> nat option \<Rightarrow> 'c"
    and record_failure :: "'c \<Rightarrow> crawler_error \<Rightarrow> bool \<Rightarrow> nat option \<Rightarrow> seconds \<Rightarrow> 'c"
    and inv :: "'c \<Rightarrow> bool"
    and generation :: "'c \<Rightarrow> nat"
  assumes inv_before_call: "inv c \<Longrightarrow> inv (snd (before_call c now))"
    and inv_success: "inv c \<Longrightarrow> inv (record_success c token)"
    and inv_failure: "inv c \<Longrightarrow> inv (record_failure c e px token now)"
    and token_current: "before_call c now = (Inr (Some g), c') \<Longrightarrow> generation c' = g"
    and refusal_is_crawler_error:
      "inv c \<Longrightarrow> before_call c now = (Inl x, c') \<Longrightarrow> \<exists>e. x = Crawler e \<and> err_class e = CircuitOpen"
    and stale_success_noop: "generation c \<noteq> g \<Longrightarrow> record_success c (Some g) = c"
    and stale_failure_noop: "generation c \<noteq> g \<Longrightarrow> record_failure c e px (Some g) now = c"
begin

lemma inv_call_outcome:
  assumes "inv c" and "before_call c now = (r, c')"
  shows "inv c'" and "inv (record_success c' token)" and "inv (record_failure c' e px token now')"
  using inv_before_call [OF assms(1), of now] assms(2) inv_success inv_failure by simp_all

lemma late_results_ignored:
  "before_call c now = (Inr (Some g), c') \<Longrightarrow> generation c'' \<noteq> generation c' \<Longrightarrow>
     record_success c'' (Some g) = c'' \<and> record_failure c'' e px (Some g) now' = c''"
  by (simp add: token_current stale_success_noop stale_failure_noop)

end

lemma before_call_refusal:
  "cb_ok cb \<Longrightarrow> cb_before_call cb now = (Inl x, cb') \<Longrightarrow> \<exists>e. x = Crawler e \<and> err_class e = CircuitOpen"
  by (auto simp: cb_ok_def cb_before_call_def half_open_call_def split: if_splits option.splits)

interpretation breaker: circuit_port cb_before_call cb_record_success cb_record_failure cb_ok cb_generation
proof (unfold_locales, goal_cases)
  case (1 c now)
  then show ?case by (rule cb_ok_before_call)
next
  case (2 c token)
  then show ?case by (rule cb_ok_record_success)
next
  case (3 c e px token now)
  then show ?case by (rule cb_ok_record_failure)
next
  case (4 c now g c')
  then show ?case by (simp add: before_call_token)
next
  case (5 c now x c')
  then show ?case by (rule before_call_refusal)
next
  case (6 c g)
  then show ?case by (rule stale_success)
next
  case (7 c g e px now)
  then show ?case by (rule stale_failure)
qed

section \<open>Properties\<close>

text \<open>
  C32: The token bucket enforces its rate: whatever the threads and however their critical
  sections interleave, the number of grants up to time \<open>t\<close> is at most the burst capacity plus
  the refill rate times the time since the bucket was created.
\<close>

theorem rate_limit_bound:
  assumes new: "new_token_bucket rate capacity maximum_wait t0 = Inr tb"
    and times: "list_all (\<lambda>e. event_time e \<le> t) es" and t: "t0 \<le> t"
  shows "of_nat (fst (tb_run tb es)) \<le> of_int capacity + rate * (t - t0)"
proof -
  have ok: "tb_ok tb" using new by (rule tb_ok_new)
  have tb: "tb_tokens tb = of_int capacity" "tb_rate tb = rate" "tb_last_refill tb = t0"
    using new by (auto simp: new_token_bucket_def split: if_splits)
  have "0 \<le> tb_tokens (snd (tb_run tb es))" using tb_run_ok [OF ok] by (simp add: tb_ok_def)
  moreover have "rate * (tb_last_refill (snd (tb_run tb es)) - t0) \<le> rate * (t - t0)"
    using tb_run_last_refill [OF times, of tb] tb t ok by (simp add: tb_ok_def mult_left_mono)
  ultimately show ?thesis using tb_run_credit [OF ok, of es] by (simp add: tb)
qed

definition sample_new_bucket :: token_bucket where
  "sample_new_bucket = \<lparr>tb_rate = 1, tb_capacity = 2, tb_tokens = 2, tb_last_refill = 0, tb_maximum_wait = 60\<rparr>"

definition sample_rounds :: "tb_event list" where
  "sample_rounds = [Round 60 0, Round 60 0, Round 60 0, Round 61 1]"

theorem rate_limit_bound_witness:
  "of_nat (fst (tb_run sample_new_bucket sample_rounds)) \<le> (3 :: rat)
   \<and> fst (tb_run sample_new_bucket sample_rounds) = 3"
proof
  have "new_token_bucket 1 2 60 0 = Inr sample_new_bucket"
    by (simp add: new_token_bucket_def sample_new_bucket_def)
  from rate_limit_bound [OF this, of 1 sample_rounds]
  show "of_nat (fst (tb_run sample_new_bucket sample_rounds)) \<le> (3 :: rat)"
    by (simp add: sample_rounds_def)
  show "fst (tb_run sample_new_bucket sample_rounds) = 3"
    by code_simp
qed


definition sample_bucket :: token_bucket where
  "sample_bucket = \<lparr>tb_rate = 2, tb_capacity = 2, tb_tokens = 0, tb_last_refill = 0, tb_maximum_wait = 60\<rparr>"



definition sample_open :: circuit_breaker where
  "sample_open = \<lparr>cb_threshold = 2, cb_cooldown = 60, cb_enabled = True, cb_state = OPEN,
     cb_failure_count = 2, cb_opened_at = Some 10, cb_probe_in_flight = False, cb_generation = 1\<rparr>"


fun cb_failures :: "circuit_breaker \<Rightarrow> (crawler_error \<times> bool \<times> seconds) list \<Rightarrow> circuit_breaker" where
  "cb_failures cb [] = cb"
| "cb_failures cb ((e, px, now) # fs) =
     cb_failures (cb_record_failure cb e px (Some (cb_generation cb)) now) fs"

definition relevant_count :: "(crawler_error \<times> bool \<times> seconds) list \<Rightarrow> int" where
  "relevant_count fs = int (length (filter (\<lambda>(e, px, now). cb_relevant e px) fs))"

lemma cb_failures_below:
  assumes "cb_ok cb" and "cb_enabled cb" and "cb_state cb = CLOSED"
    and "cb_failure_count cb + relevant_count fs < cb_threshold cb"
  shows "cb_state (cb_failures cb fs) = CLOSED \<and> cb_enabled (cb_failures cb fs)
     \<and> cb_threshold (cb_failures cb fs) = cb_threshold cb
     \<and> cb_failure_count (cb_failures cb fs) = cb_failure_count cb + relevant_count fs"
  using assms
proof (induction cb fs rule: cb_failures.induct)
  case (2 cb e px now fs)
  define cb' where "cb' = cb_record_failure cb e px (Some (cb_generation cb)) now"
  have nn: "0 \<le> relevant_count fs" by (simp add: relevant_count_def)
  have "cb_ok cb'" unfolding cb'_def using "2.prems"(1) by (rule cb_ok_record_failure)
  moreover have "cb_enabled cb' \<and> cb_state cb' = CLOSED \<and> cb_threshold cb' = cb_threshold cb \<and>
      cb_failure_count cb' = cb_failure_count cb + (if cb_relevant e px then 1 else 0)"
    using "2.prems" nn
    by (auto simp: cb'_def cb_record_failure_def stale_token_def Let_def relevant_count_def)
  ultimately show ?case using 2 by (auto simp: cb'_def relevant_count_def split: if_splits)
qed (simp add: relevant_count_def)

text \<open>
  A closed breaker opens on the relevant failure that brings its count to the threshold and
  on no earlier one: after any failures of the current generation with fewer relevant ones than
  the threshold leaves, it is still closed, and the next relevant one opens it at that time and
  starts a new generation.
\<close>

theorem breaker_opens_at_threshold:
  assumes ok: "cb_ok cb" and en: "cb_enabled cb" and closed: "cb_state cb = CLOSED"
    and rel: "cb_relevant e px"
    and count: "cb_failure_count cb + relevant_count fs + 1 = cb_threshold cb"
  shows "cb_state (cb_failures cb fs) = CLOSED
     \<and> (let cb' = cb_record_failure (cb_failures cb fs) e px (Some (cb_generation (cb_failures cb fs))) now
        in cb_state cb' = OPEN \<and> cb_opened_at cb' = Some now
           \<and> cb_generation cb' = cb_generation (cb_failures cb fs) + 1)"
  using cb_failures_below [OF ok en closed, of fs] count rel
  by (simp add: cb_record_failure_def stale_token_def Let_def cb_open_def)

definition sample_closed :: circuit_breaker where
  "sample_closed = \<lparr>cb_threshold = 2, cb_cooldown = 60, cb_enabled = True, cb_state = CLOSED,
     cb_failure_count = 0, cb_opened_at = None, cb_probe_in_flight = False, cb_generation = 0\<rparr>"

theorem breaker_opens_at_threshold_witness:
  "cb_state (cb_failures sample_closed
      [(mk_err ParseFailure ''x'', False, 1), (mk_err NetworkTimeout ''x'', False, 2)]) = CLOSED"
proof -
  have "cb_ok sample_closed" "cb_enabled sample_closed" "cb_state sample_closed = CLOSED"
    by (simp_all add: sample_closed_def cb_ok_def)
  from breaker_opens_at_threshold [OF this, of "mk_err RateLimited ''x''" True
      "[(mk_err ParseFailure ''x'', False, 1), (mk_err NetworkTimeout ''x'', False, 2)]" 3]
  show ?thesis
    by (simp add: sample_closed_def relevant_count_def cb_relevant_def err_isinstance_def is_subclass_simps)
qed

text \<open>
  Recovery: once the cooldown is over the breaker admits a probe; its success closes the
  breaker and clears the failure count, a relevant failure of it opens the breaker again for a
  full cooldown, and any other result frees the probe slot for the next call.
\<close>

theorem breaker_recovery:
  assumes en: "cb_enabled cb" and st: "cb_state cb = OPEN" and at: "cb_opened_at cb = Some t"
    and over: "cb_cooldown cb \<le> now - t"
  defines "g \<equiv> cb_generation cb" and "cb' \<equiv> snd (cb_before_call cb now)"
  shows "fst (cb_before_call cb now) = Inr (Some g)
     \<and> cb_state (cb_record_success cb' (Some g)) = CLOSED
     \<and> cb_failure_count (cb_record_success cb' (Some g)) = 0
     \<and> (cb_relevant e px \<longrightarrow> cb_state (cb_record_failure cb' e px (Some g) now') = OPEN
           \<and> cb_opened_at (cb_record_failure cb' e px (Some g) now') = Some now')
     \<and> (\<not> cb_relevant e px \<longrightarrow>
           fst (cb_before_call (cb_record_failure cb' e px (Some g) now') now'') = Inr (Some g))"
  using en st at over
  by (simp add: g_def cb'_def cb_before_call_def half_open_call_def cb_record_success_def
    cb_record_failure_def stale_token_def cb_open_def)

theorem breaker_recovery_witness:
  "fst (cb_before_call sample_open 70) = Inr (Some 1)"
  using breaker_recovery [of sample_open 10 70] by (simp add: sample_open_def)

end
