(* ===== verification/Proxy_Pool.thy ===== *)
theory Proxy_Pool
  imports Crawler_Errors
begin

text \<open>
  Egress management: proxy endpoints and leases (\<open>crawler/infrastructure/proxy/models.py\<close>), the
  shared pool (\<open>pool.py\<close>) and the providers built on it (\<open>providers.py\<close>).

  Endpoints and leases are mutable objects that several components alias: a lease holds its
  endpoint, the pool's table holds the lease, and the client holds the lease as well. An endpoint
  is therefore its index in the pool's list, and a lease its index in the list of leases the pool
  has created, the lease heap; object identity of leases is equality of these indices. The
  \<open>now\<close> arguments are the values the clock returns during the operation.
\<close>

section \<open>Endpoints\<close>

datatype proxy_state = HEALTHY | COOLDOWN | UNHEALTHY | DISABLED

record proxy_endpoint =
  ep_proxy_id :: string
  ep_url :: string
  ep_state :: proxy_state
  ep_failure_count :: int
  ep_cooldown_until :: "seconds option"

definition ep_record_success :: "proxy_endpoint \<Rightarrow> proxy_endpoint" where
  "ep_record_success ep =
     (if ep_state ep \<notin> {DISABLED, UNHEALTHY}
      then ep\<lparr>ep_state := HEALTHY, ep_failure_count := 0, ep_cooldown_until := None\<rparr> else ep)"

definition ep_usable :: "proxy_endpoint \<Rightarrow> seconds \<Rightarrow> bool \<times> proxy_endpoint" where
  "ep_usable ep now =
     (let ep' = (case ep_cooldown_until ep of
                   Some u \<Rightarrow> if ep_state ep = COOLDOWN \<and> now \<ge> u then ep_record_success ep else ep
                 | None \<Rightarrow> ep)
      in (ep_state ep' = HEALTHY, ep'))"

definition ep_start_cooldown :: "proxy_endpoint \<Rightarrow> seconds \<Rightarrow> seconds \<Rightarrow> proxy_endpoint" where
  "ep_start_cooldown ep cooldown now =
     (if ep_state ep \<notin> {DISABLED, UNHEALTHY}
      then ep\<lparr>ep_state := COOLDOWN, ep_cooldown_until := Some (now + cooldown)\<rparr> else ep)"

definition ep_record_failure ::
  "proxy_endpoint \<Rightarrow> int \<Rightarrow> seconds \<Rightarrow> seconds \<Rightarrow> bool \<times> proxy_endpoint" where
  "ep_record_failure ep threshold cooldown now =
     (if ep_state ep \<in> {DISABLED, UNHEALTHY} then (False, ep)
      else let ep' = ep\<lparr>ep_failure_count := ep_failure_count ep + 1\<rparr>
           in if ep_failure_count ep' < threshold then (False, ep')
              else (True, ep_start_cooldown ep' cooldown now))"

definition ep_disable :: "proxy_endpoint \<Rightarrow> proxy_endpoint" where
  "ep_disable ep = ep\<lparr>ep_state := DISABLED\<rparr>"

definition ep_mark_unhealthy :: "proxy_endpoint \<Rightarrow> proxy_endpoint" where
  "ep_mark_unhealthy ep =
     (if ep_state ep \<noteq> DISABLED then ep\<lparr>ep_state := UNHEALTHY, ep_cooldown_until := None\<rparr> else ep)"

section \<open>Leases and the pool\<close>

record proxy_lease =
  ls_context :: string
  ls_endpoint :: "nat option"
  ls_acquired_at :: seconds
  ls_released :: bool

type_synonym lease_ref = nat

record proxy_pool =
  pl_endpoints :: "proxy_endpoint list"
  pl_threshold :: int
  pl_cooldown :: seconds
  pl_direct_fallback :: bool
  pl_heap :: "proxy_lease list"
  pl_leases :: "string \<Rightarrow> lease_ref option"
  pl_next_index :: nat

definition new_endpoint :: "nat \<Rightarrow> string \<Rightarrow> proxy_endpoint" where
  "new_endpoint i url = \<lparr>ep_proxy_id = ''proxy-'' @ nat_str i, ep_url = url, ep_state = HEALTHY,
     ep_failure_count = 0, ep_cooldown_until = None\<rparr>"

definition new_proxy_pool :: "string list \<Rightarrow> int \<Rightarrow> seconds \<Rightarrow> bool \<Rightarrow> exn + proxy_pool" where
  "new_proxy_pool urls threshold cooldown fallback =
     (if threshold < 1 then Inl (value_error ''proxy failure threshold must be at least one'')
      else if cooldown < 0 then Inl (value_error ''proxy cooldown must not be negative'')
      else if list_ex is_blank urls then Inl (value_error ''proxy URLs must not be blank'')
      else Inr \<lparr>pl_endpoints = map (\<lambda>(i, url). new_endpoint i url) (enumerate 1 urls),
                pl_threshold = threshold, pl_cooldown = cooldown, pl_direct_fallback = fallback,
                pl_heap = [], pl_leases = Map.empty, pl_next_index = 0\<rparr>)"

definition pl_lease :: "proxy_pool \<Rightarrow> lease_ref \<Rightarrow> proxy_lease" where
  "pl_lease pl r = pl_heap pl ! r"

definition pl_is_direct :: "proxy_pool \<Rightarrow> lease_ref \<Rightarrow> bool" where
  "pl_is_direct pl r \<longleftrightarrow> ls_endpoint (pl_lease pl r) = None"

definition pl_proxy_id :: "proxy_pool \<Rightarrow> lease_ref \<Rightarrow> string option" where
  "pl_proxy_id pl r = map_option (\<lambda>i. ep_proxy_id (pl_endpoints pl ! i)) (ls_endpoint (pl_lease pl r))"

text \<open>Mutation of the endpoint at an index, and of the endpoint of a lease.\<close>

definition pl_set_endpoint :: "proxy_pool \<Rightarrow> nat \<Rightarrow> proxy_endpoint \<Rightarrow> proxy_pool" where
  "pl_set_endpoint pl i ep = pl\<lparr>pl_endpoints := (pl_endpoints pl)[i := ep]\<rparr>"

definition pl_update_endpoint ::
  "(proxy_endpoint \<Rightarrow> proxy_endpoint) \<Rightarrow> proxy_pool \<Rightarrow> lease_ref \<Rightarrow> proxy_pool" where
  "pl_update_endpoint f pl r = (case ls_endpoint (pl_lease pl r) of None \<Rightarrow> pl
     | Some i \<Rightarrow> pl_set_endpoint pl i (f (pl_endpoints pl ! i)))"

text \<open>
  \<open>_select\<close>: round robin from the next index, over the given offsets; asking an endpoint whether
  it is usable may end its cooldown, so the loop threads the pool.
\<close>

fun pl_select_loop ::
  "proxy_pool \<Rightarrow> seconds \<Rightarrow> string option \<Rightarrow> nat list \<Rightarrow> nat option \<times> proxy_pool" where
  "pl_select_loop pl now excluded [] = (None, pl)"
| "pl_select_loop pl now excluded (offset # offsets) =
     (let count = length (pl_endpoints pl);
          index = (pl_next_index pl + offset) mod count;
          ep = pl_endpoints pl ! index
      in if excluded \<noteq> Some (ep_proxy_id ep) then
           let u = ep_usable ep now; pl' = pl_set_endpoint pl index (snd u)
           in if fst u then (Some index, pl'\<lparr>pl_next_index := (index + 1) mod count\<rparr>)
              else pl_select_loop pl' now excluded offsets
         else pl_select_loop pl now excluded offsets)"

definition pl_select :: "proxy_pool \<Rightarrow> seconds \<Rightarrow> string option \<Rightarrow> nat option \<times> proxy_pool" where
  "pl_select pl now excluded = pl_select_loop pl now excluded [0..<length (pl_endpoints pl)]"

definition pl_grant :: "proxy_pool \<Rightarrow> string \<Rightarrow> nat option \<Rightarrow> seconds \<Rightarrow> lease_ref \<times> proxy_pool" where
  "pl_grant pl ctx endpoint now =
     (let r = length (pl_heap pl);
          lease = \<lparr>ls_context = ctx, ls_endpoint = endpoint, ls_acquired_at = now, ls_released = False\<rparr>
      in (r, pl\<lparr>pl_heap := pl_heap pl @ [lease], pl_leases := (pl_leases pl)(ctx \<mapsto> r)\<rparr>))"

definition pl_acquire_fresh ::
  "proxy_pool \<Rightarrow> string \<Rightarrow> string option \<Rightarrow> seconds \<Rightarrow> (exn + lease_ref) \<times> proxy_pool" where
  "pl_acquire_fresh pl ctx excluded now =
     (case pl_select pl now excluded of (endpoint, pl') \<Rightarrow>
        if endpoint = None \<and> \<not> pl_direct_fallback pl' then
          (Inl (Crawler (mk_err ProxyUnavailable ''no usable proxy is available'')), pl')
        else (case pl_grant pl' ctx endpoint now of (r, pl'') \<Rightarrow> (Inr r, pl'')))"

definition pl_acquire ::
  "proxy_pool \<Rightarrow> string \<Rightarrow> string option \<Rightarrow> seconds \<Rightarrow> (exn + lease_ref) \<times> proxy_pool" where
  "pl_acquire pl ctx excluded now =
     (case pl_leases pl ctx of
        Some r \<Rightarrow> if \<not> ls_released (pl_lease pl r) then (Inr r, pl)
                  else pl_acquire_fresh pl ctx excluded now
      | None \<Rightarrow> pl_acquire_fresh pl ctx excluded now)"

definition pl_release :: "proxy_pool \<Rightarrow> lease_ref \<Rightarrow> proxy_pool" where
  "pl_release pl r =
     (let lease = pl_lease pl r;
          pl' = pl\<lparr>pl_heap := (pl_heap pl)[r := lease\<lparr>ls_released := True\<rparr>]\<rparr>
      in if pl_leases pl' (ls_context lease) = Some r
         then pl'\<lparr>pl_leases := (pl_leases pl')(ls_context lease := None)\<rparr> else pl')"

definition pl_rotate :: "proxy_pool \<Rightarrow> lease_ref \<Rightarrow> string \<Rightarrow> seconds \<Rightarrow> (exn + lease_ref) \<times> proxy_pool" where
  "pl_rotate pl r ctx now = pl_acquire (pl_release pl r) ctx (pl_proxy_id pl r) now"

definition pl_record_success :: "proxy_pool \<Rightarrow> lease_ref \<Rightarrow> proxy_pool" where
  "pl_record_success pl r = pl_update_endpoint ep_record_success pl r"

definition pl_record_failure :: "proxy_pool \<Rightarrow> lease_ref \<Rightarrow> seconds \<Rightarrow> bool \<times> proxy_pool" where
  "pl_record_failure pl r now =
     (case ls_endpoint (pl_lease pl r) of None \<Rightarrow> (False, pl)
      | Some i \<Rightarrow> (case ep_record_failure (pl_endpoints pl ! i) (pl_threshold pl) (pl_cooldown pl) now of
           (b, ep) \<Rightarrow> (b, pl_set_endpoint pl i ep)))"

definition pl_start_cooldown :: "proxy_pool \<Rightarrow> lease_ref \<Rightarrow> seconds \<Rightarrow> proxy_pool" where
  "pl_start_cooldown pl r now = pl_update_endpoint (\<lambda>ep. ep_start_cooldown ep (pl_cooldown pl) now) pl r"

definition pl_mark_unhealthy :: "proxy_pool \<Rightarrow> lease_ref \<Rightarrow> proxy_pool" where
  "pl_mark_unhealthy pl r = pl_update_endpoint ep_mark_unhealthy pl r"

definition pl_is_usable :: "proxy_pool \<Rightarrow> lease_ref \<Rightarrow> seconds \<Rightarrow> bool \<times> proxy_pool" where
  "pl_is_usable pl r now =
     (if ls_released (pl_lease pl r) then (False, pl)
      else case ls_endpoint (pl_lease pl r) of None \<Rightarrow> (True, pl)
        | Some i \<Rightarrow> (case ep_usable (pl_endpoints pl ! i) now of
             (b, ep) \<Rightarrow> (b, pl_set_endpoint pl i ep)))"

section \<open>The provider without proxies\<close>

record no_proxy =
  nx_heap :: "proxy_lease list"
  nx_leases :: "string \<Rightarrow> lease_ref option"

definition new_no_proxy :: no_proxy where
  "new_no_proxy = \<lparr>nx_heap = [], nx_leases = Map.empty\<rparr>"

definition nx_acquire :: "no_proxy \<Rightarrow> string \<Rightarrow> (exn + lease_ref) \<times> no_proxy" where
  "nx_acquire nx ctx =
     (let fresh = (Inr (length (nx_heap nx)),
            nx\<lparr>nx_heap := nx_heap nx @ [\<lparr>ls_context = ctx, ls_endpoint = None, ls_acquired_at = 0,
                                        ls_released = False\<rparr>],
               nx_leases := (nx_leases nx)(ctx \<mapsto> length (nx_heap nx))\<rparr>)
      in case nx_leases nx ctx of None \<Rightarrow> fresh
         | Some r \<Rightarrow> if ls_released (nx_heap nx ! r) then fresh else (Inr r, nx))"

definition nx_release :: "no_proxy \<Rightarrow> lease_ref \<Rightarrow> no_proxy" where
  "nx_release nx r =
     (let lease = nx_heap nx ! r
      in nx\<lparr>nx_heap := (nx_heap nx)[r := lease\<lparr>ls_released := True\<rparr>],
            nx_leases := (nx_leases nx)(ls_context lease := None)\<rparr>)"

definition nx_rotate :: "no_proxy \<Rightarrow> lease_ref \<Rightarrow> string \<Rightarrow> (exn + lease_ref) \<times> no_proxy" where
  "nx_rotate nx r ctx = nx_acquire (nx_release nx r) ctx"

definition nx_is_usable :: "no_proxy \<Rightarrow> lease_ref \<Rightarrow> bool" where
  "nx_is_usable nx r \<longleftrightarrow> \<not> ls_released (nx_heap nx ! r)"

section \<open>The provider interface as a table of operations\<close>

text \<open>
  \<open>ProxyProvider\<close> (\<open>crawler/application/ports/proxy.py\<close>): the client and the network policy call
  these operations on whichever provider the container built.
\<close>

record 'p proxy_ops =
  op_is_direct :: "'p \<Rightarrow> lease_ref \<Rightarrow> bool"
  op_proxy_id :: "'p \<Rightarrow> lease_ref \<Rightarrow> string option"
  op_acquire :: "'p \<Rightarrow> string \<Rightarrow> seconds \<Rightarrow> (exn + lease_ref) \<times> 'p"
  op_rotate :: "'p \<Rightarrow> lease_ref \<Rightarrow> string \<Rightarrow> seconds \<Rightarrow> (exn + lease_ref) \<times> 'p"
  op_record_success :: "'p \<Rightarrow> lease_ref \<Rightarrow> 'p"
  op_record_failure :: "'p \<Rightarrow> lease_ref \<Rightarrow> seconds \<Rightarrow> bool \<times> 'p"
  op_start_cooldown :: "'p \<Rightarrow> lease_ref \<Rightarrow> seconds \<Rightarrow> 'p"
  op_mark_unhealthy :: "'p \<Rightarrow> lease_ref \<Rightarrow> 'p"
  op_is_usable :: "'p \<Rightarrow> lease_ref \<Rightarrow> seconds \<Rightarrow> bool \<times> 'p"
  op_release :: "'p \<Rightarrow> lease_ref \<Rightarrow> 'p"

definition pool_provider :: "proxy_pool proxy_ops" where
  "pool_provider = \<lparr>op_is_direct = pl_is_direct, op_proxy_id = pl_proxy_id,
     op_acquire = (\<lambda>pl ctx now. pl_acquire pl ctx None now), op_rotate = pl_rotate,
     op_record_success = pl_record_success, op_record_failure = pl_record_failure,
     op_start_cooldown = pl_start_cooldown, op_mark_unhealthy = pl_mark_unhealthy,
     op_is_usable = pl_is_usable, op_release = pl_release\<rparr>"

definition no_proxy_provider :: "no_proxy proxy_ops" where
  "no_proxy_provider = \<lparr>op_is_direct = (\<lambda>nx r. ls_endpoint (nx_heap nx ! r) = None),
     op_proxy_id = (\<lambda>nx r. None), op_acquire = (\<lambda>nx ctx now. nx_acquire nx ctx),
     op_rotate = (\<lambda>nx r ctx now. nx_rotate nx r ctx), op_record_success = (\<lambda>nx r. nx),
     op_record_failure = (\<lambda>nx r now. (False, nx)), op_start_cooldown = (\<lambda>nx r now. nx),
     op_mark_unhealthy = (\<lambda>nx r. nx), op_is_usable = (\<lambda>nx r now. (nx_is_usable nx r, nx)),
     op_release = nx_release\<rparr>"

text \<open>\<open>StaticProxyProvider\<close>: a pool of one endpoint.\<close>

definition new_static_provider :: "string \<Rightarrow> int \<Rightarrow> seconds \<Rightarrow> bool \<Rightarrow> exn + proxy_pool" where
  "new_static_provider url threshold cooldown fallback = new_proxy_pool [url] threshold cooldown fallback"

section \<open>Endpoint health\<close>

definition ep_ok :: "int \<Rightarrow> proxy_endpoint \<Rightarrow> bool" where
  "ep_ok threshold ep \<longleftrightarrow> 0 \<le> ep_failure_count ep
     \<and> (ep_state ep = COOLDOWN \<longrightarrow> ep_cooldown_until ep \<noteq> None)
     \<and> (ep_state ep = HEALTHY \<longrightarrow> ep_failure_count ep < threshold \<and> ep_cooldown_until ep = None)"

lemmas ep_op_defs = ep_record_success_def ep_usable_def ep_start_cooldown_def ep_record_failure_def
  ep_disable_def ep_mark_unhealthy_def

lemma ep_proxy_id_simps [simp]:
  "ep_proxy_id (ep_record_success ep) = ep_proxy_id ep"
  "ep_proxy_id (snd (ep_usable ep now)) = ep_proxy_id ep"
  "ep_proxy_id (ep_start_cooldown ep c now) = ep_proxy_id ep"
  "ep_proxy_id (snd (ep_record_failure ep t c now)) = ep_proxy_id ep"
  "ep_proxy_id (ep_mark_unhealthy ep) = ep_proxy_id ep"
  by (simp_all add: ep_op_defs Let_def split: option.splits)

lemma ep_ok_ops:
  assumes "1 \<le> t" "ep_ok t ep"
  shows "ep_ok t (ep_record_success ep)" "ep_ok t (snd (ep_usable ep now))"
    "ep_ok t (ep_start_cooldown ep c now)" "ep_ok t (snd (ep_record_failure ep t c now))"
    "ep_ok t (ep_mark_unhealthy ep)" "ep_ok t (ep_disable ep)"
  using assms by (auto simp: ep_ok_def ep_op_defs Let_def split: option.splits)

text \<open>An unhealthy or disabled endpoint never becomes usable again.\<close>

lemma ep_terminal:
  assumes "ep_state ep \<in> {UNHEALTHY, DISABLED}"
  shows "\<not> fst (ep_usable ep now)" "ep_state (snd (ep_usable ep now)) = ep_state ep"
    "ep_state (ep_record_success ep) = ep_state ep" "ep_state (ep_start_cooldown ep c now) = ep_state ep"
    "ep_state (snd (ep_record_failure ep t c now)) = ep_state ep"
  using assms by (auto simp: ep_op_defs Let_def split: option.splits)

lemma ep_cooldown_blocks:
  "ep_ok t ep \<Longrightarrow> ep_state ep \<noteq> DISABLED \<Longrightarrow> now < u + c \<Longrightarrow> ep_state ep \<noteq> UNHEALTHY \<Longrightarrow>
     \<not> fst (ep_usable (ep_start_cooldown ep c u) now)"
  by (auto simp: ep_op_defs Let_def)

section \<open>The pool invariant\<close>

text \<open>
  The table of the pool and the heap agree: a context maps to a lease exactly when that lease is
  its unreleased one, so a context has at most one live lease.
\<close>

definition pl_ok :: "proxy_pool \<Rightarrow> bool" where
  "pl_ok pl \<longleftrightarrow> 1 \<le> pl_threshold pl \<and> 0 \<le> pl_cooldown pl
     \<and> distinct (map ep_proxy_id (pl_endpoints pl))
     \<and> list_all (ep_ok (pl_threshold pl)) (pl_endpoints pl)
     \<and> (pl_endpoints pl \<noteq> [] \<longrightarrow> pl_next_index pl < length (pl_endpoints pl))
     \<and> (\<forall>r < length (pl_heap pl). \<forall>i. ls_endpoint (pl_heap pl ! r) = Some i \<longrightarrow> i < length (pl_endpoints pl))
     \<and> (\<forall>ctx r. pl_leases pl ctx = Some r \<longleftrightarrow>
           r < length (pl_heap pl) \<and> ls_context (pl_heap pl ! r) = ctx \<and> \<not> ls_released (pl_heap pl ! r))"

definition pl_live :: "proxy_pool \<Rightarrow> string \<Rightarrow> lease_ref \<Rightarrow> bool" where
  "pl_live pl ctx r \<longleftrightarrow> pl_leases pl ctx = Some r"

lemma pl_liveD:
  "pl_ok pl \<Longrightarrow> pl_live pl ctx r \<Longrightarrow>
     r < length (pl_heap pl) \<and> ls_context (pl_heap pl ! r) = ctx \<and> \<not> ls_released (pl_heap pl ! r)"
  by (auto simp: pl_ok_def pl_live_def)

lemma pl_live_iff:
  "pl_ok pl \<Longrightarrow> pl_live pl ctx r \<longleftrightarrow>
     r < length (pl_heap pl) \<and> ls_context (pl_heap pl ! r) = ctx \<and> \<not> ls_released (pl_heap pl ! r)"
  unfolding pl_ok_def pl_live_def by blast

lemma pl_endpoint_bound:
  "pl_ok pl \<Longrightarrow> r < length (pl_heap pl) \<Longrightarrow> ls_endpoint (pl_lease pl r) = Some i \<Longrightarrow> i < length (pl_endpoints pl)"
  by (auto simp: pl_ok_def pl_lease_def)

lemma pl_ok_heapI:
  assumes "pl_ok pl"
    and "pl_threshold pl' = pl_threshold pl" "pl_cooldown pl' = pl_cooldown pl"
      "pl_endpoints pl' = pl_endpoints pl" "pl_next_index pl' = pl_next_index pl"
    and "\<And>r i. r < length (pl_heap pl') \<Longrightarrow> ls_endpoint (pl_heap pl' ! r) = Some i \<Longrightarrow> i < length (pl_endpoints pl)"
    and "\<And>ctx r. pl_leases pl' ctx = Some r \<longleftrightarrow>
           r < length (pl_heap pl') \<and> ls_context (pl_heap pl' ! r) = ctx \<and> \<not> ls_released (pl_heap pl' ! r)"
  shows "pl_ok pl'"
  using assms unfolding pl_ok_def by simp

lemma pl_ok_new: "new_proxy_pool urls t c fb = Inr pl \<Longrightarrow> pl_ok pl"
  by (auto simp: new_proxy_pool_def pl_ok_def new_endpoint_def ep_ok_def distinct_map inj_on_def
      list_all_iff in_set_enumerate_eq nth_eq_iff_index_eq split: if_splits
      intro!: distinct_enumerate)

subsection \<open>Endpoint updates\<close>

lemma pl_set_endpoint_frame [simp]:
  "pl_heap (pl_set_endpoint pl i ep) = pl_heap pl" "pl_leases (pl_set_endpoint pl i ep) = pl_leases pl"
  "pl_threshold (pl_set_endpoint pl i ep) = pl_threshold pl"
  "pl_cooldown (pl_set_endpoint pl i ep) = pl_cooldown pl"
  "pl_direct_fallback (pl_set_endpoint pl i ep) = pl_direct_fallback pl"
  "pl_next_index (pl_set_endpoint pl i ep) = pl_next_index pl"
  "length (pl_endpoints (pl_set_endpoint pl i ep)) = length (pl_endpoints pl)"
  "pl_lease (pl_set_endpoint pl i ep) r = pl_lease pl r"
  by (simp_all add: pl_set_endpoint_def pl_lease_def)

lemma pl_set_endpoint_ids [simp]:
  "ep_proxy_id ep = ep_proxy_id (pl_endpoints pl ! i) \<Longrightarrow>
     map ep_proxy_id (pl_endpoints (pl_set_endpoint pl i ep)) = map ep_proxy_id (pl_endpoints pl)"
  by (simp add: pl_set_endpoint_def map_update) (metis list_update_beyond list_update_id
    map_update not_le_imp_less nth_map length_map)

lemma pl_ok_set_endpoint:
  assumes "pl_ok pl" "ep_ok (pl_threshold pl) ep" "ep_proxy_id ep = ep_proxy_id (pl_endpoints pl ! i)"
  shows "pl_ok (pl_set_endpoint pl i ep)"
  using assms pl_set_endpoint_ids [OF assms(3)]
  by (auto simp: pl_ok_def list_all_nth_update pl_set_endpoint_def)

lemma pl_endpoint_ok: "pl_ok pl \<Longrightarrow> i < length (pl_endpoints pl) \<Longrightarrow> ep_ok (pl_threshold pl) (pl_endpoints pl ! i)"
  by (auto simp: pl_ok_def list_all_length)

lemma pl_threshold_ok: "pl_ok pl \<Longrightarrow> 1 \<le> pl_threshold pl"
  by (simp add: pl_ok_def)

lemma pl_ok_update_endpoint:
  assumes "pl_ok pl" "r < length (pl_heap pl)"
    and "\<And>ep. ep_ok (pl_threshold pl) ep \<Longrightarrow> ep_ok (pl_threshold pl) (f ep) \<and> ep_proxy_id (f ep) = ep_proxy_id ep"
  shows "pl_ok (pl_update_endpoint f pl r)"
  using assms pl_endpoint_ok [OF assms(1)] pl_endpoint_bound [OF assms(1,2)]
  by (auto simp: pl_update_endpoint_def intro!: pl_ok_set_endpoint split: option.splits)

lemma pl_update_endpoint_frame [simp]:
  "pl_heap (pl_update_endpoint f pl r) = pl_heap pl" "pl_leases (pl_update_endpoint f pl r) = pl_leases pl"
  "pl_lease (pl_update_endpoint f pl r) q = pl_lease pl q"
  by (simp_all add: pl_update_endpoint_def split: option.splits)

subsection \<open>Selection\<close>

definition usable_at :: "proxy_pool \<Rightarrow> seconds \<Rightarrow> string option \<Rightarrow> nat \<Rightarrow> bool" where
  "usable_at pl now excluded i \<longleftrightarrow>
     excluded \<noteq> Some (ep_proxy_id (pl_endpoints pl ! i)) \<and> fst (ep_usable (pl_endpoints pl ! i) now)"

lemma ep_usable_idem [simp]: "fst (ep_usable (snd (ep_usable ep now)) now) = fst (ep_usable ep now)"
  by (auto simp: ep_op_defs Let_def split: option.splits)

text \<open>Asking the endpoint at an index whether it is usable, seen as an update of the pool.\<close>

definition pl_poll :: "proxy_pool \<Rightarrow> nat \<Rightarrow> seconds \<Rightarrow> proxy_pool" where
  "pl_poll pl i now = pl_set_endpoint pl i (snd (ep_usable (pl_endpoints pl ! i) now))"

lemma pl_poll_frame [simp]:
  "pl_heap (pl_poll pl i now) = pl_heap pl" "pl_leases (pl_poll pl i now) = pl_leases pl"
  "pl_threshold (pl_poll pl i now) = pl_threshold pl"
  "pl_direct_fallback (pl_poll pl i now) = pl_direct_fallback pl"
  "pl_next_index (pl_poll pl i now) = pl_next_index pl"
  "length (pl_endpoints (pl_poll pl i now)) = length (pl_endpoints pl)"
  "map ep_proxy_id (pl_endpoints (pl_poll pl i now)) = map ep_proxy_id (pl_endpoints pl)"
  by (simp_all add: pl_poll_def)

lemma usable_at_poll [simp]: "usable_at (pl_poll pl j now) now ex i = usable_at pl now ex i"
  by (cases "i = j"; cases "j < length (pl_endpoints pl)")
    (auto simp: usable_at_def pl_poll_def pl_set_endpoint_def list_update_beyond)

lemma pl_ok_poll: "pl_ok pl \<Longrightarrow> i < length (pl_endpoints pl) \<Longrightarrow> pl_ok (pl_poll pl i now)"
  unfolding pl_poll_def
  by (intro pl_ok_set_endpoint) (simp_all add: ep_ok_ops pl_endpoint_ok pl_threshold_ok)

definition rr_index :: "proxy_pool \<Rightarrow> nat \<Rightarrow> nat" where
  "rr_index pl offset = (pl_next_index pl + offset) mod length (pl_endpoints pl)"

lemma rr_index_poll [simp]: "rr_index (pl_poll pl i now) = rr_index pl"
  by (simp add: rr_index_def fun_eq_iff)

lemma pl_select_loop_Cons:
  "pl_select_loop pl now ex (off # os) =
     (let i = rr_index pl off
      in if usable_at pl now ex i
         then (Some i, (pl_poll pl i now)\<lparr>pl_next_index := (i + 1) mod length (pl_endpoints pl)\<rparr>)
         else pl_select_loop (if ex = Some (ep_proxy_id (pl_endpoints pl ! i)) then pl else pl_poll pl i now)
                now ex os)"
  by (auto simp: Let_def usable_at_def rr_index_def pl_poll_def)

lemmas pl_select_loop_simps = pl_select_loop.simps(1) pl_select_loop_Cons

declare pl_select_loop.simps [simp del]

lemma pl_select_loop_find:
  "fst (pl_select_loop pl now ex os) = find (usable_at pl now ex) (map (rr_index pl) os)"
proof (induction os arbitrary: pl)
  case (Cons off os)
  have "usable_at (pl_poll pl i now) now ex = usable_at pl now ex" for i by (simp add: fun_eq_iff)
  with Cons show ?case by (simp add: pl_select_loop_simps Let_def)
qed (simp add: pl_select_loop_simps)

lemma pl_select_loop_frame [simp]:
  "pl_heap (snd (pl_select_loop pl now ex os)) = pl_heap pl"
  "pl_leases (snd (pl_select_loop pl now ex os)) = pl_leases pl"
  "pl_threshold (snd (pl_select_loop pl now ex os)) = pl_threshold pl"
  "pl_direct_fallback (snd (pl_select_loop pl now ex os)) = pl_direct_fallback pl"
  "length (pl_endpoints (snd (pl_select_loop pl now ex os))) = length (pl_endpoints pl)"
  "map ep_proxy_id (pl_endpoints (snd (pl_select_loop pl now ex os))) = map ep_proxy_id (pl_endpoints pl)"
  by (induction os arbitrary: pl) (simp_all add: pl_select_loop_simps Let_def)

lemma pl_select_loop_next:
  "fst (pl_select_loop pl now ex os) = Some i \<Longrightarrow>
     pl_next_index (snd (pl_select_loop pl now ex os)) = (i + 1) mod length (pl_endpoints pl)"
  by (induction os arbitrary: pl) (auto simp: pl_select_loop_simps Let_def split: if_splits)

lemma pl_ok_next_index:
  "pl_ok pl \<Longrightarrow> pl_ok (pl\<lparr>pl_next_index := k mod length (pl_endpoints pl)\<rparr>)"
  by (auto simp: pl_ok_def)

lemma pl_ok_select_loop:
  "pl_ok pl \<Longrightarrow> os \<noteq> [] \<longrightarrow> pl_endpoints pl \<noteq> [] \<Longrightarrow> pl_ok (snd (pl_select_loop pl now ex os))"
proof (induction os arbitrary: pl)
  case (Cons off os)
  define i where "i = rr_index pl off"
  have "i < length (pl_endpoints pl)" using Cons.prems by (simp add: i_def rr_index_def)
  then have ok: "pl_ok (pl_poll pl i now)" and ne: "pl_endpoints (pl_poll pl i now) \<noteq> []"
    using Cons.prems pl_poll_frame(6) [of pl i now] by (auto simp: pl_ok_poll simp del: pl_poll_frame(6))
  from ok have "pl_ok ((pl_poll pl i now)\<lparr>pl_next_index := (i + 1) mod length (pl_endpoints pl)\<rparr>)"
    using pl_ok_next_index [of "pl_poll pl i now" "i + 1"] by simp
  with Cons.IH [of "if ex = Some (ep_proxy_id (pl_endpoints pl ! i)) then pl else pl_poll pl i now"] ok ne Cons.prems
  show ?case by (simp add: pl_select_loop_Cons Let_def i_def [symmetric])
qed (simp add: pl_select_loop_simps)

lemma rr_index_onto:
  assumes "pl_endpoints pl \<noteq> []"
  shows "set (map (rr_index pl) [0..<length (pl_endpoints pl)]) = {0..<length (pl_endpoints pl)}"
proof -
  define n where "n = length (pl_endpoints pl)"
  have n: "0 < n" using assms by (simp add: n_def)
  have "i \<in> (\<lambda>k. (pl_next_index pl + k) mod n) ` {0..<n}" if "i < n" for i
  proof -
    define s where "s = pl_next_index pl mod n"
    define k where "k = (i + (n - s)) mod n"
    have "(pl_next_index pl + k) mod n = (s + (i + (n - s))) mod n"
      unfolding k_def s_def by (simp add: mod_add_left_eq mod_add_right_eq)
    also have "s + (i + (n - s)) = i + n" using mod_less_divisor [OF n, of "pl_next_index pl"]
      unfolding s_def by linarith
    also have "(i + n) mod n = i" using that by simp
    finally show ?thesis using n by (auto simp: k_def intro!: image_eqI [of _ _ k])
  qed
  then show ?thesis using n by (auto simp: rr_index_def n_def [symmetric])
qed

lemma pl_select_frame [simp]:
  "pl_heap (snd (pl_select pl now ex)) = pl_heap pl" "pl_leases (snd (pl_select pl now ex)) = pl_leases pl"
  "pl_direct_fallback (snd (pl_select pl now ex)) = pl_direct_fallback pl"
  "length (pl_endpoints (snd (pl_select pl now ex))) = length (pl_endpoints pl)"
  "map ep_proxy_id (pl_endpoints (snd (pl_select pl now ex))) = map ep_proxy_id (pl_endpoints pl)"
  by (simp_all add: pl_select_def)

lemma pl_ok_select: "pl_ok pl \<Longrightarrow> pl_ok (snd (pl_select pl now ex))"
  unfolding pl_select_def by (rule pl_ok_select_loop) auto

lemma pl_select_Some:
  assumes "fst (pl_select pl now ex) = Some i"
  shows "i < length (pl_endpoints pl)" "usable_at pl now ex i"
proof -
  have ne: "pl_endpoints pl \<noteq> []" using assms by (auto simp: pl_select_def pl_select_loop_simps)
  have "i \<in> set (map (rr_index pl) [0..<length (pl_endpoints pl)]) \<and> usable_at pl now ex i"
    using assms unfolding pl_select_def pl_select_loop_find by (rule find_SomeD)
  then show "i < length (pl_endpoints pl)" "usable_at pl now ex i"
    using rr_index_onto [OF ne] by auto
qed

lemma pl_select_None:
  assumes "fst (pl_select pl now ex) = None" and "i < length (pl_endpoints pl)"
  shows "\<not> usable_at pl now ex i"
proof -
  have "i \<in> set (map (rr_index pl) [0..<length (pl_endpoints pl)])"
    using assms(2) by (subst rr_index_onto) auto
  with assms(1) show ?thesis unfolding pl_select_def pl_select_loop_find by (rule find_NoneD)
qed

subsection \<open>Acquire, release, rotate\<close>

lemma pl_ok_grant:
  assumes ok: "pl_ok pl" and free: "pl_leases pl ctx = None"
    and bound: "\<And>i. endpoint = Some i \<Longrightarrow> i < length (pl_endpoints pl)"
  shows "pl_ok (snd (pl_grant pl ctx endpoint now))"
    and "pl_live (snd (pl_grant pl ctx endpoint now)) ctx (length (pl_heap pl))"
proof -
  have no: "\<not> (r < length (pl_heap pl) \<and> ls_context (pl_heap pl ! r) = ctx \<and> \<not> ls_released (pl_heap pl ! r))" for r
    using pl_live_iff [OF ok, of ctx r] free by (simp add: pl_live_def)
  let ?pl = "snd (pl_grant pl ctx endpoint now)"
  define l where "l = \<lparr>ls_context = ctx, ls_endpoint = endpoint, ls_acquired_at = now, ls_released = False\<rparr>"
  have heap: "pl_heap ?pl = pl_heap pl @ [l]" and leases: "pl_leases ?pl = (pl_leases pl)(ctx \<mapsto> length (pl_heap pl))"
    by (simp_all add: pl_grant_def Let_def l_def)
  show "pl_ok ?pl"
  proof (rule pl_ok_heapI [OF ok])
    fix c r
    show "pl_leases ?pl c = Some r \<longleftrightarrow>
        r < length (pl_heap ?pl) \<and> ls_context (pl_heap ?pl ! r) = c \<and> \<not> ls_released (pl_heap ?pl ! r)"
      unfolding heap leases using no [of r] pl_live_iff [OF ok, of c r]
      by (cases "r < length (pl_heap pl)") (auto simp: pl_live_def nth_append less_Suc_eq l_def)
  next
    fix r i
    assume "r < length (pl_heap ?pl)" "ls_endpoint (pl_heap ?pl ! r) = Some i"
    then show "i < length (pl_endpoints pl)"
      unfolding heap using pl_endpoint_bound [OF ok, of r i] bound
      by (cases "r < length (pl_heap pl)") (auto simp: nth_append less_Suc_eq pl_lease_def l_def)
  qed (simp_all add: pl_grant_def Let_def)
  show "pl_live (snd (pl_grant pl ctx endpoint now)) ctx (length (pl_heap pl))"
    by (simp add: pl_grant_def Let_def pl_live_def)
qed

lemma pl_acquire_live: "pl_ok pl \<Longrightarrow> pl_live pl ctx r \<Longrightarrow> pl_acquire pl ctx ex now = (Inr r, pl)"
  using pl_liveD [of pl ctx r] by (simp add: pl_acquire_def pl_live_def pl_lease_def)

lemma pl_acquire_free:
  "pl_leases pl ctx = None \<Longrightarrow> pl_acquire pl ctx ex now = pl_acquire_fresh pl ctx ex now"
  by (simp add: pl_acquire_def)

text \<open>A fresh acquisition: what is granted, and when nothing can be.\<close>

lemma pl_acquire_fresh_cases:
  assumes ok: "pl_ok pl" and free: "pl_leases pl ctx = None"
  obtains (granted) pl' endpoint where
      "pl_acquire_fresh pl ctx ex now = (Inr (length (pl_heap pl)), pl')" "pl_ok pl'"
      "pl_live pl' ctx (length (pl_heap pl))" "length (pl_heap pl') = Suc (length (pl_heap pl))"
      "\<And>q. q < length (pl_heap pl) \<Longrightarrow> pl_heap pl' ! q = pl_heap pl ! q"
      "ls_endpoint (pl_lease pl' (length (pl_heap pl))) = endpoint"
      "map ep_proxy_id (pl_endpoints pl') = map ep_proxy_id (pl_endpoints pl)"
      "\<And>i. endpoint = Some i \<Longrightarrow> i < length (pl_endpoints pl) \<and> usable_at pl now ex i"
      "endpoint = None \<Longrightarrow> pl_direct_fallback pl \<and> (\<forall>i < length (pl_endpoints pl). \<not> usable_at pl now ex i)"
      "\<And>c. c \<noteq> ctx \<Longrightarrow> pl_leases pl' c = pl_leases pl c"
  | (refused) pl' m where
      "pl_acquire_fresh pl ctx ex now = (Inl (Crawler (mk_err ProxyUnavailable m)), pl')" "pl_ok pl'"
      "pl_heap pl' = pl_heap pl" "pl_leases pl' = pl_leases pl"
      "\<not> pl_direct_fallback pl" "\<forall>i < length (pl_endpoints pl). \<not> usable_at pl now ex i"
proof -
  define sel where "sel = pl_select pl now ex"
  have ok': "pl_ok (snd sel)" unfolding sel_def using ok by (rule pl_ok_select)
  have frame: "pl_heap (snd sel) = pl_heap pl" "pl_leases (snd sel) = pl_leases pl"
    "pl_direct_fallback (snd sel) = pl_direct_fallback pl"
    "length (pl_endpoints (snd sel)) = length (pl_endpoints pl)"
    "map ep_proxy_id (pl_endpoints (snd sel)) = map ep_proxy_id (pl_endpoints pl)"
    by (simp_all add: sel_def)
  show ?thesis
  proof (cases "fst sel = None \<and> \<not> pl_direct_fallback pl")
    case True
    then have "\<forall>i < length (pl_endpoints pl). \<not> usable_at pl now ex i"
      using pl_select_None [of pl now ex] by (simp add: sel_def)
    with True frame ok' show ?thesis
      by (intro refused [of "''no usable proxy is available''" "snd sel"])
        (auto simp: pl_acquire_fresh_def sel_def [symmetric] split: prod.splits)
  next
    case False
    define pl' where "pl' = snd (pl_grant (snd sel) ctx (fst sel) now)"
    have g: "pl_grant (snd sel) ctx (fst sel) now = (length (pl_heap pl), pl')"
      using frame by (simp add: pl'_def pl_grant_def Let_def)
    have b: "\<And>i. fst sel = Some i \<Longrightarrow> i < length (pl_endpoints (snd sel))"
      using pl_select_Some(1) [of pl now ex] frame by (simp add: sel_def)
    have free': "pl_leases (snd sel) ctx = None" using free frame by simp
    show ?thesis
    proof (rule granted [of pl' "fst sel"])
      show "pl_acquire_fresh pl ctx ex now = (Inr (length (pl_heap pl)), pl')"
        using False g frame by (auto simp: pl_acquire_fresh_def sel_def [symmetric] split: prod.splits)
      show "pl_ok pl'" unfolding pl'_def using ok' free' b by (rule pl_ok_grant(1))
      show "pl_live pl' ctx (length (pl_heap pl))"
        using pl_ok_grant(2) [OF ok' free' b] frame by (simp add: pl'_def)
    qed (use frame False pl_select_Some [of pl now ex] pl_select_None [of pl now ex] in
      \<open>auto simp: pl'_def pl_grant_def Let_def nth_append pl_lease_def sel_def\<close>)
  qed
qed

lemma pl_release_frame [simp]:
  "length (pl_heap (pl_release pl r)) = length (pl_heap pl)"
  "pl_endpoints (pl_release pl r) = pl_endpoints pl"
  "pl_direct_fallback (pl_release pl r) = pl_direct_fallback pl"
  "usable_at (pl_release pl r) now ex i = usable_at pl now ex i"
  by (simp_all add: pl_release_def Let_def usable_at_def)

lemma pl_release_leases:
  "pl_ok pl \<Longrightarrow> r < length (pl_heap pl) \<Longrightarrow>
     pl_leases (pl_release pl r) = (\<lambda>c. if pl_leases pl c = Some r then None else pl_leases pl c)"
  using pl_live_iff [of pl _ r]
  by (auto simp: pl_release_def Let_def pl_lease_def fun_eq_iff pl_live_def)

lemma pl_release_heap:
  "pl_heap (pl_release pl r) = (pl_heap pl)[r := (pl_heap pl ! r)\<lparr>ls_released := True\<rparr>]"
  by (simp add: pl_release_def Let_def pl_lease_def)

lemma pl_ok_release:
  assumes "pl_ok pl" and "r < length (pl_heap pl)"
  shows "pl_ok (pl_release pl r)"
proof (rule pl_ok_heapI [OF assms(1)])
  fix ctx q
  show "pl_leases (pl_release pl r) ctx = Some q \<longleftrightarrow> q < length (pl_heap (pl_release pl r))
      \<and> ls_context (pl_heap (pl_release pl r) ! q) = ctx \<and> \<not> ls_released (pl_heap (pl_release pl r) ! q)"
    using pl_live_iff [OF assms(1), of ctx q] assms
    by (cases "q = r") (auto simp: pl_live_def pl_release_leases pl_release_heap)
next
  fix q i
  assume "q < length (pl_heap (pl_release pl r))" and "ls_endpoint (pl_heap (pl_release pl r) ! q) = Some i"
  then show "i < length (pl_endpoints pl)"
    using pl_endpoint_bound [OF assms(1)] by (cases "q = r") (auto simp: pl_release_heap pl_lease_def)
qed (simp_all add: pl_release_def Let_def)

lemma pl_release_not_live:
  "pl_ok pl \<Longrightarrow> r < length (pl_heap pl) \<Longrightarrow> \<not> pl_live (pl_release pl r) ctx r"
  by (simp add: pl_live_def pl_release_leases)

lemma pl_release_free:
  "pl_ok pl \<Longrightarrow> pl_live pl ctx r \<Longrightarrow> pl_leases (pl_release pl r) ctx = None"
  using pl_liveD [of pl ctx r] by (simp add: pl_release_leases pl_live_def)

lemma pl_release_free':
  assumes "pl_ok pl" and "r < length (pl_heap pl)" and "\<And>q. pl_live pl ctx q \<Longrightarrow> q = r"
  shows "pl_leases (pl_release pl r) ctx = None"
  using assms by (cases "pl_leases pl ctx") (auto simp: pl_release_leases pl_live_def)

lemma pl_rotate_fresh:
  assumes "pl_ok pl" and "r < length (pl_heap pl)" and "\<And>q. pl_live pl ctx q \<Longrightarrow> q = r"
  shows "pl_rotate pl r ctx now = pl_acquire_fresh (pl_release pl r) ctx (pl_proxy_id pl r) now"
  using pl_release_free' [OF assms] by (simp add: pl_rotate_def pl_acquire_free)

text \<open>The three outcomes of \<open>acquire\<close> and of \<open>rotate\<close>, as the pool's clients see them.\<close>

lemma pl_acquire_result:
  assumes "pl_ok pl"
  shows "case pl_acquire pl ctx ex now of
      (Inr r, pl') \<Rightarrow> pl_ok pl' \<and> pl_live pl' ctx r \<and> length (pl_heap pl) \<le> length (pl_heap pl')
    | (Inl e, pl') \<Rightarrow> pl_ok pl' \<and> (\<exists>m. e = Crawler (mk_err ProxyUnavailable m)) \<and> pl_heap pl' = pl_heap pl"
proof (cases "pl_leases pl ctx")
  case None
  from assms None show ?thesis
  proof (cases rule: pl_acquire_fresh_cases [where ex = ex and now = now])
    case (granted pl' endpoint)
    then show ?thesis using None by (simp add: pl_acquire_free)
  next
    case (refused pl' m)
    then show ?thesis using None by (auto simp: pl_acquire_free)
  qed
next
  case (Some r)
  with assms show ?thesis by (simp add: pl_acquire_live pl_live_def)
qed

lemma pl_rotate_result:
  assumes ok: "pl_ok pl" and r: "r < length (pl_heap pl)" and uniq: "\<And>q. pl_live pl ctx q \<Longrightarrow> q = r"
  shows "case pl_rotate pl r ctx now of
      (Inr r', pl') \<Rightarrow> pl_ok pl' \<and> pl_live pl' ctx r' \<and> r' \<noteq> r \<and> length (pl_heap pl) \<le> length (pl_heap pl')
         \<and> (pl_proxy_id pl' r' \<noteq> None \<longrightarrow> pl_proxy_id pl' r' \<noteq> pl_proxy_id pl r)
    | (Inl e, pl') \<Rightarrow> pl_ok pl' \<and> (\<exists>m. e = Crawler (mk_err ProxyUnavailable m))
         \<and> length (pl_heap pl) = length (pl_heap pl') \<and> (\<forall>q. \<not> pl_live pl' ctx q)"
proof -
  have fresh: "pl_rotate pl r ctx now = pl_acquire_fresh (pl_release pl r) ctx (pl_proxy_id pl r) now"
    using ok r uniq by (rule pl_rotate_fresh)
  have free: "pl_leases (pl_release pl r) ctx = None" using ok r uniq by (rule pl_release_free')
  have ids: "ep_proxy_id (pl_endpoints pl' ! i) = ep_proxy_id (pl_endpoints pl ! i)"
    if "map ep_proxy_id (pl_endpoints pl') = map ep_proxy_id (pl_endpoints pl)" "i < length (pl_endpoints pl)" for pl' i
    using that by (metis length_map nth_map)
  from pl_ok_release [OF ok r] free show ?thesis
  proof (cases rule: pl_acquire_fresh_cases [where ex = "pl_proxy_id pl r" and now = now])
    case (granted pl' endpoint)
    have "pl_proxy_id pl' (length (pl_heap pl)) \<noteq> pl_proxy_id pl r"
      if ne: "pl_proxy_id pl' (length (pl_heap pl)) \<noteq> None"
    proof -
      obtain i where i: "endpoint = Some i" using ne granted(6) by (cases endpoint) (auto simp: pl_proxy_id_def)
      then have "i < length (pl_endpoints pl)" "pl_proxy_id pl r \<noteq> Some (ep_proxy_id (pl_endpoints pl ! i))"
        using granted(8) by (auto simp: usable_at_def)
      moreover from this have "pl_proxy_id pl' (length (pl_heap pl)) = Some (ep_proxy_id (pl_endpoints pl ! i))"
        using ids [of pl' i] granted(6,7) i by (simp add: pl_proxy_id_def)
      ultimately show ?thesis by simp
    qed
    with granted r show ?thesis by (simp add: fresh)
  next
    case (refused pl' m)
    with fresh free show ?thesis by (auto simp: pl_live_def)
  qed
qed

section \<open>The provider contract\<close>

text \<open>
  What the network policy and the client rely on, for every provider: operations keep the
  provider's invariant and the leases it knows, only \<open>ProxyUnavailable\<close> is raised, a lease
  obtained for a context is its live one, a rotation never hands out the proxy it replaces, and a
  released lease is never live.
\<close>

locale proxy_provider =
  fixes ops :: "'p proxy_ops"
    and inv :: "'p \<Rightarrow> bool"
    and known :: "'p \<Rightarrow> lease_ref \<Rightarrow> bool"
    and live :: "'p \<Rightarrow> string \<Rightarrow> lease_ref \<Rightarrow> bool"
  assumes live_known: "inv p \<Longrightarrow> live p ctx r \<Longrightarrow> known p r"
    and live_unique: "inv p \<Longrightarrow> live p ctx r \<Longrightarrow> live p ctx q \<Longrightarrow> q = r"
    and acquire_ok: "inv p \<Longrightarrow> op_acquire ops p ctx now = (Inr r, p') \<Longrightarrow>
          inv p' \<and> live p' ctx r \<and> (\<forall>q. known p q \<longrightarrow> known p' q)"
    and acquire_err: "inv p \<Longrightarrow> op_acquire ops p ctx now = (Inl e, p') \<Longrightarrow>
          inv p' \<and> (\<exists>m. e = Crawler (mk_err ProxyUnavailable m)) \<and> (\<forall>q. known p q \<longrightarrow> known p' q)"
    and rotate_ok: "inv p \<Longrightarrow> known p r \<Longrightarrow> (\<And>q. live p ctx q \<Longrightarrow> q = r) \<Longrightarrow>
          op_rotate ops p r ctx now = (Inr r', p') \<Longrightarrow>
          inv p' \<and> live p' ctx r' \<and> r' \<noteq> r \<and> (\<forall>q. known p q \<longrightarrow> known p' q)
          \<and> (op_proxy_id ops p' r' \<noteq> None \<longrightarrow> op_proxy_id ops p' r' \<noteq> op_proxy_id ops p r)"
    and rotate_err: "inv p \<Longrightarrow> known p r \<Longrightarrow> (\<And>q. live p ctx q \<Longrightarrow> q = r) \<Longrightarrow>
          op_rotate ops p r ctx now = (Inl e, p') \<Longrightarrow>
          inv p' \<and> (\<exists>m. e = Crawler (mk_err ProxyUnavailable m)) \<and> (\<forall>q. known p q \<longrightarrow> known p' q)
          \<and> (\<forall>q. \<not> live p' ctx q)"
    and success_ok: "inv p \<Longrightarrow> known p r \<Longrightarrow>
          inv (op_record_success ops p r) \<and> live (op_record_success ops p r) = live p
          \<and> known (op_record_success ops p r) = known p"
    and failure_ok: "inv p \<Longrightarrow> known p r \<Longrightarrow> op_record_failure ops p r now = (b, p') \<Longrightarrow>
          inv p' \<and> live p' = live p \<and> known p' = known p"
    and cooldown_ok: "inv p \<Longrightarrow> known p r \<Longrightarrow>
          inv (op_start_cooldown ops p r now) \<and> live (op_start_cooldown ops p r now) = live p
          \<and> known (op_start_cooldown ops p r now) = known p"
    and unhealthy_ok: "inv p \<Longrightarrow> known p r \<Longrightarrow>
          inv (op_mark_unhealthy ops p r) \<and> live (op_mark_unhealthy ops p r) = live p
          \<and> known (op_mark_unhealthy ops p r) = known p"
    and usable_ok: "inv p \<Longrightarrow> known p r \<Longrightarrow> op_is_usable ops p r now = (b, p') \<Longrightarrow>
          inv p' \<and> live p' = live p \<and> known p' = known p"
    and release_ok: "inv p \<Longrightarrow> known p r \<Longrightarrow>
          inv (op_release ops p r) \<and> \<not> live (op_release ops p r) ctx r
          \<and> known (op_release ops p r) = known p"
    and release_live: "inv p \<Longrightarrow> known p r \<Longrightarrow> live (op_release ops p r) ctx q \<Longrightarrow> live p ctx q"
begin

text \<open>Acquiring twice for a context gives one lease: leases are sticky.\<close>

lemma rotate_live_ok:
  "inv p \<Longrightarrow> live p ctx r \<Longrightarrow> op_rotate ops p r ctx now = (Inr r', p') \<Longrightarrow> live p' ctx r' \<and> \<not> live p' ctx r"
  using rotate_ok [of p r ctx now r' p'] live_known live_unique by metis

end

text \<open>The pool provides it.\<close>

lemma pl_record_failure_frame:
  assumes "pl_ok pl" "r < length (pl_heap pl)"
  shows "pl_ok (snd (pl_record_failure pl r now))" "pl_leases (snd (pl_record_failure pl r now)) = pl_leases pl"
    "pl_heap (snd (pl_record_failure pl r now)) = pl_heap pl"
  using assms pl_endpoint_bound [OF assms] ep_ok_ops(4) [OF pl_threshold_ok pl_endpoint_ok, of pl]
  by (auto simp: pl_record_failure_def split: option.splits prod.splits)
    (metis (no_types, lifting) ep_proxy_id_simps(4) pl_ok_set_endpoint snd_conv)

lemma pl_is_usable_frame:
  assumes "pl_ok pl" "r < length (pl_heap pl)"
  shows "pl_ok (snd (pl_is_usable pl r now))" "pl_leases (snd (pl_is_usable pl r now)) = pl_leases pl"
    "pl_heap (snd (pl_is_usable pl r now)) = pl_heap pl"
  using assms pl_endpoint_bound [OF assms] pl_ok_poll [OF assms(1)]
  by (auto simp: pl_is_usable_def pl_poll_def split: option.splits prod.splits) (metis snd_conv)

interpretation pool: proxy_provider pool_provider pl_ok "\<lambda>pl r. r < length (pl_heap pl)" pl_live
proof
  fix p :: proxy_pool and ctx r q now e p' r' b
  assume ok: "pl_ok p"
  show "pl_live p ctx r \<Longrightarrow> r < length (pl_heap p)" using pl_liveD [OF ok] by blast
  show "pl_live p ctx r \<Longrightarrow> pl_live p ctx q \<Longrightarrow> q = r" by (simp add: pl_live_def)
  show "op_acquire pool_provider p ctx now = (Inr r, p') \<Longrightarrow> pl_ok p' \<and> pl_live p' ctx r
      \<and> (\<forall>q. q < length (pl_heap p) \<longrightarrow> q < length (pl_heap p'))"
    using pl_acquire_result [OF ok, of ctx None now] by (auto simp: pool_provider_def)
  show "op_acquire pool_provider p ctx now = (Inl e, p') \<Longrightarrow> pl_ok p'
      \<and> (\<exists>m. e = Crawler (mk_err ProxyUnavailable m))
      \<and> (\<forall>q. q < length (pl_heap p) \<longrightarrow> q < length (pl_heap p'))"
    using pl_acquire_result [OF ok, of ctx None now] by (auto simp: pool_provider_def)
  assume r: "r < length (pl_heap p)"
  show "pl_ok (op_record_success pool_provider p r)
      \<and> pl_live (op_record_success pool_provider p r) = pl_live p
      \<and> (\<lambda>q. q < length (pl_heap (op_record_success pool_provider p r))) = (\<lambda>q. q < length (pl_heap p))"
    using pl_ok_update_endpoint [OF ok r, of ep_record_success] ep_ok_ops [OF pl_threshold_ok [OF ok]]
    by (auto simp: pool_provider_def pl_record_success_def pl_live_def fun_eq_iff)
  show "pl_ok (op_start_cooldown pool_provider p r now)
      \<and> pl_live (op_start_cooldown pool_provider p r now) = pl_live p
      \<and> (\<lambda>q. q < length (pl_heap (op_start_cooldown pool_provider p r now))) = (\<lambda>q. q < length (pl_heap p))"
    using pl_ok_update_endpoint [OF ok r, of "\<lambda>ep. ep_start_cooldown ep (pl_cooldown p) now"]
      ep_ok_ops [OF pl_threshold_ok [OF ok]]
    by (auto simp: pool_provider_def pl_start_cooldown_def pl_live_def fun_eq_iff)
  show "pl_ok (op_mark_unhealthy pool_provider p r)
      \<and> pl_live (op_mark_unhealthy pool_provider p r) = pl_live p
      \<and> (\<lambda>q. q < length (pl_heap (op_mark_unhealthy pool_provider p r))) = (\<lambda>q. q < length (pl_heap p))"
    using pl_ok_update_endpoint [OF ok r, of ep_mark_unhealthy] ep_ok_ops [OF pl_threshold_ok [OF ok]]
    by (auto simp: pool_provider_def pl_mark_unhealthy_def pl_live_def fun_eq_iff)
  show "op_record_failure pool_provider p r now = (b, p') \<Longrightarrow> pl_ok p' \<and> pl_live p' = pl_live p
      \<and> (\<lambda>q. q < length (pl_heap p')) = (\<lambda>q. q < length (pl_heap p))"
    using pl_record_failure_frame [OF ok r, of now] by (simp add: pool_provider_def pl_live_def fun_eq_iff)
  show "op_is_usable pool_provider p r now = (b, p') \<Longrightarrow> pl_ok p' \<and> pl_live p' = pl_live p
      \<and> (\<lambda>q. q < length (pl_heap p')) = (\<lambda>q. q < length (pl_heap p))"
    using pl_is_usable_frame [OF ok r, of now] by (simp add: pool_provider_def pl_live_def fun_eq_iff)
  show "pl_ok (op_release pool_provider p r) \<and> \<not> pl_live (op_release pool_provider p r) ctx r
      \<and> (\<lambda>q. q < length (pl_heap (op_release pool_provider p r))) = (\<lambda>q. q < length (pl_heap p))"
    using pl_ok_release [OF ok r] pl_release_not_live [OF ok r] by (simp add: pool_provider_def)
  show "pl_live (op_release pool_provider p r) ctx q \<Longrightarrow> pl_live p ctx q"
    by (simp add: pool_provider_def pl_live_def pl_release_leases [OF ok r] split: if_splits)
  assume uniq: "\<And>q. pl_live p ctx q \<Longrightarrow> q = r"
  show "op_rotate pool_provider p r ctx now = (Inr r', p') \<Longrightarrow> pl_ok p' \<and> pl_live p' ctx r' \<and> r' \<noteq> r
      \<and> (\<forall>q. q < length (pl_heap p) \<longrightarrow> q < length (pl_heap p'))
      \<and> (op_proxy_id pool_provider p' r' \<noteq> None \<longrightarrow> op_proxy_id pool_provider p' r' \<noteq> op_proxy_id pool_provider p r)"
    using pl_rotate_result [OF ok r uniq, of ctx now] by (auto simp: pool_provider_def)
  show "op_rotate pool_provider p r ctx now = (Inl e, p') \<Longrightarrow> pl_ok p'
      \<and> (\<exists>m. e = Crawler (mk_err ProxyUnavailable m))
      \<and> (\<forall>q. q < length (pl_heap p) \<longrightarrow> q < length (pl_heap p')) \<and> (\<forall>q. \<not> pl_live p' ctx q)"
    using pl_rotate_result [OF ok r uniq, of ctx now] by (auto simp: pool_provider_def)
qed

text \<open>The provider without proxies provides it too.\<close>

definition nx_ok :: "no_proxy \<Rightarrow> bool" where
  "nx_ok nx \<longleftrightarrow> (\<forall>ctx r. nx_leases nx ctx = Some r \<longrightarrow>
     r < length (nx_heap nx) \<and> ls_context (nx_heap nx ! r) = ctx \<and> \<not> ls_released (nx_heap nx ! r))"

definition nx_live :: "no_proxy \<Rightarrow> string \<Rightarrow> lease_ref \<Rightarrow> bool" where
  "nx_live nx ctx r \<longleftrightarrow> nx_leases nx ctx = Some r"

lemma nx_okD:
  "nx_ok nx \<Longrightarrow> nx_leases nx ctx = Some r \<Longrightarrow>
     r < length (nx_heap nx) \<and> ls_context (nx_heap nx ! r) = ctx \<and> \<not> ls_released (nx_heap nx ! r)"
  by (simp add: nx_ok_def)

lemma nx_acquire_result:
  assumes "nx_ok nx"
  obtains r nx' where "nx_acquire nx ctx = (Inr r, nx')" "nx_ok nx'" "nx_live nx' ctx r"
    "length (nx_heap nx) \<le> length (nx_heap nx')" "nx_leases nx ctx = None \<Longrightarrow> r = length (nx_heap nx)"
proof (cases "nx_leases nx ctx")
  case None
  have "nx_ok (snd (nx_acquire nx ctx))"
    using None nx_okD [OF assms] by (fastforce simp: nx_acquire_def Let_def nx_ok_def nth_append)
  with None show thesis
    by (intro that [of "length (nx_heap nx)" "snd (nx_acquire nx ctx)"]) (auto simp: nx_acquire_def nx_live_def Let_def)
next
  case (Some r)
  with nx_okD [OF assms Some] assms show thesis
    by (intro that [of r nx]) (auto simp: nx_acquire_def nx_live_def)
qed

lemma nx_release_ok:
  assumes "nx_ok nx" and "r < length (nx_heap nx)"
  shows "nx_ok (nx_release nx r)" "\<not> nx_live (nx_release nx r) ctx r"
    "length (nx_heap (nx_release nx r)) = length (nx_heap nx)"
  using nx_okD [OF assms(1)] assms
  by (auto simp: nx_ok_def nx_live_def nx_release_def Let_def nth_list_update split: if_splits)

lemma nx_release_free:
  assumes "nx_ok nx" and "r < length (nx_heap nx)" and "\<And>q. nx_live nx ctx q \<Longrightarrow> q = r"
  shows "nx_leases (nx_release nx r) ctx = None"
  using nx_okD [OF assms(1), of ctx] assms by (cases "nx_leases nx ctx") (auto simp: nx_release_def Let_def nx_live_def)

interpretation direct: proxy_provider no_proxy_provider nx_ok "\<lambda>nx r. r < length (nx_heap nx)" nx_live
proof
  fix p :: no_proxy and ctx r q now e p' r' b
  assume ok: "nx_ok p"
  show "nx_live p ctx r \<Longrightarrow> r < length (nx_heap p)" using nx_okD [OF ok] by (simp add: nx_live_def)
  show "nx_live p ctx r \<Longrightarrow> nx_live p ctx q \<Longrightarrow> q = r" by (simp add: nx_live_def)
  show "op_acquire no_proxy_provider p ctx now = (Inr r, p') \<Longrightarrow> nx_ok p' \<and> nx_live p' ctx r
      \<and> (\<forall>q. q < length (nx_heap p) \<longrightarrow> q < length (nx_heap p'))"
    by (rule nx_acquire_result [OF ok, of ctx]) (simp add: no_proxy_provider_def)
  show "op_acquire no_proxy_provider p ctx now = (Inl e, p') \<Longrightarrow> nx_ok p'
      \<and> (\<exists>m. e = Crawler (mk_err ProxyUnavailable m))
      \<and> (\<forall>q. q < length (nx_heap p) \<longrightarrow> q < length (nx_heap p'))"
    by (rule nx_acquire_result [OF ok, of ctx]) (simp add: no_proxy_provider_def)
  assume r: "r < length (nx_heap p)"
  show "nx_ok (op_release no_proxy_provider p r) \<and> \<not> nx_live (op_release no_proxy_provider p r) ctx r
      \<and> (\<lambda>q. q < length (nx_heap (op_release no_proxy_provider p r))) = (\<lambda>q. q < length (nx_heap p))"
    using nx_release_ok [OF ok r] by (simp add: no_proxy_provider_def)
  show "nx_live (op_release no_proxy_provider p r) ctx q \<Longrightarrow> nx_live p ctx q"
    by (simp add: no_proxy_provider_def nx_live_def nx_release_def Let_def split: if_splits)
  assume uniq: "\<And>q. nx_live p ctx q \<Longrightarrow> q = r"
  have free: "nx_leases (nx_release p r) ctx = None" using ok r uniq by (rule nx_release_free)
  show "op_rotate no_proxy_provider p r ctx now = (Inr r', p') \<Longrightarrow> nx_ok p' \<and> nx_live p' ctx r' \<and> r' \<noteq> r
      \<and> (\<forall>q. q < length (nx_heap p) \<longrightarrow> q < length (nx_heap p'))
      \<and> (op_proxy_id no_proxy_provider p' r' \<noteq> None \<longrightarrow> op_proxy_id no_proxy_provider p' r' \<noteq> op_proxy_id no_proxy_provider p r)"
    using free r nx_release_ok(3) [OF ok r]
    by (cases rule: nx_acquire_result [OF nx_release_ok(1) [OF ok r], of ctx])
      (simp add: no_proxy_provider_def nx_rotate_def)
  show "op_rotate no_proxy_provider p r ctx now = (Inl e, p') \<Longrightarrow> nx_ok p'
      \<and> (\<exists>m. e = Crawler (mk_err ProxyUnavailable m))
      \<and> (\<forall>q. q < length (nx_heap p) \<longrightarrow> q < length (nx_heap p')) \<and> (\<forall>q. \<not> nx_live p' ctx q)"
    by (rule nx_acquire_result [OF nx_release_ok(1) [OF ok r], of ctx]) (simp add: no_proxy_provider_def nx_rotate_def)
qed (auto simp: no_proxy_provider_def)

section \<open>Histories of a pool\<close>

inductive pl_step :: "proxy_pool \<Rightarrow> proxy_pool \<Rightarrow> bool" where
  step_acquire: "pl_step pl (snd (pl_acquire pl ctx ex now))"
| step_release: "r < length (pl_heap pl) \<Longrightarrow> pl_step pl (pl_release pl r)"
| step_rotate: "r < length (pl_heap pl) \<Longrightarrow> pl_step pl (snd (pl_rotate pl r ctx now))"
| step_success: "r < length (pl_heap pl) \<Longrightarrow> pl_step pl (pl_record_success pl r)"
| step_failure: "r < length (pl_heap pl) \<Longrightarrow> pl_step pl (snd (pl_record_failure pl r now))"
| step_cooldown: "r < length (pl_heap pl) \<Longrightarrow> pl_step pl (pl_start_cooldown pl r now)"
| step_unhealthy: "r < length (pl_heap pl) \<Longrightarrow> pl_step pl (pl_mark_unhealthy pl r)"
| step_usable: "r < length (pl_heap pl) \<Longrightarrow> pl_step pl (snd (pl_is_usable pl r now))"

inductive pl_reaches :: "proxy_pool \<Rightarrow> proxy_pool \<Rightarrow> bool" where
  pl_refl: "pl_reaches pl pl"
| pl_trans: "pl_reaches pl pl' \<Longrightarrow> pl_step pl' pl'' \<Longrightarrow> pl_reaches pl pl''"

lemma pl_ok_acquire: "pl_ok pl \<Longrightarrow> pl_ok (snd (pl_acquire pl ctx ex now))"
  using pl_acquire_result [of pl ctx ex now] by (auto split: prod.splits sum.splits)

lemma pl_step_ok:
  assumes "pl_step pl pl'" and "pl_ok pl"
  shows "pl_ok pl'"
  using assms
proof cases
  case (step_rotate r ctx now)
  then show ?thesis using assms(2) by (simp add: pl_rotate_def pl_ok_acquire pl_ok_release)
qed (use assms(2) pool.success_ok pool.cooldown_ok pool.unhealthy_ok in
    \<open>auto simp: pl_ok_acquire pl_ok_release pl_record_failure_frame pl_is_usable_frame pool_provider_def\<close>)

lemma pl_reaches_ok: "pl_reaches pl pl' \<Longrightarrow> pl_ok pl \<Longrightarrow> pl_ok pl'"
  by (induction rule: pl_reaches.induct) (auto intro: pl_step_ok)

subsection \<open>Retired endpoints\<close>

definition ep_dead :: "proxy_endpoint \<Rightarrow> bool" where
  "ep_dead ep \<longleftrightarrow> ep_state ep \<in> {UNHEALTHY, DISABLED}"

lemma ep_dead_ops [simp, intro]:
  "ep_dead ep \<Longrightarrow> ep_dead (ep_record_success ep)" "ep_dead ep \<Longrightarrow> ep_dead (snd (ep_usable ep now))"
  "ep_dead ep \<Longrightarrow> ep_dead (ep_start_cooldown ep c now)"
  "ep_dead ep \<Longrightarrow> ep_dead (snd (ep_record_failure ep t c now))" "ep_dead ep \<Longrightarrow> ep_dead (ep_mark_unhealthy ep)"
  using ep_terminal [of ep] by (simp_all add: ep_dead_def ep_mark_unhealthy_def)

text \<open>Later leases: those created since the heap had the given length, none of them on \<open>i\<close>.\<close>

definition pl_spares :: "nat \<Rightarrow> nat \<Rightarrow> proxy_pool \<Rightarrow> bool" where
  "pl_spares n i pl \<longleftrightarrow> n \<le> length (pl_heap pl) \<and> i < length (pl_endpoints pl) \<and> ep_dead (pl_endpoints pl ! i)
     \<and> (\<forall>r < length (pl_heap pl). n \<le> r \<longrightarrow> ls_endpoint (pl_heap pl ! r) \<noteq> Some i)"

lemma ep_dead_set_endpoint:
  "ep_dead (pl_endpoints pl ! i) \<Longrightarrow> (i = j \<Longrightarrow> ep_dead ep) \<Longrightarrow> ep_dead (pl_endpoints (pl_set_endpoint pl j ep) ! i)"
  by (cases "i = j"; cases "j < length (pl_endpoints pl)") (auto simp: pl_set_endpoint_def list_update_beyond)

lemma ep_dead_not_usable: "ep_dead (pl_endpoints pl ! i) \<Longrightarrow> \<not> usable_at pl now ex i"
  by (auto simp: ep_dead_def usable_at_def ep_terminal)

lemma ep_dead_select_loop:
  "ep_dead (pl_endpoints pl ! i) \<Longrightarrow> ep_dead (pl_endpoints (snd (pl_select_loop pl now ex os)) ! i)"
proof (induction os arbitrary: pl)
  case (Cons off os)
  have "ep_dead (pl_endpoints (pl_poll pl j now) ! i)" for j
    unfolding pl_poll_def using Cons.prems by (intro ep_dead_set_endpoint) auto
  with Cons show ?case by (simp add: pl_select_loop_simps Let_def)
qed (simp add: pl_select_loop_simps)

lemma pl_spares_acquire:
  assumes "pl_spares n i pl"
  shows "pl_spares n i (snd (pl_acquire pl ctx ex now))"
proof -
  define sel where "sel = pl_select pl now ex"
  have "fst sel \<noteq> Some i"
    using pl_select_Some(2) [of pl now ex i] ep_dead_not_usable [of pl i] assms by (auto simp: pl_spares_def sel_def)
  moreover have "ep_dead (pl_endpoints (snd sel) ! i)"
    unfolding pl_select_def sel_def using assms by (intro ep_dead_select_loop) (simp add: pl_spares_def)
  moreover have "pl_heap (snd sel) = pl_heap pl" "length (pl_endpoints (snd sel)) = length (pl_endpoints pl)"
    by (simp_all add: sel_def)
  ultimately have "pl_spares n i (snd sel)" "fst sel \<noteq> Some i" using assms by (simp_all add: pl_spares_def)
  then have "pl_spares n i (snd (pl_acquire_fresh pl ctx ex now))"
    unfolding pl_acquire_fresh_def sel_def [symmetric]
    by (auto simp: pl_grant_def pl_spares_def Let_def nth_append less_Suc_eq split: prod.splits)
  with assms show ?thesis by (simp add: pl_acquire_def split: option.split)
qed

lemma pl_spares_release: "pl_spares n i pl \<Longrightarrow> pl_spares n i (pl_release pl r)"
  unfolding pl_spares_def pl_release_heap pl_release_frame length_list_update
  by (metis (no_types, lifting) nth_list_update_eq nth_list_update_neq proxy_lease.select_convs(2)
    proxy_lease.surjective proxy_lease.update_convs(4))

lemma pl_spares_update:
  assumes "pl_spares n i pl" and "\<And>ep. ep_dead ep \<Longrightarrow> ep_dead (f ep)"
  shows "pl_spares n i (pl_update_endpoint f pl r)"
  using assms
  by (auto simp: pl_spares_def pl_update_endpoint_def intro!: ep_dead_set_endpoint split: option.splits)

lemma pl_record_failure_update:
  "snd (pl_record_failure pl r now) =
     pl_update_endpoint (\<lambda>ep. snd (ep_record_failure ep (pl_threshold pl) (pl_cooldown pl) now)) pl r"
  by (simp add: pl_record_failure_def pl_update_endpoint_def split: option.splits prod.splits)

lemma pl_is_usable_update:
  "snd (pl_is_usable pl r now) = pl \<or>
   snd (pl_is_usable pl r now) = pl_update_endpoint (\<lambda>ep. snd (ep_usable ep now)) pl r"
  by (auto simp: pl_is_usable_def pl_update_endpoint_def split: option.splits prod.splits)

lemma pl_spares_step:
  assumes "pl_step pl pl'" and "pl_spares n i pl"
  shows "pl_spares n i pl'"
  using assms
proof cases
  case (step_usable r now)
  then show ?thesis using assms(2) pl_is_usable_update [of pl r now]
      pl_spares_update [of n i pl "\<lambda>ep. snd (ep_usable ep now)" r] by auto
next
  case (step_rotate r ctx now)
  then show ?thesis using assms(2) by (simp add: pl_rotate_def pl_spares_acquire pl_spares_release)
qed (use assms(2) in \<open>auto simp: pl_spares_acquire pl_spares_release pl_record_success_def
      pl_record_failure_update pl_start_cooldown_def pl_mark_unhealthy_def intro!: pl_spares_update\<close>)

lemma pl_spares_reaches: "pl_reaches pl pl' \<Longrightarrow> pl_spares n i pl \<Longrightarrow> pl_spares n i pl'"
  by (induction rule: pl_reaches.induct) (auto intro: pl_spares_step)

section \<open>Properties\<close>

text \<open>
  C35: A context that holds no lease gets the first endpoint, in round-robin order from the pool's
  next index, that is neither excluded nor unhealthy nor cooling down, and the pool moves its next
  index behind it; when there is no such endpoint the lease is a direct one if the fallback is
  enabled, and otherwise \<open>ProxyUnavailable\<close> is raised and no lease is created.
\<close>

theorem acquire_round_robin:
  assumes "pl_ok pl" and "pl_leases pl ctx = None"
  shows "case find (\<lambda>i. excluded \<noteq> Some (ep_proxy_id (pl_endpoints pl ! i)) \<and> fst (ep_usable (pl_endpoints pl ! i) now))
           (map (\<lambda>k. (pl_next_index pl + k) mod length (pl_endpoints pl)) [0..<length (pl_endpoints pl)]) of
      Some i \<Rightarrow> \<exists>pl' r. pl_acquire pl ctx excluded now = (Inr r, pl') \<and> pl_live pl' ctx r
                  \<and> ls_endpoint (pl_lease pl' r) = Some i \<and> pl_next_index pl' = (i + 1) mod length (pl_endpoints pl)
    | None \<Rightarrow> if pl_direct_fallback pl
              then \<exists>pl' r. pl_acquire pl ctx excluded now = (Inr r, pl') \<and> pl_live pl' ctx r \<and> pl_is_direct pl' r
              else \<exists>pl' m. pl_acquire pl ctx excluded now = (Inl (Crawler (mk_err ProxyUnavailable m)), pl')
                  \<and> pl_heap pl' = pl_heap pl \<and> pl_leases pl' = pl_leases pl"
proof -
  define sel where "sel = pl_select pl now excluded"
  have find: "find (\<lambda>i. excluded \<noteq> Some (ep_proxy_id (pl_endpoints pl ! i)) \<and> fst (ep_usable (pl_endpoints pl ! i) now))
      (map (\<lambda>k. (pl_next_index pl + k) mod length (pl_endpoints pl)) [0..<length (pl_endpoints pl)]) = fst sel"
    by (simp add: sel_def pl_select_def pl_select_loop_find usable_at_def [abs_def] rr_index_def [abs_def])
  have frame: "pl_heap (snd sel) = pl_heap pl" "pl_leases (snd sel) = pl_leases pl"
    "pl_direct_fallback (snd sel) = pl_direct_fallback pl" by (simp_all add: sel_def)
  have acq: "pl_acquire pl ctx excluded now =
      (if fst sel = None \<and> \<not> pl_direct_fallback pl
       then (Inl (Crawler (mk_err ProxyUnavailable ''no usable proxy is available'')), snd sel)
       else (Inr (length (pl_heap pl)), snd (pl_grant (snd sel) ctx (fst sel) now)))"
    using frame unfolding pl_acquire_free [OF assms(2)] pl_acquire_fresh_def sel_def [symmetric]
    by (auto simp: pl_grant_def Let_def split: prod.splits)
  have nxt: "fst sel = Some i \<Longrightarrow> pl_next_index (snd sel) = (i + 1) mod length (pl_endpoints pl)" for i
    unfolding sel_def pl_select_def by (rule pl_select_loop_next)
  show ?thesis
    unfolding find using frame nxt
    by (auto simp: acq pl_grant_def Let_def pl_live_def pl_lease_def pl_is_direct_def nth_append split: option.split)
qed

text \<open>A pool of two endpoints, for the witnesses.\<close>

definition two_proxies :: proxy_pool where
  "two_proxies = projr (new_proxy_pool [''http://a:1'', ''http://b:2''] 2 30 False)"

lemma two_proxies_new: "new_proxy_pool [''http://a:1'', ''http://b:2''] 2 30 False = Inr two_proxies"
  by (simp add: two_proxies_def new_proxy_pool_def is_blank_iff is_space_def)

lemma two_proxies_empty: "pl_leases two_proxies ctx = None"
  by (simp add: two_proxies_def new_proxy_pool_def is_blank_iff is_space_def)

theorem acquire_round_robin_witness:
  "\<exists>pl' r. pl_acquire two_proxies ''app'' None 0 = (Inr r, pl') \<and> pl_live pl' ''app'' r
     \<and> ls_endpoint (pl_lease pl' r) = Some 0 \<and> pl_next_index pl' = 1"
proof -
  have "find (\<lambda>i. None \<noteq> Some (ep_proxy_id (pl_endpoints two_proxies ! i)) \<and> fst (ep_usable (pl_endpoints two_proxies ! i) 0))
      (map (\<lambda>k. (pl_next_index two_proxies + k) mod length (pl_endpoints two_proxies))
        [0..<length (pl_endpoints two_proxies)]) = Some 0" "length (pl_endpoints two_proxies) = 2"
    by code_simp+
  then show ?thesis
    using acquire_round_robin [OF pl_ok_new [OF two_proxies_new] two_proxies_empty, where excluded = None and now = 0 and ctx = "''app''"]
    by simp
qed

text \<open>
  C36: Along every history of a pool, whatever operations its clients interleave, a context has at
  most one unreleased lease; it is the one the table holds, and acquiring for the context again
  returns that same lease and changes nothing.
\<close>

theorem one_lease_per_context:
  assumes "new_proxy_pool urls threshold cooldown fallback = Inr pl\<^sub>0" and "pl_reaches pl\<^sub>0 pl"
    and "r < length (pl_heap pl)" and "ls_context (pl_lease pl r) = ctx" and "\<not> ls_released (pl_lease pl r)"
  shows "pl_acquire pl ctx excluded now = (Inr r, pl)
    \<and> (\<forall>q < length (pl_heap pl). ls_context (pl_lease pl q) = ctx \<and> \<not> ls_released (pl_lease pl q) \<longrightarrow> q = r)"
proof -
  have ok: "pl_ok pl" using assms(1,2) by (blast intro: pl_ok_new pl_reaches_ok)
  have "pl_live pl ctx r" using assms(3-5) by (simp add: pl_live_iff [OF ok] pl_lease_def)
  moreover have "q = r" if "q < length (pl_heap pl)" "ls_context (pl_lease pl q) = ctx" "\<not> ls_released (pl_lease pl q)" for q
    using that pool.live_unique [OF ok calculation, of q] by (simp add: pl_live_iff [OF ok] pl_lease_def)
  ultimately show ?thesis using pl_acquire_live [OF ok] by blast
qed

lemma two_proxies_leased:
  "pl_reaches two_proxies (snd (pl_acquire two_proxies ''app'' None 0))"
  by (rule pl_trans [OF pl_refl step_acquire])

theorem one_lease_per_context_witness:
  "pl_acquire (snd (pl_acquire two_proxies ''app'' None 0)) ''app'' None 9 = (Inr 0, snd (pl_acquire two_proxies ''app'' None 0))"
proof -
  let ?pl = "snd (pl_acquire two_proxies ''app'' None 0)"
  have "0 < length (pl_heap ?pl)" "ls_context (pl_lease ?pl 0) = ''app''" "\<not> ls_released (pl_lease ?pl 0)"
    by code_simp+
  then show ?thesis
    using one_lease_per_context [OF two_proxies_new two_proxies_leased] by blast
qed

text \<open>
  C37: Rotating the live lease of a context releases it and, when it succeeds, gives the context
  another live lease whose proxy is not the one rotated away from; when it raises, the error is
  \<open>ProxyUnavailable\<close> and the old lease is no longer live. This holds of every provider the
  container builds, the pool and the one without proxies.
\<close>

theorem rotation_changes_egress:
  assumes "pl_ok pl" and "pl_live pl ctx r" and "nx_ok nx" and "nx_live nx ctx q"
  shows "(case pl_rotate pl r ctx now of
      (Inr r', pl') \<Rightarrow> pl_live pl' ctx r' \<and> \<not> pl_live pl' ctx r
         \<and> (\<forall>p. pl_proxy_id pl' r' = Some p \<longrightarrow> pl_proxy_id pl r \<noteq> Some p)
    | (Inl e, pl') \<Rightarrow> (\<exists>m. e = Crawler (mk_err ProxyUnavailable m)) \<and> \<not> pl_live pl' ctx r)
    \<and> (\<exists>q' nx'. nx_rotate nx q ctx = (Inr q', nx') \<and> nx_live nx' ctx q' \<and> \<not> nx_live nx' ctx q)"
proof
  have r: "r < length (pl_heap pl)" and u: "\<And>x. pl_live pl ctx x \<Longrightarrow> x = r"
    using pool.live_known [OF assms(1,2)] pool.live_unique [OF assms(1,2)] by auto
  show "case pl_rotate pl r ctx now of
      (Inr r', pl') \<Rightarrow> pl_live pl' ctx r' \<and> \<not> pl_live pl' ctx r
         \<and> (\<forall>p. pl_proxy_id pl' r' = Some p \<longrightarrow> pl_proxy_id pl r \<noteq> Some p)
    | (Inl e, pl') \<Rightarrow> (\<exists>m. e = Crawler (mk_err ProxyUnavailable m)) \<and> \<not> pl_live pl' ctx r"
    using pool.rotate_ok [OF assms(1) r u, of ctx now] pool.rotate_err [OF assms(1) r u, of ctx now]
      pool.rotate_live_ok [OF assms(1,2), of now]
    by (fastforce simp: pool_provider_def split: prod.splits sum.splits)
  have q: "q < length (nx_heap nx)" using direct.live_known [OF assms(3,4)] .
  obtain q' nx' where rot: "nx_rotate nx q ctx = (Inr q', nx')"
    using nx_acquire_result [OF nx_release_ok(1) [OF assms(3) q], of ctx] unfolding nx_rotate_def by metis
  then show "\<exists>q' nx'. nx_rotate nx q ctx = (Inr q', nx') \<and> nx_live nx' ctx q' \<and> \<not> nx_live nx' ctx q"
    using direct.rotate_live_ok [OF assms(3,4), of now] by (simp add: no_proxy_provider_def)
qed

theorem rotation_changes_egress_witness:
  "case pl_rotate (snd (pl_acquire two_proxies ''app'' None 0)) 0 ''app'' 5 of
      (Inr r', pl') \<Rightarrow> pl_live pl' ''app'' r' \<and> \<not> pl_live pl' ''app'' 0
         \<and> (\<forall>p. pl_proxy_id pl' r' = Some p \<longrightarrow> pl_proxy_id (snd (pl_acquire two_proxies ''app'' None 0)) 0 \<noteq> Some p)
    | (Inl e, pl') \<Rightarrow> (\<exists>m. e = Crawler (mk_err ProxyUnavailable m)) \<and> \<not> pl_live pl' ''app'' 0"
proof -
  let ?pl = "snd (pl_acquire two_proxies ''app'' None 0)" and ?nx = "snd (nx_acquire new_no_proxy ''app'')"
  have "pl_ok ?pl" by (intro pl_ok_acquire pl_ok_new [OF two_proxies_new])
  moreover have "pl_live ?pl ''app'' 0" unfolding pl_live_def by code_simp
  moreover have "nx_ok ?nx" "nx_live ?nx ''app'' 0"
    by (auto simp: nx_ok_def nx_live_def nx_acquire_def new_no_proxy_def Let_def split: if_splits)
  ultimately show ?thesis by (rule rotation_changes_egress [THEN conjunct1])
qed

text \<open>
  An endpoint that a client marked unhealthy is retired for the life of the process: along
  every further history of the pool it stays unhealthy (or disabled) and no lease created from then
  on uses it, whatever successes and cooldowns are recorded on old leases.
\<close>

theorem unhealthy_endpoint_never_leased_again:
  assumes "pl_ok pl" and "r < length (pl_heap pl)" and "ls_endpoint (pl_lease pl r) = Some i"
    and "pl_reaches (pl_mark_unhealthy pl r) pl'"
  shows "ep_state (pl_endpoints pl' ! i) \<in> {UNHEALTHY, DISABLED}
    \<and> (\<forall>q. length (pl_heap pl) \<le> q \<and> q < length (pl_heap pl') \<longrightarrow> ls_endpoint (pl_lease pl' q) \<noteq> Some i)"
proof -
  have "i < length (pl_endpoints pl)" using pl_endpoint_bound [OF assms(1-3)] .
  then have "pl_spares (length (pl_heap pl)) i (pl_mark_unhealthy pl r)"
    using assms(3) by (auto simp: pl_spares_def pl_mark_unhealthy_def pl_update_endpoint_def pl_set_endpoint_def
      ep_dead_def ep_mark_unhealthy_def)
  from pl_spares_reaches [OF assms(4) this] show ?thesis
    by (auto simp: pl_spares_def ep_dead_def pl_lease_def)
qed

theorem unhealthy_endpoint_never_leased_again_witness:
  "ep_state (pl_endpoints (snd (pl_rotate (pl_mark_unhealthy (snd (pl_acquire two_proxies ''app'' None 0)) 0) 0 ''app'' 4)) ! 0)
     \<in> {UNHEALTHY, DISABLED}"
proof -
  let ?pl = "snd (pl_acquire two_proxies ''app'' None 0)"
  have "pl_ok ?pl" by (intro pl_ok_acquire pl_ok_new [OF two_proxies_new])
  moreover have "0 < length (pl_heap ?pl)" "ls_endpoint (pl_lease ?pl 0) = Some 0" "0 < length (pl_heap (pl_mark_unhealthy ?pl 0))"
    by code_simp+
  ultimately show ?thesis
    using unhealthy_endpoint_never_leased_again [of ?pl 0 0] pl_trans [OF pl_refl step_rotate] by blast
qed

end
