(* ===== verification/Crawl_Policies.thy ===== *)
theory Crawl_Policies
  imports Proxy_Pool
begin

text \<open>
  The policies the Play Store client composes (\<open>crawler/application/policies\<close>): retries with
  exponential backoff (\<open>retry.py\<close>), egress health and rotation (\<open>network.py\<close>) and the choice of the
  secondary adapter (\<open>adapter.py\<close>).

  An effectful call is a function from a state to its outcome and the next state, an exception
  being an outcome (\<open>act\<close>). The retry loop itself is the library \<open>tenacity\<close>: it is a parameter of
  \<open>rp_execute\<close>, and \<open>tenacity_contract\<close> states the documented meaning of the arguments that
  \<open>RetryPolicy.execute\<close> passes to it.
\<close>

type_synonym ('s, 'r) act = "'s \<Rightarrow> (exn + 'r) \<times> 's"

definition act_return :: "'r \<Rightarrow> ('s, 'r) act" where
  "act_return r s = (Inr r, s)"

definition act_raise :: "exn \<Rightarrow> ('s, 'r) act" where
  "act_raise e s = (Inl e, s)"

text \<open>Sequencing: the rest runs only when the first call returns.\<close>

definition act_bind :: "('s, 'a) act \<Rightarrow> ('a \<Rightarrow> ('s, 'b) act) \<Rightarrow> ('s, 'b) act" where
  "act_bind m k s = (case m s of (Inl e, s') \<Rightarrow> (Inl e, s') | (Inr a, s') \<Rightarrow> k a s')"

definition act_update :: "('s \<Rightarrow> 's) \<Rightarrow> ('s, unit) act" where
  "act_update f s = (Inr (), f s)"

text \<open>\<open>try: m except: h\<close>, where the handler may raise again.\<close>

definition act_catch :: "('s, 'r) act \<Rightarrow> (exn \<Rightarrow> ('s, 'r) act) \<Rightarrow> ('s, 'r) act" where
  "act_catch m h s = (case m s of (Inl e, s') \<Rightarrow> h e s' | (Inr a, s') \<Rightarrow> (Inr a, s'))"

lemmas act_defs = act_return_def act_raise_def act_bind_def act_update_def act_catch_def

section \<open>Retry policy\<close>

record retry_policy =
  rp_max_attempts :: int
  rp_max_delay :: seconds

definition new_retry_policy :: "int \<Rightarrow> seconds \<Rightarrow> exn + retry_policy" where
  "new_retry_policy max_attempts max_delay_seconds =
     (if max_attempts < 1 then Inl (value_error ''retry attempts must be at least one'')
      else if max_delay_seconds \<le> 0 then Inl (value_error ''maximum retry delay must be positive'')
      else Inr \<lparr>rp_max_attempts = max_attempts, rp_max_delay = max_delay_seconds\<rparr>)"

definition is_retryable :: "exn \<Rightarrow> bool" where
  "is_retryable e = (case e of
     Crawler c \<Rightarrow> if err_isinstance c [AccessForbidden, ProxyAuthenticationFailure]
                  then retry_with_new_egress c
                  else err_isinstance c [RateLimited, NetworkTimeout, TemporaryConnectionFailure,
                         ProxyConnectionFailure, UpstreamFailure]
   | _ \<Rightarrow> False)"

definition delay_for :: "retry_policy \<Rightarrow> rat \<Rightarrow> int \<Rightarrow> exn option \<Rightarrow> seconds" where
  "delay_for rp random attempt_number error =
     (let backoff = min (2 ^ nat (max 0 (attempt_number - 1)) + random) (rp_max_delay rp)
      in case error of
           Some (Crawler c) \<Rightarrow>
             (if err_isinstance c [RateLimited, UpstreamFailure]
              then (case retry_after_seconds c of Some ra \<Rightarrow> max backoff ra | None \<Rightarrow> backoff)
              else backoff)
         | _ \<Rightarrow> backoff)"

text \<open>
  The arguments of \<open>Retrying\<close>: the attempt number to stop at, the retry condition, the wait
  function, the sleep, the hook before the sleep, and the body of the attempt. The clock and the
  random source are effects on the state.
\<close>

type_synonym ('s, 'r) retrying =
  "int \<Rightarrow> (exn \<Rightarrow> bool) \<Rightarrow> (int \<Rightarrow> exn \<Rightarrow> 's \<Rightarrow> seconds \<times> 's) \<Rightarrow> (seconds \<Rightarrow> 's \<Rightarrow> 's) \<Rightarrow> (exn \<Rightarrow> ('s, unit) act)
     \<Rightarrow> (int \<Rightarrow> ('s, 'r) act) \<Rightarrow> ('s, 'r) act"

record 's clock_ports =
  cp_now :: "'s \<Rightarrow> seconds"
  cp_sleep :: "seconds \<Rightarrow> 's \<Rightarrow> 's"
  cp_random :: "'s \<Rightarrow> rat \<times> 's"

definition rp_wait :: "'s clock_ports \<Rightarrow> retry_policy \<Rightarrow> int \<Rightarrow> exn \<Rightarrow> 's \<Rightarrow> seconds \<times> 's" where
  "rp_wait cp rp n e s = (case cp_random cp s of (u, s') \<Rightarrow> (delay_for rp u n (Some e), s'))"

definition rp_execute ::
  "('s, 'r) retrying \<Rightarrow> 's clock_ports \<Rightarrow> retry_policy \<Rightarrow> (int \<Rightarrow> ('s, 'r) act) \<Rightarrow> (exn \<Rightarrow> ('s, unit) act) option
     \<Rightarrow> ('s, 'r) act" where
  "rp_execute retrying cp rp operation before_retry =
     retrying (rp_max_attempts rp) is_retryable
       (rp_wait cp rp) (cp_sleep cp)
       (\<lambda>e s. case before_retry of None \<Rightarrow> (Inr (), s) | Some hook \<Rightarrow> hook e s)
       operation"

text \<open>
  One round of the loop: a result ends it; an exception ends it, re-raised, when the condition
  rejects it or the attempt is the last one; otherwise the hook runs (its exception ends the loop),
  then the sleep, then the next attempt.
\<close>

definition retry_round ::
  "int \<Rightarrow> (exn \<Rightarrow> bool) \<Rightarrow> (int \<Rightarrow> exn \<Rightarrow> 's \<Rightarrow> seconds \<times> 's) \<Rightarrow> (seconds \<Rightarrow> 's \<Rightarrow> 's) \<Rightarrow> (exn \<Rightarrow> ('s, unit) act)
     \<Rightarrow> (int \<Rightarrow> ('s, 'r) act) \<Rightarrow> (int \<Rightarrow> ('s, 'r) act) \<Rightarrow> int \<Rightarrow> ('s, 'r) act" where
  "retry_round stop retry wait sleep before operation again n s =
     (case operation n s of
        (Inr r, s1) \<Rightarrow> (Inr r, s1)
      | (Inl e, s1) \<Rightarrow>
          (if \<not> retry e then (Inl e, s1)
           else case wait n e s1 of (d, s2) \<Rightarrow>
             if n \<ge> stop then (Inl e, s2)
             else case before e s2 of
                    (Inl e', s3) \<Rightarrow> (Inl e', s3)
                  | (Inr _, s3) \<Rightarrow> again (n + 1) (sleep d s3)))"

definition tenacity_contract :: "('s, 'r) retrying \<Rightarrow> bool" where
  "tenacity_contract retrying \<longleftrightarrow> (\<forall>stop retry wait sleep before operation. \<exists>loop.
     (\<forall>s. retrying stop retry wait sleep before operation s = loop 1 s)
     \<and> (\<forall>n s. loop n s = retry_round stop retry wait sleep before operation loop n s))"

text \<open>An executable loop that meets the contract, and the only one up to the attempt limit.\<close>

function retry_from ::
  "int \<Rightarrow> (exn \<Rightarrow> bool) \<Rightarrow> (int \<Rightarrow> exn \<Rightarrow> 's \<Rightarrow> seconds \<times> 's) \<Rightarrow> (seconds \<Rightarrow> 's \<Rightarrow> 's) \<Rightarrow> (exn \<Rightarrow> ('s, unit) act)
     \<Rightarrow> (int \<Rightarrow> ('s, 'r) act) \<Rightarrow> int \<Rightarrow> ('s, 'r) act" where
  "retry_from stop retry wait sleep before operation n s =
     (case operation n s of
        (Inr r, s1) \<Rightarrow> (Inr r, s1)
      | (Inl e, s1) \<Rightarrow>
          (if \<not> retry e then (Inl e, s1)
           else case wait n e s1 of (d, s2) \<Rightarrow>
             if n \<ge> stop then (Inl e, s2)
             else case before e s2 of
                    (Inl e', s3) \<Rightarrow> (Inl e', s3)
                  | (Inr _, s3) \<Rightarrow> retry_from stop retry wait sleep before operation (n + 1) (sleep d s3)))"
  by pat_completeness auto
termination by (relation "measure (\<lambda>(stop, _, _, _, _, _, n, _). nat (stop - n))") auto

declare retry_from.simps [simp del]

definition tenacity_retrying :: "('s, 'r) retrying" where
  "tenacity_retrying stop retry wait sleep before operation = retry_from stop retry wait sleep before operation 1"

lemma retry_from_round:
  "retry_from stop retry wait sleep before operation n s =
     retry_round stop retry wait sleep before operation (retry_from stop retry wait sleep before operation) n s"
  unfolding retry_round_def by (subst retry_from.simps) (rule refl)

lemma tenacity_retrying_contract: "tenacity_contract (tenacity_retrying :: ('s, 'r) retrying)"
  unfolding tenacity_contract_def
proof (intro allI)
  fix stop retry wait sleep before and operation :: "int \<Rightarrow> ('s, 'r) act"
  let ?loop = "retry_from stop retry wait sleep before operation"
  show "\<exists>loop. (\<forall>s. tenacity_retrying stop retry wait sleep before operation s = loop 1 s)
      \<and> (\<forall>n s. loop n s = retry_round stop retry wait sleep before operation loop n s)"
  proof (rule exI [of _ ?loop], intro conjI allI)
    show "tenacity_retrying stop retry wait sleep before operation s = ?loop 1 s" for s
      by (simp add: tenacity_retrying_def)
    show "?loop n s = retry_round stop retry wait sleep before operation ?loop n s" for n s
      by (rule retry_from_round)
  qed
qed

lemma retry_loop_unique:
  assumes "\<And>n s. loop n s = retry_round stop retry wait sleep before operation loop n s"
  shows "loop n s = retry_from stop retry wait sleep before operation n s"
proof (induction "nat (stop - n)" arbitrary: n s rule: less_induct)
  case less
  have "loop (n + 1) t = retry_from stop retry wait sleep before operation (n + 1) t" if "n < stop" for t
    using that by (intro less) auto
  then show ?case
    by (subst assms, subst retry_from_round) (auto simp: retry_round_def split: prod.splits sum.splits)
qed

lemma tenacity_unique:
  "tenacity_contract retrying \<Longrightarrow> retrying = tenacity_retrying"
proof (intro ext)
  fix stop retry wait sleep before operation s
  assume "tenacity_contract retrying"
  then obtain loop where "\<And>s. retrying stop retry wait sleep before operation s = loop 1 s"
    and "\<And>n s. loop n s = retry_round stop retry wait sleep before operation loop n s"
    unfolding tenacity_contract_def by blast
  then show "retrying stop retry wait sleep before operation s = tenacity_retrying stop retry wait sleep before operation s"
    unfolding tenacity_retrying_def using retry_loop_unique by metis
qed

lemmas rp_execute_loop = rp_execute_def tenacity_retrying_def

section \<open>Network policy\<close>

record network_policy =
  np_threshold :: int
  np_rate_limits :: "string \<Rightarrow> int option"

definition new_network_policy :: "int \<Rightarrow> exn + network_policy" where
  "new_network_policy rate_limit_rotate_after =
     (if rate_limit_rotate_after < 1
      then Inl (value_error ''rate-limit rotation threshold must be at least one'')
      else Inr \<lparr>np_threshold = rate_limit_rotate_after, np_rate_limits = Map.empty\<rparr>)"

definition egress_identity :: "'p proxy_ops \<Rightarrow> 'p \<Rightarrow> lease_ref \<Rightarrow> string" where
  "egress_identity ops p lease = (case op_proxy_id ops p lease of
     Some i \<Rightarrow> if i = [] then ''direct'' else i | None \<Rightarrow> ''direct'')"

definition rotate_if ::
  "bool \<Rightarrow> 'p proxy_ops \<Rightarrow> 'p \<Rightarrow> lease_ref \<Rightarrow> string \<Rightarrow> seconds \<Rightarrow> (exn + lease_ref) \<times> 'p" where
  "rotate_if allow_rotation ops p lease ctx now =
     (if allow_rotation then op_rotate ops p lease ctx now else (Inr lease, p))"

definition np_handle_failure ::
  "'p proxy_ops \<Rightarrow> seconds \<Rightarrow> exn \<Rightarrow> lease_ref \<Rightarrow> string \<Rightarrow> bool \<Rightarrow> 'p \<Rightarrow> network_policy
     \<Rightarrow> (exn + lease_ref) \<times> 'p \<times> network_policy" where
  "np_handle_failure ops now error lease ctx allow_rotation p np =
     (let is_a = (\<lambda>cs. case error of Crawler e \<Rightarrow> err_isinstance e cs | _ \<Rightarrow> False);
          on_np = (\<lambda>np (r, p). (r, p, np))
      in if is_a [AccessForbidden] then
           (if op_is_direct ops p lease then (Inr lease, p, np)
            else on_np np (rotate_if allow_rotation ops (op_start_cooldown ops p lease now) lease ctx now))
         else if is_a [ProxyAuthenticationFailure] then
           (if op_is_direct ops p lease then (Inr lease, p, np)
            else on_np np (rotate_if allow_rotation ops (op_mark_unhealthy ops p lease) lease ctx now))
         else if is_a [RateLimited] then
           (let identity = egress_identity ops p lease;
                count = (case np_rate_limits np identity of Some k \<Rightarrow> k | None \<Rightarrow> 0) + 1;
                np' = np\<lparr>np_rate_limits := (np_rate_limits np)(identity \<mapsto> count)\<rparr>
            in if count \<ge> np_threshold np \<and> \<not> op_is_direct ops p lease
               then on_np np' (rotate_if allow_rotation ops (op_start_cooldown ops p lease now) lease ctx now)
               else (Inr lease, p, np'))
         else if is_a [ProxyConnectionFailure, NetworkTimeout, TemporaryConnectionFailure, GatewayFailure] then
           (case op_record_failure ops p lease now of (tripped, p') \<Rightarrow>
              if tripped then on_np np (rotate_if allow_rotation ops p' lease ctx now) else (Inr lease, p', np))
         else (Inr lease, p, np))"

definition np_record_success ::
  "'p proxy_ops \<Rightarrow> lease_ref \<Rightarrow> 'p \<Rightarrow> network_policy \<Rightarrow> 'p \<times> network_policy" where
  "np_record_success ops lease p np =
     (let p' = op_record_success ops p lease
      in (p', np\<lparr>np_rate_limits := (np_rate_limits np)(egress_identity ops p' lease := None)\<rparr>))"

section \<open>Adapter fallback policy\<close>

definition should_use_secondary :: "bool \<Rightarrow> exn \<Rightarrow> bool" where
  "should_use_secondary secondary_enabled error \<longleftrightarrow> secondary_enabled \<and> (case error of
     Crawler e \<Rightarrow> err_isinstance e [ParseFailure, SchemaFailure, AdapterFailure] | _ \<Rightarrow> False)"

section \<open>Delays\<close>

lemma retryable_class:
  "is_retryable (Crawler c) \<longleftrightarrow> (if err_class c \<in> {AccessForbidden, ProxyAuthenticationFailure} then retry_with_new_egress c
     else err_class c \<in> {RateLimited, NetworkTimeout, TemporaryConnectionFailure, ProxyConnectionFailure,
                          UpstreamFailure, GatewayFailure})"
  by (auto simp: is_retryable_def err_isinstance_def is_subclass_simps)

lemma not_retryable [simp]: "\<not> is_retryable (Py p)" "\<not> is_retryable (ValidationError m)"
    "\<not> is_retryable (ExceptionGroup m es)"
  by (simp_all add: is_retryable_def)

definition asked_delay :: "exn \<Rightarrow> seconds option" where
  "asked_delay e = (case e of
     Crawler c \<Rightarrow> if err_class c \<in> {RateLimited, UpstreamFailure, GatewayFailure} then retry_after_seconds c else None
   | _ \<Rightarrow> None)"

definition backoff :: "retry_policy \<Rightarrow> rat \<Rightarrow> int \<Rightarrow> seconds" where
  "backoff rp random n = min (2 ^ nat (max 0 (n - 1)) + random) (rp_max_delay rp)"

lemma delay_for_eq:
  "delay_for rp u n (Some e) = (case asked_delay e of Some ra \<Rightarrow> max (backoff rp u n) ra | None \<Rightarrow> backoff rp u n)"
  by (auto simp: delay_for_def asked_delay_def backoff_def Let_def err_isinstance_def is_subclass_simps
    split: exn.splits option.splits)

section \<open>Attempts\<close>

text \<open>
  The state in which attempt \<open>k + 1\<close> starts, if the first \<open>k\<close> attempts all failed retryably and
  no hook raised.
\<close>

fun after_failures ::
  "(exn \<Rightarrow> bool) \<Rightarrow> (int \<Rightarrow> exn \<Rightarrow> 's \<Rightarrow> seconds \<times> 's) \<Rightarrow> (seconds \<Rightarrow> 's \<Rightarrow> 's) \<Rightarrow> (exn \<Rightarrow> ('s, unit) act)
     \<Rightarrow> (int \<Rightarrow> ('s, 'r) act) \<Rightarrow> int \<Rightarrow> nat \<Rightarrow> 's \<Rightarrow> 's option" where
  "after_failures retry wait sleep before operation n 0 s = Some s"
| "after_failures retry wait sleep before operation n (Suc k) s =
     (case operation n s of
        (Inr r, s1) \<Rightarrow> None
      | (Inl e, s1) \<Rightarrow>
          if \<not> retry e then None
          else case wait n e s1 of (d, s2) \<Rightarrow>
            (case before e s2 of
               (Inl e', s3) \<Rightarrow> None
             | (Inr _, s3) \<Rightarrow> after_failures retry wait sleep before operation (n + 1) k (sleep d s3)))"

lemma retry_from_success:
  "retry_from stop retry wait sleep before operation n s = (Inr r, s') \<longleftrightarrow>
     (\<exists>k. (k = 0 \<or> n + int k \<le> stop)
        \<and> (\<exists>s1. after_failures retry wait sleep before operation n k s = Some s1
              \<and> operation (n + int k) s1 = (Inr r, s')))"
proof (induction stop retry wait sleep before operation n s rule: retry_from.induct)
  case (1 stop retry wait sleep before operation n s)
  have ex: "(\<exists>k. (k = 0 \<or> n + int k \<le> stop) \<and> P k) \<longleftrightarrow> P 0 \<or> (\<exists>k. n + 1 + int k \<le> stop \<and> P (Suc k))" for P
  proof
    assume "\<exists>k. (k = 0 \<or> n + int k \<le> stop) \<and> P k"
    then obtain k where "k = 0 \<or> n + int k \<le> stop" "P k" by blast
    then show "P 0 \<or> (\<exists>k. n + 1 + int k \<le> stop \<and> P (Suc k))" by (cases k) (auto simp: algebra_simps)
  next
    assume "P 0 \<or> (\<exists>k. n + 1 + int k \<le> stop \<and> P (Suc k))"
    then show "\<exists>k. (k = 0 \<or> n + int k \<le> stop) \<and> P k"
    proof
      assume "\<exists>k. n + 1 + int k \<le> stop \<and> P (Suc k)"
      then obtain k where "n + 1 + int k \<le> stop" "P (Suc k)" by blast
      then show ?thesis by (intro exI [of _ "Suc k"]) auto
    qed blast
  qed
  have suc: "n + int (Suc k) = n + 1 + int k" for k by simp
  have le: "(k = 0 \<or> n + 1 + int k \<le> stop) \<longleftrightarrow> n + 1 + int k \<le> stop" if "n < stop" for k using that by auto
  show ?case
    unfolding ex
    by (subst retry_from.simps)
      (auto simp: 1 le suc simp del: of_nat_Suc split: prod.splits sum.splits)
qed

text \<open>
  The loop raises \<open>e\<close> at the given attempt: the attempt's own error, when it is not retryable or
  the attempt is the last one, or the error of the hook that follows it.
\<close>

definition raises_at ::
  "int \<Rightarrow> (exn \<Rightarrow> bool) \<Rightarrow> (int \<Rightarrow> exn \<Rightarrow> 's \<Rightarrow> seconds \<times> 's) \<Rightarrow> (exn \<Rightarrow> ('s, unit) act)
     \<Rightarrow> (int \<Rightarrow> ('s, 'r) act) \<Rightarrow> int \<Rightarrow> 's \<Rightarrow> exn \<Rightarrow> bool" where
  "raises_at stop retry wait before operation n s e \<longleftrightarrow>
     (case operation n s of
        (Inr r, s1) \<Rightarrow> False
      | (Inl e1, s1) \<Rightarrow> if \<not> retry e1 \<or> stop \<le> n then e = e1
                        else fst (before e1 (snd (wait n e1 s1))) = Inl e)"

lemma retry_from_failure:
  assumes "retry_from stop retry wait sleep before operation n s = (Inl e, s')"
  shows "\<exists>k. (k = 0 \<or> n + int k \<le> stop) \<and> (\<exists>s1. after_failures retry wait sleep before operation n k s = Some s1
     \<and> raises_at stop retry wait before operation (n + int k) s1 e)"
  using assms
proof (induction stop retry wait sleep before operation n s rule: retry_from.induct)
  case (1 stop retry wait sleep before operation n s)
  note unfolded = 1(2) [unfolded retry_from.simps [of stop retry wait sleep before operation n s]]
  show ?case
  proof (cases "raises_at stop retry wait before operation n s e")
    case True
    then show ?thesis by (intro exI [of _ 0]) simp
  next
    case False
    then obtain e1 s2 d s3 s4 where op: "operation n s = (Inl e1, s2)" and re: "retry e1" "n < stop"
      and wait: "wait n e1 s2 = (d, s3)" and hook: "before e1 s3 = (Inr (), s4)"
      and rec: "retry_from stop retry wait sleep before operation (n + 1) (sleep d s4) = (Inl e, s')"
      using unfolded by (auto simp: raises_at_def split: prod.splits sum.splits if_splits)
    note IH = 1(1) [OF op [symmetric] refl _ wait [symmetric] _ hook [symmetric] refl rec]
    obtain k s1 where k: "k = 0 \<or> n + 1 + int k \<le> stop"
      and s1: "after_failures retry wait sleep before operation (n + 1) k (sleep d s4) = Some s1"
        "raises_at stop retry wait before operation (n + 1 + int k) s1 e"
      using IH re by auto
    have suc: "n + int (Suc k) = n + 1 + int k" by simp
    show ?thesis using k s1 op re wait hook
      by (intro exI [of _ "Suc k"]) (auto simp: suc simp del: of_nat_Suc)
  qed
qed

section \<open>Invariants of effectful code\<close>

definition keeps :: "('s \<Rightarrow> bool) \<Rightarrow> ('s, 'r) act \<Rightarrow> bool" where
  "keeps I m \<longleftrightarrow> (\<forall>s. I s \<longrightarrow> I (snd (m s)))"

lemma keepsI: "(\<And>s. I s \<Longrightarrow> I (snd (m s))) \<Longrightarrow> keeps I m"
  by (simp add: keeps_def)

lemma keepsD: "keeps I m \<Longrightarrow> I s \<Longrightarrow> m s = (r, s') \<Longrightarrow> I s'"
  unfolding keeps_def by (metis snd_conv)

lemma keeps_return [intro]: "keeps I (act_return r)" and keeps_raise [intro]: "keeps I (act_raise e)"
  by (simp_all add: keeps_def act_defs)

lemma keeps_update [intro]: "(\<And>s. I s \<Longrightarrow> I (f s)) \<Longrightarrow> keeps I (act_update f)"
  by (simp add: keeps_def act_defs)

lemma keeps_bind [intro]: "keeps I m \<Longrightarrow> (\<And>a. keeps I (k a)) \<Longrightarrow> keeps I (act_bind m k)"
  by (auto simp: keeps_def act_bind_def split: prod.splits sum.splits)

lemma keeps_catch [intro]: "keeps I m \<Longrightarrow> (\<And>e. keeps I (h e)) \<Longrightarrow> keeps I (act_catch m h)"
  by (auto simp: keeps_def act_catch_def split: prod.splits sum.splits)

lemma keeps_retry_from:
  assumes "\<And>n. keeps I (operation n)" and "\<And>e. keeps I (before e)"
    and "\<And>n e s. I s \<Longrightarrow> I (snd (wait n e s))" and "\<And>t s. I s \<Longrightarrow> I (sleep t s)"
  shows "I s \<Longrightarrow> I (snd (retry_from stop retry wait sleep before operation n s))"
proof (induction "nat (stop - n)" arbitrary: n s rule: less_induct)
  case less
  obtain o1 s1 where op: "operation n s = (o1, s1)" by fastforce
  have 1: "I s1" using keepsD [OF assms(1) less.prems op] .
  show ?case
  proof (cases o1)
    case (Inr r)
    then show ?thesis using op 1 by (subst retry_from.simps) simp
  next
    case (Inl e)
    obtain d s2 where w: "wait n e s1 = (d, s2)" by fastforce
    have 2: "I s2" using assms(3) [OF 1, of n e] w by simp
    obtain o3 s3 where b: "before e s2 = (o3, s3)" by fastforce
    have 3: "I s3" using keepsD [OF assms(2) 2 b] .
    have "I (snd (retry_from stop retry wait sleep before operation (n + 1) (sleep d s3)))" if "n < stop"
      using that 3 assms(4) by (intro less.hyps) auto
    then show ?thesis using op Inl w b 1 2 3 by (subst retry_from.simps) (simp split: sum.split)
  qed
qed

lemma keeps_rp_execute:
  assumes "tenacity_contract retrying" and "\<And>n. keeps I (operation n)" and "\<And>e. keeps I (hook e)"
    and "\<And>s. I s \<Longrightarrow> I (snd (cp_random cp s))" and "\<And>t s. I s \<Longrightarrow> I (cp_sleep cp t s)"
  shows "keeps I (rp_execute retrying cp rp operation (Some hook))"
proof (rule keepsI)
  fix s assume "I s"
  have w: "I (snd (rp_wait cp rp n e t))" if "I t" for n e t
    using assms(4) [OF that] by (simp add: rp_wait_def split_beta)
  show "I (snd (rp_execute retrying cp rp operation (Some hook) s))"
    unfolding tenacity_unique [OF assms(1)] rp_execute_loop option.case
    by (rule keeps_retry_from [of I, OF assms(2,3) w assms(5) \<open>I s\<close>])
qed

section \<open>Properties of the retry policy\<close>

text \<open>
  C38: \<open>RetryPolicy.execute\<close> returns a result exactly when some attempt within the limit produces
  it and every attempt before it failed with a retryable error whose hook passed; when it raises,
  the error is that of an attempt within the limit (not retryable, or the last one allowed) or of
  the hook that ran after it. So it always ends, after at most the configured number of attempts.
\<close>

theorem execute_attempts:
  fixes cp :: "'s clock_ports" and operation :: "int \<Rightarrow> ('s, 'r) act" and hook :: "exn \<Rightarrow> ('s, unit) act"
  assumes "tenacity_contract retrying" and "new_retry_policy maximum delay = Inr rp"
  defines "start \<equiv> after_failures is_retryable (rp_wait cp rp) (cp_sleep cp) hook operation 1"
  shows "case rp_execute retrying cp rp operation (Some hook) s of
      (Inr r, s') \<Rightarrow> \<exists>k s1. int k < maximum \<and> start k s = Some s1 \<and> operation (1 + int k) s1 = (Inr r, s')
    | (Inl e, s') \<Rightarrow> \<exists>k s1. int k < maximum \<and> start k s = Some s1
        \<and> raises_at maximum is_retryable (rp_wait cp rp) hook operation (1 + int k) s1 e"
proof -
  have max: "rp_max_attempts rp = maximum" "1 \<le> maximum" using assms(2) by (auto simp: new_retry_policy_def split: if_splits)
  have run: "rp_execute retrying cp rp operation (Some hook) s =
      retry_from maximum is_retryable (rp_wait cp rp) (cp_sleep cp) hook operation 1 s"
    using tenacity_unique [OF assms(1)] by (simp add: rp_execute_loop max)
  have lim: "k = 0 \<or> 1 + int k \<le> maximum \<Longrightarrow> int k < maximum" for k using max(2) by auto
  show ?thesis
  proof (cases "rp_execute retrying cp rp operation (Some hook) s")
    case (Pair o' s')
    show ?thesis
    proof (cases o')
      case (Inl e)
      then have "retry_from maximum is_retryable (rp_wait cp rp) (cp_sleep cp) hook operation 1 s = (Inl e, s')"
        using Pair run by simp
      from retry_from_failure [OF this] show ?thesis using Pair Inl lim by (auto simp: start_def)
    next
      case (Inr r)
      then have "retry_from maximum is_retryable (rp_wait cp rp) (cp_sleep cp) hook operation 1 s = (Inr r, s')"
        using Pair run by simp
      from this [unfolded retry_from_success] show ?thesis using Pair Inr lim by (auto simp: start_def)
    qed
  qed
qed

text \<open>
  C39: A delay before a retry is never shorter than the server asked for; it stays between zero and
  the larger of the configured maximum and what the server asked for, and without such a request it
  is the exponential backoff, which grows with the attempts until it reaches the maximum.
\<close>

theorem delay_bounds:
  assumes "new_retry_policy maximum delay = Inr rp" and "0 \<le> u" and "u < 1" and "1 \<le> n"
  shows "0 < delay_for rp u n (Some e)
    \<and> (case asked_delay e of
         Some ra \<Rightarrow> ra \<le> delay_for rp u n (Some e) \<and> delay_for rp u n (Some e) \<le> max delay ra
       | None \<Rightarrow> delay_for rp u n (Some e) = min (2 ^ nat (n - 1) + u) delay
                  \<and> (0 \<le> v \<longrightarrow> delay_for rp u n (Some e) \<le> delay_for rp v (n + 1) (Some e)))"
proof -
  have d: "rp_max_delay rp = delay" "0 < delay" using assms(1) by (auto simp: new_retry_policy_def split: if_splits)
  have pos: "0 < backoff rp u n" using d assms(2) by (simp add: backoff_def add_pos_nonneg)
  have "nat (n + 1 - 1) = Suc (nat (n - 1))" using assms(4) by simp
  then have "(2::rat) ^ nat (n + 1 - 1) = 2 * 2 ^ nat (n - 1)" by simp
  moreover have "(1::rat) \<le> 2 ^ nat (n - 1)" by simp
  ultimately have step: "(2::rat) ^ nat (n - 1) + u \<le> 2 ^ nat (n + 1 - 1) + v" if "0 \<le> v" using assms(3) that by linarith
  have mono: "backoff rp u n \<le> backoff rp v (n + 1)" if "0 \<le> v"
    unfolding backoff_def using step [OF that] assms(4) by (intro min.mono) auto
  show ?thesis
    using pos mono d assms(4) unfolding delay_for_eq
    by (auto simp: backoff_def max_def split: option.splits)
qed

text \<open>A run of two failures and a success, for the witness.\<close>

definition flaky :: "int \<Rightarrow> (nat, string) act" where
  "flaky n s = (if n < 3 then (Inl (Crawler (mk_err NetworkTimeout ''slow'')), s) else (Inr ''ok'', s + 1))"

definition still_clock :: "nat clock_ports" where
  "still_clock = \<lparr>cp_now = (\<lambda>s. 0), cp_sleep = (\<lambda>d s. s), cp_random = (\<lambda>s. (1/2, s))\<rparr>"

theorem execute_attempts_witness:
  "\<exists>k s1. int k < 5 \<and> after_failures is_retryable
        (rp_wait still_clock \<lparr>rp_max_attempts = 5, rp_max_delay = 60\<rparr>)
        (cp_sleep still_clock) (\<lambda>e s. (Inr (), s)) flaky 1 k 0 = Some s1 \<and> flaky (1 + int k) s1 = (Inr ''ok'', 1)"
proof -
  have new: "new_retry_policy 5 60 = Inr \<lparr>rp_max_attempts = 5, rp_max_delay = 60\<rparr>" by (simp add: new_retry_policy_def)
  have "rp_execute tenacity_retrying still_clock \<lparr>rp_max_attempts = 5, rp_max_delay = 60\<rparr> flaky (Some (\<lambda>e s. (Inr (), s))) 0
      = (Inr ''ok'', 1)" by code_simp
  then show ?thesis
    using execute_attempts [OF tenacity_retrying_contract new, of still_clock "\<lambda>e s. (Inr (), s)" flaky 0] by simp
qed

theorem delay_bounds_witness:
  "0 < delay_for \<lparr>rp_max_attempts = 5, rp_max_delay = 60\<rparr> (1/2) 3 (Some (Crawler (mk_err NetworkTimeout ''slow'')))"
proof -
  have new: "new_retry_policy 5 60 = Inr \<lparr>rp_max_attempts = 5, rp_max_delay = 60\<rparr>" by (simp add: new_retry_policy_def)
  show ?thesis using delay_bounds [OF new, of "1/2" 3] by simp
qed

section \<open>The network policy on any provider\<close>

context proxy_provider
begin

text \<open>The lease a client holds: known to the provider, and no other lease of the context is live.\<close>

definition owns :: "'p \<Rightarrow> string \<Rightarrow> lease_ref \<Rightarrow> bool" where
  "owns p ctx r \<longleftrightarrow> known p r \<and> (\<forall>q. live p ctx q \<longrightarrow> q = r)"

lemma live_owns: "inv p \<Longrightarrow> live p ctx r \<Longrightarrow> owns p ctx r"
  using live_known live_unique by (auto simp: owns_def)

lemma rotate_owned:
  assumes "inv p" and "owns p ctx r"
  shows "case op_rotate ops p r ctx now of
      (Inr r', p') \<Rightarrow> inv p' \<and> owns p' ctx r' \<and> live p' ctx r' \<and> r' \<noteq> r
         \<and> (op_proxy_id ops p' r' \<noteq> None \<longrightarrow> op_proxy_id ops p' r' \<noteq> op_proxy_id ops p r)
    | (Inl e, p') \<Rightarrow> inv p' \<and> owns p' ctx r \<and> (\<forall>q. \<not> live p' ctx q) \<and> (\<exists>m. e = Crawler (mk_err ProxyUnavailable m))"
proof -
  have k: "known p r" and u: "\<And>q. live p ctx q \<Longrightarrow> q = r" using assms(2) by (auto simp: owns_def)
  show ?thesis
    using rotate_ok [OF assms(1) k u, of ctx now] rotate_err [OF assms(1) k u, of ctx now] live_owns k
    by (fastforce simp: owns_def split: prod.splits sum.splits)
qed

text \<open>What a client sees of the outcome of a failure it reported.\<close>

definition handled :: "bool \<Rightarrow> string \<Rightarrow> lease_ref \<Rightarrow> (exn + lease_ref) \<Rightarrow> 'p \<Rightarrow> bool" where
  "handled allow ctx r res p \<longleftrightarrow> inv p \<and> (case res of
     Inr r' \<Rightarrow> owns p ctx r' \<and> (r' \<noteq> r \<longrightarrow> allow \<and> live p ctx r')
   | Inl e \<Rightarrow> owns p ctx r \<and> (\<forall>q. \<not> live p ctx q) \<and> allow \<and> (\<exists>m. e = Crawler (mk_err ProxyUnavailable m)))"

lemma rotate_if_handled:
  "inv p \<Longrightarrow> owns p ctx r \<Longrightarrow>
     handled allow ctx r (fst (rotate_if allow ops p r ctx now)) (snd (rotate_if allow ops p r ctx now))"
  using rotate_owned [of p ctx r now]
  by (auto simp: rotate_if_def handled_def split: prod.splits sum.splits)

lemma handle_failure_handled:
  assumes inv: "inv p" and owns: "owns p ctx r" and h_def: "h = np_handle_failure ops now e r ctx allow p np"
  shows "handled allow ctx r (fst h) (fst (snd h))"
proof -
  have k: "known p r" using owns by (simp add: owns_def)
  have rot: "handled allow ctx r (fst (rotate_if allow ops p' r ctx now)) (snd (rotate_if allow ops p' r ctx now))"
    if "inv p' \<and> live p' = live p \<and> known p' = known p" for p'
    using that owns by (intro rotate_if_handled) (auto simp: owns_def)
  have keep: "handled allow ctx r (Inr r) p'" if "inv p' \<and> live p' = live p \<and> known p' = known p" for p'
    using that owns by (simp add: handled_def owns_def)
  obtain b p' where rf: "op_record_failure ops p r now = (b, p')" by fastforce
  show ?thesis
    using rot [OF cooldown_ok [OF inv k]] rot [OF unhealthy_ok [OF inv k]] keep [of p] inv
      rot [OF failure_ok [OF inv k rf]] keep [OF failure_ok [OF inv k rf]]
    by (simp add: h_def np_handle_failure_def Let_def split_beta rf)
qed

end

section \<open>Properties of the network policy\<close>

lemma np_forbidden:
  "err_class c \<in> {AccessForbidden, ProxyAuthenticationFailure} \<Longrightarrow> \<not> op_is_direct ops p r \<Longrightarrow>
     np_handle_failure ops now (Crawler c) r ctx allow p np =
       (case rotate_if allow ops (if err_class c = AccessForbidden then op_start_cooldown ops p r now
                                  else op_mark_unhealthy ops p r) r ctx now of (res, p') \<Rightarrow> (res, p', np))"
  by (auto simp: np_handle_failure_def Let_def err_isinstance_def is_subclass_simps)

lemma np_rate_limited:
  assumes "err_class c = RateLimited" and "identity = egress_identity ops p r"
    and "k = (case np_rate_limits np identity of Some k \<Rightarrow> k | None \<Rightarrow> 0) + 1"
  shows "np_handle_failure ops now (Crawler c) r ctx allow p np =
     (let np' = np\<lparr>np_rate_limits := (np_rate_limits np)(identity \<mapsto> k)\<rparr>
      in if k \<ge> np_threshold np \<and> \<not> op_is_direct ops p r
         then (case rotate_if allow ops (op_start_cooldown ops p r now) r ctx now of (res, p') \<Rightarrow> (res, p', np'))
         else (Inr r, p, np'))"
  using assms by (simp add: np_handle_failure_def Let_def err_isinstance_def is_subclass_simps)

lemma ep_proxy_id_set_endpoint:
  "ep_proxy_id ep = ep_proxy_id (pl_endpoints pl ! i) \<Longrightarrow>
     ep_proxy_id (pl_endpoints (pl_set_endpoint pl i ep) ! j) = ep_proxy_id (pl_endpoints pl ! j)"
  by (cases "i = j"; cases "i < length (pl_endpoints pl)") (auto simp: pl_set_endpoint_def list_update_beyond)

lemma pl_proxy_id_update [simp]:
  "(\<And>ep. ep_proxy_id (f ep) = ep_proxy_id ep) \<Longrightarrow> pl_proxy_id (pl_update_endpoint f pl r) q = pl_proxy_id pl q"
  by (cases "ls_endpoint (pl_lease pl r)")
    (auto simp: pl_proxy_id_def pl_update_endpoint_def ep_proxy_id_set_endpoint intro!: option.map_cong)

lemma pl_is_direct_update [simp]: "pl_is_direct (pl_update_endpoint f pl r) q = pl_is_direct pl q"
  by (simp add: pl_is_direct_def)

text \<open>
  When a proxied request is refused with 403 or 407 and a retry will follow, the policy leaves
  the refused proxy: the client gets another live lease on another proxy (or a direct one), or
  \<open>ProxyUnavailable\<close> when there is none, and then the context has no live lease. When no retry
  follows, the lease is kept. A direct lease is never rotated.
\<close>

theorem refused_egress_is_left:
  assumes "pl_ok pl" and "pl_live pl ctx r" and "err_class c \<in> {AccessForbidden, ProxyAuthenticationFailure}"
  shows "if pl_is_direct pl r then np_handle_failure pool_provider now (Crawler c) r ctx allow pl np = (Inr r, pl, np)
    else if \<not> allow then (\<exists>pl'. np_handle_failure pool_provider now (Crawler c) r ctx allow pl np = (Inr r, pl', np)
        \<and> pl_live pl' ctx r)
    else (case np_handle_failure pool_provider now (Crawler c) r ctx allow pl np of
        (Inr r', pl', np') \<Rightarrow> pl_live pl' ctx r' \<and> r' \<noteq> r \<and> np' = np
           \<and> (pl_is_direct pl' r' \<or> pl_proxy_id pl' r' \<noteq> pl_proxy_id pl r)
      | (Inl e, pl', np') \<Rightarrow> (\<exists>m. e = Crawler (mk_err ProxyUnavailable m)) \<and> (\<forall>q. \<not> pl_live pl' ctx q))"
proof -
  define p1 where "p1 = (if err_class c = AccessForbidden then pl_start_cooldown pl r now else pl_mark_unhealthy pl r)"
  have r: "r < length (pl_heap pl)" using pool.live_known [OF assms(1,2)] .
  have p1: "pl_ok p1" "pl_live p1 = pl_live pl" "pl_proxy_id p1 r = pl_proxy_id pl r"
    using pool.cooldown_ok [OF assms(1) r, of now] pool.unhealthy_ok [OF assms(1) r]
    by (auto simp: p1_def pool_provider_def pl_start_cooldown_def pl_mark_unhealthy_def)
  have own: "pool.owns p1 ctx r" using pool.live_owns [OF p1(1)] p1(2) assms(2) by simp
  have direct: "pl_is_direct pl' r' \<longleftrightarrow> pl_proxy_id pl' r' = None" for pl' r'
    by (simp add: pl_is_direct_def pl_proxy_id_def)
  have h: "np_handle_failure pool_provider now (Crawler c) r ctx allow pl np =
      (case rotate_if allow pool_provider p1 r ctx now of (res, p') \<Rightarrow> (res, p', np))" if "\<not> pl_is_direct pl r"
    using np_forbidden [OF assms(3), of pool_provider pl r now ctx allow np] that by (simp add: pool_provider_def p1_def)
  show ?thesis
  proof (cases "pl_is_direct pl r")
    case True
    then show ?thesis using assms(3)
      by (auto simp: np_handle_failure_def pool_provider_def Let_def err_isinstance_def is_subclass_simps)
  next
    case False
    show ?thesis
      using False assms(2) p1 pool.rotate_owned [OF p1(1) own, of now] unfolding h [OF False] direct
      by (auto simp: rotate_if_def pool_provider_def split: prod.splits sum.splits)
  qed
qed

theorem refused_egress_is_left_witness:
  "case np_handle_failure pool_provider 7 (Crawler (mk_err AccessForbidden ''403'')) 0 ''app'' True
      (snd (pl_acquire two_proxies ''app'' None 0)) \<lparr>np_threshold = 2, np_rate_limits = Map.empty\<rparr> of
        (Inr r', pl', np') \<Rightarrow> pl_live pl' ''app'' r' \<and> r' \<noteq> 0
      | (Inl e, pl', np') \<Rightarrow> False"
proof -
  let ?pl = "snd (pl_acquire two_proxies ''app'' None 0)" and ?np = "\<lparr>np_threshold = 2, np_rate_limits = Map.empty\<rparr>"
  let ?h = "np_handle_failure pool_provider 7 (Crawler (mk_err AccessForbidden ''403'')) 0 ''app'' True ?pl ?np"
  have "pl_ok ?pl" by (intro pl_ok_acquire pl_ok_new [OF two_proxies_new])
  moreover have "pl_live ?pl ''app'' 0" unfolding pl_live_def by code_simp
  moreover have "\<not> pl_is_direct ?pl 0" by code_simp
  moreover have "fst ?h = Inr 1" by code_simp
  ultimately show ?thesis
    using refused_egress_is_left [of ?pl "''app''" 0 "mk_err AccessForbidden ''403''" 7 True ?np]
    by (auto split: prod.splits sum.splits)
qed

end
