(* ===== verification/Crawl_Lifecycle.thy ===== *)
theory Crawl_Lifecycle
  imports Crawler_Errors "HOL-Library.AList"
begin

text \<open>
  The persisted life of crawl runs and tasks: the enumerations (\<open>crawler/domain/results.py\<close>), the
  application reference (\<open>crawler/domain/dto.py\<close>), the two tables
  (\<open>crawler/infrastructure/persistence/models.py\<close>) and the transactions on them
  (\<open>persistence/repository.py\<close>).

  A table is an association list from identifiers to rows in order of insertion; identifiers are
  drawn from a counter, as \<open>uuid4\<close> never repeats one. A transaction is atomic: it works on a copy
  of the committed state, which replaces it on commit and is dropped when the body raises. The
  database may also refuse a transaction (connection lost, commit failed): the store carries the
  list of such faults, one entry per transaction.
\<close>

section \<open>Enumerations and application references\<close>

datatype trigger_type = SCHEDULED | MANUAL

datatype crawl_run_status = RunPending | RunRunning | RunSucceeded | RunPartiallyFailed | RunFailed

datatype crawl_task_type = APP_DETAILS | REVIEWS

datatype crawl_task_status = PENDING | RUNNING | RETRYING | SUCCEEDED | FAILED

primrec task_status_value :: "crawl_task_status \<Rightarrow> string" where
  "task_status_value PENDING = ''pending''"
| "task_status_value RUNNING = ''running''"
| "task_status_value RETRYING = ''retrying''"
| "task_status_value SUCCEEDED = ''succeeded''"
| "task_status_value FAILED = ''failed''"

definition task_types :: "crawl_task_type list" where
  "task_types = [APP_DETAILS, REVIEWS]"

record application_ref =
  ar_application_id :: uuid
  ar_name :: string
  ar_package_name :: string
  ar_language_code :: "string option"
  ar_country_code :: "string option"

definition new_application_ref ::
  "uuid \<Rightarrow> string \<Rightarrow> string \<Rightarrow> string option \<Rightarrow> string option \<Rightarrow> exn + application_ref" where
  "new_application_ref i name package language country =
     (if is_blank name then Inl (value_error ''application name must not be blank'')
      else if is_blank package then Inl (value_error ''package name must not be blank'')
      else if (language = None) \<noteq> (country = None) then
        Inl (value_error ''application locale must contain both language and country'')
      else if (case language of Some l \<Rightarrow> is_blank l | None \<Rightarrow> False) then
        Inl (value_error ''application language code must not be blank'')
      else if (case country of Some c \<Rightarrow> is_blank c | None \<Rightarrow> False) then
        Inl (value_error ''application country code must not be blank'')
      else Inr \<lparr>ar_application_id = i, ar_name = name, ar_package_name = package,
                ar_language_code = language, ar_country_code = country\<rparr>)"

definition or_default :: "string option \<Rightarrow> string \<Rightarrow> string" where
  "or_default v d = (case v of Some s \<Rightarrow> if s = [] then d else s | None \<Rightarrow> d)"

definition effective_locale :: "application_ref \<Rightarrow> string \<Rightarrow> string \<Rightarrow> string \<times> string" where
  "effective_locale app language_code country_code =
     (or_default (ar_language_code app) language_code, or_default (ar_country_code app) country_code)"

section \<open>Tables\<close>

record crawl_run =
  run_trigger_type :: trigger_type
  run_status :: crawl_run_status
  run_scheduled_for :: "seconds option"
  run_started_at :: "seconds option"
  run_finished_at :: "seconds option"
  run_crawler_version :: "string option"

record crawl_task =
  task_run_id :: uuid
  task_application_id :: uuid
  task_task_type :: crawl_task_type
  task_status :: crawl_task_status
  task_language :: string
  task_country :: string
  task_attempt_count :: int
  task_started_at :: "seconds option"
  task_finished_at :: "seconds option"
  task_error_code :: "string option"
  task_error_message :: "string option"

record lifecycle_db =
  db_applications :: "uuid list"
  db_runs :: "(uuid \<times> crawl_run) list"
  db_tasks :: "(uuid \<times> crawl_task) list"
  db_next_id :: uuid

section \<open>Transaction operations\<close>

definition integrity_error :: "string \<Rightarrow> exn" where
  "integrity_error m = mk_exn ''IntegrityError'' m False"

definition create_run ::
  "seconds \<Rightarrow> trigger_type \<Rightarrow> seconds option \<Rightarrow> string option \<Rightarrow> lifecycle_db \<Rightarrow> exn + (uuid \<times> lifecycle_db)" where
  "create_run now trigger scheduled_for version db =
     (let i = db_next_id db
      in Inr (i, db\<lparr>db_runs := AList.update i
                     \<lparr>run_trigger_type = trigger, run_status = RunRunning, run_scheduled_for = scheduled_for,
                      run_started_at = Some now, run_finished_at = None, run_crawler_version = version\<rparr>
                     (db_runs db),
                    db_next_id := i + 1\<rparr>))"

text \<open>Adding a row of \<open>crawl_tasks\<close>: its foreign keys and the unique constraint are checked.\<close>

definition add_task :: "crawl_task \<Rightarrow> lifecycle_db \<Rightarrow> exn + (uuid \<times> lifecycle_db)" where
  "add_task t db =
     (if map_of (db_runs db) (task_run_id t) = None then Inl (integrity_error ''crawl_run_id'')
      else if \<not> task_application_id t \<in> set (db_applications db) then Inl (integrity_error ''application_id'')
      else if list_ex (\<lambda>(_, u). task_run_id u = task_run_id t \<and> task_application_id u = task_application_id t
                          \<and> task_task_type u = task_task_type t) (db_tasks db)
        then Inl (integrity_error ''uq_crawl_tasks_run_application_type'')
      else let i = db_next_id db
           in Inr (i, db\<lparr>db_tasks := AList.update i t (db_tasks db), db_next_id := i + 1\<rparr>))"

type_synonym task_ids = "((uuid \<times> crawl_task_type) \<times> uuid) list"

definition new_task :: "uuid \<Rightarrow> application_ref \<Rightarrow> string \<times> string \<Rightarrow> crawl_task_type \<Rightarrow> crawl_task" where
  "new_task run_id app locale ty = \<lparr>task_run_id = run_id, task_application_id = ar_application_id app,
     task_task_type = ty, task_status = PENDING, task_language = fst locale, task_country = snd locale,
     task_attempt_count = 0, task_started_at = None, task_finished_at = None, task_error_code = None,
     task_error_message = None\<rparr>"

fun create_app_tasks ::
  "uuid \<Rightarrow> application_ref \<Rightarrow> string \<times> string \<Rightarrow> crawl_task_type list \<Rightarrow> task_ids \<Rightarrow> lifecycle_db
     \<Rightarrow> exn + (task_ids \<times> lifecycle_db)" where
  "create_app_tasks run_id app locale [] result db = Inr (result, db)"
| "create_app_tasks run_id app locale (ty # tys) result db =
     (case add_task (new_task run_id app locale ty) db of
        Inl e \<Rightarrow> Inl e
      | Inr (i, db') \<Rightarrow> create_app_tasks run_id app locale tys (AList.update (ar_application_id app, ty) i result) db')"

fun create_tasks_loop ::
  "uuid \<Rightarrow> application_ref list \<Rightarrow> string \<Rightarrow> string \<Rightarrow> task_ids \<Rightarrow> lifecycle_db \<Rightarrow> exn + (task_ids \<times> lifecycle_db)" where
  "create_tasks_loop run_id [] language country result db = Inr (result, db)"
| "create_tasks_loop run_id (app # apps) language country result db =
     (case create_app_tasks run_id app (effective_locale app language country) task_types result db of
        Inl e \<Rightarrow> Inl e
      | Inr (result', db') \<Rightarrow> create_tasks_loop run_id apps language country result' db')"

definition create_tasks ::
  "uuid \<Rightarrow> application_ref list \<Rightarrow> string \<Rightarrow> string \<Rightarrow> lifecycle_db \<Rightarrow> exn + (task_ids \<times> lifecycle_db)" where
  "create_tasks run_id apps language country db = create_tasks_loop run_id apps language country [] db"

definition find_task :: "uuid \<Rightarrow> lifecycle_db \<Rightarrow> exn + crawl_task" where
  "find_task i db = (case map_of (db_tasks db) i of
     Some t \<Rightarrow> Inr t | None \<Rightarrow> Inl (lookup_error (''crawl task '' @ nat_str i @ '' was not found'')))"

definition put_task :: "uuid \<Rightarrow> crawl_task \<Rightarrow> lifecycle_db \<Rightarrow> lifecycle_db" where
  "put_task i t db = db\<lparr>db_tasks := AList.update i t (db_tasks db)\<rparr>"

definition quoted :: "crawl_task_status \<Rightarrow> string" where
  "quoted st = [CHR 0x27] @ task_status_value st @ [CHR 0x27]"

definition begin_attempt :: "seconds \<Rightarrow> uuid \<Rightarrow> lifecycle_db \<Rightarrow> exn + (unit \<times> lifecycle_db)" where
  "begin_attempt now i db = (case find_task i db of
     Inl e \<Rightarrow> Inl e
   | Inr t \<Rightarrow>
       if task_status t \<notin> {PENDING, RETRYING}
       then Inl (value_error (''cannot begin an attempt for task in '' @ quoted (task_status t)))
       else Inr ((), put_task i (t\<lparr>task_status := RUNNING, task_attempt_count := task_attempt_count t + 1,
              task_started_at := (case task_started_at t of Some s \<Rightarrow> Some s | None \<Rightarrow> Some now),
              task_error_code := None, task_error_message := None\<rparr>) db))"

definition mark_retrying :: "uuid \<Rightarrow> lifecycle_db \<Rightarrow> exn + (unit \<times> lifecycle_db)" where
  "mark_retrying i db = (case find_task i db of
     Inl e \<Rightarrow> Inl e
   | Inr t \<Rightarrow>
       if task_status t \<noteq> RUNNING then Inl (value_error (''cannot retry task in '' @ quoted (task_status t)))
       else Inr ((), put_task i (t\<lparr>task_status := RETRYING\<rparr>) db))"

definition mark_task_succeeded :: "seconds \<Rightarrow> uuid \<Rightarrow> lifecycle_db \<Rightarrow> exn + (unit \<times> lifecycle_db)" where
  "mark_task_succeeded now i db = (case find_task i db of
     Inl e \<Rightarrow> Inl e
   | Inr t \<Rightarrow>
       if task_status t \<noteq> RUNNING then Inl (value_error (''cannot succeed task in '' @ quoted (task_status t)))
       else Inr ((), put_task i (t\<lparr>task_status := SUCCEEDED, task_finished_at := Some now,
              task_error_code := None, task_error_message := None\<rparr>) db))"

definition mark_task_failed ::
  "seconds \<Rightarrow> uuid \<Rightarrow> string \<Rightarrow> string \<Rightarrow> lifecycle_db \<Rightarrow> exn + (unit \<times> lifecycle_db)" where
  "mark_task_failed now i code message db = (case find_task i db of
     Inl e \<Rightarrow> Inl e
   | Inr t \<Rightarrow>
       if task_status t \<notin> {PENDING, RUNNING, RETRYING}
       then Inl (value_error (''cannot fail task in '' @ quoted (task_status t)))
       else Inr ((), put_task i (t\<lparr>task_status := FAILED, task_finished_at := Some now,
              task_error_code := Some code, task_error_message := Some (take 500 message)\<rparr>) db))"

definition task_statuses :: "uuid \<Rightarrow> lifecycle_db \<Rightarrow> crawl_task_status list" where
  "task_statuses run_id db = map (task_status \<circ> snd) (filter (\<lambda>(_, t). task_run_id t = run_id) (db_tasks db))"

definition overall_status :: "crawl_task_status list \<Rightarrow> crawl_run_status" where
  "overall_status statuses =
     (let succeeded = length (filter ((=) SUCCEEDED) statuses); failed = length (filter ((=) FAILED) statuses)
      in if statuses = [] \<or> succeeded = length statuses then RunSucceeded
         else if failed = length statuses then RunFailed else RunPartiallyFailed)"

definition finish_run ::
  "seconds \<Rightarrow> uuid \<Rightarrow> crawl_run_status option \<Rightarrow> lifecycle_db \<Rightarrow> exn + (unit \<times> lifecycle_db)" where
  "finish_run now run_id forced_status db = (case map_of (db_runs db) run_id of
     None \<Rightarrow> Inl (lookup_error (''crawl run '' @ nat_str run_id @ '' was not found''))
   | Some run \<Rightarrow>
       (let st = (case forced_status of Some s \<Rightarrow> s | None \<Rightarrow> overall_status (task_statuses run_id db))
        in Inr ((), db\<lparr>db_runs := AList.update run_id (run\<lparr>run_status := st, run_finished_at := Some now\<rparr>) (db_runs db)\<rparr>)))"

section \<open>Transactions\<close>

record lifecycle_store =
  st_db :: lifecycle_db
  st_faults :: "exn option list"

definition lc_transaction ::
  "(lifecycle_db \<Rightarrow> exn + ('r \<times> lifecycle_db)) \<Rightarrow> lifecycle_store \<Rightarrow> (exn + 'r) \<times> lifecycle_store" where
  "lc_transaction body st = (let st' = st\<lparr>st_faults := tl (st_faults st)\<rparr>
     in case st_faults st of
          Some e # _ \<Rightarrow> (Inl e, st')
        | _ \<Rightarrow> (case body (st_db st) of
                  Inl e \<Rightarrow> (Inl e, st')
                | Inr (r, db) \<Rightarrow> (Inr r, st'\<lparr>st_db := db\<rparr>)))"

section \<open>The task state machine\<close>

text \<open>What holds of every row of \<open>crawl_tasks\<close>, beyond the check constraints of the table.\<close>

definition task_ok :: "crawl_task \<Rightarrow> bool" where
  "task_ok t \<longleftrightarrow> 0 \<le> task_attempt_count t
     \<and> (task_finished_at t \<noteq> None \<longleftrightarrow> task_status t \<in> {SUCCEEDED, FAILED})
     \<and> (task_error_code t \<noteq> None \<longleftrightarrow> task_status t = FAILED)
     \<and> (task_error_message t \<noteq> None \<longleftrightarrow> task_status t = FAILED)
     \<and> (task_started_at t \<noteq> None \<longleftrightarrow> 1 \<le> task_attempt_count t)
     \<and> (task_status t = PENDING \<longrightarrow> task_attempt_count t = 0)
     \<and> (task_status t \<in> {RUNNING, RETRYING, SUCCEEDED} \<longrightarrow> 1 \<le> task_attempt_count t)
     \<and> (case task_error_message t of Some m \<Rightarrow> length m \<le> 500 | None \<Rightarrow> True)"

definition lifecycle_ok :: "lifecycle_db \<Rightarrow> bool" where
  "lifecycle_ok db \<longleftrightarrow> (\<forall>(i, t) \<in> set (db_tasks db). i < db_next_id db \<and> task_ok t \<and> map_of (db_runs db) (task_run_id t) \<noteq> None)
     \<and> (\<forall>(i, r) \<in> set (db_runs db). i < db_next_id db)
     \<and> distinct (map fst (db_tasks db)) \<and> distinct (map fst (db_runs db))
     \<and> distinct (map (\<lambda>(i, t). (task_run_id t, task_application_id t, task_task_type t)) (db_tasks db))"

text \<open>The moves of one task.\<close>

inductive task_step :: "crawl_task_status \<Rightarrow> crawl_task_status \<Rightarrow> bool" where
  "task_step PENDING RUNNING"
| "task_step RETRYING RUNNING"
| "task_step RUNNING RETRYING"
| "task_step RUNNING SUCCEEDED"
| "task_step PENDING FAILED"
| "task_step RUNNING FAILED"
| "task_step RETRYING FAILED"

inductive_cases task_stepE: "task_step a b"

definition terminal :: "crawl_task_status \<Rightarrow> bool" where
  "terminal st \<longleftrightarrow> st \<in> {SUCCEEDED, FAILED}"

lemmas task_op_defs = begin_attempt_def mark_retrying_def mark_task_succeeded_def mark_task_failed_def

lemma put_task_lookup [simp]: "map_of (db_tasks (put_task i t db)) = (map_of (db_tasks db))(i \<mapsto> t)"
  by (simp add: put_task_def update_conv')

lemma find_task_Inr [simp]: "find_task i db = Inr t \<longleftrightarrow> map_of (db_tasks db) i = Some t"
  by (simp add: find_task_def split: option.splits)

text \<open>A task operation moves one task, and leaves the other rows and the runs alone.\<close>

definition moves_task :: "uuid \<Rightarrow> lifecycle_db \<Rightarrow> lifecycle_db \<Rightarrow> bool" where
  "moves_task i db db' \<longleftrightarrow> (\<exists>t t'. map_of (db_tasks db) i = Some t \<and> db' = put_task i t' db
     \<and> task_step (task_status t) (task_status t') \<and> (task_ok t \<longrightarrow> task_ok t')
     \<and> task_run_id t' = task_run_id t \<and> task_application_id t' = task_application_id t \<and> task_task_type t' = task_task_type t
     \<and> task_attempt_count t' = task_attempt_count t + (if task_status t' = RUNNING then 1 else 0))"

lemma moves_taskI:
  assumes "map_of (db_tasks db) i = Some t" and "task_step (task_status t) (task_status t')"
    and "task_ok t \<Longrightarrow> task_ok t'"
    and "task_run_id t' = task_run_id t" "task_application_id t' = task_application_id t" "task_task_type t' = task_task_type t"
    and "task_attempt_count t' = task_attempt_count t + (if task_status t' = RUNNING then 1 else 0)"
  shows "moves_task i db (put_task i t' db)"
  using assms unfolding moves_task_def by blast

lemma task_ops_move:
  "begin_attempt now i db = Inr (u, db') \<Longrightarrow> moves_task i db db'"
  "mark_retrying i db = Inr (u, db') \<Longrightarrow> moves_task i db db'"
  "mark_task_succeeded now i db = Inr (u, db') \<Longrightarrow> moves_task i db db'"
  "mark_task_failed now i code m db = Inr (u, db') \<Longrightarrow> moves_task i db db'"
proof -
  show "begin_attempt now i db = Inr (u, db') \<Longrightarrow> moves_task i db db'"
    unfolding begin_attempt_def
    by (auto split: sum.splits if_splits intro!: moves_taskI task_step.intros)
      (auto simp: task_ok_def split: option.splits)
  show "mark_retrying i db = Inr (u, db') \<Longrightarrow> moves_task i db db'"
    unfolding mark_retrying_def
    by (auto split: sum.splits if_splits intro!: moves_taskI task_step.intros)
      (auto simp: task_ok_def split: option.splits)
  show "mark_task_succeeded now i db = Inr (u, db') \<Longrightarrow> moves_task i db db'"
    unfolding mark_task_succeeded_def
    by (auto split: sum.splits if_splits intro!: moves_taskI task_step.intros)
      (auto simp: task_ok_def split: option.splits)
  show "mark_task_failed now i code m db = Inr (u, db') \<Longrightarrow> moves_task i db db'"
    unfolding mark_task_failed_def
    by (auto split: sum.splits if_splits intro!: moves_taskI task_step.intros)
      (auto simp: task_ok_def split: option.splits)
qed

lemma set_update_subset': "set (AList.update k v al) \<subseteq> insert (k, v) (set al)"
  by (induction al) auto

lemma map_update_same:
  assumes "distinct (map fst al)" and "map_of al i = Some t" and "f (i, t') = f (i, t)"
  shows "map f (AList.update i t' al) = map f al"
  using assms by (induction al) (auto simp: image_iff split: if_splits)

lemma moves_task_ok:
  assumes "moves_task i db db'" and "lifecycle_ok db"
  shows "lifecycle_ok db'"
proof -
  obtain t t' where t: "map_of (db_tasks db) i = Some t" and db': "db' = put_task i t' db"
    and ok: "task_ok t \<longrightarrow> task_ok t'" and same: "task_run_id t' = task_run_id t"
      "task_application_id t' = task_application_id t" "task_task_type t' = task_task_type t"
    using assms(1) by (auto simp: moves_task_def)
  let ?key = "\<lambda>(i, t). (task_run_id t, task_application_id t, task_task_type t)"
  have d: "distinct (map fst (db_tasks db))" using assms(2) by (simp add: lifecycle_ok_def)
  have "map ?key (AList.update i t' (db_tasks db)) = map ?key (db_tasks db)"
    by (rule map_update_same [OF d t]) (simp add: same)
  moreover have "set (AList.update i t' (db_tasks db)) \<subseteq> insert (i, t') (set (db_tasks db))"
    by (rule set_update_subset')
  moreover have "(i, t) \<in> set (db_tasks db)" using t by (rule map_of_SomeD)
  then have "i < db_next_id db \<and> task_ok t' \<and> map_of (db_runs db) (task_run_id t') \<noteq> None"
    using assms(2) ok same(1) by (auto simp: lifecycle_ok_def)
  ultimately have "\<forall>(j, u) \<in> set (AList.update i t' (db_tasks db)).
      j < db_next_id db \<and> task_ok u \<and> map_of (db_runs db) (task_run_id u) \<noteq> None"
    "distinct (map ?key (AList.update i t' (db_tasks db)))"
    using assms(2) unfolding lifecycle_ok_def by (blast, simp)
  then show ?thesis
    using assms(2) distinct_update [OF d, of i t'] by (simp add: lifecycle_ok_def db' put_task_def)
qed

lemma moves_task_frame:
  "moves_task i db db' \<Longrightarrow> db_runs db' = db_runs db \<and> (\<forall>j. j \<noteq> i \<longrightarrow> map_of (db_tasks db') j = map_of (db_tasks db) j)"
  by (auto simp: moves_task_def put_task_def update_conv')


section \<open>Creation\<close>

abbreviation task_key :: "uuid \<times> crawl_task \<Rightarrow> uuid \<times> uuid \<times> crawl_task_type" where
  "task_key \<equiv> \<lambda>(i, t). (task_run_id t, task_application_id t, task_task_type t)"

lemma lifecycle_okI:
  assumes "\<And>i t. (i, t) \<in> set (db_tasks db) \<Longrightarrow> i < db_next_id db \<and> task_ok t \<and> map_of (db_runs db) (task_run_id t) \<noteq> None"
    and "\<And>i r. (i, r) \<in> set (db_runs db) \<Longrightarrow> i < db_next_id db"
    and "distinct (map fst (db_tasks db))" "distinct (map fst (db_runs db))" "distinct (map task_key (db_tasks db))"
  shows "lifecycle_ok db"
  using assms unfolding lifecycle_ok_def by blast

lemma lifecycle_okD:
  assumes "lifecycle_ok db"
  shows "(i, t) \<in> set (db_tasks db) \<Longrightarrow> i < db_next_id db \<and> task_ok t \<and> map_of (db_runs db) (task_run_id t) \<noteq> None"
    and "(i, r) \<in> set (db_runs db) \<Longrightarrow> i < db_next_id db"
    and "distinct (map fst (db_tasks db))" "distinct (map fst (db_runs db))" "distinct (map task_key (db_tasks db))"
  using assms unfolding lifecycle_ok_def by blast+

lemma lifecycle_ok_fresh:
  assumes "lifecycle_ok db"
  shows "map_of (db_tasks db) (db_next_id db) = None" "map_of (db_runs db) (db_next_id db) = None"
  using assms by (fastforce simp: lifecycle_ok_def map_of_eq_None_iff)+

lemma update_fresh: "map_of al k = None \<Longrightarrow> AList.update k v al = al @ [(k, v)]"
  by (induction al) (auto split: if_splits)

lemma create_run_ok:
  assumes ok: "lifecycle_ok db" and run: "create_run now trigger scheduled version db = Inr (i, db')"
  shows "lifecycle_ok db'" "i = db_next_id db" "db_tasks db' = db_tasks db" "db_applications db' = db_applications db"
    "map_of (db_runs db') i = Some \<lparr>run_trigger_type = trigger, run_status = RunRunning, run_scheduled_for = scheduled,
        run_started_at = Some now, run_finished_at = None, run_crawler_version = version\<rparr>"
proof -
  define r where "r = \<lparr>run_trigger_type = trigger, run_status = RunRunning, run_scheduled_for = scheduled,
        run_started_at = Some now, run_finished_at = None, run_crawler_version = version\<rparr>"
  have db': "i = db_next_id db" "db' = db\<lparr>db_runs := db_runs db @ [(i, r)], db_next_id := Suc i\<rparr>"
    using run lifecycle_ok_fresh(2) [OF ok] by (auto simp: create_run_def Let_def update_fresh r_def)
  show "lifecycle_ok db'"
  proof (rule lifecycle_okI)
    fix j t assume "(j, t) \<in> set (db_tasks db')"
    then show "j < db_next_id db' \<and> task_ok t \<and> map_of (db_runs db') (task_run_id t) \<noteq> None"
      using lifecycle_okD(1) [OF ok, of j t] by (auto simp: db' map_of_append map_add_def split: option.splits)
  next
    fix j u assume "(j, u) \<in> set (db_runs db')"
    then show "j < db_next_id db'" using lifecycle_okD(2) [OF ok, of j u] by (auto simp: db')
  next
    show "distinct (map fst (db_runs db'))"
      using lifecycle_okD(4) [OF ok] lifecycle_ok_fresh(2) [OF ok] by (auto simp: db' map_of_eq_None_iff)
  qed (use lifecycle_okD [OF ok] in \<open>simp_all add: db'\<close>)
qed (use run lifecycle_ok_fresh(2) [OF ok] in \<open>auto simp: create_run_def Let_def update_conv'\<close>)

lemma add_task_Inr:
  "add_task t db = Inr (i, db') \<longleftrightarrow>
     map_of (db_runs db) (task_run_id t) \<noteq> None \<and> task_application_id t \<in> set (db_applications db)
     \<and> (task_run_id t, task_application_id t, task_task_type t) \<notin>
         task_key ` set (db_tasks db)
     \<and> i = db_next_id db \<and> db' = db\<lparr>db_tasks := AList.update i t (db_tasks db), db_next_id := i + 1\<rparr>"
  by (force simp: add_task_def Let_def list_ex_iff image_iff)

lemma add_task_ok:
  assumes "lifecycle_ok db" and "add_task t db = Inr (i, db')" and "task_ok t"
  shows "lifecycle_ok db'" "db_tasks db' = db_tasks db @ [(i, t)]" "db_runs db' = db_runs db"
    "db_applications db' = db_applications db" "map_of (db_tasks db) i = None"
proof -
  note fresh = lifecycle_ok_fresh(1) [OF assms(1)]
  show "db_tasks db' = db_tasks db @ [(i, t)]" "db_runs db' = db_runs db" "map_of (db_tasks db) i = None"
    "db_applications db' = db_applications db" using assms(2) fresh by (auto simp: add_task_Inr update_fresh)
  have db': "i = db_next_id db" "db' = db\<lparr>db_tasks := db_tasks db @ [(i, t)], db_next_id := Suc i\<rparr>"
    and new: "map_of (db_runs db) (task_run_id t) \<noteq> None"
      "(task_run_id t, task_application_id t, task_task_type t) \<notin> task_key ` set (db_tasks db)"
    using assms(2) fresh by (auto simp: add_task_Inr update_fresh)
  show "lifecycle_ok db'"
  proof (rule lifecycle_okI)
    fix j u assume "(j, u) \<in> set (db_tasks db')"
    then show "j < db_next_id db' \<and> task_ok u \<and> map_of (db_runs db') (task_run_id u) \<noteq> None"
      using lifecycle_okD(1) [OF assms(1), of j u] new assms(3) by (auto simp: db')
  next
    fix j u assume "(j, u) \<in> set (db_runs db')"
    then show "j < db_next_id db'" using lifecycle_okD(2) [OF assms(1), of j u] by (simp add: db')
  next
    show "distinct (map fst (db_tasks db'))"
      using lifecycle_okD(3) [OF assms(1)] fresh by (auto simp: db' map_of_eq_None_iff)
    show "distinct (map task_key (db_tasks db'))" using lifecycle_okD(5) [OF assms(1)] new(2) by (simp add: db')
  qed (use lifecycle_okD [OF assms(1)] in \<open>simp_all add: db'\<close>)
qed

section \<open>Histories\<close>

inductive lc_step :: "lifecycle_db \<Rightarrow> lifecycle_db \<Rightarrow> bool" where
  lc_create_run: "create_run now trigger scheduled version db = Inr (i, db') \<Longrightarrow> lc_step db db'"
| lc_add_task: "add_task t db = Inr (i, db') \<Longrightarrow> task_ok t \<Longrightarrow> lc_step db db'"
| lc_begin: "begin_attempt now i db = Inr (u, db') \<Longrightarrow> lc_step db db'"
| lc_retrying: "mark_retrying i db = Inr (u, db') \<Longrightarrow> lc_step db db'"
| lc_succeeded: "mark_task_succeeded now i db = Inr (u, db') \<Longrightarrow> lc_step db db'"
| lc_failed: "mark_task_failed now i code m db = Inr (u, db') \<Longrightarrow> lc_step db db'"
| lc_finish: "finish_run now run_id forced db = Inr (u, db') \<Longrightarrow> lc_step db db'"

inductive lc_reaches :: "lifecycle_db \<Rightarrow> lifecycle_db \<Rightarrow> bool" where
  lc_refl: "lc_reaches db db"
| lc_trans: "lc_reaches db db' \<Longrightarrow> lc_step db' db'' \<Longrightarrow> lc_reaches db db''"

lemma finish_run_frame:
  assumes "finish_run now run_id forced db = Inr (u, db')"
  shows "db_tasks db' = db_tasks db" "lifecycle_ok db \<Longrightarrow> lifecycle_ok db'"
    "map_of (db_runs db') run_id = Some ((the (map_of (db_runs db) run_id))\<lparr>run_finished_at := Some now,
        run_status := (case forced of Some s \<Rightarrow> s | None \<Rightarrow> overall_status (task_statuses run_id db))\<rparr>)"
proof -
  obtain run st where run: "map_of (db_runs db) run_id = Some run"
    and st: "st = (case forced of Some s \<Rightarrow> s | None \<Rightarrow> overall_status (task_statuses run_id db))"
    and db': "db' = db\<lparr>db_runs := AList.update run_id (run\<lparr>run_status := st, run_finished_at := Some now\<rparr>) (db_runs db)\<rparr>"
    using assms by (auto simp: finish_run_def Let_def split: option.splits)
  show "db_tasks db' = db_tasks db" by (simp add: db')
  show "map_of (db_runs db') run_id = Some ((the (map_of (db_runs db) run_id))\<lparr>run_finished_at := Some now,
        run_status := (case forced of Some s \<Rightarrow> s | None \<Rightarrow> overall_status (task_statuses run_id db))\<rparr>)"
    by (simp add: db' update_conv' run st)
  assume ok: "lifecycle_ok db"
  have "(run_id, run) \<in> set (db_runs db)" using run by (rule map_of_SomeD)
  then have id: "run_id < db_next_id db" using lifecycle_okD(2) [OF ok] by blast
  show "lifecycle_ok db'"
  proof (rule lifecycle_okI)
    fix i r assume "(i, r) \<in> set (db_runs db')"
    then have "i = run_id \<or> (i, r) \<in> set (db_runs db)" using set_update_subset' unfolding db' by fastforce
    then show "i < db_next_id db'" using id lifecycle_okD(2) [OF ok] by (auto simp: db')
  next
    fix i t assume "(i, t) \<in> set (db_tasks db')"
    then show "i < db_next_id db' \<and> task_ok t \<and> map_of (db_runs db') (task_run_id t) \<noteq> None"
      using lifecycle_okD(1) [OF ok, of i t] by (auto simp: db' update_conv')
  qed (use lifecycle_okD [OF ok] in \<open>simp_all add: db' distinct_update\<close>)
qed

lemma lc_step_ok: "lc_step db db' \<Longrightarrow> lifecycle_ok db \<Longrightarrow> lifecycle_ok db'"
  by (induction rule: lc_step.induct)
    (auto intro: create_run_ok(1) add_task_ok(1) finish_run_frame(2) dest: task_ops_move moves_task_ok)

lemma lc_reaches_ok: "lc_reaches db db' \<Longrightarrow> lifecycle_ok db \<Longrightarrow> lifecycle_ok db'"
  by (induction rule: lc_reaches.induct) (auto intro: lc_step_ok)

text \<open>A step leaves a row alone or moves it along the task machine.\<close>

lemma moves_task_row:
  assumes "moves_task j db db'" and "map_of (db_tasks db) i = Some t"
  shows "\<exists>t'. map_of (db_tasks db') i = Some t' \<and> (t' = t \<or> task_step (task_status t) (task_status t')
     \<and> task_attempt_count t \<le> task_attempt_count t')"
  using assms by (cases "i = j") (auto simp: moves_task_def)

lemma lc_step_row:
  assumes "lc_step db db'" and "lifecycle_ok db" and "map_of (db_tasks db) i = Some t"
  shows "\<exists>t'. map_of (db_tasks db') i = Some t' \<and> (t' = t \<or> task_step (task_status t) (task_status t')
     \<and> task_attempt_count t \<le> task_attempt_count t')"
  using assms(1)
proof cases
  case (lc_create_run now trigger scheduled version j)
  then show ?thesis using create_run_ok(3) [OF assms(2)] assms(3) by simp
next
  case (lc_add_task u j)
  then show ?thesis using add_task_ok(2) [OF assms(2)] assms(3) by (auto simp: map_add_Some_iff map_of_append)
next
  case (lc_finish now run_id forced u)
  then show ?thesis using finish_run_frame(1) assms(3) by fastforce
next
  case (lc_begin now j u)
  then show ?thesis using moves_task_row [OF task_ops_move(1) assms(3)] by blast
next
  case (lc_retrying j u)
  then show ?thesis using moves_task_row [OF task_ops_move(2) assms(3)] by blast
next
  case (lc_succeeded now j u)
  then show ?thesis using moves_task_row [OF task_ops_move(3) assms(3)] by blast
next
  case (lc_failed now j code m u)
  then show ?thesis using moves_task_row [OF task_ops_move(4) assms(3)] by blast
qed

section \<open>The tasks of a run\<close>

lemma new_task_simps [simp]:
  "task_run_id (new_task r app l ty) = r" "task_application_id (new_task r app l ty) = ar_application_id app"
  "task_task_type (new_task r app l ty) = ty" "task_status (new_task r app l ty) = PENDING" "task_ok (new_task r app l ty)"
  by (simp_all add: new_task_def task_ok_def)

text \<open>
  Adding a list of rows whose keys are new: all are stored, in order, and the returned table maps
  each application and type to the row's identifier.
\<close>

definition app_key :: "crawl_task \<Rightarrow> uuid \<times> crawl_task_type" where
  "app_key t = (task_application_id t, task_task_type t)"

definition added :: "uuid \<Rightarrow> crawl_task list \<Rightarrow> task_ids \<Rightarrow> lifecycle_db \<Rightarrow> task_ids \<Rightarrow> lifecycle_db \<Rightarrow> bool" where
  "added run_id ts result db result' db' \<longleftrightarrow> lifecycle_ok db' \<and> db_runs db' = db_runs db
     \<and> db_applications db' = db_applications db
     \<and> (\<exists>rows. db_tasks db' = db_tasks db @ rows \<and> map snd rows = ts
         \<and> (\<forall>(i, t) \<in> set rows. map_of result' (app_key t) = Some i)
         \<and> (\<forall>k. k \<notin> app_key ` set ts \<longrightarrow> map_of result' k = map_of result k))"

lemma added_Nil: "lifecycle_ok db \<Longrightarrow> added run_id [] result db result db"
  by (simp add: added_def)

lemma added_append:
  assumes "added run_id ts result db result1 db1" and "added run_id us result1 db1 result2 db2"
    and "app_key ` set ts \<inter> app_key ` set us = {}"
  shows "added run_id (ts @ us) result db result2 db2"
proof -
  obtain rows1 where r1: "db_tasks db1 = db_tasks db @ rows1" "map snd rows1 = ts"
      "\<forall>(i, t) \<in> set rows1. map_of result1 (app_key t) = Some i"
      "\<forall>k. k \<notin> app_key ` set ts \<longrightarrow> map_of result1 k = map_of result k"
    using assms(1) unfolding added_def by blast
  obtain rows2 where r2: "db_tasks db2 = db_tasks db1 @ rows2" "map snd rows2 = us"
      "\<forall>(i, t) \<in> set rows2. map_of result2 (app_key t) = Some i"
      "\<forall>k. k \<notin> app_key ` set us \<longrightarrow> map_of result2 k = map_of result1 k"
    using assms(2) unfolding added_def by blast
  have "map_of result2 (app_key t) = Some i" if "(i, t) \<in> set rows1" for i t
  proof -
    have "t \<in> set ts" using that r1(2) by force
    then have "app_key t \<notin> app_key ` set us" using assms(3) by blast
    then show ?thesis using r2(4) r1(3) that by fastforce
  qed
  moreover have "map_of result2 k = map_of result k" if "k \<notin> app_key ` set (ts @ us)" for k
  proof -
    from that have "k \<notin> app_key ` set ts" "k \<notin> app_key ` set us" by auto
    then show ?thesis using r1(4) r2(4) by metis
  qed
  ultimately have "\<exists>rows. db_tasks db2 = db_tasks db @ rows \<and> map snd rows = ts @ us
      \<and> (\<forall>(i, t) \<in> set rows. map_of result2 (app_key t) = Some i)
      \<and> (\<forall>k. k \<notin> app_key ` set (ts @ us) \<longrightarrow> map_of result2 k = map_of result k)"
    using r1(1,2) r2(1-3) by (intro exI [of _ "rows1 @ rows2"]) auto
  then show ?thesis using assms(1,2) by (simp add: added_def)
qed

lemma added_keys:
  assumes "added run_id ts result db result' db'" and "\<forall>t \<in> set ts. task_run_id t = run_id"
  shows "task_key ` set (db_tasks db') = task_key ` set (db_tasks db)
     \<union> (\<lambda>t. (run_id, task_application_id t, task_task_type t)) ` set ts"
proof -
  obtain rows where rows: "db_tasks db' = db_tasks db @ rows" "map snd rows = ts"
    using assms(1) unfolding added_def by blast
  have "task_key ` set rows = (\<lambda>t. (run_id, task_application_id t, task_task_type t)) ` snd ` set rows"
    using assms(2) rows(2) by (force simp: image_iff)
  moreover have "set ts = snd ` set rows" using rows(2) by (metis set_map)
  ultimately show ?thesis by (simp add: rows(1) image_Un)
qed

lemma create_app_tasks_ok:
  assumes "lifecycle_ok db" and "map_of (db_runs db) run_id \<noteq> None" and "ar_application_id app \<in> set (db_applications db)"
    and "distinct tys" and "\<forall>ty \<in> set tys. (run_id, ar_application_id app, ty) \<notin> task_key ` set (db_tasks db)"
  shows "\<exists>result' db'. create_app_tasks run_id app locale tys result db = Inr (result', db')
     \<and> added run_id (map (new_task run_id app locale) tys) result db result' db'"
  using assms
proof (induction tys arbitrary: result db)
  case Nil
  then show ?case by (simp add: added_Nil)
next
  case (Cons ty tys)
  let ?t = "new_task run_id app locale ty"
  define i where "i = db_next_id db"
  define db1 where "db1 = db\<lparr>db_tasks := AList.update i ?t (db_tasks db), db_next_id := i + 1\<rparr>"
  have add: "add_task ?t db = Inr (i, db1)" using Cons.prems by (simp add: add_task_Inr i_def db1_def)
  note ok = add_task_ok [OF Cons.prems(1) add new_task_simps(5)]
  have one: "added run_id [?t] result db (AList.update (ar_application_id app, ty) i result) db1"
    unfolding added_def using ok by (auto simp: update_conv' app_key_def)
  have k: "task_key ` set (db_tasks db1) = insert (run_id, ar_application_id app, ty) (task_key ` set (db_tasks db))"
    using ok(2) by simp
  have "\<exists>result' db'. create_app_tasks run_id app locale tys (AList.update (ar_application_id app, ty) i result) db1 = Inr (result', db')
     \<and> added run_id (map (new_task run_id app locale) tys) (AList.update (ar_application_id app, ty) i result) db1 result' db'"
    using Cons.prems ok k by (intro Cons.IH) auto
  then obtain result' db' where rest: "create_app_tasks run_id app locale tys (AList.update (ar_application_id app, ty) i result) db1 = Inr (result', db')"
     "added run_id (map (new_task run_id app locale) tys) (AList.update (ar_application_id app, ty) i result) db1 result' db'"
    by blast
  have "added run_id ([?t] @ map (new_task run_id app locale) tys) result db result' db'"
    using Cons.prems(4) by (intro added_append [OF one rest(2)]) (auto simp: app_key_def)
  then show ?case using add rest(1) by simp
qed

definition run_tasks :: "uuid \<Rightarrow> application_ref list \<Rightarrow> string \<Rightarrow> string \<Rightarrow> crawl_task list" where
  "run_tasks run_id apps language country =
     concat (map (\<lambda>app. map (new_task run_id app (effective_locale app language country)) task_types) apps)"

lemma create_tasks_loop_ok:
  assumes "lifecycle_ok db" and "map_of (db_runs db) run_id \<noteq> None"
    and "\<forall>app \<in> set apps. ar_application_id app \<in> set (db_applications db)"
    and "distinct (map ar_application_id apps)"
    and "\<forall>app \<in> set apps. \<forall>ty. (run_id, ar_application_id app, ty) \<notin> task_key ` set (db_tasks db)"
  shows "\<exists>result' db'. create_tasks_loop run_id apps language country result db = Inr (result', db')
     \<and> added run_id (run_tasks run_id apps language country) result db result' db'"
  using assms
proof (induction apps arbitrary: result db)
  case Nil
  then show ?case by (simp add: added_Nil run_tasks_def)
next
  case (Cons app apps)
  let ?l = "effective_locale app language country" and ?ts = "map (new_task run_id app (effective_locale app language country)) task_types"
  obtain result1 db1 where one: "create_app_tasks run_id app ?l task_types result db = Inr (result1, db1)"
      "added run_id ?ts result db result1 db1"
    using create_app_tasks_ok [OF Cons.prems(1,2), of app task_types ?l result] Cons.prems(3,5) by (auto simp: task_types_def)
  have k: "task_key ` set (db_tasks db1) = task_key ` set (db_tasks db)
      \<union> (\<lambda>t. (run_id, task_application_id t, task_task_type t)) ` set ?ts"
    using one(2) by (rule added_keys) simp
  have ne: "\<forall>a \<in> set apps. ar_application_id a \<noteq> ar_application_id app"
    using Cons.prems(4) by (auto simp: image_iff)
  have frame: "lifecycle_ok db1" "db_runs db1 = db_runs db" "db_applications db1 = db_applications db"
    using one(2) by (simp_all add: added_def)
  have "\<exists>result' db'. create_tasks_loop run_id apps language country result1 db1 = Inr (result', db')
     \<and> added run_id (run_tasks run_id apps language country) result1 db1 result' db'"
    using Cons.prems frame k ne by (intro Cons.IH) auto
  then obtain result' db' where rest: "create_tasks_loop run_id apps language country result1 db1 = Inr (result', db')"
     "added run_id (run_tasks run_id apps language country) result1 db1 result' db'" by blast
  have "added run_id (?ts @ run_tasks run_id apps language country) result db result' db'"
    using Cons.prems(4) by (intro added_append [OF one(2) rest(2)]) (auto simp: app_key_def run_tasks_def)
  then show ?case using one(1) rest(1) by (simp add: run_tasks_def)
qed

section \<open>Properties\<close>

text \<open>
  For a run that exists and has no tasks, and registered applications without duplicates,
  \<open>create_tasks\<close> succeeds: it adds one pending task per application and task type, in the locale
  of the application, nothing else changes, and the returned table gives for every application and
  type the identifier of its row.
\<close>

theorem create_tasks_complete:
  assumes "lifecycle_ok db" and "map_of (db_runs db) run_id \<noteq> None" and "task_statuses run_id db = []"
    and "\<forall>app \<in> set apps. ar_application_id app \<in> set (db_applications db)"
    and "distinct (map ar_application_id apps)"
  shows "\<exists>ids db' rows. create_tasks run_id apps language country db = Inr (ids, db') \<and> lifecycle_ok db'
     \<and> db_runs db' = db_runs db \<and> db_tasks db' = db_tasks db @ rows
     \<and> map snd rows = concat (map (\<lambda>app. map (new_task run_id app (effective_locale app language country))
                                            [APP_DETAILS, REVIEWS]) apps)
     \<and> (\<forall>(i, t) \<in> set rows. map_of ids (task_application_id t, task_task_type t) = Some i)"
proof -
  have "\<forall>app \<in> set apps. \<forall>ty. (run_id, ar_application_id app, ty) \<notin> task_key ` set (db_tasks db)"
    using assms(3) by (auto simp: task_statuses_def filter_empty_conv)
  from create_tasks_loop_ok [OF assms(1,2,4,5) this, of language country "[]"] show ?thesis
    by (auto simp: create_tasks_def added_def run_tasks_def task_types_def app_key_def)
qed

definition one_app :: application_ref where
  "one_app = \<lparr>ar_application_id = 7, ar_name = ''Maps'', ar_package_name = ''com.maps'',
     ar_language_code = Some ''fa'', ar_country_code = Some ''ir''\<rparr>"

definition one_run_db :: lifecycle_db where
  "one_run_db = \<lparr>db_applications = [7], db_runs = [(0, \<lparr>run_trigger_type = MANUAL, run_status = RunRunning,
     run_scheduled_for = None, run_started_at = Some 1, run_finished_at = None, run_crawler_version = None\<rparr>)],
     db_tasks = [], db_next_id = 1\<rparr>"

lemma one_run_ok: "lifecycle_ok one_run_db"
  by (simp add: one_run_db_def lifecycle_ok_def)

theorem create_tasks_complete_witness:
  "\<exists>ids db' rows. create_tasks 0 [one_app] ''en'' ''us'' one_run_db = Inr (ids, db') \<and> lifecycle_ok db'
     \<and> db_tasks db' = rows \<and> map snd rows = map (new_task 0 one_app (''fa'', ''ir'')) [APP_DETAILS, REVIEWS]"
proof -
  have "map_of (db_runs one_run_db) 0 \<noteq> None" "task_statuses 0 one_run_db = []"
    "\<forall>app \<in> set [one_app]. ar_application_id app \<in> set (db_applications one_run_db)" "db_tasks one_run_db = []"
    "effective_locale one_app ''en'' ''us'' = (''fa'', ''ir'')" by code_simp+
  then show ?thesis
    using create_tasks_complete [OF one_run_ok, of 0 "[one_app]" "''en''" "''us''"] by auto
qed

text \<open>
  C31: Along every history of the database, the rows stay well formed (an attempt is counted when it
  begins, an error is recorded exactly on failed tasks, the end time exactly on finished ones); a
  finished task is never changed again, and a task that exists never disappears and never loses
  attempts.
\<close>

theorem finished_task_is_final:
  assumes "lifecycle_ok db" and "lc_reaches db db'" and "map_of (db_tasks db) i = Some t"
  shows "\<exists>t'. map_of (db_tasks db') i = Some t' \<and> task_ok t' \<and> task_attempt_count t \<le> task_attempt_count t'
     \<and> (task_status t \<in> {SUCCEEDED, FAILED} \<longrightarrow> t' = t)"
proof -
  have "lifecycle_ok db' \<and> (\<exists>t'. map_of (db_tasks db') i = Some t' \<and> task_attempt_count t \<le> task_attempt_count t'
     \<and> (task_status t \<in> {SUCCEEDED, FAILED} \<longrightarrow> t' = t))"
    using assms(2,1,3)
  proof (induction rule: lc_reaches.induct)
    case (lc_trans db db' db'')
    then obtain t' where ok: "lifecycle_ok db'" and t': "map_of (db_tasks db') i = Some t'"
      "task_attempt_count t \<le> task_attempt_count t'" "task_status t \<in> {SUCCEEDED, FAILED} \<longrightarrow> t' = t" by blast
    from lc_step_row [OF lc_trans.hyps(2) ok t'(1)] obtain t'' where t'': "map_of (db_tasks db'') i = Some t''"
      "t'' = t' \<or> task_step (task_status t') (task_status t'') \<and> task_attempt_count t' \<le> task_attempt_count t''" by blast
    have "\<not> task_step (task_status t') (task_status t'')" if "task_status t' \<in> {SUCCEEDED, FAILED}"
      using that by (auto elim: task_stepE)
    with t' t'' lc_step_ok [OF lc_trans.hyps(2) ok] show ?case by fastforce
  qed auto
  then show ?thesis using lifecycle_okD(1) map_of_SomeD by metis
qed

theorem finished_task_is_final_witness:
  "\<exists>t'. map_of (db_tasks (snd (projr (create_tasks 0 [one_app] ''en'' ''us'' one_run_db)))) 1 = Some t' \<and> task_ok t'"
proof -
  let ?db = "snd (projr (create_tasks 0 [one_app] ''en'' ''us'' one_run_db))"
  have ok: "lifecycle_ok ?db" using create_tasks_loop_ok [OF one_run_ok, of 0 "[one_app]" "''en''" "''us''" "[]"]
    by (auto simp: create_tasks_def added_def one_run_db_def one_app_def)
  have "map_of (db_tasks ?db) 1 = Some (new_task 0 one_app (''fa'', ''ir'') APP_DETAILS)" by code_simp
  then show ?thesis using finished_task_is_final [OF ok lc_refl] by blast
qed

text \<open>
  Finishing a run without a forced status sets it to succeeded exactly when every task of the
  run succeeded (in particular when there is none), to failed exactly when there are tasks and all
  failed, and to partially failed otherwise; the end time is recorded, and no task changes.
\<close>

theorem finish_run_status:
  assumes "finish_run now run_id None db = Inr (u, db')"
  shows "\<exists>run. map_of (db_runs db') run_id = Some run \<and> run_finished_at run = Some now \<and> db_tasks db' = db_tasks db
     \<and> run_status run =
         (if \<forall>(i, t) \<in> set (db_tasks db). task_run_id t = run_id \<longrightarrow> task_status t = SUCCEEDED then RunSucceeded
          else if \<forall>(i, t) \<in> set (db_tasks db). task_run_id t = run_id \<longrightarrow> task_status t = FAILED then RunFailed
          else RunPartiallyFailed)"
proof -
  have count: "length (filter ((=) x) xs) = length xs \<longleftrightarrow> (\<forall>y \<in> set xs. y = x)" for x :: crawl_task_status and xs
    by (metis (mono_tags) filter_id_conv length_filter_conv_card filter_True length_filter_less less_irrefl)
  have all: "(\<forall>y \<in> set (task_statuses run_id db). y = x) \<longleftrightarrow>
      (\<forall>(i, t) \<in> set (db_tasks db). task_run_id t = run_id \<longrightarrow> task_status t = x)" for x
    by (fastforce simp: task_statuses_def)
  have "overall_status (task_statuses run_id db) =
      (if \<forall>y \<in> set (task_statuses run_id db). y = SUCCEEDED then RunSucceeded
       else if \<forall>y \<in> set (task_statuses run_id db). y = FAILED then RunFailed else RunPartiallyFailed)"
    by (cases "task_statuses run_id db = []") (simp_all add: overall_status_def Let_def count)
  then show ?thesis using finish_run_frame(1,3) [OF assms] unfolding all by simp
qed

theorem finish_run_status_witness:
  "\<exists>run. map_of (db_runs (snd (projr (finish_run 5 0 None one_run_db)))) 0 = Some run \<and> run_status run = RunSucceeded"
proof -
  have "finish_run 5 0 None one_run_db = Inr ((), snd (projr (finish_run 5 0 None one_run_db)))"
    by (simp add: finish_run_def one_run_db_def Let_def)
  from finish_run_status [OF this] show ?thesis by (auto simp: one_run_db_def)
qed

end
