(* ===== verification/Playstore_Client.thy ===== *)
theory Playstore_Client
  imports Resilience Crawl_Policies
begin

text \<open>
  The resilient Play Store client (\<open>crawler/application/client.py\<close>): an application context owns a
  proxy lease and a primary adapter created on it, and runs every operation through the circuit
  breaker, the retry policy, the network policy and, at the end, the secondary adapter.

  The adapters, their factory, the hooks and the clock are outside the client: they are functions on
  the environment \<open>'x\<close>, which the client only passes on. The state of one open context and of the
  shared provider, network policy and breaker is one record; operations of other contexts are
  interleaved between operations, not inside them. An adapter is identified with the lease it was
  created on.
\<close>

section \<open>State and dependencies\<close>

record ('p, 'x) client_state =
  cs_context :: string
  cs_lease :: lease_ref
  cs_primary :: "lease_ref option"
  cs_refresh :: bool
  cs_last_attempt :: int
  cs_provider :: 'p
  cs_network :: network_policy
  cs_circuit :: circuit_breaker
  cs_env :: 'x

record ('p, 'x) client_deps =
  cd_ops :: "'p proxy_ops"
  cd_create :: "string \<Rightarrow> lease_ref \<Rightarrow> ('x, unit) act"
  cd_close :: "lease_ref \<Rightarrow> ('x, unit) act"
  cd_clock :: "'x clock_ports"
  cd_parsers :: py_parsers
  cd_retry :: retry_policy
  cd_secondary_enabled :: bool

record 'x operation_hooks =
  before_attempt :: "int \<Rightarrow> ('x, unit) act"
  before_retry :: "exn \<Rightarrow> ('x, unit) act"

definition NO_OPERATION_HOOKS :: "'x operation_hooks" where
  "NO_OPERATION_HOOKS = \<lparr>before_attempt = (\<lambda>_. act_return ()), before_retry = (\<lambda>_. act_return ())\<rparr>"

definition on_env :: "('x, 'r) act \<Rightarrow> (('p, 'x) client_state, 'r) act" where
  "on_env f s = (case f (cs_env s) of (r, x) \<Rightarrow> (r, s\<lparr>cs_env := x\<rparr>))"

definition cs_now :: "('p, 'x) client_deps \<Rightarrow> ('p, 'x) client_state \<Rightarrow> seconds" where
  "cs_now d s = cp_now (cd_clock d) (cs_env s)"

definition cs_clock :: "('p, 'x) client_deps \<Rightarrow> ('p, 'x) client_state clock_ports" where
  "cs_clock d = \<lparr>cp_now = cs_now d,
     cp_sleep = (\<lambda>t s. s\<lparr>cs_env := cp_sleep (cd_clock d) t (cs_env s)\<rparr>),
     cp_random = (\<lambda>s. case cp_random (cd_clock d) (cs_env s) of (u, x) \<Rightarrow> (u, s\<lparr>cs_env := x\<rparr>))\<rparr>"

section \<open>Operations of an open context\<close>

definition client_close :: "('p, 'x) client_deps \<Rightarrow> (('p, 'x) client_state, unit) act" where
  "client_close d s =
     (let primary = cs_primary s; s1 = s\<lparr>cs_primary := None\<rparr>;
          closed = (case primary of None \<Rightarrow> act_return () s1 | Some a \<Rightarrow> on_env (cd_close d a) s1)
      in (fst closed, (snd closed)\<lparr>cs_provider := op_release (cd_ops d) (cs_provider (snd closed)) (cs_lease (snd closed))\<rparr>))"

definition client_get_primary :: "('p, 'x) client_deps \<Rightarrow> (('p, 'x) client_state, lease_ref) act" where
  "client_get_primary d s = (case cs_primary s of
     Some a \<Rightarrow> act_return a s
   | None \<Rightarrow> act_bind (on_env (cd_create d (cs_context s) (cs_lease s)))
               (\<lambda>_ s'. act_return (cs_lease s') (s'\<lparr>cs_primary := Some (cs_lease s')\<rparr>)) s)"

definition client_refresh_egress :: "('p, 'x) client_deps \<Rightarrow> (('p, 'x) client_state, unit) act" where
  "client_refresh_egress d s =
     (if \<not> cs_refresh s then act_return () s
      else act_bind
        (\<lambda>s. case cs_primary s of None \<Rightarrow> act_return () s
           | Some a \<Rightarrow> act_bind (on_env (cd_close d a)) (\<lambda>_. act_update (\<lambda>s. s\<lparr>cs_primary := None\<rparr>)) s)
        (\<lambda>_ s. case op_rotate (cd_ops d) (cs_provider s) (cs_lease s) (cs_context s) (cs_now d s) of
             (Inl e, p) \<Rightarrow> act_raise e (s\<lparr>cs_provider := p\<rparr>)
           | (Inr r, p) \<Rightarrow> act_return () (s\<lparr>cs_provider := p, cs_lease := r, cs_refresh := False\<rparr>)) s)"

text \<open>The handler of an attempt that failed: it always raises.\<close>

definition client_attempt_failed ::
  "('p, 'x) client_deps \<Rightarrow> int \<Rightarrow> lease_ref \<Rightarrow> crawler_error \<Rightarrow> (('p, 'x) client_state, 'r) act" where
  "client_attempt_failed d n adapter error s =
     (case np_handle_failure (cd_ops d) (cs_now d s) (Crawler error) (cs_lease s) (cs_context s)
             (n < rp_max_attempts (cd_retry d) \<and> is_retryable (Crawler error)) (cs_provider s) (cs_network s) of
        (Inl e, p, np) \<Rightarrow>
          (let s1 = s\<lparr>cs_provider := p, cs_network := np\<rparr>
           in if (case e of Crawler c \<Rightarrow> err_isinstance c [ProxyUnavailable] | _ \<Rightarrow> False) then
                (if \<not> err_isinstance error [AccessForbidden] then act_raise e s1
                 else act_bind (on_env (cd_close d adapter))
                        (\<lambda>_ s. act_raise (Crawler (error\<lparr>retry_with_new_egress := False\<rparr>))
                                 (s\<lparr>cs_primary := None, cs_refresh := True\<rparr>)) s1)
              else act_raise e s1)
      | (Inr r, p, np) \<Rightarrow>
          (let s1 = s\<lparr>cs_provider := p, cs_network := np\<rparr>
           in if r \<noteq> cs_lease s1 then
                act_bind (on_env (cd_close d adapter))
                  (\<lambda>_ s. act_raise (Crawler error) (s\<lparr>cs_primary := None, cs_lease := r\<rparr>)) s1
              else (case op_is_usable (cd_ops d) p (cs_lease s1) (cs_now d s1) of
                      (usable, p') \<Rightarrow>
                        act_raise (Crawler error)
                          (if usable then s1\<lparr>cs_provider := p'\<rparr> else s1\<lparr>cs_provider := p', cs_refresh := True\<rparr>))))"

definition client_attempt ::
  "('p, 'x) client_deps \<Rightarrow> (lease_ref \<Rightarrow> ('x, 'r) act) \<Rightarrow> 'x operation_hooks \<Rightarrow> int \<Rightarrow> (('p, 'x) client_state, 'r) act" where
  "client_attempt d primary_operation hooks n s =
     act_bind (act_update (\<lambda>s. s\<lparr>cs_last_attempt := n\<rparr>)) (\<lambda>_.
     act_bind (on_env (before_attempt hooks n)) (\<lambda>_.
     act_bind (client_get_primary d) (\<lambda>adapter.
     act_catch (on_env (primary_operation adapter))
       (\<lambda>raw_error. client_attempt_failed d n adapter (classify (cd_parsers d) raw_error))))) s"

definition client_record_failure ::
  "('p, 'x) client_deps \<Rightarrow> crawler_error \<Rightarrow> bool \<Rightarrow> nat option \<Rightarrow> ('p, 'x) client_state \<Rightarrow> ('p, 'x) client_state" where
  "client_record_failure d error proxied token s =
     s\<lparr>cs_circuit := cb_record_failure (cs_circuit s) error proxied token (cs_now d s)\<rparr>"

text \<open>The handler of an operation whose primary attempts ended in a crawler error.\<close>

definition client_secondary ::
  "('p, 'x) client_deps \<Rightarrow> ('x, 'r) act \<Rightarrow> nat option \<Rightarrow> (('p, 'x) client_state, 'r) act" where
  "client_secondary d secondary_operation token =
     act_bind (act_catch (on_env secondary_operation)
       (\<lambda>raw s. let secondary_error = classify (cd_parsers d) raw
                in act_raise (Crawler secondary_error) (client_record_failure d secondary_error False token s)))
       (\<lambda>r s. act_return r (s\<lparr>cs_circuit := cb_record_success (cs_circuit s) token\<rparr>))"

definition client_fall_back ::
  "('p, 'x) client_deps \<Rightarrow> ('x, 'r) act \<Rightarrow> 'x operation_hooks \<Rightarrow> nat option \<Rightarrow> crawler_error
     \<Rightarrow> (('p, 'x) client_state, 'r) act" where
  "client_fall_back d secondary_operation hooks token error s =
     (let proxied = (\<not> op_is_direct (cd_ops d) (cs_provider s) (cs_lease s));
          s1 = client_record_failure d error proxied token s
      in if \<not> should_use_secondary (cd_secondary_enabled d) (Crawler error) then act_raise (Crawler error) s1
         else act_bind (on_env (before_retry hooks (Crawler error))) (\<lambda>_ s2.
              act_bind (on_env (before_attempt hooks (cs_last_attempt s2 + 1)))
                (\<lambda>_. client_secondary d secondary_operation token) s2) s1)"

definition client_succeed ::
  "('p, 'x) client_deps \<Rightarrow> nat option \<Rightarrow> 'r \<Rightarrow> (('p, 'x) client_state, 'r) act" where
  "client_succeed d token r s =
     (case np_record_success (cd_ops d) (cs_lease s) (cs_provider s) (cs_network s) of (p, np) \<Rightarrow>
        act_return r (s\<lparr>cs_provider := p, cs_network := np, cs_circuit := cb_record_success (cs_circuit s) token\<rparr>))"

definition client_call ::
  "(('p, 'x) client_state, 'r) retrying \<Rightarrow> ('p, 'x) client_deps \<Rightarrow> (lease_ref \<Rightarrow> ('x, 'r) act) \<Rightarrow> ('x, 'r) act
     \<Rightarrow> 'x operation_hooks \<Rightarrow> (('p, 'x) client_state, 'r) act" where
  "client_call retrying d primary_operation secondary_operation hooks s =
     (case cb_before_call (cs_circuit s) (cs_now d s) of
        (Inl e, cb) \<Rightarrow> act_raise e (s\<lparr>cs_circuit := cb\<rparr>)
      | (Inr token, cb) \<Rightarrow>
          (case rp_execute retrying (cs_clock d) (cd_retry d) (client_attempt d primary_operation hooks)
                  (Some (\<lambda>e. on_env (before_retry hooks e))) (s\<lparr>cs_circuit := cb, cs_last_attempt := 0\<rparr>) of
             (Inl (Crawler error), s1) \<Rightarrow> client_fall_back d secondary_operation hooks token error s1
           | (Inl e, s1) \<Rightarrow> (Inl e, s1)
           | (Inr r, s1) \<Rightarrow> client_succeed d token r s1))"

definition client_execute ::
  "(('p, 'x) client_state, 'r) retrying \<Rightarrow> ('p, 'x) client_deps \<Rightarrow> (lease_ref \<Rightarrow> ('x, 'r) act) \<Rightarrow> ('x, 'r) act
     \<Rightarrow> 'x operation_hooks \<Rightarrow> (('p, 'x) client_state, 'r) act" where
  "client_execute retrying d primary_operation secondary_operation hooks =
     act_bind (client_refresh_egress d) (\<lambda>_. client_call retrying d primary_operation secondary_operation hooks)"

text \<open>\<open>open_application\<close>: the lease is acquired, the body runs, and the context is closed whatever
  happens; an error while closing replaces the body's.\<close>

definition open_application ::
  "('p, 'x) client_deps \<Rightarrow> string \<Rightarrow> (('p, 'x) client_state, 'r) act \<Rightarrow> (('p, 'x) client_state, 'r) act" where
  "open_application d context_id body s =
     (case op_acquire (cd_ops d) (cs_provider s) context_id (cs_now d s) of
        (Inl e, p) \<Rightarrow> (Inl e, s\<lparr>cs_provider := p\<rparr>)
      | (Inr lease, p) \<Rightarrow>
          (case body (s\<lparr>cs_provider := p, cs_context := context_id, cs_lease := lease, cs_primary := None,
                        cs_refresh := False, cs_last_attempt := 0\<rparr>) of
             (res, s1) \<Rightarrow>
               (case client_close d s1 of
                  (Inl e, s2) \<Rightarrow> (Inl e, s2)
                | (Inr _, s2) \<Rightarrow> (res, s2))))"

section \<open>The lease discipline of a context\<close>

lemma keeps_on_env [intro]: "(\<And>s x. I (s\<lparr>cs_env := x\<rparr>) = I s) \<Longrightarrow> keeps I (on_env f)"
  by (simp add: keeps_def on_env_def split_beta)

text \<open>Closing an adapter, which closes its HTTP session, does not raise.\<close>

definition close_returns :: "('p, 'x) client_deps \<Rightarrow> bool" where
  "close_returns d \<longleftrightarrow> (\<forall>a x. \<exists>x'. cd_close d a x = (Inr (), x'))"

lemma close_returnsD: "close_returns d \<Longrightarrow> fst (cd_close d a x) = Inr ()"
  unfolding close_returns_def by (metis fst_conv)

lemma close_on_env: "close_returns d \<Longrightarrow> on_env (cd_close d a) s = (Inr (), s\<lparr>cs_env := snd (cd_close d a (cs_env s))\<rparr>)"
  by (simp add: on_env_def split_beta close_returnsD)

context proxy_provider
begin

text \<open>
  The provider's invariant, the lease the context owns, and the breaker's invariant; a predicate
  that the environment cannot disturb.
\<close>

definition client_ok :: "string \<Rightarrow> ('p, 'x) client_state \<Rightarrow> bool" where
  "client_ok ctx s \<longleftrightarrow> cs_context s = ctx \<and> inv (cs_provider s) \<and> owns (cs_provider s) ctx (cs_lease s) \<and> cb_ok (cs_circuit s)"

lemma client_ok_env [simp]: "client_ok ctx (s\<lparr>cs_env := x\<rparr>) = client_ok ctx s"
  and client_ok_last [simp]: "client_ok ctx (s\<lparr>cs_last_attempt := n\<rparr>) = client_ok ctx s"
  and client_ok_primary [simp]: "client_ok ctx (s\<lparr>cs_primary := a\<rparr>) = client_ok ctx s"
  and client_ok_refresh [simp]: "client_ok ctx (s\<lparr>cs_refresh := b\<rparr>) = client_ok ctx s"
  by (simp_all add: client_ok_def)

lemma keeps_client_on_env [intro]: "keeps (client_ok ctx) (on_env f)"
  by (rule keeps_on_env) simp

lemma keeps_get_primary: "keeps (client_ok ctx) (client_get_primary d)"
  by (auto simp: keeps_def client_get_primary_def act_defs on_env_def split: option.splits prod.splits sum.splits)

lemma keeps_refresh_egress:
  assumes "cd_ops d = ops"
  shows "keeps (client_ok ctx) (client_refresh_egress d)"
proof -
  have "client_ok ctx (s\<lparr>cs_provider := p, cs_lease := r, cs_refresh := b\<rparr>)"
    if "client_ok ctx s" "op_rotate ops (cs_provider s) (cs_lease s) (cs_context s) now = (Inr r, p)" for s now r p b
    using rotate_owned [of "cs_provider s" ctx "cs_lease s" now] that by (auto simp: client_ok_def)
  moreover have "client_ok ctx (s\<lparr>cs_provider := p\<rparr>)"
    if "client_ok ctx s" "op_rotate ops (cs_provider s) (cs_lease s) (cs_context s) now = (Inl e, p)" for s now e p
    using rotate_owned [of "cs_provider s" ctx "cs_lease s" now] that by (auto simp: client_ok_def)
  ultimately have rot: "keeps (client_ok ctx) (\<lambda>s. case op_rotate (cd_ops d) (cs_provider s) (cs_lease s) (cs_context s) (cs_now d s) of
             (Inl e, p) \<Rightarrow> act_raise e (s\<lparr>cs_provider := p\<rparr>)
           | (Inr r, p) \<Rightarrow> act_return () (s\<lparr>cs_provider := p, cs_lease := r, cs_refresh := False\<rparr>))"
    unfolding assms by (intro keepsI) (auto simp: act_defs split: prod.splits sum.splits)
  have close: "keeps (client_ok ctx) (\<lambda>s. case cs_primary s of None \<Rightarrow> act_return () s
           | Some a \<Rightarrow> act_bind (on_env (cd_close d a)) (\<lambda>_. act_update (\<lambda>s. s\<lparr>cs_primary := None\<rparr>)) s)"
    by (auto simp: keeps_def act_defs on_env_def split: option.splits prod.splits sum.splits)
  have "keeps (client_ok ctx) (act_bind
        (\<lambda>s. case cs_primary s of None \<Rightarrow> act_return () s
           | Some a \<Rightarrow> act_bind (on_env (cd_close d a)) (\<lambda>_. act_update (\<lambda>s. s\<lparr>cs_primary := None\<rparr>)) s)
        (\<lambda>_ s. case op_rotate (cd_ops d) (cs_provider s) (cs_lease s) (cs_context s) (cs_now d s) of
             (Inl e, p) \<Rightarrow> act_raise e (s\<lparr>cs_provider := p\<rparr>)
           | (Inr r, p) \<Rightarrow> act_return () (s\<lparr>cs_provider := p, cs_lease := r, cs_refresh := False\<rparr>)))"
    using close rot by (rule keeps_bind)
  then show ?thesis by (auto simp: keeps_def client_refresh_egress_def act_return_def)
qed

lemma keeps_attempt_failed:
  fixes d :: "('p, 'x) client_deps"
  assumes "cd_ops d = ops" and close: "close_returns d"
  shows "keeps (client_ok ctx) (client_attempt_failed d n adapter error)"
proof (rule keepsI)
  fix s :: "('p, 'x) client_state"
  assume ok: "client_ok ctx s"
  define allow where "allow \<longleftrightarrow> n < rp_max_attempts (cd_retry d) \<and> is_retryable (Crawler error)"
  obtain res p np where h: "np_handle_failure ops (cs_now d s) (Crawler error) (cs_lease s) (cs_context s) allow
      (cs_provider s) (cs_network s) = (res, p, np)" by (cases "np_handle_failure ops (cs_now d s) (Crawler error)
        (cs_lease s) (cs_context s) allow (cs_provider s) (cs_network s)") auto
  have own: "inv (cs_provider s)" "owns (cs_provider s) (cs_context s) (cs_lease s)" "cs_context s = ctx"
    using ok by (auto simp: client_ok_def)
  have handled: "handled allow ctx (cs_lease s) res p"
    using handle_failure_handled [OF own(1,2) h [symmetric]] own(3) by simp
  show "client_ok ctx (snd (client_attempt_failed d n adapter error s))"
  proof (cases res)
    case (Inl e)
    then have "client_ok ctx (s\<lparr>cs_provider := p, cs_network := np\<rparr>)"
      using handled ok by (simp add: handled_def client_ok_def)
    then show ?thesis using h Inl
      by (simp add: client_attempt_failed_def allow_def assms act_defs close_on_env [OF close] Let_def split: exn.splits)
  next
    case (Inr r)
    have ok': "client_ok ctx (s\<lparr>cs_provider := p, cs_network := np, cs_lease := r\<rparr>)"
      using handled ok Inr by (simp add: handled_def client_ok_def)
    obtain b p' where use: "op_is_usable ops p (cs_lease s) (cs_now d s) = (b, p')" by fastforce
    show ?thesis
    proof (cases "r = cs_lease s")
      case False
      with ok' h Inr show ?thesis
        by (simp add: client_attempt_failed_def allow_def assms act_defs close_on_env [OF close] Let_def client_ok_def)
    next
      case True
      then have "known p (cs_lease s)" "inv p" using handled Inr by (simp_all add: handled_def owns_def)
      then have "client_ok ctx (s\<lparr>cs_provider := p', cs_network := np\<rparr>)"
        using usable_ok [OF _ _ use] ok' True by (simp add: client_ok_def owns_def)
      moreover have "cs_now d (s\<lparr>cs_provider := p, cs_network := np\<rparr>) = cs_now d s" by (simp add: cs_now_def)
      ultimately show ?thesis using True h Inr use
        by (simp add: client_attempt_failed_def allow_def assms act_defs Let_def client_ok_def)
    qed
  qed
qed

lemma keeps_attempt:
  assumes "cd_ops d = ops" and "close_returns d"
  shows "keeps (client_ok ctx) (client_attempt d primary_operation hooks n)"
  unfolding client_attempt_def [abs_def]
  by (intro keeps_bind keeps_update keeps_client_on_env keeps_get_primary keeps_catch keeps_attempt_failed assms) simp

lemma client_ok_circuit: "client_ok ctx s \<Longrightarrow> cb_ok cb \<Longrightarrow> client_ok ctx (s\<lparr>cs_circuit := cb\<rparr>)"
  and client_ok_cb: "client_ok ctx s \<Longrightarrow> cb_ok (cs_circuit s)"
  by (simp_all add: client_ok_def)

lemma client_ok_record_failure: "client_ok ctx s \<Longrightarrow> client_ok ctx (client_record_failure d e px token s)"
  by (simp add: client_record_failure_def client_ok_circuit client_ok_cb breaker.inv_failure)

lemma keeps_secondary: "keeps (client_ok ctx) (client_secondary d secondary_operation token)"
  unfolding client_secondary_def
  by (intro keeps_bind keeps_catch keeps_client_on_env keepsI)
    (simp_all add: act_defs Let_def client_ok_record_failure client_ok_circuit client_ok_cb breaker.inv_success)

lemma keeps_fall_back:
  fixes d :: "('p, 'x) client_deps"
  shows "keeps (client_ok ctx) (client_fall_back d secondary_operation hooks token error)"
proof -
  have "keeps (client_ok ctx) (act_bind (on_env f) (\<lambda>_. client_secondary d secondary_operation token))"
    for f :: "('x, unit) act"
    by (intro keeps_bind keeps_client_on_env keeps_secondary)
  then have "keeps (client_ok ctx) (act_bind (on_env (before_retry hooks (Crawler error))) (\<lambda>_ s2.
              act_bind (on_env (before_attempt hooks (cs_last_attempt s2 + 1)))
                (\<lambda>_. client_secondary d secondary_operation token) s2))"
    by (intro keeps_bind keeps_client_on_env) (simp add: keeps_def)
  then show ?thesis
    by (simp add: keeps_def client_fall_back_def Let_def client_ok_record_failure act_raise_def)
qed

lemma keeps_succeed:
  fixes d :: "('p, 'x) client_deps"
  assumes "cd_ops d = ops"
  shows "keeps (client_ok ctx) (client_succeed d token r)"
proof (rule keepsI)
  fix s :: "('p, 'x) client_state"
  assume ok: "client_ok ctx s"
  then have "known (cs_provider s) (cs_lease s)" by (simp add: client_ok_def owns_def)
  with ok show "client_ok ctx (snd (client_succeed d token r s))"
    using success_ok [of "cs_provider s" "cs_lease s"] breaker.inv_success
    by (simp add: client_succeed_def client_ok_def np_record_success_def owns_def Let_def assms act_defs)
qed

lemma keeps_call:
  fixes d :: "('p, 'x) client_deps" and retrying :: "(('p, 'x) client_state, 'r) retrying"
  assumes "cd_ops d = ops" and "close_returns d" and "tenacity_contract retrying"
  shows "keeps (client_ok ctx) (client_call retrying d primary_operation secondary_operation hooks)"
proof (rule keepsI)
  let ?run = "rp_execute retrying (cs_clock d) (cd_retry d) (client_attempt d primary_operation hooks)
                (Some (\<lambda>e. on_env (before_retry hooks e)))"
  have run: "keeps (client_ok ctx) ?run"
    by (intro keeps_rp_execute assms keeps_attempt keeps_client_on_env) (simp_all add: cs_clock_def split_beta)
  fix s :: "('p, 'x) client_state"
  assume ok: "client_ok ctx s"
  obtain r cb where bc: "cb_before_call (cs_circuit s) (cs_now d s) = (r, cb)" by fastforce
  have cb: "cb_ok cb" using breaker.inv_call_outcome(1) [OF client_ok_cb [OF ok] bc] .
  have ok1: "client_ok ctx (s\<lparr>cs_circuit := cb, cs_last_attempt := 0\<rparr>)" using client_ok_circuit [OF ok cb] by simp
  obtain o2 s2 where e: "?run (s\<lparr>cs_circuit := cb, cs_last_attempt := 0\<rparr>) = (o2, s2)" by fastforce
  have ok2: "client_ok ctx s2" using keepsD [OF run ok1 e] .
  have fb: "client_ok ctx (snd (client_fall_back d secondary_operation hooks token error s2))" for token error
    using keeps_fall_back [of ctx d secondary_operation hooks token error] ok2 by (simp add: keeps_def)
  have sc: "client_ok ctx (snd (client_succeed d token x s2))" for token and x :: 'r
    using keeps_succeed [OF assms(1), of ctx token x] ok2 by (simp add: keeps_def)
  show "client_ok ctx (snd (client_call retrying d primary_operation secondary_operation hooks s))"
    using bc e ok2 client_ok_circuit [OF ok cb] fb sc
    by (simp add: client_call_def act_defs split: sum.split exn.split)
qed

lemma keeps_execute:
  "cd_ops d = ops \<Longrightarrow> close_returns d \<Longrightarrow> tenacity_contract retrying \<Longrightarrow>
     keeps (client_ok ctx) (client_execute retrying d primary_operation secondary_operation hooks)"
  unfolding client_execute_def by (intro keeps_bind keeps_refresh_egress keeps_call)

text \<open>Closing an application context leaves it without a live lease.\<close>

lemma close_no_lease:
  assumes "cd_ops d = ops" and "close_returns d" and "client_ok ctx s"
  shows "fst (client_close d s) = Inr ()" "inv (cs_provider (snd (client_close d s)))"
    "\<not> live (cs_provider (snd (client_close d s))) ctx r" "cb_ok (cs_circuit (snd (client_close d s)))"
proof -
  define s1 where "s1 = snd (case cs_primary s of None \<Rightarrow> act_return () (s\<lparr>cs_primary := None\<rparr>)
     | Some a \<Rightarrow> on_env (cd_close d a) (s\<lparr>cs_primary := None\<rparr>))"
  have s1: "cs_provider s1 = cs_provider s" "cs_lease s1 = cs_lease s" "cs_circuit s1 = cs_circuit s"
    by (simp_all add: s1_def close_on_env [OF assms(2)] act_defs split: option.split)
  have close: "client_close d s = (Inr (), s1\<lparr>cs_provider := op_release ops (cs_provider s1) (cs_lease s1)\<rparr>)"
    by (simp add: client_close_def s1_def close_on_env [OF assms(2)] act_defs assms(1) Let_def split: option.split)
  have k: "inv (cs_provider s)" "known (cs_provider s) (cs_lease s)" "owns (cs_provider s) ctx (cs_lease s)"
    using assms(3) by (auto simp: client_ok_def owns_def)
  show "fst (client_close d s) = Inr ()" "inv (cs_provider (snd (client_close d s)))" "cb_ok (cs_circuit (snd (client_close d s)))"
    using release_ok [OF k(1,2)] assms(3) by (simp_all add: close s1 client_ok_def)
  show "\<not> live (cs_provider (snd (client_close d s))) ctx r"
    using release_live [OF k(1,2)] k(3) release_ok [OF k(1,2), of ctx] by (auto simp: close s1 owns_def)
qed

end

section \<open>Invariants of the environment\<close>

text \<open>What every external call of the client keeps, the client keeps.\<close>

definition externals_keep :: "('x \<Rightarrow> bool) \<Rightarrow> ('p, 'x) client_deps \<Rightarrow> bool" where
  "externals_keep J d \<longleftrightarrow> (\<forall>c r. keeps J (cd_create d c r)) \<and> (\<forall>a. keeps J (cd_close d a))
     \<and> (\<forall>t x. J x \<longrightarrow> J (cp_sleep (cd_clock d) t x)) \<and> (\<forall>x. J x \<longrightarrow> J (snd (cp_random (cd_clock d) x)))"

definition env_holds :: "('x \<Rightarrow> bool) \<Rightarrow> ('p, 'x) client_state \<Rightarrow> bool" where
  "env_holds J s \<longleftrightarrow> J (cs_env s)"

lemma env_holds_simps [simp]:
  "env_holds J (s\<lparr>cs_lease := l\<rparr>) = env_holds J s" "env_holds J (s\<lparr>cs_primary := a\<rparr>) = env_holds J s"
  "env_holds J (s\<lparr>cs_refresh := b\<rparr>) = env_holds J s" "env_holds J (s\<lparr>cs_last_attempt := n\<rparr>) = env_holds J s"
  "env_holds J (s\<lparr>cs_provider := p\<rparr>) = env_holds J s" "env_holds J (s\<lparr>cs_network := np\<rparr>) = env_holds J s"
  "env_holds J (s\<lparr>cs_circuit := cb\<rparr>) = env_holds J s" "env_holds J (s\<lparr>cs_context := c\<rparr>) = env_holds J s"
  by (simp_all add: env_holds_def)

lemma env_on_env: "keeps J f \<Longrightarrow> keeps (env_holds J) (on_env f)"
  by (simp add: keeps_def env_holds_def on_env_def split_beta)

lemma env_bind_on_env:
  "keeps J f \<Longrightarrow> (\<And>a s. env_holds J s \<Longrightarrow> env_holds J (snd (k a s))) \<Longrightarrow> env_holds J s \<Longrightarrow>
     env_holds J (snd (act_bind (on_env f) k s))"
  using keeps_bind [OF env_on_env, of J f k] by (simp add: keeps_def)

lemma env_get_primary: "externals_keep J d \<Longrightarrow> keeps (env_holds J) (client_get_primary d)"
  by (rule keepsI) (auto simp: client_get_primary_def externals_keep_def act_return_def split: option.splits intro!: env_bind_on_env)

lemma env_refresh: "externals_keep J d \<Longrightarrow> keeps (env_holds J) (client_refresh_egress d)"
proof -
  assume J: "externals_keep J d"
  have "keeps (env_holds J) (\<lambda>s. case cs_primary s of None \<Rightarrow> act_return () s
           | Some a \<Rightarrow> act_bind (on_env (cd_close d a)) (\<lambda>_. act_update (\<lambda>s. s\<lparr>cs_primary := None\<rparr>)) s)"
    using J by (intro keepsI) (auto simp: externals_keep_def act_return_def act_update_def split: option.splits intro!: env_bind_on_env)
  moreover have "keeps (env_holds J) (\<lambda>s. case op_rotate (cd_ops d) (cs_provider s) (cs_lease s) (cs_context s) (cs_now d s) of
             (Inl e, p) \<Rightarrow> act_raise e (s\<lparr>cs_provider := p\<rparr>)
           | (Inr r, p) \<Rightarrow> act_return () (s\<lparr>cs_provider := p, cs_lease := r, cs_refresh := False\<rparr>))"
    by (intro keepsI) (simp add: act_defs split: prod.split sum.split)
  ultimately have "keeps (env_holds J) (act_bind
        (\<lambda>s. case cs_primary s of None \<Rightarrow> act_return () s
           | Some a \<Rightarrow> act_bind (on_env (cd_close d a)) (\<lambda>_. act_update (\<lambda>s. s\<lparr>cs_primary := None\<rparr>)) s)
        (\<lambda>_ s. case op_rotate (cd_ops d) (cs_provider s) (cs_lease s) (cs_context s) (cs_now d s) of
             (Inl e, p) \<Rightarrow> act_raise e (s\<lparr>cs_provider := p\<rparr>)
           | (Inr r, p) \<Rightarrow> act_return () (s\<lparr>cs_provider := p, cs_lease := r, cs_refresh := False\<rparr>)))"
    by (rule keeps_bind)
  then show ?thesis by (simp add: keeps_def client_refresh_egress_def act_return_def)
qed

lemma env_attempt_failed:
  fixes d :: "('p, 'x) client_deps"
  assumes "externals_keep J d"
  shows "keeps (env_holds J) (client_attempt_failed d n adapter error)"
proof (rule keepsI)
  fix s :: "('p, 'x) client_state" assume s: "env_holds J s"
  have close: "keeps J (cd_close d adapter)" using assms by (simp add: externals_keep_def)
  show "env_holds J (snd (client_attempt_failed d n adapter error s))"
    unfolding client_attempt_failed_def Let_def using s
    by (auto simp: act_raise_def split: prod.split sum.split intro!: env_bind_on_env [OF close])
qed

lemma env_attempt:
  assumes "externals_keep J d" and "\<And>a. keeps J (primary a)" and "\<And>n. keeps J (before_attempt hooks n)"
  shows "keeps (env_holds J) (client_attempt d primary hooks n)"
  unfolding client_attempt_def [abs_def]
  by (intro keeps_bind keeps_update env_on_env env_get_primary keeps_catch env_attempt_failed assms) simp

lemma env_call:
  fixes d :: "('p, 'x) client_deps" and retrying :: "(('p, 'x) client_state, 'r) retrying"
  assumes "tenacity_contract retrying" and J: "externals_keep J d" and p: "\<And>a. keeps J (primary a)" and "keeps J secondary"
    and h: "\<And>n. keeps J (before_attempt hooks n)" "\<And>e. keeps J (before_retry hooks e)"
  shows "keeps (env_holds J) (client_call retrying d primary secondary hooks)"
proof (rule keepsI)
  fix s :: "('p, 'x) client_state" assume s: "env_holds J s"
  let ?run = "rp_execute retrying (cs_clock d) (cd_retry d) (client_attempt d primary hooks) (Some (\<lambda>e. on_env (before_retry hooks e)))"
  have run: "keeps (env_holds J) ?run"
    using J by (intro keeps_rp_execute assms(1) env_attempt env_on_env J p h) (auto simp: cs_clock_def env_holds_def externals_keep_def split_beta)
  have sec: "keeps (env_holds J) (client_secondary d secondary token)" for token
    unfolding client_secondary_def
    by (intro keeps_bind keeps_catch env_on_env assms(4) keepsI) (simp_all add: act_defs Let_def client_record_failure_def)
  have "keeps (env_holds J) (act_bind (on_env (before_attempt hooks n)) (\<lambda>_. client_secondary d secondary token))" for n token
    by (intro keeps_bind env_on_env h sec)
  then have fb: "env_holds J (snd (client_fall_back d secondary hooks token error s1))" if "env_holds J s1" for token error s1
    using that by (simp add: client_fall_back_def Let_def act_raise_def client_record_failure_def keeps_def env_bind_on_env [OF h(2)])
  obtain r cb where bc: "cb_before_call (cs_circuit s) (cs_now d s) = (r, cb)" by fastforce
  obtain o1 s1 where e: "?run (s\<lparr>cs_circuit := cb, cs_last_attempt := 0\<rparr>) = (o1, s1)" by fastforce
  have s1: "env_holds J s1" using keepsD [OF run _ e] s by simp
  then show "env_holds J (snd (client_call retrying d primary secondary hooks s))"
    using bc e s fb [OF s1]
    by (simp add: client_call_def act_defs client_succeed_def split_beta split: sum.split exn.split)
qed

lemma env_execute:
  assumes "tenacity_contract retrying" "externals_keep J d" "\<And>a. keeps J (primary a)" "keeps J secondary"
    "\<And>n. keeps J (before_attempt hooks n)" "\<And>e. keeps J (before_retry hooks e)"
  shows "keeps (env_holds J) (client_execute retrying d primary secondary hooks)"
  unfolding client_execute_def by (intro keeps_bind env_refresh env_call assms)

lemma env_close: "externals_keep J d \<Longrightarrow> keeps (env_holds J) (client_close d)"
  by (rule keepsI) (simp add: client_close_def Let_def act_return_def externals_keep_def env_holds_def on_env_def keeps_def
    split_beta split: option.split)

lemma env_open_application:
  fixes d :: "('p, 'x) client_deps"
  assumes "externals_keep J d" and "keeps (env_holds J) body"
  shows "keeps (env_holds J) (open_application d ctx body)"
proof (rule keepsI)
  fix s :: "('p, 'x) client_state" assume s: "env_holds J s"
  obtain o1 p where acq: "op_acquire (cd_ops d) (cs_provider s) ctx (cs_now d s) = (o1, p)" by fastforce
  let ?s = "\<lambda>lease. s\<lparr>cs_provider := p, cs_context := ctx, cs_lease := lease, cs_primary := None, cs_refresh := False, cs_last_attempt := 0\<rparr>"
  have "env_holds J (snd (client_close d (snd (body (?s lease)))))" for lease
    using assms(2) env_close [OF assms(1)] s by (simp add: keeps_def)
  then show "env_holds J (snd (open_application d ctx body s))"
    using acq s by (auto simp: open_application_def split: prod.splits sum.splits) (metis snd_conv)+
qed

section \<open>Reports to the breaker\<close>

lemma keeps_circuit_on_env [intro]: "keeps (\<lambda>s. cs_circuit s = cb) (on_env f)"
  by (rule keeps_on_env) simp

lemma keeps_circuit_get_primary: "keeps (\<lambda>s. cs_circuit s = cb) (client_get_primary d)"
  by (auto simp: keeps_def client_get_primary_def act_defs on_env_def split: option.splits prod.splits sum.splits)

lemma keeps_circuit_attempt_failed: "keeps (\<lambda>s. cs_circuit s = cb) (client_attempt_failed d n adapter error)"
  by (auto simp: keeps_def client_attempt_failed_def act_defs on_env_def Let_def split: prod.splits sum.splits exn.splits)

lemma keeps_circuit_attempt: "keeps (\<lambda>s. cs_circuit s = cb) (client_attempt d primary_operation hooks n)"
  unfolding client_attempt_def [abs_def]
  by (intro keeps_bind keeps_update keeps_circuit_on_env keeps_circuit_get_primary keeps_catch keeps_circuit_attempt_failed) simp

lemma keeps_circuit_run:
  "tenacity_contract retrying \<Longrightarrow> keeps (\<lambda>s. cs_circuit s = cb)
     (rp_execute retrying (cs_clock d) rp (client_attempt d primary_operation hooks) (Some (\<lambda>e. on_env (before_retry hooks e))))"
  by (intro keeps_rp_execute keeps_circuit_attempt keeps_circuit_on_env) (simp_all add: cs_clock_def split_beta)

text \<open>No probe is waiting for its result.\<close>

definition probe_settled :: "('p, 'x) client_state \<Rightarrow> bool" where
  "probe_settled s \<longleftrightarrow> \<not> cb_probe_in_flight (cs_circuit s)"

lemma settled_on_env: "keeps probe_settled (on_env f)"
  by (rule keeps_on_env) (simp add: probe_settled_def)

lemma settled_record:
  "\<not> cb_probe_in_flight cb \<Longrightarrow> \<not> cb_probe_in_flight (cb_record_failure cb e px token now)"
  "\<not> cb_probe_in_flight cb \<Longrightarrow> \<not> cb_probe_in_flight (cb_record_success cb token)"
  by (simp_all add: cb_record_failure_def cb_record_success_def cb_open_def Let_def)

lemma settled_secondary: "keeps probe_settled (client_secondary d secondary_operation token)"
  unfolding client_secondary_def
  by (intro keeps_bind keeps_catch settled_on_env keepsI)
    (simp_all add: act_defs Let_def probe_settled_def client_record_failure_def settled_record)

lemma before_call_admits:
  "cb_enabled cb \<Longrightarrow> cb_before_call cb now = (Inr token, cb') \<Longrightarrow>
     token = Some (cb_generation cb') \<and> cb_state cb' \<noteq> OPEN \<and> cb_enabled cb'"
  by (auto simp: cb_before_call_def half_open_call_def split: if_splits option.splits)

lemma settled_fall_back:
  fixes d :: "('p, 'x) client_deps"
  assumes "cb_ok (cs_circuit s)" and "cb_enabled (cs_circuit s)" and "token = Some (cb_generation (cs_circuit s))" and "cb_state (cs_circuit s) \<noteq> OPEN"
  shows "probe_settled (snd (client_fall_back d secondary_operation hooks token error s))"
proof -
  define s1 where "s1 = client_record_failure d error (\<not> op_is_direct (cd_ops d) (cs_provider s) (cs_lease s)) token s"
  have s1: "probe_settled s1"
    using assms by (auto simp: s1_def probe_settled_def client_record_failure_def cb_record_failure_def stale_token_def
      cb_open_def cb_ok_def Let_def)
  have "keeps probe_settled (act_bind (on_env f) (\<lambda>_. client_secondary d secondary_operation token))" for f :: "('x, unit) act"
    by (intro keeps_bind settled_on_env settled_secondary)
  then have "keeps probe_settled (act_bind (on_env (before_retry hooks (Crawler error))) (\<lambda>_ s2.
              act_bind (on_env (before_attempt hooks (cs_last_attempt s2 + 1)))
                (\<lambda>_. client_secondary d secondary_operation token) s2))"
    by (intro keeps_bind settled_on_env) (simp add: keeps_def)
  with s1 show ?thesis by (simp add: client_fall_back_def s1_def [symmetric] Let_def act_raise_def keeps_def)
qed

section \<open>Properties\<close>

text \<open>Several operations of one context, each ending as it may.\<close>

fun run_operations ::
  "(('p, 'x) client_state, 'r) retrying \<Rightarrow> ('p, 'x) client_deps
     \<Rightarrow> ((lease_ref \<Rightarrow> ('x, 'r) act) \<times> ('x, 'r) act \<times> 'x operation_hooks) list \<Rightarrow> (('p, 'x) client_state, unit) act" where
  "run_operations retrying d [] s = (Inr (), s)"
| "run_operations retrying d ((primary, secondary, hooks) # calls) s =
     run_operations retrying d calls (snd (client_execute retrying d primary secondary hooks s))"

lemma keeps_run_operations:
  "(\<And>primary secondary hooks. keeps I (client_execute retrying d primary secondary hooks)) \<Longrightarrow>
     I s \<Longrightarrow> I (snd (run_operations retrying d calls s))"
  by (induction calls arbitrary: s) (auto simp: keeps_def)


text \<open>
  C29: Every call the breaker admits is reported back to it: when the primary attempts end with a
  result or a crawler error, then whatever the hooks and the secondary adapter do afterwards no
  probe is left in flight, and a call that returns a result leaves the breaker closed with no
  failures counted.
\<close>

theorem admitted_call_is_reported:
  fixes d :: "('p, 'x) client_deps" and retrying :: "(('p, 'x) client_state, 'r) retrying"
  assumes "tenacity_contract retrying" and "cb_ok (cs_circuit s)" and "cb_enabled (cs_circuit s)"
    and "cb_before_call (cs_circuit s) (cs_now d s) = (Inr token, cb)"
    and "rp_execute retrying (cs_clock d) (cd_retry d) (client_attempt d primary hooks)
           (Some (\<lambda>e. on_env (before_retry hooks e))) (s\<lparr>cs_circuit := cb, cs_last_attempt := 0\<rparr>) = (outcome, s1)"
    and "\<forall>e. outcome = Inl e \<longrightarrow> is_crawler_error e"
  shows "\<not> cb_probe_in_flight (cs_circuit (snd (client_call retrying d primary secondary hooks s)))
     \<and> ((\<exists>r. outcome = Inr r) \<longrightarrow> cb_state (cs_circuit (snd (client_call retrying d primary secondary hooks s))) = CLOSED
          \<and> cb_failure_count (cs_circuit (snd (client_call retrying d primary secondary hooks s))) = 0)"
proof -
  note adm = before_call_admits [OF assms(3,4)]
  have cb: "cb_ok cb" using breaker.inv_call_outcome(1) [OF assms(2,4)] .
  have s1: "cs_circuit s1 = cb" using keepsD [OF keeps_circuit_run [OF assms(1)] _ assms(5)] by simp
  show ?thesis
  proof (cases outcome)
    case (Inr r)
    then have "client_call retrying d primary secondary hooks s = client_succeed d token r s1"
      using assms(4,5) by (simp add: client_call_def)
    then show ?thesis using adm s1 Inr
      by (simp add: client_succeed_def act_return_def cb_record_success_def stale_token_def split_beta)
  next
    case (Inl e)
    then obtain c where e: "e = Crawler c" using assms(6) by (cases e) (auto simp: is_crawler_error_def)
    then have "client_call retrying d primary secondary hooks s = client_fall_back d secondary hooks token c s1"
      using assms(4,5) Inl by (simp add: client_call_def)
    then show ?thesis using settled_fall_back [of s1 token d secondary hooks c] adm s1 cb Inl
      by (simp add: probe_settled_def)
  qed
qed

text \<open>
  C30: A probe whose attempt is ended by an exception that is not a crawler error, such as a
  database failure in the hook that begins the attempt, is never reported: the breaker stays
  half-open with the probe in flight, and refuses every later call, whenever it comes.
\<close>

theorem foreign_error_strands_the_probe:
  fixes d :: "('p, 'x) client_deps" and retrying :: "(('p, 'x) client_state, 'r) retrying"
  assumes "tenacity_contract retrying" and "cb_enabled (cs_circuit s)" and "cb_state (cs_circuit s) = OPEN"
    and "cb_opened_at (cs_circuit s) = Some t" and "cs_now d s - t \<ge> cb_cooldown (cs_circuit s)"
    and "\<not> cs_refresh s" and "before_attempt hooks 1 (cs_env s) = (Inl (Py x), env')"
  shows "\<exists>s'. client_execute retrying d primary secondary hooks s = (Inl (Py x), s')
     \<and> (\<forall>now. \<exists>m. fst (cb_before_call (cs_circuit s') now) = Inl (Crawler (mk_err CircuitOpen m)))"
proof -
  define cb where "cb = (cs_circuit s)\<lparr>cb_state := HALF_OPEN, cb_probe_in_flight := True\<rparr>"
  have bc: "cb_before_call (cs_circuit s) (cs_now d s) = (Inr (Some (cb_generation (cs_circuit s))), cb)"
    using assms(2-5) by (simp add: cb_before_call_def half_open_call_def cb_def)
  let ?s = "s\<lparr>cs_circuit := cb, cs_last_attempt := 0\<rparr>"
  have "client_attempt d primary hooks 1 ?s = (Inl (Py x), s\<lparr>cs_circuit := cb, cs_last_attempt := 1, cs_env := env'\<rparr>)"
    using assms(7) by (simp add: client_attempt_def act_defs on_env_def)
  then have run: "rp_execute retrying (cs_clock d) (cd_retry d) (client_attempt d primary hooks)
      (Some (\<lambda>e. on_env (before_retry hooks e))) ?s = (Inl (Py x), s\<lparr>cs_circuit := cb, cs_last_attempt := 1, cs_env := env'\<rparr>)"
    unfolding tenacity_unique [OF assms(1)] rp_execute_loop by (simp add: retry_from.simps)
  have "client_execute retrying d primary secondary hooks s = (Inl (Py x), s\<lparr>cs_circuit := cb, cs_last_attempt := 1, cs_env := env'\<rparr>)"
    using assms(6) bc run by (simp add: client_execute_def client_refresh_egress_def act_bind_def act_return_def client_call_def)
  moreover have "\<exists>m. fst (cb_before_call cb now) = Inl (Crawler (mk_err CircuitOpen m))" for now
    using assms(2) by (auto simp: cb_before_call_def half_open_call_def cb_def)
  ultimately show ?thesis by simp
qed

text \<open>A client on two proxies whose adapter is always refused with 403, for the witnesses.\<close>

definition demo_deps :: "(proxy_pool, nat) client_deps" where
  "demo_deps = \<lparr>cd_ops = pool_provider, cd_create = (\<lambda>_ _. act_return ()), cd_close = (\<lambda>_. act_return ()),
     cd_clock = still_clock, cd_parsers = \<lparr>str_int = (\<lambda>_. None), to_float = (\<lambda>_. None), http_date = (\<lambda>_. None)\<rparr>,
     cd_retry = \<lparr>rp_max_attempts = 3, rp_max_delay = 60\<rparr>, cd_secondary_enabled = True\<rparr>"

definition demo_breaker :: circuit_breaker where
  "demo_breaker = \<lparr>cb_threshold = 5, cb_cooldown = 30, cb_enabled = True, cb_state = OPEN, cb_failure_count = 5,
     cb_opened_at = Some (-100), cb_probe_in_flight = False, cb_generation = 1\<rparr>"

definition demo_state :: "(proxy_pool, nat) client_state" where
  "demo_state = \<lparr>cs_context = ''app'', cs_lease = 0, cs_primary = None, cs_refresh = False, cs_last_attempt = 0,
     cs_provider = two_proxies, cs_network = \<lparr>np_threshold = 2, np_rate_limits = Map.empty\<rparr>, cs_circuit = demo_breaker, cs_env = 0\<rparr>"

definition refused :: "lease_ref \<Rightarrow> (nat, string) act" where
  "refused a x = (Inl (Crawler ((mk_err AccessForbidden ''403'')\<lparr>retry_with_new_egress := True\<rparr>)), x + 1)"

definition broken_hooks :: "nat operation_hooks" where
  "broken_hooks = \<lparr>before_attempt = (\<lambda>n x. (Inl (mk_exn ''OperationalError'' ''connection lost'' False), x)),
     before_retry = (\<lambda>e. act_return ())\<rparr>"

lemma demo_close: "close_returns demo_deps"
  by (simp add: close_returns_def demo_deps_def act_return_def)

lemma demo_ops: "cd_ops demo_deps = pool_provider"
  by (simp add: demo_deps_def)

lemma demo_breaker_ok: "cb_ok demo_breaker"
  by (simp add: cb_ok_def demo_breaker_def)

lemma demo_fresh: "pl_ok (cs_provider demo_state)" "cb_ok (cs_circuit demo_state)" "\<forall>r. \<not> pl_live (cs_provider demo_state) ''app'' r"
  using pl_ok_new [OF two_proxies_new] two_proxies_empty by (simp_all add: demo_state_def demo_breaker_ok pl_live_def)


theorem admitted_call_is_reported_witness:
  "\<not> cb_probe_in_flight (cs_circuit (snd (client_call tenacity_retrying demo_deps (\<lambda>a. act_return ''ok'')
       (act_return ''ok'') NO_OPERATION_HOOKS demo_state)))"
proof -
  let ?cb = "demo_breaker\<lparr>cb_state := HALF_OPEN, cb_probe_in_flight := True\<rparr>"
  have bc: "cb_before_call (cs_circuit demo_state) (cs_now demo_deps demo_state) = (Inr (Some 1), ?cb)"
    by (simp add: demo_state_def demo_deps_def demo_breaker_def cs_now_def still_clock_def cb_before_call_def half_open_call_def)
  have run: "rp_execute tenacity_retrying (cs_clock demo_deps) (cd_retry demo_deps)
      (client_attempt demo_deps (\<lambda>a. act_return ''ok'') NO_OPERATION_HOOKS)
      (Some (\<lambda>e. on_env (before_retry NO_OPERATION_HOOKS e))) (demo_state\<lparr>cs_circuit := ?cb, cs_last_attempt := 0\<rparr>) =
      (Inr ''ok'', demo_state\<lparr>cs_circuit := ?cb, cs_last_attempt := 1, cs_primary := Some 0\<rparr>)"
    by (simp add: rp_execute_loop retry_from.simps client_attempt_def act_defs on_env_def client_get_primary_def
      demo_state_def demo_deps_def NO_OPERATION_HOOKS_def)
  have en: "cb_enabled (cs_circuit demo_state)" by (simp add: demo_state_def demo_breaker_def)
  show ?thesis
    using admitted_call_is_reported [OF tenacity_retrying_contract demo_fresh(2) en bc run] by simp
qed

theorem foreign_error_strands_the_probe_witness:
  "\<exists>x s'. client_execute tenacity_retrying demo_deps refused (act_return ''ok'') broken_hooks demo_state = (Inl (Py x), s')
     \<and> (\<forall>now. \<exists>m. fst (cb_before_call (cs_circuit s') now) = Inl (Crawler (mk_err CircuitOpen m)))"
proof -
  have c: "cb_enabled (cs_circuit demo_state)" "cb_state (cs_circuit demo_state) = OPEN"
    "cb_opened_at (cs_circuit demo_state) = Some (-100)" "\<not> cs_refresh demo_state"
    "cs_now demo_deps demo_state - (-100) \<ge> cb_cooldown (cs_circuit demo_state)"
    by (simp_all add: demo_state_def demo_deps_def demo_breaker_def cs_now_def still_clock_def)
  obtain x where x: "before_attempt broken_hooks 1 (cs_env demo_state) = (Inl (Py x), cs_env demo_state)"
    by (simp add: broken_hooks_def mk_exn_def)
  show ?thesis
    using foreign_error_strands_the_probe [OF tenacity_retrying_contract c(1-3,5,4) x, of refused "act_return ''ok''"] by blast
qed

end
