(* ===== verification/Crawl_Command.thy ===== *)
theory Crawl_Command
  imports Playstore_Client Crawl_Lifecycle
begin

text \<open>
  The command that crawls one application (\<open>crawler/application/tasks.py\<close>): it opens an application
  context, runs the details task and the reviews task, publishes what they collect, and records the
  fate of both tasks in the lifecycle store, also when the context cannot be opened, an adapter or
  the broker fails, or the database fails.

  The environment of the client is here the lifecycle store together with everything else
  (\<open>ce_rest\<close>: adapters, broker, clocks), which only the ports touch. What is collected has one type
  \<open>'r\<close>. Log records are not modelled.
\<close>

section \<open>Environment and ports\<close>

record 'y crawl_env =
  ce_store :: lifecycle_store
  ce_rest :: 'y

record ('p, 'y, 'r) command_ports =
  cm_ops :: "'p proxy_ops"
  cm_create :: "string \<Rightarrow> lease_ref \<Rightarrow> ('y, unit) act"
  cm_close :: "lease_ref \<Rightarrow> ('y, unit) act"
  cm_clock :: "'y clock_ports"
  cm_parsers :: py_parsers
  cm_retry :: retry_policy
  cm_secondary_enabled :: bool
  cm_primary_app :: "lease_ref \<Rightarrow> string \<Rightarrow> string \<Rightarrow> string \<Rightarrow> ('y, 'r) act"
  cm_secondary_app :: "string \<Rightarrow> string \<Rightarrow> string \<Rightarrow> ('y, 'r) act"
  cm_primary_reviews :: "lease_ref \<Rightarrow> string \<Rightarrow> string \<Rightarrow> string \<Rightarrow> int \<Rightarrow> ('y, 'r) act"
  cm_secondary_reviews :: "string \<Rightarrow> string \<Rightarrow> string \<Rightarrow> int \<Rightarrow> ('y, 'r) act"
  cm_publish_app_stats :: "uuid \<Rightarrow> application_ref \<Rightarrow> 'r \<Rightarrow> ('y, unit) act"
  cm_publish_reviews :: "uuid \<Rightarrow> application_ref \<Rightarrow> 'r \<Rightarrow> ('y, unit) act"
  cm_wall_clock :: "'y \<Rightarrow> seconds"
  cm_language :: string
  cm_country :: string
  cm_review_limit :: int

definition on_rest :: "('y, 'r) act \<Rightarrow> ('y crawl_env, 'r) act" where
  "on_rest f x = (case f (ce_rest x) of (r, y) \<Rightarrow> (r, x\<lparr>ce_rest := y\<rparr>))"

definition client_deps_of :: "('p, 'y, 'r) command_ports \<Rightarrow> ('p, 'y crawl_env) client_deps" where
  "client_deps_of ports = \<lparr>cd_ops = cm_ops ports, cd_create = (\<lambda>c r. on_rest (cm_create ports c r)),
     cd_close = (\<lambda>a. on_rest (cm_close ports a)),
     cd_clock = \<lparr>cp_now = (\<lambda>x. cp_now (cm_clock ports) (ce_rest x)),
                 cp_sleep = (\<lambda>t x. x\<lparr>ce_rest := cp_sleep (cm_clock ports) t (ce_rest x)\<rparr>),
                 cp_random = (\<lambda>x. case cp_random (cm_clock ports) (ce_rest x) of (u, y) \<Rightarrow> (u, x\<lparr>ce_rest := y\<rparr>))\<rparr>,
     cd_parsers = cm_parsers ports, cd_retry = cm_retry ports, cd_secondary_enabled = cm_secondary_enabled ports\<rparr>"

definition in_transaction ::
  "('p, 'y, 'r) command_ports \<Rightarrow> (seconds \<Rightarrow> lifecycle_db \<Rightarrow> exn + ('a \<times> lifecycle_db)) \<Rightarrow> ('y crawl_env, 'a) act" where
  "in_transaction ports body x =
     (case lc_transaction (body (cm_wall_clock ports (ce_rest x))) (ce_store x) of (r, st) \<Rightarrow> (r, x\<lparr>ce_store := st\<rparr>))"

section \<open>Recording the fate of a task\<close>

definition cmd_error_code :: "exn \<Rightarrow> string" where
  "cmd_error_code e = (case e of Crawler c \<Rightarrow> error_code (err_class c) | _ \<Rightarrow> error_code CrawlerErrorC)"

definition cmd_begin_attempt :: "('p, 'y, 'r) command_ports \<Rightarrow> uuid \<Rightarrow> ('y crawl_env, unit) act" where
  "cmd_begin_attempt ports task_id = in_transaction ports (\<lambda>now. begin_attempt now task_id)"

definition cmd_mark_retrying :: "('p, 'y, 'r) command_ports \<Rightarrow> uuid \<Rightarrow> ('y crawl_env, unit) act" where
  "cmd_mark_retrying ports task_id = in_transaction ports (\<lambda>now. mark_retrying task_id)"

definition cmd_mark_succeeded :: "('p, 'y, 'r) command_ports \<Rightarrow> uuid \<Rightarrow> ('y crawl_env, unit) act" where
  "cmd_mark_succeeded ports task_id = in_transaction ports (\<lambda>now. mark_task_succeeded now task_id)"

definition cmd_mark_failed :: "('p, 'y, 'r) command_ports \<Rightarrow> uuid \<Rightarrow> exn \<Rightarrow> ('y crawl_env, unit) act" where
  "cmd_mark_failed ports task_id error =
     in_transaction ports (\<lambda>now. mark_task_failed now task_id (cmd_error_code error) (safe_error_message error))"

definition cmd_mark_expected_failure :: "('p, 'y, 'r) command_ports \<Rightarrow> uuid \<Rightarrow> exn \<Rightarrow> ('y crawl_env, unit) act" where
  "cmd_mark_expected_failure ports task_id error = act_catch (cmd_mark_failed ports task_id error)
     (\<lambda>finalization_error. act_raise (ExceptionGroup ''crawler failure and task finalization failed'' [error, finalization_error]))"

definition cmd_mark_unexpected_failure :: "('p, 'y, 'r) command_ports \<Rightarrow> uuid \<Rightarrow> exn \<Rightarrow> ('y crawl_env, unit) act" where
  "cmd_mark_unexpected_failure ports task_id error = act_catch (cmd_mark_failed ports task_id error)
     (\<lambda>finalization_error. act_raise (ExceptionGroup ''application failure and task finalization failed'' [error, finalization_error]))"

definition cmd_hooks :: "('p, 'y, 'r) command_ports \<Rightarrow> uuid \<Rightarrow> 'y crawl_env operation_hooks" where
  "cmd_hooks ports task_id = \<lparr>before_attempt = (\<lambda>attempt. cmd_begin_attempt ports task_id),
     before_retry = (\<lambda>error. cmd_mark_retrying ports task_id)\<rparr>"

section \<open>The two tasks\<close>

text \<open>
  The \<open>try\<close> statement both tasks have: a crawler error fails the task and the command goes on; any
  other error fails the task and is raised again; otherwise the task succeeded.
\<close>

definition settle_task ::
  "('p, 'y, 'r) command_ports \<Rightarrow> uuid \<Rightarrow> (('p, 'y crawl_env) client_state, unit) act \<Rightarrow> (('p, 'y crawl_env) client_state, unit) act" where
  "settle_task ports task_id work s =
     (case work s of
        (Inl error, s1) \<Rightarrow>
          if is_crawler_error error then on_env (cmd_mark_expected_failure ports task_id error) s1
          else act_bind (on_env (cmd_mark_unexpected_failure ports task_id error)) (\<lambda>_. act_raise error) s1
      | (Inr _, s1) \<Rightarrow> on_env (cmd_mark_succeeded ports task_id) s1)"

definition cmd_run_details ::
  "(('p, 'y crawl_env) client_state, 'r) retrying \<Rightarrow> ('p, 'y, 'r) command_ports \<Rightarrow> application_ref \<Rightarrow> uuid \<Rightarrow> string \<Rightarrow> string
     \<Rightarrow> (('p, 'y crawl_env) client_state, unit) act" where
  "cmd_run_details retrying ports app task_id language country =
     settle_task ports task_id
       (act_bind
         (client_execute retrying (client_deps_of ports)
            (\<lambda>adapter. on_rest (cm_primary_app ports adapter (ar_package_name app) language country))
            (on_rest (cm_secondary_app ports (ar_package_name app) language country))
            (cmd_hooks ports task_id))
         (\<lambda>details. on_env (on_rest (cm_publish_app_stats ports task_id app details))))"

definition cmd_run_reviews ::
  "(('p, 'y crawl_env) client_state, 'r) retrying \<Rightarrow> ('p, 'y, 'r) command_ports \<Rightarrow> application_ref \<Rightarrow> uuid \<Rightarrow> string \<Rightarrow> string
     \<Rightarrow> (('p, 'y crawl_env) client_state, unit) act" where
  "cmd_run_reviews retrying ports app task_id language country =
     settle_task ports task_id
       (act_bind
         (client_execute retrying (client_deps_of ports)
            (\<lambda>adapter. on_rest (cm_primary_reviews ports adapter (ar_package_name app) language country (cm_review_limit ports)))
            (on_rest (cm_secondary_reviews ports (ar_package_name app) language country (cm_review_limit ports)))
            (cmd_hooks ports task_id))
         (\<lambda>reviews. on_env (on_rest (cm_publish_reviews ports task_id app reviews))))"

section \<open>The command\<close>

text \<open>Failing whatever is still open: a \<open>ValueError\<close> says that the task is finished already.\<close>

fun cmd_fail_open_tasks ::
  "('p, 'y, 'r) command_ports \<Rightarrow> (crawl_task_type \<times> uuid) list \<Rightarrow> exn \<Rightarrow> 'y crawl_env \<Rightarrow> exn list \<times> 'y crawl_env" where
  "cmd_fail_open_tasks ports [] error x = ([], x)"
| "cmd_fail_open_tasks ports ((ty, task_id) # tasks) error x =
     (case cmd_mark_failed ports task_id error x of
        (Inr _, x1) \<Rightarrow> cmd_fail_open_tasks ports tasks error x1
      | (Inl e, x1) \<Rightarrow>
          (case cmd_fail_open_tasks ports tasks error x1 of
             (errors, x2) \<Rightarrow> (if is_value_error e then errors else e # errors, x2)))"

definition cmd_execute ::
  "(('p, 'y crawl_env) client_state, 'r) retrying \<Rightarrow> ('p, 'y, 'r) command_ports \<Rightarrow> application_ref \<Rightarrow> uuid \<Rightarrow> uuid
     \<Rightarrow> (('p, 'y crawl_env) client_state, unit) act" where
  "cmd_execute retrying ports app details_id reviews_id s =
     (case effective_locale app (cm_language ports) (cm_country ports) of (language, country) \<Rightarrow>
        (case open_application (client_deps_of ports) (nat_str (ar_application_id app))
                (act_bind (cmd_run_details retrying ports app details_id language country)
                  (\<lambda>_. cmd_run_reviews retrying ports app reviews_id language country)) s of
           (Inr _, s1) \<Rightarrow> (Inr (), s1)
         | (Inl error, s1) \<Rightarrow>
             (case cmd_fail_open_tasks ports [(APP_DETAILS, details_id), (REVIEWS, reviews_id)] error (cs_env s1) of
                (errors, x) \<Rightarrow>
                  (let s2 = s1\<lparr>cs_env := x\<rparr>
                   in if is_crawler_error error then
                        (if errors \<noteq> [] then (Inl (ExceptionGroup ''crawler failure and task finalization failure'' (error # errors)), s2)
                         else (Inr (), s2))
                      else if errors \<noteq> [] then (Inl (ExceptionGroup ''application command and task finalization failed'' (error # errors)), s2)
                      else (Inl error, s2)))))"

section \<open>What the command keeps of the store\<close>

definition moves_only :: "(seconds \<Rightarrow> lifecycle_db \<Rightarrow> exn + ('a \<times> lifecycle_db)) \<Rightarrow> bool" where
  "moves_only body \<longleftrightarrow> (\<forall>now db u db'. body now db = Inr (u, db') \<longrightarrow> (\<exists>j. moves_task j db db'))"

text \<open>A property of the store that task moves and everything outside the store keep.\<close>

definition durable :: "('p, 'y, 'r) command_ports \<Rightarrow> ('y crawl_env \<Rightarrow> bool) \<Rightarrow> bool" where
  "durable ports J \<longleftrightarrow> (\<forall>x y. J (x\<lparr>ce_rest := y\<rparr>) = J x)
     \<and> (\<forall>body :: seconds \<Rightarrow> lifecycle_db \<Rightarrow> exn + (unit \<times> lifecycle_db). moves_only body \<longrightarrow> keeps J (in_transaction ports body))"

lemma durable_on_rest: "durable ports J \<Longrightarrow> keeps J (on_rest f)"
  by (simp add: durable_def keeps_def on_rest_def split_beta)

lemma durable_deps: "durable ports J \<Longrightarrow> externals_keep J (client_deps_of ports)"
  by (simp add: externals_keep_def client_deps_of_def durable_on_rest) (simp add: durable_def split_beta)

lemma durable_marks:
  assumes "durable ports J"
  shows "keeps J (cmd_begin_attempt ports i)" "keeps J (cmd_mark_retrying ports i)"
    "keeps J (cmd_mark_succeeded ports i)" "keeps J (cmd_mark_failed ports i e)"
proof -
  have m: "moves_only (\<lambda>now. begin_attempt now i)" "moves_only (\<lambda>now. mark_retrying i)"
    "moves_only (\<lambda>now. mark_task_succeeded now i)" "moves_only (\<lambda>now. mark_task_failed now i c m)" for c m
    unfolding moves_only_def by (auto dest: task_ops_move)
  show "keeps J (cmd_begin_attempt ports i)" "keeps J (cmd_mark_retrying ports i)"
    "keeps J (cmd_mark_succeeded ports i)" "keeps J (cmd_mark_failed ports i e)"
    unfolding cmd_begin_attempt_def cmd_mark_retrying_def cmd_mark_succeeded_def cmd_mark_failed_def
    using assms m by (simp_all add: durable_def)
qed

lemma durable_failures:
  "durable ports J \<Longrightarrow> keeps J (cmd_mark_expected_failure ports i e)"
  "durable ports J \<Longrightarrow> keeps J (cmd_mark_unexpected_failure ports i e)"
  unfolding cmd_mark_expected_failure_def cmd_mark_unexpected_failure_def
  by (auto intro!: keeps_catch durable_marks)

lemma durable_settle:
  fixes ports :: "('p, 'y, 'r) command_ports"
  assumes "durable ports J" and "keeps (env_holds J) work"
  shows "keeps (env_holds J) (settle_task ports i work)"
proof (rule keepsI)
  fix s :: "('p, 'y crawl_env) client_state" assume s: "env_holds J s"
  obtain o1 s1 where w: "work s = (o1, s1)" by fastforce
  have s1: "env_holds J s1" using keepsD [OF assms(2) s w] .
  have "env_holds J (snd (on_env (cmd_mark_expected_failure ports i e) s1))"
    "env_holds J (snd (act_bind (on_env (cmd_mark_unexpected_failure ports i e))
        (\<lambda>_. act_raise e :: (('p, 'y crawl_env) client_state, unit) act) s1))"
    "env_holds J (snd (on_env (cmd_mark_succeeded ports i) s1))" for e
    using env_on_env [OF durable_failures(1) [OF assms(1), of i e]] env_on_env [OF durable_marks(3) [OF assms(1), of i]]
      keeps_bind [OF env_on_env [OF durable_failures(2) [OF assms(1), of i e]] keeps_raise, of "\<lambda>_. e"] s1
    unfolding keeps_def by blast+
  then show "env_holds J (snd (settle_task ports i work s))"
    using w s1 by (simp add: settle_task_def split: sum.split)
qed

lemma durable_hooks: "durable ports J \<Longrightarrow> keeps J (before_attempt (cmd_hooks ports i) n)"
  "durable ports J \<Longrightarrow> keeps J (before_retry (cmd_hooks ports i) e)"
  by (simp_all add: cmd_hooks_def durable_marks)

lemma durable_tasks:
  assumes "tenacity_contract retrying" and "durable ports J"
  shows "keeps (env_holds J) (cmd_run_details retrying ports app i language country)"
    "keeps (env_holds J) (cmd_run_reviews retrying ports app i language country)"
  unfolding cmd_run_details_def cmd_run_reviews_def
proof -
  note d = durable_on_rest [OF assms(2)] durable_deps [OF assms(2)] durable_hooks [OF assms(2)]
  show "keeps (env_holds J) (settle_task ports i (act_bind (client_execute retrying (client_deps_of ports)
            (\<lambda>adapter. on_rest (cm_primary_app ports adapter (ar_package_name app) language country))
            (on_rest (cm_secondary_app ports (ar_package_name app) language country)) (cmd_hooks ports i))
         (\<lambda>details. on_env (on_rest (cm_publish_app_stats ports i app details)))))"
    by (intro durable_settle keeps_bind env_execute env_on_env d assms)
  show "keeps (env_holds J) (settle_task ports i (act_bind (client_execute retrying (client_deps_of ports)
            (\<lambda>adapter. on_rest (cm_primary_reviews ports adapter (ar_package_name app) language country (cm_review_limit ports)))
            (on_rest (cm_secondary_reviews ports (ar_package_name app) language country (cm_review_limit ports))) (cmd_hooks ports i))
         (\<lambda>reviews. on_env (on_rest (cm_publish_reviews ports i app reviews)))))"
    by (intro durable_settle keeps_bind env_execute env_on_env d assms)
qed

section \<open>Finished tasks\<close>

definition task_of :: "uuid \<Rightarrow> 'y crawl_env \<Rightarrow> crawl_task option" where
  "task_of i x = map_of (db_tasks (st_db (ce_store x))) i"

definition stored :: "uuid \<Rightarrow> 'y crawl_env \<Rightarrow> bool" where
  "stored i x \<longleftrightarrow> task_of i x \<noteq> None"

definition finished :: "uuid \<Rightarrow> 'y crawl_env \<Rightarrow> bool" where
  "finished i x \<longleftrightarrow> (\<exists>t. task_of i x = Some t \<and> task_status t \<in> {SUCCEEDED, FAILED})"

text \<open>A database fault is never a \<open>ValueError\<close>; no faults at all.\<close>

definition database_faults :: "'y crawl_env \<Rightarrow> bool" where
  "database_faults x \<longleftrightarrow> (\<forall>e. Some e \<in> set (st_faults (ce_store x)) \<longrightarrow> \<not> is_value_error e)"

definition no_faults :: "'y crawl_env \<Rightarrow> bool" where
  "no_faults x \<longleftrightarrow> (\<forall>e. Some e \<notin> set (st_faults (ce_store x)))"

text \<open>The outcomes of a transaction.\<close>

lemma in_transaction_cases:
  fixes body :: "seconds \<Rightarrow> lifecycle_db \<Rightarrow> exn + ('a \<times> lifecycle_db)"
  obtains (fault) e where "Some e \<in> set (st_faults (ce_store x))"
      "in_transaction ports body x = (Inl e, x\<lparr>ce_store := (ce_store x)\<lparr>st_faults := tl (st_faults (ce_store x))\<rparr>\<rparr>)"
  | (error) e where "body (cm_wall_clock ports (ce_rest x)) (st_db (ce_store x)) = Inl e"
      "in_transaction ports body x = (Inl e, x\<lparr>ce_store := (ce_store x)\<lparr>st_faults := tl (st_faults (ce_store x))\<rparr>\<rparr>)"
  | (committed) r db where "body (cm_wall_clock ports (ce_rest x)) (st_db (ce_store x)) = Inr (r, db)"
      "in_transaction ports body x =
         (Inr r, x\<lparr>ce_store := (ce_store x)\<lparr>st_faults := tl (st_faults (ce_store x)), st_db := db\<rparr>\<rparr>)"
proof (cases "\<exists>e fs. st_faults (ce_store x) = Some e # fs")
  case True
  then obtain e fs where "st_faults (ce_store x) = Some e # fs" by blast
  then show thesis by (intro fault [of e]) (simp_all add: in_transaction_def lc_transaction_def Let_def)
next
  case False
  then have "lc_transaction b (ce_store x) = (case b (st_db (ce_store x)) of
      Inl e \<Rightarrow> (Inl e, (ce_store x)\<lparr>st_faults := tl (st_faults (ce_store x))\<rparr>)
    | Inr (r, db) \<Rightarrow> (Inr r, (ce_store x)\<lparr>st_faults := tl (st_faults (ce_store x)), st_db := db\<rparr>))" for b :: "lifecycle_db \<Rightarrow> exn + ('a \<times> lifecycle_db)"
    by (auto simp: lc_transaction_def Let_def split: list.splits option.splits)
  then show thesis
    by (cases "body (cm_wall_clock ports (ce_rest x)) (st_db (ce_store x))")
      (auto simp: in_transaction_def intro: error committed)
qed

lemma in_tl: "x \<in> set (tl xs) \<Longrightarrow> x \<in> set xs"
  by (cases xs) auto

lemma durable_faults: "durable ports database_faults" "durable ports no_faults"
proof -
  have "set (st_faults (ce_store (snd (in_transaction ports body x)))) \<subseteq> set (st_faults (ce_store x))"
    for body :: "seconds \<Rightarrow> lifecycle_db \<Rightarrow> exn + (unit \<times> lifecycle_db)" and x
    by (cases rule: in_transaction_cases [of x ports body]) (auto dest: in_tl)
  then show "durable ports database_faults" "durable ports no_faults"
    unfolding durable_def keeps_def database_faults_def no_faults_def by (simp_all, blast+)
qed

lemma moves_task_kept:
  assumes "moves_task j db db'" and "map_of (db_tasks db) i = Some t"
  shows "\<exists>t'. map_of (db_tasks db') i = Some t'"
    and "task_status t \<in> {SUCCEEDED, FAILED} \<Longrightarrow> map_of (db_tasks db') i = Some t"
  using moves_task_row [OF assms] by (auto elim: task_stepE)

lemma durable_rows: "durable ports (stored i)" "durable ports (finished i)"
proof -
  have "stored i (snd (in_transaction ports body x)) \<and> (finished i x \<longrightarrow> finished i (snd (in_transaction ports body x)))"
    if st: "stored i x" and mo: "moves_only body" for body :: "seconds \<Rightarrow> lifecycle_db \<Rightarrow> exn + (unit \<times> lifecycle_db)" and x
  proof (cases rule: in_transaction_cases [of x ports body])
    case (committed r db)
    then obtain j where j: "moves_task j (st_db (ce_store x)) db" using mo unfolding moves_only_def by blast
    then show ?thesis using st committed moves_task_kept [OF j, of i]
      by (auto simp: stored_def finished_def task_of_def)
  qed (use st in \<open>auto simp: stored_def finished_def task_of_def\<close>)
  moreover have "finished i x \<Longrightarrow> stored i x" for x :: "'b crawl_env" by (auto simp: stored_def finished_def)
  ultimately show "durable ports (stored i)" "durable ports (finished i)"
    by (auto simp: durable_def keeps_def) (auto simp: stored_def finished_def task_of_def)
qed

lemma put_task_finished:
  "map_of (db_tasks (st_db (ce_store x))) i = Some t \<Longrightarrow> task_status t \<in> {SUCCEEDED, FAILED} \<Longrightarrow> finished i x"
  by (auto simp: finished_def task_of_def)

lemma mark_succeeded_finishes:
  assumes "cmd_mark_succeeded ports i x = (Inr u, x')"
  shows "finished i x'"
  using assms unfolding cmd_mark_succeeded_def
  by (cases rule: in_transaction_cases [of x ports "\<lambda>now. mark_task_succeeded now i"])
    (auto simp: mark_task_succeeded_def finished_def task_of_def split: sum.splits if_splits)

lemma mark_failed_finishes:
  assumes "cmd_mark_failed ports i e x = (Inr u, x')"
  shows "finished i x'"
  using assms unfolding cmd_mark_failed_def
  by (cases rule: in_transaction_cases [of x ports "\<lambda>now. mark_task_failed now i (cmd_error_code e) (safe_error_message e)"])
    (auto simp: mark_task_failed_def finished_def task_of_def split: sum.splits if_splits)

text \<open>When the task exists, a refusal to fail it is a database fault or says that it is finished.\<close>

lemma mark_failed_refused:
  assumes "cmd_mark_failed ports i e x = (Inl f, x')" and "stored i x" and "database_faults x"
  shows "if is_value_error f then finished i x' else \<not> no_faults x"
  using assms(1) unfolding cmd_mark_failed_def
proof (cases rule: in_transaction_cases [of x ports "\<lambda>now. mark_task_failed now i (cmd_error_code e) (safe_error_message e)"])
  case (fault g)
  then show ?thesis using assms by (auto simp: database_faults_def no_faults_def cmd_mark_failed_def)
next
  case (error g)
  obtain t where t: "map_of (db_tasks (st_db (ce_store x))) i = Some t" using assms(2) by (auto simp: stored_def task_of_def)
  with error have "task_status t \<in> {SUCCEEDED, FAILED}" "is_value_error g"
    by (cases "task_status t"; auto simp: mark_task_failed_def find_task_def is_value_error_def mk_exn_def)+
  then show ?thesis using error t assms(1) by (auto simp: cmd_mark_failed_def finished_def task_of_def)
next
  case (committed r db)
  then show ?thesis using assms(1) by (simp add: cmd_mark_failed_def)
qed

lemma settle_finishes:
  assumes "settle_task ports i work s = (Inr u, s')"
  shows "finished i (cs_env s')"
  using assms
  by (auto simp: settle_task_def act_bind_def act_raise_def act_catch_def on_env_def cmd_mark_expected_failure_def
      split: prod.splits sum.splits if_splits
      dest: mark_succeeded_finishes mark_failed_finishes)

lemma fail_open_tasks_keeps:
  "durable ports J \<Longrightarrow> J x \<Longrightarrow> J (snd (cmd_fail_open_tasks ports tasks error x))"
proof (induction tasks arbitrary: x)
  case (Cons a tasks)
  obtain ty i where a: "a = (ty, i)" by fastforce
  obtain o1 x1 where m: "cmd_mark_failed ports i error x = (o1, x1)" by fastforce
  have "J x1" using keepsD [OF durable_marks(4) [OF Cons.prems(1)] Cons.prems(2) m] .
  with Cons.IH [OF Cons.prems(1)] show ?case by (simp add: a m split_beta split: sum.split)
qed simp

lemma fail_open_tasks_finishes:
  assumes "cmd_fail_open_tasks ports tasks error x = (errors, x')" and "database_faults x"
    and "\<forall>(ty, i) \<in> set tasks. stored i x" and "errors = [] \<or> no_faults x"
  shows "\<forall>(ty, i) \<in> set tasks. finished i x'"
  using assms
proof (induction tasks arbitrary: x errors)
  case (Cons a tasks)
  obtain ty i where a: "a = (ty, i)" by fastforce
  obtain o1 x1 where m: "cmd_mark_failed ports i error x = (o1, x1)" by fastforce
  obtain errs where rest: "cmd_fail_open_tasks ports tasks error x1 = (errs, x')"
    using Cons.prems(1) m by (auto simp: a split: sum.splits prod.splits)
  have k: "J x \<Longrightarrow> durable ports J \<Longrightarrow> J x1" for J using keepsD [OF durable_marks(4) _ m] by blast
  have stored: "\<forall>(ty, j) \<in> set tasks. stored j x1" using Cons.prems(3) k durable_rows(1) by fastforce
  have i: "stored i x" using Cons.prems(3) by (simp add: a)
  have "finished i x1 \<and> (errs = [] \<or> no_faults x1)"
  proof (cases o1)
    case (Inr u)
    then show ?thesis using mark_failed_finishes m Cons.prems(1,4) rest k [of no_faults, OF _ durable_faults(2)]
      by (auto simp: a)
  next
    case (Inl f)
    have f: "if is_value_error f then finished i x1 else \<not> no_faults x"
      using m unfolding Inl by (rule mark_failed_refused) (use i Cons.prems(2) in simp_all)
    have "errors = (if is_value_error f then errs else f # errs)" using Cons.prems(1) m Inl rest by (simp add: a)
    with f Cons.prems(4) show ?thesis using k [of no_faults, OF _ durable_faults(2)] by (auto split: if_splits)
  qed
  then show ?case
    using Cons.IH [OF rest k [OF Cons.prems(2) durable_faults(1)] stored]
      fail_open_tasks_keeps [OF durable_rows(2) [of ports i], of x1 tasks error] rest
    by (auto simp: a)
qed simp

section \<open>Both tasks end\<close>

lemma command_finishes:
  assumes "tenacity_contract retrying" and "stored details_id (cs_env s)" and "stored reviews_id (cs_env s)"
    and "database_faults (cs_env s)"
    and "cmd_execute retrying ports app details_id reviews_id s = (res, s')"
    and "res = Inr () \<or> no_faults (cs_env s)"
  shows "finished details_id (cs_env s') \<and> finished reviews_id (cs_env s')"
proof -
  obtain language country where loc: "effective_locale app (cm_language ports) (cm_country ports) = (language, country)" by fastforce
  define details where "details = cmd_run_details retrying ports app details_id language country"
  define reviews where "reviews = cmd_run_reviews retrying ports app reviews_id language country"
  let ?d = "client_deps_of ports" and ?body = "act_bind details (\<lambda>_. reviews)"
  obtain o1 s1 where opened: "open_application ?d (nat_str (ar_application_id app)) ?body s = (o1, s1)" by fastforce
  have kd: "keeps (env_holds J) details" and kr: "keeps (env_holds J) reviews" if "durable ports J" for J
    unfolding details_def reviews_def by (intro durable_tasks assms(1) that)+
  have k: "J (cs_env s) \<Longrightarrow> J (cs_env s1)" if "durable ports J" for J
    using keepsD [OF env_open_application [OF durable_deps [OF that] keeps_bind [OF kd [OF that] kr [OF that]]] _ opened]
    by (simp add: env_holds_def)
  show ?thesis
  proof (cases o1)
    case (Inr u)
    then have s': "s' = s1" using assms(5) opened loc by (simp add: cmd_execute_def details_def reviews_def)
    obtain s0 s3 where "?body s0 = (Inr (), s3)" and close: "client_close ?d s3 = (Inr (), s1)"
      using opened Inr by (auto simp: open_application_def split: prod.splits sum.splits)
    then obtain s2 where run: "details s0 = (Inr (), s2)" "reviews s2 = (Inr (), s3)"
      by (auto simp: act_bind_def split: prod.splits sum.splits)
    have "finished details_id (cs_env s2)" "finished reviews_id (cs_env s3)"
      using run by (auto simp: details_def reviews_def cmd_run_details_def cmd_run_reviews_def intro: settle_finishes)
    moreover have "finished details_id (cs_env s2) \<Longrightarrow> finished details_id (cs_env s3)"
      using keepsD [OF kr [OF durable_rows(2)] _ run(2), of details_id] by (simp add: env_holds_def)
    moreover have "finished i (cs_env s3) \<Longrightarrow> finished i (cs_env s1)" for i
      using keepsD [OF env_close [OF durable_deps [OF durable_rows(2)]] _ close, of i] by (simp add: env_holds_def)
    ultimately show ?thesis by (simp add: s')
  next
    case (Inl error)
    let ?tasks = "[(APP_DETAILS, details_id), (REVIEWS, reviews_id)]"
    obtain errors x where fail: "cmd_fail_open_tasks ports ?tasks error (cs_env s1) = (errors, x)" by fastforce
    have out: "cs_env s' = x" "res = Inr () \<longrightarrow> errors = []"
      using assms(5) opened loc Inl fail
      by (auto simp: cmd_execute_def details_def reviews_def Let_def simp del: cmd_fail_open_tasks.simps split: if_splits)
    have "errors = [] \<or> no_faults (cs_env s1)" using out(2) assms(6) k [OF durable_faults(2)] by blast
    then have "\<forall>(ty, i) \<in> set ?tasks. finished i x"
      using fail_open_tasks_finishes [OF fail] k [OF durable_faults(1)] k [OF durable_rows(1)] assms(2-4) by simp
    then show ?thesis by (simp add: out(1))
  qed
qed

section \<open>Properties\<close>

text \<open>
  C27: When the command for an application returns, both its tasks are finished in the database:
  succeeded or failed, never left pending, running or retrying, whatever the proxies, adapters,
  broker, breaker and hooks did. When the database raises no faults this also holds when the
  command raises.
\<close>

theorem command_finishes_its_tasks:
  assumes "tenacity_contract retrying" and "stored details_id (cs_env s)" and "stored reviews_id (cs_env s)"
    and "database_faults (cs_env s)"
    and "cmd_execute retrying ports app details_id reviews_id s = (res, s')"
    and "res = Inr () \<or> no_faults (cs_env s)"
  shows "finished details_id (cs_env s') \<and> finished reviews_id (cs_env s')"
  using assms by (rule command_finishes)

text \<open>A command whose every fetch is refused, on a store with one application, for the witness.\<close>

definition demo_ports :: "(proxy_pool, nat, string) command_ports" where
  "demo_ports = \<lparr>cm_ops = pool_provider, cm_create = (\<lambda>_ _. act_return ()), cm_close = (\<lambda>_. act_return ()),
     cm_clock = still_clock, cm_parsers = \<lparr>str_int = (\<lambda>_. None), to_float = (\<lambda>_. None), http_date = (\<lambda>_. None)\<rparr>,
     cm_retry = \<lparr>rp_max_attempts = 2, rp_max_delay = 60\<rparr>, cm_secondary_enabled = True,
     cm_primary_app = (\<lambda>a _ _ _. refused a), cm_secondary_app = (\<lambda>_ _ _. act_return ''details''),
     cm_primary_reviews = (\<lambda>a _ _ _ _. act_return ''reviews''), cm_secondary_reviews = (\<lambda>_ _ _ _. act_return ''reviews''),
     cm_publish_app_stats = (\<lambda>_ _ _. act_return ()), cm_publish_reviews = (\<lambda>_ _ _. act_return ()),
     cm_wall_clock = of_nat, cm_language = ''en'', cm_country = ''us'', cm_review_limit = 100\<rparr>"

definition demo_crawl :: "(proxy_pool, nat crawl_env) client_state" where
  "demo_crawl = \<lparr>cs_context = [], cs_lease = 0, cs_primary = None, cs_refresh = False, cs_last_attempt = 0,
     cs_provider = two_proxies, cs_network = \<lparr>np_threshold = 2, np_rate_limits = Map.empty\<rparr>, cs_circuit = demo_breaker,
     cs_env = \<lparr>ce_store = \<lparr>st_db = snd (projr (create_tasks 0 [one_app] ''en'' ''us'' one_run_db)), st_faults = []\<rparr>, ce_rest = 0\<rparr>\<rparr>"

theorem command_finishes_its_tasks_witness:
  "finished 1 (cs_env (snd (cmd_execute tenacity_retrying demo_ports one_app 1 2 demo_crawl)))
   \<and> finished 2 (cs_env (snd (cmd_execute tenacity_retrying demo_ports one_app 1 2 demo_crawl)))"
proof -
  let ?run = "cmd_execute tenacity_retrying demo_ports one_app 1 2 demo_crawl"
  have db: "map_of (db_tasks (snd (projr (create_tasks 0 [one_app] ''en'' ''us'' one_run_db)))) 1 = Some (new_task 0 one_app (''fa'', ''ir'') APP_DETAILS)"
    "map_of (db_tasks (snd (projr (create_tasks 0 [one_app] ''en'' ''us'' one_run_db)))) 2 = Some (new_task 0 one_app (''fa'', ''ir'') REVIEWS)"
    by code_simp+
  have "stored 1 (cs_env demo_crawl)" "stored 2 (cs_env demo_crawl)" "database_faults (cs_env demo_crawl)" "no_faults (cs_env demo_crawl)"
    using db by (simp_all add: stored_def task_of_def demo_crawl_def database_faults_def no_faults_def)
  then show ?thesis
    using command_finishes_its_tasks [OF tenacity_retrying_contract, of 1 demo_crawl 2 demo_ports one_app "fst ?run" "snd ?run"]
    by simp
qed

end
