(* ===== verification/Crawl_Service.thy ===== *)
theory Crawl_Service
  imports Crawl_Command
begin

text \<open>
  One crawl of all active applications (\<open>crawler/application/executor.py\<close>) and the scheduler that
  starts it (\<open>crawler/scheduler/scheduler.py\<close>).

  The thread pool runs every submitted command to its end, whatever the others do, and leaving the
  pool waits for all of them; \<open>future.result()\<close> then raises the first failure in order of
  submission. Commands of different applications are interleaved as wholes, in the order of
  submission. The registry is a port.
\<close>

section \<open>The service\<close>

record ('p, 'y, 'r) service_ports =
  sv_command :: "('p, 'y, 'r) command_ports"
  sv_list_active_applications :: "('y, application_ref list) act"
  sv_crawler_version :: "string option"

definition valid_concurrency :: "int \<Rightarrow> exn + unit" where
  "valid_concurrency max_concurrent_apps =
     (if max_concurrent_apps < 1 then Inl (value_error ''maximum concurrent applications must be at least one'') else Inr ())"

definition svc_create_run ::
  "('p, 'y, 'r) service_ports \<Rightarrow> trigger_type \<Rightarrow> seconds option \<Rightarrow> ('y crawl_env, uuid) act" where
  "svc_create_run sv trigger scheduled_for =
     in_transaction (sv_command sv) (\<lambda>now. create_run now trigger scheduled_for (sv_crawler_version sv))"

definition svc_create_tasks ::
  "('p, 'y, 'r) service_ports \<Rightarrow> uuid \<Rightarrow> application_ref list \<Rightarrow> ('y crawl_env, task_ids) act" where
  "svc_create_tasks sv run_id apps =
     in_transaction (sv_command sv)
       (\<lambda>now. create_tasks run_id apps (cm_language (sv_command sv)) (cm_country (sv_command sv)))"

definition svc_finish_run ::
  "('p, 'y, 'r) service_ports \<Rightarrow> uuid \<Rightarrow> crawl_run_status option \<Rightarrow> ('y crawl_env, unit) act" where
  "svc_finish_run sv run_id forced_status = in_transaction (sv_command sv) (\<lambda>now. finish_run now run_id forced_status)"

definition svc_finish_failed_preserving ::
  "('p, 'y, 'r) service_ports \<Rightarrow> uuid \<Rightarrow> exn \<Rightarrow> ('y crawl_env, unit) act" where
  "svc_finish_failed_preserving sv run_id error = act_catch (svc_finish_run sv run_id (Some RunFailed))
     (\<lambda>finalization_error. act_raise (ExceptionGroup ''crawl orchestration and run finalization failed'' [error, finalization_error]))"

text \<open>Submitting one command per application; a missing identifier would be a \<open>KeyError\<close>.\<close>

definition tasks_for_app :: "task_ids \<Rightarrow> application_ref \<Rightarrow> exn + (uuid \<times> uuid)" where
  "tasks_for_app ids app =
     (case (map_of ids (ar_application_id app, APP_DETAILS), map_of ids (ar_application_id app, REVIEWS)) of
        (Some d, Some r) \<Rightarrow> Inr (d, r)
      | _ \<Rightarrow> Inl (mk_exn ''KeyError'' (nat_str (ar_application_id app)) False))"

fun svc_submissions :: "task_ids \<Rightarrow> application_ref list \<Rightarrow> (application_ref \<times> uuid \<times> uuid) list \<times> exn option" where
  "svc_submissions ids [] = ([], None)"
| "svc_submissions ids (app # apps) =
     (case tasks_for_app ids app of
        Inl e \<Rightarrow> ([], Some e)
      | Inr (d, r) \<Rightarrow> (case svc_submissions ids apps of (subs, err) \<Rightarrow> ((app, d, r) # subs, err)))"

text \<open>All submitted commands run; the outcome is the first failure in the order of submission.\<close>

fun svc_run_all ::
  "(('p, 'y crawl_env) client_state, 'r) retrying \<Rightarrow> ('p, 'y, 'r) service_ports \<Rightarrow> (application_ref \<times> uuid \<times> uuid) list
     \<Rightarrow> (('p, 'y crawl_env) client_state, unit) act" where
  "svc_run_all retrying sv [] s = (Inr (), s)"
| "svc_run_all retrying sv ((app, d, r) # subs) s =
     (case cmd_execute retrying (sv_command sv) app d r s of
        (outcome, s1) \<Rightarrow>
          (case svc_run_all retrying sv subs s1 of
             (rest, s2) \<Rightarrow> (case outcome of Inl e \<Rightarrow> Inl e | Inr _ \<Rightarrow> rest, s2)))"

text \<open>An error while submitting leaves the pool, which waits for what was submitted, and is raised.\<close>

definition svc_run_commands ::
  "(('p, 'y crawl_env) client_state, 'r) retrying \<Rightarrow> ('p, 'y, 'r) service_ports \<Rightarrow> task_ids \<Rightarrow> application_ref list
     \<Rightarrow> (('p, 'y crawl_env) client_state, unit) act" where
  "svc_run_commands retrying sv ids apps s =
     (case svc_submissions ids apps of (subs, err) \<Rightarrow>
        (case svc_run_all retrying sv subs s of
           (outcome, s1) \<Rightarrow> (case err of Some e \<Rightarrow> Inl e | None \<Rightarrow> outcome, s1)))"

definition svc_crawl ::
  "(('p, 'y crawl_env) client_state, 'r) retrying \<Rightarrow> ('p, 'y, 'r) service_ports \<Rightarrow> uuid \<Rightarrow> application_ref list
     \<Rightarrow> (('p, 'y crawl_env) client_state, unit) act" where
  "svc_crawl retrying sv run_id apps =
     act_bind (on_env (svc_create_tasks sv run_id apps)) (\<lambda>ids.
     act_bind (svc_run_commands retrying sv ids apps) (\<lambda>_.
     on_env (svc_finish_run sv run_id None)))"

definition crawl_once ::
  "(('p, 'y crawl_env) client_state, 'r) retrying \<Rightarrow> ('p, 'y, 'r) service_ports \<Rightarrow> trigger_type \<Rightarrow> seconds option
     \<Rightarrow> (('p, 'y crawl_env) client_state, uuid) act" where
  "crawl_once retrying sv trigger scheduled_for =
     act_bind (on_env (svc_create_run sv trigger scheduled_for)) (\<lambda>run_id s.
       case on_env (on_rest (sv_list_active_applications sv)) s of
         (Inl error, s1) \<Rightarrow>
           act_bind (on_env (svc_finish_failed_preserving sv run_id error)) (\<lambda>_. act_return run_id) s1
       | (Inr apps, s1) \<Rightarrow>
           (case svc_crawl retrying sv run_id apps s1 of
              (Inr _, s2) \<Rightarrow> (Inr run_id, s2)
            | (Inl error, s2) \<Rightarrow>
                act_bind (on_env (svc_finish_failed_preserving sv run_id error)) (\<lambda>_. act_raise error) s2))"

section \<open>The scheduler\<close>

text \<open>
  \<open>run_scheduled_once\<close> under the run lock: the crawl is skipped when another one holds the lock,
  and the lock is released however the crawl ends. The lock is part of the state.
\<close>

definition new_crawler_scheduler :: "int \<Rightarrow> exn + int" where
  "new_crawler_scheduler interval_minutes =
     (if interval_minutes < 1 then Inl (value_error ''crawl interval must be at least one minute'') else Inr interval_minutes)"

definition run_scheduled_once ::
  "(seconds option \<Rightarrow> ('s, uuid) act) \<Rightarrow> seconds \<Rightarrow> bool \<times> 's \<Rightarrow> (exn + uuid option) \<times> bool \<times> 's" where
  "run_scheduled_once crawl now st = (case st of (locked, s) \<Rightarrow>
     if locked then (Inr None, locked, s)
     else case crawl (Some now) s of
            (Inl e, s') \<Rightarrow> (Inl e, False, s')
          | (Inr run_id, s') \<Rightarrow> (Inr (Some run_id), False, s'))"

text \<open>\<open>start\<close>: the job handed to the scheduler, run at once and then every interval, one at a time.\<close>

record scheduled_job =
  job_minutes :: int
  job_id :: string
  job_max_instances :: nat
  job_coalesce :: bool
  job_next_run_time :: seconds

definition scheduler_job :: "int \<Rightarrow> seconds \<Rightarrow> scheduled_job" where
  "scheduler_job interval now = \<lparr>job_minutes = interval, job_id = ''playstore-hourly-crawl'',
     job_max_instances = 1, job_coalesce = True, job_next_run_time = now\<rparr>"

section \<open>The run row\<close>

definition run_of :: "uuid \<Rightarrow> 'y crawl_env \<Rightarrow> crawl_run option" where
  "run_of i x = map_of (db_runs (st_db (ce_store x))) i"

definition run_stored :: "uuid \<Rightarrow> 'y crawl_env \<Rightarrow> bool" where
  "run_stored i x \<longleftrightarrow> run_of i x \<noteq> None"

definition run_closed :: "uuid \<Rightarrow> 'y crawl_env \<Rightarrow> bool" where
  "run_closed i x \<longleftrightarrow> (\<exists>r. run_of i x = Some r \<and> run_finished_at r \<noteq> None
     \<and> run_status r \<in> {RunSucceeded, RunPartiallyFailed, RunFailed})"

lemma durable_run: "durable ports (run_stored i)"
proof -
  have "run_stored i (snd (in_transaction ports body x))"
    if st: "run_stored i x" and mo: "moves_only body" for body :: "seconds \<Rightarrow> lifecycle_db \<Rightarrow> exn + (unit \<times> lifecycle_db)" and x
  proof (cases rule: in_transaction_cases [of x ports body])
    case (committed r db)
    then obtain j where "moves_task j (st_db (ce_store x)) db" using mo unfolding moves_only_def by blast
    then show ?thesis using st committed moves_task_frame by (auto simp: run_stored_def run_of_def)
  qed (use st in \<open>auto simp: run_stored_def run_of_def\<close>)
  then show ?thesis by (simp add: durable_def keeps_def) (simp add: run_stored_def run_of_def)
qed

text \<open>What a task command keeps.\<close>

lemma durable_execute:
  fixes ports :: "('p, 'y, 'r) command_ports"
  assumes "tenacity_contract retrying" and d: "durable ports J"
  shows "keeps (env_holds J) (cmd_execute retrying ports app details_id reviews_id)"
proof (rule keepsI)
  fix s :: "('p, 'y crawl_env) client_state"
  assume s: "env_holds J s"
  obtain language country where loc: "effective_locale app (cm_language ports) (cm_country ports) = (language, country)" by fastforce
  let ?body = "act_bind (cmd_run_details retrying ports app details_id language country)
      (\<lambda>_. cmd_run_reviews retrying ports app reviews_id language country)"
  obtain o1 s1 where o: "open_application (client_deps_of ports) (nat_str (ar_application_id app)) ?body s = (o1, s1)" by fastforce
  have "keeps (env_holds J) ?body" by (intro keeps_bind durable_tasks assms)
  from keepsD [OF env_open_application [OF durable_deps [OF d] this] s o] have s1: "J (cs_env s1)" by (simp add: env_holds_def)
  have "J (snd (cmd_fail_open_tasks ports pending error (cs_env s1)))" for pending error
    by (rule fail_open_tasks_keeps [OF d s1])
  with o s1 loc show "env_holds J (snd (cmd_execute retrying ports app details_id reviews_id s))"
    by (simp add: cmd_execute_def Let_def env_holds_def split_beta del: cmd_fail_open_tasks.simps split: sum.split)
qed

lemma durable_run_all:
  assumes "tenacity_contract retrying" and "durable (sv_command sv) J"
  shows "keeps (env_holds J) (svc_run_all retrying sv subs)"
proof (induction subs)
  case (Cons sub subs)
  obtain app d r where sub: "sub = (app, d, r)" by (cases sub)
  show ?case using Cons durable_execute [OF assms] by (simp add: sub keeps_def split_beta split: sum.split)
qed (simp add: keeps_def)

lemma durable_commands:
  assumes "tenacity_contract retrying" and "durable (sv_command sv) J"
  shows "keeps (env_holds J) (svc_run_commands retrying sv ids apps)"
  using durable_run_all [OF assms] by (simp add: svc_run_commands_def keeps_def split_beta)

section \<open>Closing the run\<close>

text \<open>What every transaction of the service keeps, with or without faults.\<close>

lemma transaction_keeps:
  fixes body :: "seconds \<Rightarrow> lifecycle_db \<Rightarrow> exn + ('a \<times> lifecycle_db)"
  assumes "in_transaction ports body x = (res, x')"
  shows "no_faults x \<Longrightarrow> no_faults x'" and "database_faults x \<Longrightarrow> database_faults x'"
    and "\<And>P. P (st_db (ce_store x)) \<Longrightarrow> (\<And>now r db. body now (st_db (ce_store x)) = Inr (r, db) \<Longrightarrow> P db) \<Longrightarrow> P (st_db (ce_store x'))"
  by (cases rule: in_transaction_cases [of x ports body]; use assms in \<open>auto simp: no_faults_def database_faults_def dest: in_tl\<close>)+

lemma transaction_returns:
  assumes "in_transaction ports body x = (Inr r, x')"
  shows "body (cm_wall_clock ports (ce_rest x)) (st_db (ce_store x)) = Inr (r, st_db (ce_store x'))"
  using assms by (cases rule: in_transaction_cases [of x ports body]) auto

lemma transaction_raises:
  assumes "in_transaction ports body x = (Inl e, x')" and "no_faults x"
  shows "body (cm_wall_clock ports (ce_rest x)) (st_db (ce_store x)) = Inl e"
  using assms by (cases rule: in_transaction_cases [of x ports body]) (auto simp: no_faults_def)

lemma finish_run_closes:
  assumes "svc_finish_run sv i forced x = (Inr u, x')" and "forced \<noteq> Some RunRunning" and "forced \<noteq> Some RunPending"
  shows "run_closed i x'"
proof -
  let ?now = "cm_wall_clock (sv_command sv) (ce_rest x)" and ?db = "st_db (ce_store x)"
  have "finish_run ?now i forced ?db = Inr (u, st_db (ce_store x'))"
    using transaction_returns assms(1) unfolding svc_finish_run_def by fastforce
  moreover have "overall_status ss \<in> {RunSucceeded, RunPartiallyFailed, RunFailed}" for ss by (simp add: overall_status_def Let_def)
  ultimately show ?thesis using assms(2,3)
    by (auto simp: run_closed_def run_of_def dest!: finish_run_frame(3) split: option.splits) (metis crawl_run_status.exhaust)
qed

lemma finish_run_succeeds:
  assumes "no_faults x" and "run_stored i x"
  shows "\<exists>x'. svc_finish_run sv i forced x = (Inr (), x')"
proof -
  obtain o1 x' where f: "svc_finish_run sv i forced x = (o1, x')" by fastforce
  have "o1 \<noteq> Inl e" for e
    using transaction_raises [OF _ assms(1)] f assms(2) unfolding svc_finish_run_def
    by (fastforce simp: finish_run_def run_stored_def run_of_def Let_def split: option.splits)
  then show ?thesis using f by (cases o1) auto
qed

text \<open>The rows of a run, as a relation between application and task type and identifier.\<close>

definition rows_of :: "uuid \<Rightarrow> lifecycle_db \<Rightarrow> ((uuid \<times> crawl_task_type) \<times> uuid) set" where
  "rows_of run_id db = {(app_key t, i) | i t. (i, t) \<in> set (db_tasks db) \<and> task_run_id t = run_id}"

lemma add_task_rows:
  assumes "lifecycle_ok db" and "add_task t db = Inr (i, db')" and "task_ok t"
  shows "rows_of (task_run_id t) db' = insert (app_key t, i) (rows_of (task_run_id t) db)"
    and "app_key t \<notin> fst ` rows_of (task_run_id t) db" and "lifecycle_ok db'" and "db_runs db' = db_runs db"
proof -
  note ok = add_task_ok [OF assms]
  show "rows_of (task_run_id t) db' = insert (app_key t, i) (rows_of (task_run_id t) db)"
    using ok(2) by (auto simp: rows_of_def)
  show "app_key t \<notin> fst ` rows_of (task_run_id t) db"
    using assms(2) by (force simp: add_task_Inr rows_of_def app_key_def image_iff)
qed (use add_task_ok [OF assms] in auto)

lemma graph_update:
  assumes "k \<notin> fst ` Map.graph (map_of m)"
  shows "Map.graph (map_of (AList.update k v m)) = insert (k, v) (Map.graph (map_of m))"
proof -
  have "map_of m k = None"
  proof (rule ccontr)
    assume "map_of m k \<noteq> None"
    then obtain w where "(k, w) \<in> Map.graph (map_of m)" by (auto simp: Map.graph_def)
    then show False using assms by force
  qed
  then have "(map_of m)(k := None) = map_of m" by auto
  then show ?thesis by (simp add: update_conv' graph_map_upd)
qed

lemma create_app_tasks_rows:
  assumes "create_app_tasks run_id app locale tys ids db = Inr (ids', db')" and "lifecycle_ok db"
    and "rows_of run_id db = Map.graph (map_of ids)"
  shows "rows_of run_id db' = Map.graph (map_of ids') \<and> lifecycle_ok db' \<and> db_runs db' = db_runs db
     \<and> dom (map_of ids') = dom (map_of ids) \<union> {ar_application_id app} \<times> set tys"
  using assms
proof (induction tys arbitrary: ids db)
  case (Cons ty tys)
  let ?t = "new_task run_id app locale ty"
  obtain i db1 where add: "add_task ?t db = Inr (i, db1)"
    and rest: "create_app_tasks run_id app locale tys (AList.update (ar_application_id app, ty) i ids) db1 = Inr (ids', db')"
    using Cons.prems(1) by (auto split: sum.splits)
  have r: "rows_of run_id db1 = insert (app_key ?t, i) (rows_of run_id db)" "app_key ?t \<notin> fst ` rows_of run_id db"
    "lifecycle_ok db1" "db_runs db1 = db_runs db"
    using add_task_rows [OF Cons.prems(2) add] by simp_all
  then have "rows_of run_id db1 = Map.graph (map_of (AList.update (ar_application_id app, ty) i ids))"
    using graph_update [of "(ar_application_id app, ty)" ids i] Cons.prems(3) by (simp add: app_key_def)
  from Cons.IH [OF rest r(3) this] r(4) show ?case by (auto simp: update_conv' split: if_splits)
qed simp

lemma create_tasks_loop_rows:
  assumes "create_tasks_loop run_id apps language country ids db = Inr (ids', db')" and "lifecycle_ok db"
    and "rows_of run_id db = Map.graph (map_of ids)"
  shows "rows_of run_id db' = Map.graph (map_of ids') \<and> lifecycle_ok db' \<and> db_runs db' = db_runs db
     \<and> dom (map_of ids') = dom (map_of ids) \<union> (ar_application_id ` set apps) \<times> UNIV"
  using assms
proof (induction apps arbitrary: ids db)
  case (Cons app apps)
  obtain ids1 db1 where one: "create_app_tasks run_id app (effective_locale app language country) task_types ids db = Inr (ids1, db1)"
    and rest: "create_tasks_loop run_id apps language country ids1 db1 = Inr (ids', db')"
    using Cons.prems(1) by (auto split: sum.splits)
  have tys: "set task_types = UNIV" by (auto simp: task_types_def intro: crawl_task_type.exhaust)
  from create_app_tasks_rows [OF one Cons.prems(2,3)] Cons.IH [OF rest] show ?case unfolding tys by auto
qed simp

lemma moves_task_rows:
  assumes "moves_task j db db'" and "lifecycle_ok db"
  shows "rows_of run_id db' = rows_of run_id db"
proof -
  obtain t t' where t: "map_of (db_tasks db) j = Some t" and db': "db' = put_task j t' db"
    and same: "task_run_id t' = task_run_id t" "task_application_id t' = task_application_id t" "task_task_type t' = task_task_type t"
    using assms(1) by (auto simp: moves_task_def)
  let ?f = "\<lambda>(i, u). (task_run_id u, app_key u, i)"
  have "map ?f (db_tasks db') = map ?f (db_tasks db)"
    unfolding db' put_task_def
    using map_update_same [OF lifecycle_okD(3) [OF assms(2)] t, of ?f t'] same by (simp add: app_key_def)
  then have "set (map ?f (db_tasks db')) = set (map ?f (db_tasks db))" by (rule arg_cong)
  then have "?f ` set (db_tasks db') = ?f ` set (db_tasks db)" by (simp only: list.set_map)
  moreover have "rows_of run_id d = {p. (run_id, p) \<in> ?f ` set (db_tasks d)}" for d
    by (auto simp: rows_of_def image_def intro!: bexI)
  ultimately show ?thesis by simp
qed

definition run_rows :: "uuid \<Rightarrow> ((uuid \<times> crawl_task_type) \<times> uuid) set \<Rightarrow> 'y crawl_env \<Rightarrow> bool" where
  "run_rows run_id R x \<longleftrightarrow> lifecycle_ok (st_db (ce_store x)) \<and> rows_of run_id (st_db (ce_store x)) = R"

lemma durable_run_rows: "durable ports (run_rows run_id R)"
proof -
  have "run_rows run_id R (snd (in_transaction ports body x))"
    if st: "run_rows run_id R x" and mo: "moves_only body" for body :: "seconds \<Rightarrow> lifecycle_db \<Rightarrow> exn + (unit \<times> lifecycle_db)" and x
  proof (cases rule: in_transaction_cases [of x ports body])
    case (committed r db)
    then obtain j where "moves_task j (st_db (ce_store x)) db" using mo unfolding moves_only_def by blast
    then show ?thesis using st committed moves_task_rows moves_task_ok by (auto simp: run_rows_def)
  qed (use st in \<open>auto simp: run_rows_def\<close>)
  then show ?thesis by (simp add: durable_def keeps_def) (simp add: run_rows_def)
qed

section \<open>The commands of a run\<close>

lemma submissions_complete:
  "svc_submissions ids apps = (subs, None) \<Longrightarrow> app \<in> set apps \<Longrightarrow>
     \<exists>d r. (app, d, r) \<in> set subs \<and> map_of ids (ar_application_id app, APP_DETAILS) = Some d
        \<and> map_of ids (ar_application_id app, REVIEWS) = Some r"
proof (induction apps arbitrary: subs)
  case (Cons a apps)
  then show ?case
    by (cases "svc_submissions ids apps") (force simp: tasks_for_app_def split: sum.splits option.splits)
qed simp

lemma submissions_known:
  "(app, d, r) \<in> set (fst (svc_submissions ids apps)) \<Longrightarrow>
     map_of ids (ar_application_id app, APP_DETAILS) = Some d \<and> map_of ids (ar_application_id app, REVIEWS) = Some r"
  by (induction apps) (auto simp: tasks_for_app_def split: sum.splits option.splits prod.splits)

lemma run_all_finishes:
  assumes "tenacity_contract retrying" and "svc_run_all retrying sv subs s = (Inr (), s')" and "database_faults (cs_env s)"
    and "\<forall>(app, d, r) \<in> set subs. stored d (cs_env s) \<and> stored r (cs_env s)"
  shows "\<forall>(app, d, r) \<in> set subs. finished d (cs_env s') \<and> finished r (cs_env s')"
  using assms(2-)
proof (induction subs arbitrary: s)
  case (Cons sub subs)
  obtain app d r where sub: "sub = (app, d, r)" by (cases sub)
  obtain s1 where one: "cmd_execute retrying (sv_command sv) app d r s = (Inr (), s1)"
    and rest: "svc_run_all retrying sv subs s1 = (Inr (), s')"
    using Cons.prems(1) by (auto simp: sub split: prod.splits sum.splits)
  have done1: "finished d (cs_env s1) \<and> finished r (cs_env s1)"
    using command_finishes [OF assms(1) _ _ Cons.prems(2) one] Cons.prems(3) by (simp add: sub)
  have k1: "J (cs_env s) \<Longrightarrow> J (cs_env s1)" if "durable (sv_command sv) J" for J
    using keepsD [OF durable_execute [OF assms(1) that] _ one] by (simp add: env_holds_def)
  have k2: "J (cs_env s1) \<Longrightarrow> J (cs_env s')" if "durable (sv_command sv) J" for J
    using keepsD [OF durable_run_all [OF assms(1) that] _ rest] by (simp add: env_holds_def)
  have "\<forall>(app, d, r) \<in> set subs. stored d (cs_env s1) \<and> stored r (cs_env s1)"
    using Cons.prems(3) k1 [OF durable_rows(1)] by fastforce
  from Cons.IH [OF rest k1 [OF durable_faults(1) Cons.prems(2)] this] done1 k2 [OF durable_rows(2)] show ?case
    by (auto simp: sub)
qed simp

lemma on_env_result: "on_env f s = (r, s') \<longleftrightarrow> (\<exists>x. f (cs_env s) = (r, x) \<and> s' = s\<lparr>cs_env := x\<rparr>)"
  by (auto simp: on_env_def split: prod.splits)

lemma create_run_stores:
  assumes "svc_create_run sv trigger scheduled x = (Inr i, x')"
  shows "run_stored i x'" "i = db_next_id (st_db (ce_store x))"
    and "lifecycle_ok (st_db (ce_store x)) \<Longrightarrow> run_rows i {} x'"
proof -
  let ?db = "st_db (ce_store x)"
  have c: "create_run (cm_wall_clock (sv_command sv) (ce_rest x)) trigger scheduled (sv_crawler_version sv) ?db = Inr (i, st_db (ce_store x'))"
    using transaction_returns assms unfolding svc_create_run_def by fastforce
  then show "i = db_next_id ?db" by (simp add: create_run_def Let_def)
  have "map_of (db_runs db') i \<noteq> None" if "create_run now trigger scheduled v db = Inr (i, db')" for now v db db'
    using that by (auto simp: create_run_def Let_def update_conv')
  then show "run_stored i x'" using c by (simp add: run_stored_def run_of_def)
  assume ok: "lifecycle_ok ?db"
  have "task_run_id t \<noteq> i" if "(j, t) \<in> set (db_tasks ?db)" for j t
    using lifecycle_okD(1) [OF ok that] lifecycle_ok_fresh(2) [OF ok] create_run_ok(2) [OF ok c] by auto
  then show "run_rows i {} x'" using create_run_ok(1,3) [OF ok c] by (auto simp: run_rows_def rows_of_def)
qed

lemma create_app_tasks_runs: "create_app_tasks run_id app locale tys ids db = Inr (ids', db') \<Longrightarrow> db_runs db' = db_runs db"
  by (induction tys arbitrary: ids db) (auto simp: add_task_Inr split: sum.splits)

lemma create_tasks_runs: "create_tasks_loop run_id apps language country ids db = Inr (ids', db') \<Longrightarrow> db_runs db' = db_runs db"
  by (induction apps arbitrary: ids db) (auto dest: create_app_tasks_runs split: sum.splits)

text \<open>Nothing between the creation of the run and its end makes the run disappear.\<close>

lemma create_tasks_keeps:
  assumes "svc_create_tasks sv run_id apps x = (res, x')"
  shows "run_stored i x \<Longrightarrow> run_stored i x'" "no_faults x \<Longrightarrow> no_faults x'" "database_faults x \<Longrightarrow> database_faults x'"
proof -
  note t = transaction_keeps [OF assms [unfolded svc_create_tasks_def]]
  show "no_faults x \<Longrightarrow> no_faults x'" "database_faults x \<Longrightarrow> database_faults x'" by (fact t(1), fact t(2))
  show "run_stored i x \<Longrightarrow> run_stored i x'"
    unfolding run_stored_def run_of_def
    by (rule t(3) [of "\<lambda>db. map_of (db_runs db) i \<noteq> None"]) (auto simp: create_tasks_def dest: create_tasks_runs)
qed

lemma finish_run_keeps:
  assumes "svc_finish_run sv run_id forced x = (res, x')"
  shows "run_stored i x \<Longrightarrow> run_stored i x'" "no_faults x \<Longrightarrow> no_faults x'"
proof -
  note t = transaction_keeps [OF assms [unfolded svc_finish_run_def]]
  show "no_faults x \<Longrightarrow> no_faults x'" by (fact t(1))
  show "run_stored i x \<Longrightarrow> run_stored i x'"
    unfolding run_stored_def run_of_def
    by (rule t(3) [of "\<lambda>db. map_of (db_runs db) i \<noteq> None"])
      (auto simp: finish_run_def Let_def update_conv' split: option.splits)
qed

lemma crawl_keeps:
  assumes "tenacity_contract retrying"
  shows "keeps (env_holds (\<lambda>x. run_stored i x \<and> no_faults x)) (svc_crawl retrying sv run_id apps)"
proof -
  let ?J = "\<lambda>x. run_stored i x \<and> no_faults x"
  have d: "durable (sv_command sv) ?J" using durable_run [of "sv_command sv" i] durable_faults(2) [of "sv_command sv"]
    by (simp add: durable_def keeps_def)
  have "keeps ?J (svc_create_tasks sv run_id apps)" "keeps ?J (svc_finish_run sv run_id None)"
    by (auto intro!: keepsI intro: create_tasks_keeps(1,2) [OF prod.collapse [symmetric]] finish_run_keeps [OF prod.collapse [symmetric]])
  then show ?thesis unfolding svc_crawl_def by (intro keeps_bind env_on_env durable_commands assms d)
qed

lemma finish_failed_closes:
  assumes "svc_finish_failed_preserving sv i error x = (res, x')" and "(\<exists>u. res = Inr u) \<or> run_stored i x \<and> no_faults x"
  shows "run_closed i x' \<and> (run_stored i x \<and> no_faults x \<longrightarrow> res = Inr ())"
proof -
  obtain o1 x1 where f: "svc_finish_run sv i (Some RunFailed) x = (o1, x1)" by fastforce
  have "\<exists>u. o1 = Inr u"
    using assms f finish_run_succeeds [of x i sv "Some RunFailed"]
    by (cases o1) (auto simp: svc_finish_failed_preserving_def act_catch_def act_raise_def)
  then show ?thesis
    using assms(1) f finish_run_closes [of sv i "Some RunFailed" x] by (auto simp: svc_finish_failed_preserving_def act_catch_def)
qed

lemma finish_failed_then:
  assumes "act_bind (on_env (svc_finish_failed_preserving sv i error)) (\<lambda>_. k) s = (res, s')" and "\<And>s. snd (k s) = s"
    and "(\<exists>r. res = Inr r) \<or> run_stored i (cs_env s) \<and> no_faults (cs_env s)"
  shows "run_closed i (cs_env s')"
proof -
  obtain o1 x1 where f: "svc_finish_failed_preserving sv i error (cs_env s) = (o1, x1)" by fastforce
  have "cs_env s' = x1" using assms(1) assms(2) [of "s\<lparr>cs_env := x1\<rparr>"] f
    by (cases o1) (auto simp: act_bind_def on_env_def)
  moreover have "(\<exists>u. o1 = Inr u) \<or> run_stored i (cs_env s) \<and> no_faults (cs_env s)"
    using assms(1,3) f by (cases o1) (auto simp: act_bind_def on_env_def)
  ultimately show ?thesis using finish_failed_closes [OF f] by simp
qed

lemma crawl_closes:
  assumes "svc_crawl retrying sv run_id apps s = (Inr u, s')"
  shows "run_closed run_id (cs_env s')"
  using assms finish_run_closes [of sv run_id None]
  by (auto simp: svc_crawl_def act_bind_def on_env_result split: prod.splits sum.splits)

section \<open>Properties of a crawl\<close>


lemma rows_stored: "run_rows run_id R x \<Longrightarrow> (k, i) \<in> R \<Longrightarrow> stored i x"
  by (auto simp: run_rows_def rows_of_def stored_def task_of_def map_of_eq_Some_iff dest: lifecycle_okD(3) weak_map_of_SomeI)

lemma create_tasks_gives_rows:
  assumes "svc_create_tasks sv run_id apps x = (Inr ids, x')" and "run_rows run_id {} x"
  shows "run_rows run_id (Map.graph (map_of ids)) x' \<and> dom (map_of ids) = (ar_application_id ` set apps) \<times> UNIV"
proof -
  have "create_tasks run_id apps (cm_language (sv_command sv)) (cm_country (sv_command sv)) (st_db (ce_store x)) = Inr (ids, st_db (ce_store x'))"
    using transaction_returns assms(1) unfolding svc_create_tasks_def by fastforce
  from create_tasks_loop_rows [OF this [unfolded create_tasks_def]] assms(2) show ?thesis
    by (auto simp: run_rows_def Map.graph_def)
qed

lemma run_commands_finishes:
  assumes "tenacity_contract retrying" and "svc_run_commands retrying sv ids apps s = (Inr (), s')"
    and "database_faults (cs_env s)" and "run_rows run_id (Map.graph (map_of ids)) (cs_env s)"
    and "dom (map_of ids) = (ar_application_id ` set apps) \<times> UNIV"
  shows "\<forall>(k, i) \<in> Map.graph (map_of ids). finished i (cs_env s')"
proof (rule ballI, clarify)
  fix a ty i assume g: "((a, ty), i) \<in> Map.graph (map_of ids)"
  obtain subs where subs: "svc_submissions ids apps = (subs, None)" and run: "svc_run_all retrying sv subs s = (Inr (), s')"
    using assms(2) by (auto simp: svc_run_commands_def split: prod.splits option.splits)
  have "stored d (cs_env s) \<and> stored r (cs_env s)" if "(app, d, r) \<in> set subs" for app d r
    using submissions_known [of app d r ids apps] subs that rows_stored [OF assms(4)] by (auto simp: Map.graph_def)
  then have fin: "\<forall>(app, d, r) \<in> set subs. finished d (cs_env s') \<and> finished r (cs_env s')"
    using run_all_finishes [OF assms(1) run assms(3)] by blast
  from g have m: "map_of ids (a, ty) = Some i" by (simp add: Map.graph_def)
  then obtain app where app: "app \<in> set apps" "a = ar_application_id app" using assms(5) by blast
  from submissions_complete [OF subs app(1)] obtain d r where dr: "(app, d, r) \<in> set subs"
    "map_of ids (ar_application_id app, APP_DETAILS) = Some d" "map_of ids (ar_application_id app, REVIEWS) = Some r" by blast
  have "i = d \<or> i = r" using m dr(2,3) app(2) by (cases ty) auto
  then show "finished i (cs_env s')" using fin dr(1) by auto
qed

lemma bind_raise_raises: "act_bind f (\<lambda>_. act_raise e) s \<noteq> (Inr u, s')"
  by (auto simp: act_bind_def act_raise_def split: prod.splits sum.splits)

lemma crawl_once_returns:
  assumes "crawl_once retrying sv trigger scheduled_for s = (Inr run_id, s')"
    and "\<And>y. fst (sv_list_active_applications sv y) = Inr apps"
  obtains x1 s2 where "svc_create_run sv trigger scheduled_for (cs_env s) = (Inr run_id, x1)"
    and "ce_store (cs_env s2) = ce_store x1" and "svc_crawl retrying sv run_id apps s2 = (Inr (), s')"
proof -
  obtain o1 x1 where c: "svc_create_run sv trigger scheduled_for (cs_env s) = (o1, x1)" by fastforce
  define s2 where "s2 = s\<lparr>cs_env := snd (on_rest (sv_list_active_applications sv) x1)\<rparr>"
  have reg: "on_env (on_rest (sv_list_active_applications sv)) (s\<lparr>cs_env := x1\<rparr>) = (Inr apps, s2)"
    using assms(2) [of "ce_rest x1"] by (auto simp: on_env_def on_rest_def s2_def split: prod.splits)
  have "o1 = Inr run_id \<and> svc_crawl retrying sv run_id apps s2 = (Inr (), s')"
    using assms(1) c reg by (auto simp: bind_raise_raises crawl_once_def act_bind_def [of "on_env (svc_create_run sv trigger scheduled_for)"]
        on_env_result [of "svc_create_run sv trigger scheduled_for"] split: prod.splits sum.splits)
  moreover have "ce_store (cs_env s2) = ce_store x1" by (simp add: s2_def on_rest_def split_beta)
  ultimately show thesis using that c by blast
qed

lemma crawl_returns:
  assumes "svc_crawl retrying sv run_id apps s = (Inr (), s')"
  obtains ids s1 s2 where "svc_create_tasks sv run_id apps (cs_env s) = (Inr ids, cs_env s1)"
    and "svc_run_commands retrying sv ids apps s1 = (Inr (), s2)"
    and "svc_finish_run sv run_id None (cs_env s2) = (Inr (), cs_env s')"
  using assms by (force simp: svc_crawl_def act_bind_def on_env_result split: prod.splits sum.splits)

text \<open>
  C25: When the registry answers and the crawl returns, the run is complete: every application the
  registry listed has its details task and its reviews task in the run, every task of the run is
  finished, the run's status is the one its tasks give, and its end time is recorded.
\<close>

theorem returned_crawl_is_complete:
  fixes s :: "('p, 'y crawl_env) client_state"
  assumes "tenacity_contract retrying" and "lifecycle_ok (st_db (ce_store (cs_env s)))" and "database_faults (cs_env s)"
    and "\<And>y. fst (sv_list_active_applications sv y) = Inr apps"
    and "crawl_once retrying sv trigger scheduled_for s = (Inr run_id, s')"
    and "db = st_db (ce_store (cs_env s'))"
  shows "(\<forall>app \<in> set apps. \<forall>ty. \<exists>i t. (i, t) \<in> set (db_tasks db) \<and> task_run_id t = run_id
            \<and> task_application_id t = ar_application_id app \<and> task_task_type t = ty)
     \<and> (\<forall>(i, t) \<in> set (db_tasks db). task_run_id t = run_id \<longrightarrow> task_status t \<in> {SUCCEEDED, FAILED})
     \<and> (\<exists>run. map_of (db_runs db) run_id = Some run \<and> run_finished_at run \<noteq> None
          \<and> run_status run = overall_status (task_statuses run_id db))"
proof -
  obtain x1 s2 where c: "svc_create_run sv trigger scheduled_for (cs_env s) = (Inr run_id, x1)"
    and s2: "ce_store (cs_env s2) = ce_store x1" and crawl: "svc_crawl retrying sv run_id apps s2 = (Inr (), s')"
    using assms(5,4) by (rule crawl_once_returns)
  obtain ids s3 s4 where create: "svc_create_tasks sv run_id apps (cs_env s2) = (Inr ids, cs_env s3)"
    and run: "svc_run_commands retrying sv ids apps s3 = (Inr (), s4)"
    and fin: "svc_finish_run sv run_id None (cs_env s4) = (Inr (), cs_env s')"
    using crawl by (rule crawl_returns)
  have f2: "database_faults (cs_env s2)" and r2: "run_rows run_id {} (cs_env s2)"
    using transaction_keeps(2) [OF c [unfolded svc_create_run_def] assms(3)] create_run_stores(3) [OF c assms(2)] s2
    by (simp_all add: database_faults_def run_rows_def)
  have f3: "database_faults (cs_env s3)" by (rule create_tasks_keeps(3) [OF create f2])
  have r3: "run_rows run_id (Map.graph (map_of ids)) (cs_env s3)" and ids: "dom (map_of ids) = (ar_application_id ` set apps) \<times> UNIV"
    using create_tasks_gives_rows [OF create r2] by blast+
  have r4: "run_rows run_id (Map.graph (map_of ids)) (cs_env s4)"
    using keepsD [OF durable_commands [OF assms(1) durable_run_rows] _ run] r3 by (simp add: env_holds_def)
  have done4: "\<forall>(k, i) \<in> Map.graph (map_of ids). finished i (cs_env s4)"
    by (rule run_commands_finishes [OF assms(1) run f3 r3 ids])
  let ?db4 = "st_db (ce_store (cs_env s4))"
  have fr: "finish_run (cm_wall_clock (sv_command sv) (ce_rest (cs_env s4))) run_id None ?db4 = Inr ((), db)"
    using transaction_returns fin unfolding svc_finish_run_def assms(6) by fastforce
  have tasks: "db_tasks db = db_tasks ?db4" using finish_run_frame(1) [OF fr] .
  have rows: "rows_of run_id db = Map.graph (map_of ids)" using r4 tasks by (simp add: run_rows_def rows_of_def)
  have "\<exists>i t. (i, t) \<in> set (db_tasks db) \<and> task_run_id t = run_id \<and> task_application_id t = ar_application_id app \<and> task_task_type t = ty"
    if "app \<in> set apps" for app ty
  proof -
    have "(ar_application_id app, ty) \<in> dom (map_of ids)" using ids that by blast
    then obtain i where "((ar_application_id app, ty), i) \<in> rows_of run_id db" unfolding rows by (auto simp: Map.graph_def)
    then show ?thesis by (auto simp: rows_of_def app_key_def) blast
  qed
  moreover have "task_status t \<in> {SUCCEEDED, FAILED}" if "(i, t) \<in> set (db_tasks db)" "task_run_id t = run_id" for i t
  proof -
    have "(app_key t, i) \<in> Map.graph (map_of ids)" using that by (auto simp: rows_of_def simp flip: rows)
    then have "finished i (cs_env s4)" using done4 by blast
    moreover have "map_of (db_tasks ?db4) i = Some t"
      using that(1) r4 lifecycle_okD(3) unfolding tasks run_rows_def by (metis map_of_is_SomeI)
    ultimately show ?thesis by (auto simp: finished_def task_of_def)
  qed
  moreover have "task_statuses run_id db = task_statuses run_id ?db4" by (simp add: task_statuses_def tasks)
  ultimately show ?thesis using finish_run_frame(3) [OF fr] by auto
qed

text \<open>One application, one proxy that is refused, and an empty store, for the witnesses.\<close>

definition demo_service :: "(proxy_pool, nat, string) service_ports" where
  "demo_service = \<lparr>sv_command = demo_ports, sv_list_active_applications = act_return [one_app], sv_crawler_version = None\<rparr>"

definition demo_start :: "(proxy_pool, nat crawl_env) client_state" where
  "demo_start = demo_crawl\<lparr>cs_env := \<lparr>ce_store = \<lparr>st_db = \<lparr>db_applications = [7], db_runs = [], db_tasks = [], db_next_id = 0\<rparr>,
     st_faults = []\<rparr>, ce_rest = 0\<rparr>\<rparr>"


lemma demo_returns: "fst (crawl_once tenacity_retrying demo_service MANUAL None demo_start) = Inr 0"
  by code_simp

theorem returned_crawl_is_complete_witness:
  "\<exists>i t. (i, t) \<in> set (db_tasks (st_db (ce_store (cs_env (snd (crawl_once tenacity_retrying demo_service MANUAL None demo_start))))))
     \<and> task_run_id t = 0 \<and> task_application_id t = 7 \<and> task_task_type t = REVIEWS"
proof -
  let ?run = "crawl_once tenacity_retrying demo_service MANUAL None demo_start"
  have "?run = (Inr 0, snd ?run)" using demo_returns by (metis surjective_pairing)
  moreover have "lifecycle_ok (st_db (ce_store (cs_env demo_start)))" "database_faults (cs_env demo_start)"
    "\<And>y. fst (sv_list_active_applications demo_service y) = Inr [one_app]"
    by (simp_all add: demo_start_def lifecycle_ok_def database_faults_def demo_service_def act_return_def)
  ultimately show ?thesis
    using returned_crawl_is_complete [OF tenacity_retrying_contract, of demo_start demo_service "[one_app]" MANUAL None 0 "snd ?run"
        "st_db (ce_store (cs_env (snd ?run)))"]
    by (force simp: one_app_def)
qed

end
