(* ===== verification/Event_Contracts.thy ===== *)
theory Event_Contracts
  imports Crawler_Errors
begin

text \<open>
  The event contracts every producer and consumer shares: the envelope
  (\<open>messaging/events.py\<close>), the Play Store payloads (\<open>messaging/playstore_events.py\<close>), the network
  payloads (\<open>messaging/network_events.py\<close>) and the topics (\<open>messaging/topics.py\<close>).

  A contract class is a record; its declared constraints are a predicate \<open>valid_\<dots>\<close>; constructing
  a model runs its validators and raises \<open>ValidationError\<close> when a constraint fails. A time stamp is
  its instant; a \<open>datetime\<close> before validation also has its offset, or none when it is naive.
  \<open>dump_\<dots>\<close> is \<open>model_dump\<close>: the fields in the order of the class. Reading and writing JSON is
  pydantic's and stays a parameter of the functions that do it. Floating point numbers are exact
  rationals, so the models have no NaN and no infinity.
\<close>

section \<open>Topics\<close>

definition PLAYSTORE_APP_STATS_TOPIC :: string where
  "PLAYSTORE_APP_STATS_TOPIC = ''playstore.app-stats.v1''"

definition PLAYSTORE_REVIEW_OBSERVED_TOPIC :: string where
  "PLAYSTORE_REVIEW_OBSERVED_TOPIC = ''playstore.review-observed.v1''"

definition NETWORK_ANALYSIS_COLLECTED_TOPIC :: string where
  "NETWORK_ANALYSIS_COLLECTED_TOPIC = ''network.analysis-collected.v1''"

definition NETWORK_CAPTURE_READY_TOPIC :: string where
  "NETWORK_CAPTURE_READY_TOPIC = ''network.capture-ready.v1''"

definition SAHABINO_TOPICS :: "string list" where
  "SAHABINO_TOPICS = [PLAYSTORE_APP_STATS_TOPIC, PLAYSTORE_REVIEW_OBSERVED_TOPIC,
     NETWORK_ANALYSIS_COLLECTED_TOPIC, NETWORK_CAPTURE_READY_TOPIC]"

record topic_topology =
  tt_partitions :: int
  tt_replication_factor :: int

definition new_topic_topology :: "int \<Rightarrow> int \<Rightarrow> exn + topic_topology" where
  "new_topic_topology partitions replication_factor =
     (if partitions < 1 then Inl (value_error ''topic partitions must be at least 1'')
      else if replication_factor < 1 then Inl (value_error ''topic replication factor must be at least 1'')
      else Inr \<lparr>tt_partitions = partitions, tt_replication_factor = replication_factor\<rparr>)"

section \<open>Envelope\<close>

type_synonym bytes = "nat list"

record py_datetime =
  dt_instant :: seconds
  dt_offset :: "seconds option"

record 'p envelope =
  ev_event_id :: uuid
  ev_event_type :: string
  ev_schema_version :: int
  ev_occurred_at :: seconds
  ev_payload :: 'p

definition aware :: "string \<Rightarrow> py_datetime \<Rightarrow> exn + seconds" where
  "aware message v = (case dt_offset v of None \<Rightarrow> Inl (ValidationError message) | Some _ \<Rightarrow> Inr (dt_instant v))"

definition new_envelope :: "uuid \<Rightarrow> string \<Rightarrow> int \<Rightarrow> py_datetime \<Rightarrow> 'p \<Rightarrow> exn + 'p envelope" where
  "new_envelope event_id event_type schema_version occurred_at payload =
     (if event_type = [] then Inl (ValidationError ''event_type'')
      else if schema_version < 1 then Inl (ValidationError ''schema_version'')
      else case aware ''occurred_at must be timezone-aware'' occurred_at of
             Inl e \<Rightarrow> Inl e
           | Inr t \<Rightarrow> Inr \<lparr>ev_event_id = event_id, ev_event_type = event_type, ev_schema_version = schema_version,
                 ev_occurred_at = t, ev_payload = payload\<rparr>)"

definition serialize_event :: "('e \<Rightarrow> exn + bytes) \<Rightarrow> 'e \<Rightarrow> exn + bytes" where
  "serialize_event model_dump_json event = (case model_dump_json event of
     Inr data \<Rightarrow> Inr data
   | Inl e \<Rightarrow> if exn_name e \<in> {''PydanticSerializationError'', ''UnicodeEncodeError''}
             then Inl (mk_exn ''EventSerializationError'' ''event envelope could not be serialized'' False) else Inl e)"

definition deserialize_event :: "(bytes \<Rightarrow> exn + 'e) \<Rightarrow> bytes \<Rightarrow> exn + 'e" where
  "deserialize_event model_validate_json data = (case model_validate_json data of
     Inr event \<Rightarrow> Inr event
   | Inl e \<Rightarrow> if is_value_error e then Inl (mk_exn ''EventDeserializationError'' ''invalid event envelope JSON'' False) else Inl e)"

section \<open>Play Store payloads\<close>

definition APP_STATS_EVENT_TYPE :: string where
  "APP_STATS_EVENT_TYPE = ''playstore.app_stats.collected''"

definition REVIEW_OBSERVED_EVENT_TYPE :: string where
  "REVIEW_OBSERVED_EVENT_TYPE = ''playstore.review.observed''"

definition PLAYSTORE_SCHEMA_VERSION :: int where
  "PLAYSTORE_SCHEMA_VERSION = 1"

record app_stats_collected =
  as_crawl_task_id :: uuid
  as_application_id :: uuid
  as_package_name :: string
  as_collected_at :: seconds
  as_min_installs :: int
  as_score :: rat
  as_ratings_count :: int
  as_reviews_count :: int
  as_store_updated_on :: "int option"
  as_version :: "string option"
  as_ad_supported :: bool
  as_source_adapter :: string

record review_observed =
  ro_crawl_task_id :: uuid
  ro_application_id :: uuid
  ro_package_name :: string
  ro_observed_at :: seconds
  ro_position :: int
  ro_external_review_id :: string
  ro_source_at :: seconds
  ro_author_name :: string
  ro_thumbs_up_count :: int
  ro_score :: int
  ro_content :: string
  ro_source_adapter :: string

definition valid_app_stats :: "app_stats_collected \<Rightarrow> bool" where
  "valid_app_stats p \<longleftrightarrow> as_package_name p \<noteq> [] \<and> 0 \<le> as_min_installs p \<and> 0 \<le> as_score p \<and> as_score p \<le> 5
     \<and> 0 \<le> as_ratings_count p \<and> 0 \<le> as_reviews_count p \<and> as_source_adapter p \<noteq> []"

definition valid_review_observed :: "review_observed \<Rightarrow> bool" where
  "valid_review_observed p \<longleftrightarrow> ro_package_name p \<noteq> [] \<and> 1 \<le> ro_position p \<and> ro_position p \<le> 1000
     \<and> ro_external_review_id p \<noteq> [] \<and> 0 \<le> ro_thumbs_up_count p \<and> 1 \<le> ro_score p \<and> ro_score p \<le> 5
     \<and> ro_source_adapter p \<noteq> []"

text \<open>An aware time stamp in UTC, as the validators of the payloads leave it.\<close>

definition utc :: "seconds \<Rightarrow> py_datetime" where
  "utc t = \<lparr>dt_instant = t, dt_offset = Some 0\<rparr>"

definition app_stats_envelope :: "uuid \<Rightarrow> app_stats_collected \<Rightarrow> exn + app_stats_collected envelope" where
  "app_stats_envelope fresh_id payload =
     new_envelope fresh_id APP_STATS_EVENT_TYPE PLAYSTORE_SCHEMA_VERSION (utc (as_collected_at payload)) payload"

definition review_observed_envelope :: "uuid \<Rightarrow> review_observed \<Rightarrow> exn + review_observed envelope" where
  "review_observed_envelope fresh_id payload =
     new_envelope fresh_id REVIEW_OBSERVED_EVENT_TYPE PLAYSTORE_SCHEMA_VERSION (utc (ro_observed_at payload)) payload"

section \<open>Network payloads\<close>

definition NETWORK_CAPTURE_READY_EVENT_TYPE :: string where
  "NETWORK_CAPTURE_READY_EVENT_TYPE = ''network.capture.ready''"

definition NETWORK_ANALYSIS_COLLECTED_EVENT_TYPE :: string where
  "NETWORK_ANALYSIS_COLLECTED_EVENT_TYPE = ''network.analysis.collected''"

definition NETWORK_SCHEMA_VERSION :: int where
  "NETWORK_SCHEMA_VERSION = 1"

definition non_negative :: "'a :: linordered_idom \<Rightarrow> bool" where
  "non_negative x \<longleftrightarrow> 0 \<le> x"

definition positive :: "'a :: linordered_idom \<Rightarrow> bool" where
  "positive x \<longleftrightarrow> 0 < x"

definition is_ratio :: "rat \<Rightarrow> bool" where
  "is_ratio x \<longleftrightarrow> 0 \<le> x \<and> x \<le> 1"

definition optional :: "('a \<Rightarrow> bool) \<Rightarrow> 'a option \<Rightarrow> bool" where
  "optional P v = (case v of None \<Rightarrow> True | Some x \<Rightarrow> P x)"

definition is_hex_digit :: "char \<Rightarrow> bool" where
  "is_hex_digit c \<longleftrightarrow> is_digit c \<or> 97 \<le> (of_char c :: nat) \<and> (of_char c :: nat) \<le> 102"

definition is_sha256 :: "string \<Rightarrow> bool" where
  "is_sha256 s \<longleftrightarrow> length s = 64 \<and> list_all is_hex_digit s"

definition is_scenario :: "string \<Rightarrow> bool" where
  "is_scenario s \<longleftrightarrow> s \<in> {''upload'', ''download''}"

definition is_capture_format :: "string \<Rightarrow> bool" where
  "is_capture_format s \<longleftrightarrow> s \<in> {''pcap'', ''pcapng''}"

text \<open>\<open>NonBlankString\<close> also strips the value it stores.\<close>

definition stripped :: "string \<Rightarrow> bool" where
  "stripped s \<longleftrightarrow> strip s = s \<and> s \<noteq> []"

record network_capture_ready =
  nr_capture_id :: uuid
  nr_analysis_id :: uuid
  nr_application_id :: uuid
  nr_package_name :: string
  nr_scenario :: string
  nr_object_key :: string
  nr_capture_format :: string
  nr_capture_size_bytes :: int
  nr_transfer_file_size_bytes :: int
  nr_expected_sha256 :: string
  nr_uploaded_at :: seconds

definition valid_network_capture_ready :: "network_capture_ready \<Rightarrow> bool" where
  "valid_network_capture_ready p \<longleftrightarrow> stripped (nr_package_name p) \<and> is_scenario (nr_scenario p)
     \<and> stripped (nr_object_key p) \<and> is_capture_format (nr_capture_format p) \<and> positive (nr_capture_size_bytes p)
     \<and> positive (nr_transfer_file_size_bytes p) \<and> is_sha256 (nr_expected_sha256 p)"

datatype metric_value = MInt int | MFloat rat | MBool bool | MText string | MTexts "string list" | MId uuid | MTime seconds | MNone

definition opt_value :: "('a \<Rightarrow> metric_value) \<Rightarrow> 'a option \<Rightarrow> metric_value" where
  "opt_value f v = (case v of None \<Rightarrow> MNone | Some x \<Rightarrow> f x)"

record capture_metrics =
  mc_capture_format :: string
  mc_capture_size_bytes :: int
  mc_transfer_file_size_bytes :: int
  mc_capture_duration_ms :: rat
  mc_packet_count :: int
  mc_truncated_packet_count :: int
  mc_analysis_warning_count :: int
  mc_analysis_warnings :: "string list"

definition valid_capture_metrics :: "capture_metrics \<Rightarrow> bool" where
  "valid_capture_metrics m \<longleftrightarrow> is_capture_format (mc_capture_format m) \<and> positive (mc_capture_size_bytes m)
    \<and> positive (mc_transfer_file_size_bytes m) \<and> non_negative (mc_capture_duration_ms m)
    \<and> non_negative (mc_packet_count m) \<and> non_negative (mc_truncated_packet_count m)
    \<and> non_negative (mc_analysis_warning_count m)
    \<and> list_all stripped (mc_analysis_warnings m)"

definition dump_capture_metrics :: "capture_metrics \<Rightarrow> (string \<times> metric_value) list" where
  "dump_capture_metrics m = [(''capture_format'', MText (mc_capture_format m)),
      (''capture_size_bytes'', MInt (mc_capture_size_bytes m)),
      (''transfer_file_size_bytes'', MInt (mc_transfer_file_size_bytes m)),
      (''capture_duration_ms'', MFloat (mc_capture_duration_ms m)),
      (''packet_count'', MInt (mc_packet_count m)),
      (''truncated_packet_count'', MInt (mc_truncated_packet_count m)),
      (''analysis_warning_count'', MInt (mc_analysis_warning_count m)),
      (''analysis_warnings'', MTexts (mc_analysis_warnings m))]"

record network_capabilities =
  direction_metadata_available :: bool
  payload_plaintext_available :: bool
  handshake_observed :: bool
  tcp_present :: bool
  quic_present :: bool
  other_udp_present :: bool
  tcp_rtt_available :: bool
  quic_initial_rtt_available :: bool
  quic_spin_rtt_available :: bool
  dns_metrics_available :: bool
  comparison_ready :: bool

definition dump_network_capabilities :: "network_capabilities \<Rightarrow> (string \<times> metric_value) list" where
  "dump_network_capabilities m = [(''direction_metadata_available'', MBool (direction_metadata_available m)),
      (''payload_plaintext_available'', MBool (payload_plaintext_available m)),
      (''handshake_observed'', MBool (handshake_observed m)), (''tcp_present'', MBool (tcp_present m)),
      (''quic_present'', MBool (quic_present m)), (''other_udp_present'', MBool (other_udp_present m)),
      (''tcp_rtt_available'', MBool (tcp_rtt_available m)),
      (''quic_initial_rtt_available'', MBool (quic_initial_rtt_available m)),
      (''quic_spin_rtt_available'', MBool (quic_spin_rtt_available m)),
      (''dns_metrics_available'', MBool (dns_metrics_available m)),
      (''comparison_ready'', MBool (comparison_ready m))]"

record traffic_metrics =
  network_bytes_total :: int
  tx_network_bytes :: "int option"
  rx_network_bytes :: "int option"
  l4_payload_bytes_total :: int
  tx_l4_payload_bytes :: "int option"
  rx_l4_payload_bytes :: "int option"
  ip_transport_header_bytes :: int
  ip_transport_header_overhead_ratio :: "rat option"
  tx_packet_count :: "int option"
  rx_packet_count :: "int option"

definition valid_traffic_metrics :: "traffic_metrics \<Rightarrow> bool" where
  "valid_traffic_metrics m \<longleftrightarrow> non_negative (network_bytes_total m) \<and> optional non_negative (tx_network_bytes m)
    \<and> optional non_negative (rx_network_bytes m) \<and> non_negative (l4_payload_bytes_total m)
    \<and> optional non_negative (tx_l4_payload_bytes m)
    \<and> optional non_negative (rx_l4_payload_bytes m)
    \<and> non_negative (ip_transport_header_bytes m)
    \<and> optional is_ratio (ip_transport_header_overhead_ratio m)
    \<and> optional non_negative (tx_packet_count m) \<and> optional non_negative (rx_packet_count m)"

definition dump_traffic_metrics :: "traffic_metrics \<Rightarrow> (string \<times> metric_value) list" where
  "dump_traffic_metrics m = [(''network_bytes_total'', MInt (network_bytes_total m)),
      (''tx_network_bytes'', opt_value MInt (tx_network_bytes m)),
      (''rx_network_bytes'', opt_value MInt (rx_network_bytes m)),
      (''l4_payload_bytes_total'', MInt (l4_payload_bytes_total m)),
      (''tx_l4_payload_bytes'', opt_value MInt (tx_l4_payload_bytes m)),
      (''rx_l4_payload_bytes'', opt_value MInt (rx_l4_payload_bytes m)),
      (''ip_transport_header_bytes'', MInt (ip_transport_header_bytes m)),
      (''ip_transport_header_overhead_ratio'', opt_value MFloat (ip_transport_header_overhead_ratio m)),
      (''tx_packet_count'', opt_value MInt (tx_packet_count m)),
      (''rx_packet_count'', opt_value MInt (rx_packet_count m))]"

record protocol_mix_metrics =
  tcp_bytes :: int
  quic_identified_bytes :: int
  other_udp_bytes :: int
  tcp_byte_share :: "rat option"
  quic_byte_share :: "rat option"
  other_udp_byte_share :: "rat option"
  ipv4_byte_share :: "rat option"
  ipv6_byte_share :: "rat option"

definition valid_protocol_mix_metrics :: "protocol_mix_metrics \<Rightarrow> bool" where
  "valid_protocol_mix_metrics m \<longleftrightarrow> non_negative (tcp_bytes m) \<and> non_negative (quic_identified_bytes m)
    \<and> non_negative (other_udp_bytes m) \<and> optional is_ratio (tcp_byte_share m)
    \<and> optional is_ratio (quic_byte_share m) \<and> optional is_ratio (other_udp_byte_share m)
    \<and> optional is_ratio (ipv4_byte_share m) \<and> optional is_ratio (ipv6_byte_share m)"

definition dump_protocol_mix_metrics :: "protocol_mix_metrics \<Rightarrow> (string \<times> metric_value) list" where
  "dump_protocol_mix_metrics m = [(''tcp_bytes'', MInt (tcp_bytes m)), (''quic_identified_bytes'', MInt (quic_identified_bytes m)),
      (''other_udp_bytes'', MInt (other_udp_bytes m)),
      (''tcp_byte_share'', opt_value MFloat (tcp_byte_share m)),
      (''quic_byte_share'', opt_value MFloat (quic_byte_share m)),
      (''other_udp_byte_share'', opt_value MFloat (other_udp_byte_share m)),
      (''ipv4_byte_share'', opt_value MFloat (ipv4_byte_share m)),
      (''ipv6_byte_share'', opt_value MFloat (ipv6_byte_share m))]"

record ip_metrics =
  ip_fragment_count :: int
  ip_fragment_rate :: "rat option"
  ecn_ce_packet_count :: int
  ecn_ce_packet_rate :: "rat option"
  icmp_error_count :: int

definition valid_ip_metrics :: "ip_metrics \<Rightarrow> bool" where
  "valid_ip_metrics m \<longleftrightarrow> non_negative (ip_fragment_count m) \<and> optional is_ratio (ip_fragment_rate m)
    \<and> non_negative (ecn_ce_packet_count m) \<and> optional is_ratio (ecn_ce_packet_rate m)
    \<and> non_negative (icmp_error_count m)"

definition dump_ip_metrics :: "ip_metrics \<Rightarrow> (string \<times> metric_value) list" where
  "dump_ip_metrics m = [(''ip_fragment_count'', MInt (ip_fragment_count m)),
      (''ip_fragment_rate'', opt_value MFloat (ip_fragment_rate m)),
      (''ecn_ce_packet_count'', MInt (ecn_ce_packet_count m)),
      (''ecn_ce_packet_rate'', opt_value MFloat (ecn_ce_packet_rate m)),
      (''icmp_error_count'', MInt (icmp_error_count m))]"

record flow_metrics =
  flow_count :: int
  unique_remote_ip_count :: "int option"
  top_flow_payload_share :: "rat option"
  flows_for_80pct_payload :: int
  connection_churn_per_mib :: rat

definition valid_flow_metrics :: "flow_metrics \<Rightarrow> bool" where
  "valid_flow_metrics m \<longleftrightarrow> non_negative (flow_count m) \<and> optional non_negative (unique_remote_ip_count m)
    \<and> optional is_ratio (top_flow_payload_share m) \<and> non_negative (flows_for_80pct_payload m)
    \<and> non_negative (connection_churn_per_mib m)"

definition dump_flow_metrics :: "flow_metrics \<Rightarrow> (string \<times> metric_value) list" where
  "dump_flow_metrics m = [(''flow_count'', MInt (flow_count m)),
      (''unique_remote_ip_count'', opt_value MInt (unique_remote_ip_count m)),
      (''top_flow_payload_share'', opt_value MFloat (top_flow_payload_share m)),
      (''flows_for_80pct_payload'', MInt (flows_for_80pct_payload m)),
      (''connection_churn_per_mib'', MFloat (connection_churn_per_mib m))]"

record transfer_metrics =
  observed_primary_payload_span_ms :: "rat option"
  average_network_throughput_mbps :: "rat option"
  peak_1s_network_throughput_mbps :: "rat option"
  p95_1s_network_throughput_mbps :: "rat option"
  effective_file_throughput_mbps :: "rat option"
  primary_direction_amplification_ratio :: "rat option"
  total_transfer_amplification_ratio :: rat
  reverse_path_cost_ratio :: "rat option"

definition valid_transfer_metrics :: "transfer_metrics \<Rightarrow> bool" where
  "valid_transfer_metrics m \<longleftrightarrow> optional non_negative (observed_primary_payload_span_ms m)
    \<and> optional non_negative (average_network_throughput_mbps m)
    \<and> optional non_negative (peak_1s_network_throughput_mbps m)
    \<and> optional non_negative (p95_1s_network_throughput_mbps m)
    \<and> optional non_negative (effective_file_throughput_mbps m)
    \<and> optional non_negative (primary_direction_amplification_ratio m)
    \<and> non_negative (total_transfer_amplification_ratio m)
    \<and> optional non_negative (reverse_path_cost_ratio m)"

definition dump_transfer_metrics :: "transfer_metrics \<Rightarrow> (string \<times> metric_value) list" where
  "dump_transfer_metrics m = [(''observed_primary_payload_span_ms'', opt_value MFloat (observed_primary_payload_span_ms m)),
      (''average_network_throughput_mbps'', opt_value MFloat (average_network_throughput_mbps m)),
      (''peak_1s_network_throughput_mbps'', opt_value MFloat (peak_1s_network_throughput_mbps m)),
      (''p95_1s_network_throughput_mbps'', opt_value MFloat (p95_1s_network_throughput_mbps m)),
      (''effective_file_throughput_mbps'', opt_value MFloat (effective_file_throughput_mbps m)),
      (''primary_direction_amplification_ratio'', opt_value MFloat (primary_direction_amplification_ratio m)),
      (''total_transfer_amplification_ratio'', MFloat (total_transfer_amplification_ratio m)),
      (''reverse_path_cost_ratio'', opt_value MFloat (reverse_path_cost_ratio m))]"

record tcp_metrics =
  tcp_connection_count :: int
  tcp_successful_handshake_count :: int
  tcp_incomplete_handshake_count :: int
  tcp_handshake_success_rate :: "rat option"
  tcp_initial_rtt_avg_ms :: "rat option"
  tcp_initial_rtt_p50_ms :: "rat option"
  tcp_initial_rtt_p95_ms :: "rat option"
  tcp_ack_rtt_min_ms :: "rat option"
  tcp_ack_rtt_p50_ms :: "rat option"
  tcp_ack_rtt_p95_ms :: "rat option"
  tcp_rtt_tail_inflation :: "rat option"
  tcp_data_segment_count :: int
  tcp_retransmission_count :: int
  tcp_fast_retransmission_count :: int
  tcp_spurious_retransmission_count :: int
  tcp_retransmitted_payload_bytes :: int
  tcp_retransmission_rate :: "rat option"
  tcp_recovery_tax :: "rat option"
  tcp_zero_window_count :: int
  tcp_window_full_count :: int
  tcp_zero_window_duration_ms :: rat
  tcp_active_duration_ms :: rat
  tcp_receiver_stall_ratio :: "rat option"
  tcp_reset_count :: int
  tcp_reset_rate :: "rat option"
  tcp_out_of_order_count :: int
  tcp_duplicate_ack_count :: int
  tcp_lost_segment_indicator_count :: int

definition valid_tcp_metrics :: "tcp_metrics \<Rightarrow> bool" where
  "valid_tcp_metrics m \<longleftrightarrow> non_negative (tcp_connection_count m) \<and> non_negative (tcp_successful_handshake_count m)
    \<and> non_negative (tcp_incomplete_handshake_count m)
    \<and> optional is_ratio (tcp_handshake_success_rate m)
    \<and> optional non_negative (tcp_initial_rtt_avg_ms m)
    \<and> optional non_negative (tcp_initial_rtt_p50_ms m)
    \<and> optional non_negative (tcp_initial_rtt_p95_ms m)
    \<and> optional non_negative (tcp_ack_rtt_min_ms m)
    \<and> optional non_negative (tcp_ack_rtt_p50_ms m)
    \<and> optional non_negative (tcp_ack_rtt_p95_ms m)
    \<and> optional non_negative (tcp_rtt_tail_inflation m)
    \<and> non_negative (tcp_data_segment_count m) \<and> non_negative (tcp_retransmission_count m)
    \<and> non_negative (tcp_fast_retransmission_count m)
    \<and> non_negative (tcp_spurious_retransmission_count m)
    \<and> non_negative (tcp_retransmitted_payload_bytes m)
    \<and> optional is_ratio (tcp_retransmission_rate m) \<and> optional is_ratio (tcp_recovery_tax m)
    \<and> non_negative (tcp_zero_window_count m) \<and> non_negative (tcp_window_full_count m)
    \<and> non_negative (tcp_zero_window_duration_ms m) \<and> non_negative (tcp_active_duration_ms m)
    \<and> optional is_ratio (tcp_receiver_stall_ratio m) \<and> non_negative (tcp_reset_count m)
    \<and> optional is_ratio (tcp_reset_rate m) \<and> non_negative (tcp_out_of_order_count m)
    \<and> non_negative (tcp_duplicate_ack_count m)
    \<and> non_negative (tcp_lost_segment_indicator_count m)"

definition dump_tcp_metrics :: "tcp_metrics \<Rightarrow> (string \<times> metric_value) list" where
  "dump_tcp_metrics m = [(''tcp_connection_count'', MInt (tcp_connection_count m)),
      (''tcp_successful_handshake_count'', MInt (tcp_successful_handshake_count m)),
      (''tcp_incomplete_handshake_count'', MInt (tcp_incomplete_handshake_count m)),
      (''tcp_handshake_success_rate'', opt_value MFloat (tcp_handshake_success_rate m)),
      (''tcp_initial_rtt_avg_ms'', opt_value MFloat (tcp_initial_rtt_avg_ms m)),
      (''tcp_initial_rtt_p50_ms'', opt_value MFloat (tcp_initial_rtt_p50_ms m)),
      (''tcp_initial_rtt_p95_ms'', opt_value MFloat (tcp_initial_rtt_p95_ms m)),
      (''tcp_ack_rtt_min_ms'', opt_value MFloat (tcp_ack_rtt_min_ms m)),
      (''tcp_ack_rtt_p50_ms'', opt_value MFloat (tcp_ack_rtt_p50_ms m)),
      (''tcp_ack_rtt_p95_ms'', opt_value MFloat (tcp_ack_rtt_p95_ms m)),
      (''tcp_rtt_tail_inflation'', opt_value MFloat (tcp_rtt_tail_inflation m)),
      (''tcp_data_segment_count'', MInt (tcp_data_segment_count m)),
      (''tcp_retransmission_count'', MInt (tcp_retransmission_count m)),
      (''tcp_fast_retransmission_count'', MInt (tcp_fast_retransmission_count m)),
      (''tcp_spurious_retransmission_count'', MInt (tcp_spurious_retransmission_count m)),
      (''tcp_retransmitted_payload_bytes'', MInt (tcp_retransmitted_payload_bytes m)),
      (''tcp_retransmission_rate'', opt_value MFloat (tcp_retransmission_rate m)),
      (''tcp_recovery_tax'', opt_value MFloat (tcp_recovery_tax m)),
      (''tcp_zero_window_count'', MInt (tcp_zero_window_count m)),
      (''tcp_window_full_count'', MInt (tcp_window_full_count m)),
      (''tcp_zero_window_duration_ms'', MFloat (tcp_zero_window_duration_ms m)),
      (''tcp_active_duration_ms'', MFloat (tcp_active_duration_ms m)),
      (''tcp_receiver_stall_ratio'', opt_value MFloat (tcp_receiver_stall_ratio m)),
      (''tcp_reset_count'', MInt (tcp_reset_count m)),
      (''tcp_reset_rate'', opt_value MFloat (tcp_reset_rate m)),
      (''tcp_out_of_order_count'', MInt (tcp_out_of_order_count m)),
      (''tcp_duplicate_ack_count'', MInt (tcp_duplicate_ack_count m)),
      (''tcp_lost_segment_indicator_count'', MInt (tcp_lost_segment_indicator_count m))]"

record quic_metrics =
  quic_identified_connection_count :: "int option"
  quic_version_count :: "int option"
  quic_versions_seen :: "string list option"
  quic_retry_count :: "int option"
  quic_version_negotiation_count :: "int option"
  quic_0rtt_observed_count :: "int option"
  quic_initial_rtt_avg_ms :: "rat option"
  quic_initial_rtt_p50_ms :: "rat option"
  quic_initial_rtt_p95_ms :: "rat option"
  quic_spin_rtt_sample_count :: "int option"
  quic_spin_rtt_min_ms :: "rat option"
  quic_spin_rtt_p50_ms :: "rat option"
  quic_spin_rtt_p95_ms :: "rat option"

definition valid_quic_metrics :: "quic_metrics \<Rightarrow> bool" where
  "valid_quic_metrics m \<longleftrightarrow> optional non_negative (quic_identified_connection_count m)
    \<and> optional non_negative (quic_version_count m) \<and> optional non_negative (quic_retry_count m)
    \<and> optional non_negative (quic_version_negotiation_count m)
    \<and> optional non_negative (quic_0rtt_observed_count m)
    \<and> optional non_negative (quic_initial_rtt_avg_ms m)
    \<and> optional non_negative (quic_initial_rtt_p50_ms m)
    \<and> optional non_negative (quic_initial_rtt_p95_ms m)
    \<and> optional non_negative (quic_spin_rtt_sample_count m)
    \<and> optional non_negative (quic_spin_rtt_min_ms m)
    \<and> optional non_negative (quic_spin_rtt_p50_ms m)
    \<and> optional non_negative (quic_spin_rtt_p95_ms m)"

definition dump_quic_metrics :: "quic_metrics \<Rightarrow> (string \<times> metric_value) list" where
  "dump_quic_metrics m = [(''quic_identified_connection_count'', opt_value MInt (quic_identified_connection_count m)),
      (''quic_version_count'', opt_value MInt (quic_version_count m)),
      (''quic_versions_seen'', opt_value MTexts (quic_versions_seen m)),
      (''quic_retry_count'', opt_value MInt (quic_retry_count m)),
      (''quic_version_negotiation_count'', opt_value MInt (quic_version_negotiation_count m)),
      (''quic_0rtt_observed_count'', opt_value MInt (quic_0rtt_observed_count m)),
      (''quic_initial_rtt_avg_ms'', opt_value MFloat (quic_initial_rtt_avg_ms m)),
      (''quic_initial_rtt_p50_ms'', opt_value MFloat (quic_initial_rtt_p50_ms m)),
      (''quic_initial_rtt_p95_ms'', opt_value MFloat (quic_initial_rtt_p95_ms m)),
      (''quic_spin_rtt_sample_count'', opt_value MInt (quic_spin_rtt_sample_count m)),
      (''quic_spin_rtt_min_ms'', opt_value MFloat (quic_spin_rtt_min_ms m)),
      (''quic_spin_rtt_p50_ms'', opt_value MFloat (quic_spin_rtt_p50_ms m)),
      (''quic_spin_rtt_p95_ms'', opt_value MFloat (quic_spin_rtt_p95_ms m))]"

record udp_metrics =
  udp_flow_count :: int
  udp_datagram_count :: int
  udp_network_bytes :: int
  udp_payload_bytes :: int
  udp_payload_size_p50 :: "rat option"
  udp_payload_size_p95 :: "rat option"
  udp_bidirectional_byte_ratio :: "rat option"

definition valid_udp_metrics :: "udp_metrics \<Rightarrow> bool" where
  "valid_udp_metrics m \<longleftrightarrow> non_negative (udp_flow_count m) \<and> non_negative (udp_datagram_count m)
    \<and> non_negative (udp_network_bytes m) \<and> non_negative (udp_payload_bytes m)
    \<and> optional non_negative (udp_payload_size_p50 m)
    \<and> optional non_negative (udp_payload_size_p95 m)
    \<and> optional is_ratio (udp_bidirectional_byte_ratio m)"

definition dump_udp_metrics :: "udp_metrics \<Rightarrow> (string \<times> metric_value) list" where
  "dump_udp_metrics m = [(''udp_flow_count'', MInt (udp_flow_count m)), (''udp_datagram_count'', MInt (udp_datagram_count m)),
      (''udp_network_bytes'', MInt (udp_network_bytes m)),
      (''udp_payload_bytes'', MInt (udp_payload_bytes m)),
      (''udp_payload_size_p50'', opt_value MFloat (udp_payload_size_p50 m)),
      (''udp_payload_size_p95'', opt_value MFloat (udp_payload_size_p95 m)),
      (''udp_bidirectional_byte_ratio'', opt_value MFloat (udp_bidirectional_byte_ratio m))]"

record dns_metrics =
  dns_query_count :: int
  dns_response_count :: int
  dns_failure_count :: int
  dns_rtt_p50_ms :: "rat option"
  dns_rtt_p95_ms :: "rat option"

definition valid_dns_metrics :: "dns_metrics \<Rightarrow> bool" where
  "valid_dns_metrics m \<longleftrightarrow> non_negative (dns_query_count m) \<and> non_negative (dns_response_count m)
    \<and> non_negative (dns_failure_count m) \<and> optional non_negative (dns_rtt_p50_ms m)
    \<and> optional non_negative (dns_rtt_p95_ms m)"

definition dump_dns_metrics :: "dns_metrics \<Rightarrow> (string \<times> metric_value) list" where
  "dump_dns_metrics m = [(''dns_query_count'', MInt (dns_query_count m)), (''dns_response_count'', MInt (dns_response_count m)),
      (''dns_failure_count'', MInt (dns_failure_count m)),
      (''dns_rtt_p50_ms'', opt_value MFloat (dns_rtt_p50_ms m)),
      (''dns_rtt_p95_ms'', opt_value MFloat (dns_rtt_p95_ms m))]"

record network_analysis_collected =
  na_analysis_id :: uuid
  na_capture_id :: uuid
  na_application_id :: uuid
  na_package_name :: string
  na_scenario :: string
  na_analyzed_at :: seconds
  na_analyzer_version :: string
  na_tshark_version :: string
  na_source_analyzer :: string
  na_verified_sha256 :: string
  na_capture :: capture_metrics
  na_capabilities :: network_capabilities
  na_traffic :: traffic_metrics
  na_protocol_mix :: protocol_mix_metrics
  na_ip :: ip_metrics
  na_flow :: flow_metrics
  na_transfer :: transfer_metrics
  na_tcp :: "tcp_metrics option"
  na_quic :: "quic_metrics option"
  na_udp :: "udp_metrics option"
  na_dns :: "dns_metrics option"

definition valid_network_analysis :: "network_analysis_collected \<Rightarrow> bool" where
  "valid_network_analysis p \<longleftrightarrow> stripped (na_package_name p) \<and> is_scenario (na_scenario p)
     \<and> stripped (na_analyzer_version p) \<and> stripped (na_tshark_version p) \<and> na_source_analyzer p = ''tshark''
     \<and> is_sha256 (na_verified_sha256 p) \<and> valid_capture_metrics (na_capture p) \<and> valid_traffic_metrics (na_traffic p)
     \<and> valid_protocol_mix_metrics (na_protocol_mix p) \<and> valid_ip_metrics (na_ip p) \<and> valid_flow_metrics (na_flow p)
     \<and> valid_transfer_metrics (na_transfer p) \<and> optional valid_tcp_metrics (na_tcp p)
     \<and> optional valid_quic_metrics (na_quic p) \<and> optional valid_udp_metrics (na_udp p) \<and> optional valid_dns_metrics (na_dns p)"

definition capture_ready_envelope :: "network_capture_ready \<Rightarrow> uuid \<Rightarrow> exn + network_capture_ready envelope" where
  "capture_ready_envelope payload event_id =
     new_envelope event_id NETWORK_CAPTURE_READY_EVENT_TYPE NETWORK_SCHEMA_VERSION (utc (nr_uploaded_at payload)) payload"

definition analysis_collected_envelope :: "network_analysis_collected \<Rightarrow> uuid \<Rightarrow> exn + network_analysis_collected envelope" where
  "analysis_collected_envelope payload event_id =
     new_envelope event_id NETWORK_ANALYSIS_COLLECTED_EVENT_TYPE NETWORK_SCHEMA_VERSION (utc (na_analyzed_at payload)) payload"

lemmas event_type_defs = APP_STATS_EVENT_TYPE_def REVIEW_OBSERVED_EVENT_TYPE_def NETWORK_CAPTURE_READY_EVENT_TYPE_def
  NETWORK_ANALYSIS_COLLECTED_EVENT_TYPE_def PLAYSTORE_SCHEMA_VERSION_def NETWORK_SCHEMA_VERSION_def

lemmas topic_defs = PLAYSTORE_APP_STATS_TOPIC_def PLAYSTORE_REVIEW_OBSERVED_TOPIC_def NETWORK_ANALYSIS_COLLECTED_TOPIC_def
  NETWORK_CAPTURE_READY_TOPIC_def

text \<open>The envelope functions of the contracts always succeed.\<close>

lemma envelopes [simp]:
  "app_stats_envelope i p = Inr \<lparr>ev_event_id = i, ev_event_type = APP_STATS_EVENT_TYPE,
      ev_schema_version = PLAYSTORE_SCHEMA_VERSION, ev_occurred_at = as_collected_at p, ev_payload = p\<rparr>"
  "review_observed_envelope i q = Inr \<lparr>ev_event_id = i, ev_event_type = REVIEW_OBSERVED_EVENT_TYPE,
      ev_schema_version = PLAYSTORE_SCHEMA_VERSION, ev_occurred_at = ro_observed_at q, ev_payload = q\<rparr>"
  "capture_ready_envelope r i = Inr \<lparr>ev_event_id = i, ev_event_type = NETWORK_CAPTURE_READY_EVENT_TYPE,
      ev_schema_version = NETWORK_SCHEMA_VERSION, ev_occurred_at = nr_uploaded_at r, ev_payload = r\<rparr>"
  "analysis_collected_envelope a i = Inr \<lparr>ev_event_id = i, ev_event_type = NETWORK_ANALYSIS_COLLECTED_EVENT_TYPE,
      ev_schema_version = NETWORK_SCHEMA_VERSION, ev_occurred_at = na_analyzed_at a, ev_payload = a\<rparr>"
  by (simp_all add: app_stats_envelope_def review_observed_envelope_def capture_ready_envelope_def
      analysis_collected_envelope_def new_envelope_def aware_def utc_def event_type_defs)

end
