(* ===== verification/Analysis_Results.thy ===== *)
theory Analysis_Results
  imports Event_Contracts "HOL-Library.AList"
begin

text \<open>
  The flat table of network analysis results (class \<open>NetworkAnalysisResult\<close> of \<open>network/models.py\<close>)
  and the row the ingestion repository builds for it from the nested event payload
  (\<open>IngestionRepository.insert_network_analysis\<close>). The row is a Python dictionary: the lists
  below are the columns and the column names the source writes out, and building the dictionary
  overwrites a name that occurs twice. A row passes the check constraints of the table when it
  satisfies \<open>result_checks\<close>; a SQL check whose value is \<open>NULL\<close> passes.
\<close>

section \<open>Columns\<close>

definition NON_NEGATIVE_ANALYSIS_COLUMNS :: "string list" where
  "NON_NEGATIVE_ANALYSIS_COLUMNS = [''tx_network_bytes'', ''rx_network_bytes'', ''tx_l4_payload_bytes'',
     ''rx_l4_payload_bytes'', ''tx_packet_count'', ''rx_packet_count'', ''tcp_bytes'', ''quic_identified_bytes'',
     ''other_udp_bytes'', ''ecn_ce_packet_count'', ''icmp_error_count'', ''unique_remote_ip_count'',
     ''tcp_connection_count'', ''tcp_successful_handshake_count'', ''tcp_incomplete_handshake_count'',
     ''tcp_data_segment_count'', ''tcp_retransmission_count'', ''tcp_fast_retransmission_count'',
     ''tcp_spurious_retransmission_count'', ''tcp_retransmitted_payload_bytes'', ''tcp_zero_window_count'',
     ''tcp_window_full_count'', ''tcp_reset_count'', ''tcp_out_of_order_count'', ''tcp_duplicate_ack_count'',
     ''tcp_lost_segment_indicator_count'', ''quic_identified_connection_count'', ''quic_version_count'',
     ''quic_retry_count'', ''quic_version_negotiation_count'', ''quic_0rtt_observed_count'',
     ''quic_spin_rtt_sample_count'', ''udp_flow_count'', ''udp_datagram_count'', ''udp_network_bytes'',
     ''udp_payload_bytes'', ''dns_query_count'', ''dns_response_count'', ''dns_failure_count'',
     ''connection_churn_per_mib'', ''observed_primary_payload_span_ms'', ''average_network_throughput_mbps'',
     ''peak_1s_network_throughput_mbps'', ''p95_1s_network_throughput_mbps'', ''effective_file_throughput_mbps'',
     ''primary_direction_amplification_ratio'', ''total_transfer_amplification_ratio'', ''reverse_path_cost_ratio'',
     ''tcp_initial_rtt_avg_ms'', ''tcp_initial_rtt_p50_ms'', ''tcp_initial_rtt_p95_ms'', ''tcp_ack_rtt_min_ms'',
     ''tcp_ack_rtt_p50_ms'', ''tcp_ack_rtt_p95_ms'', ''tcp_rtt_tail_inflation'', ''tcp_zero_window_duration_ms'',
     ''tcp_active_duration_ms'', ''quic_initial_rtt_avg_ms'', ''quic_initial_rtt_p50_ms'',
     ''quic_initial_rtt_p95_ms'', ''quic_spin_rtt_min_ms'', ''quic_spin_rtt_p50_ms'', ''quic_spin_rtt_p95_ms'',
     ''udp_payload_size_p50'', ''udp_payload_size_p95'', ''dns_rtt_p50_ms'', ''dns_rtt_p95_ms'']"

definition RESULT_COLUMNS :: "string list" where
  "RESULT_COLUMNS = [''analysis_id'', ''capture_id'', ''application_id'', ''package_name'', ''scenario'',
     ''analyzed_at'', ''analyzer_version'', ''tshark_version'', ''source_analyzer'', ''verified_sha256'',
     ''capture_format'', ''capture_size_bytes'', ''transfer_file_size_bytes'', ''capture_duration_ms'',
     ''packet_count'', ''truncated_packet_count'', ''analysis_warning_count'', ''direction_metadata_available'',
     ''payload_plaintext_available'', ''handshake_observed'', ''tcp_present'', ''quic_present'',
     ''other_udp_present'', ''tcp_rtt_available'', ''quic_initial_rtt_available'', ''quic_spin_rtt_available'',
     ''dns_metrics_available'', ''comparison_ready'', ''analysis_warnings'', ''network_bytes_total'',
     ''tx_network_bytes'', ''rx_network_bytes'', ''l4_payload_bytes_total'', ''tx_l4_payload_bytes'',
     ''rx_l4_payload_bytes'', ''ip_transport_header_bytes'', ''ip_transport_header_overhead_ratio'',
     ''tx_packet_count'', ''rx_packet_count'', ''tcp_bytes'', ''quic_identified_bytes'', ''other_udp_bytes'',
     ''tcp_byte_share'', ''quic_byte_share'', ''other_udp_byte_share'', ''ipv4_byte_share'', ''ipv6_byte_share'',
     ''ip_fragment_count'', ''ip_fragment_rate'', ''ecn_ce_packet_count'', ''ecn_ce_packet_rate'',
     ''icmp_error_count'', ''flow_count'', ''unique_remote_ip_count'', ''top_flow_payload_share'',
     ''flows_for_80pct_payload'', ''connection_churn_per_mib'', ''observed_primary_payload_span_ms'',
     ''average_network_throughput_mbps'', ''peak_1s_network_throughput_mbps'', ''p95_1s_network_throughput_mbps'',
     ''effective_file_throughput_mbps'', ''primary_direction_amplification_ratio'',
     ''total_transfer_amplification_ratio'', ''reverse_path_cost_ratio'', ''tcp_connection_count'',
     ''tcp_successful_handshake_count'', ''tcp_incomplete_handshake_count'', ''tcp_handshake_success_rate'',
     ''tcp_initial_rtt_avg_ms'', ''tcp_initial_rtt_p50_ms'', ''tcp_initial_rtt_p95_ms'', ''tcp_ack_rtt_min_ms'',
     ''tcp_ack_rtt_p50_ms'', ''tcp_ack_rtt_p95_ms'', ''tcp_rtt_tail_inflation'', ''tcp_data_segment_count'',
     ''tcp_retransmission_count'', ''tcp_fast_retransmission_count'', ''tcp_spurious_retransmission_count'',
     ''tcp_retransmitted_payload_bytes'', ''tcp_retransmission_rate'', ''tcp_recovery_tax'',
     ''tcp_zero_window_count'', ''tcp_window_full_count'', ''tcp_zero_window_duration_ms'',
     ''tcp_active_duration_ms'', ''tcp_receiver_stall_ratio'', ''tcp_reset_count'', ''tcp_reset_rate'',
     ''tcp_out_of_order_count'', ''tcp_duplicate_ack_count'', ''tcp_lost_segment_indicator_count'',
     ''quic_identified_connection_count'', ''quic_version_count'', ''quic_versions_seen'', ''quic_retry_count'',
     ''quic_version_negotiation_count'', ''quic_0rtt_observed_count'', ''quic_initial_rtt_avg_ms'',
     ''quic_initial_rtt_p50_ms'', ''quic_initial_rtt_p95_ms'', ''quic_spin_rtt_sample_count'',
     ''quic_spin_rtt_min_ms'', ''quic_spin_rtt_p50_ms'', ''quic_spin_rtt_p95_ms'', ''udp_flow_count'',
     ''udp_datagram_count'', ''udp_network_bytes'', ''udp_payload_bytes'', ''udp_payload_size_p50'',
     ''udp_payload_size_p95'', ''udp_bidirectional_byte_ratio'', ''dns_query_count'', ''dns_response_count'',
     ''dns_failure_count'', ''dns_rtt_p50_ms'', ''dns_rtt_p95_ms'']"

definition RATIO_COLUMNS :: "string list" where
  "RATIO_COLUMNS = [''ip_transport_header_overhead_ratio'', ''tcp_byte_share'', ''quic_byte_share'',
     ''other_udp_byte_share'', ''ipv4_byte_share'', ''ipv6_byte_share'', ''ip_fragment_rate'',
     ''ecn_ce_packet_rate'', ''top_flow_payload_share'', ''tcp_handshake_success_rate'', ''tcp_retransmission_rate'',
     ''tcp_recovery_tax'', ''tcp_receiver_stall_ratio'', ''tcp_reset_rate'', ''udp_bidirectional_byte_ratio'']"

definition REQUIRED_NON_NEGATIVE_COLUMNS :: "string list" where
  "REQUIRED_NON_NEGATIVE_COLUMNS = [''capture_duration_ms'', ''packet_count'', ''truncated_packet_count'',
     ''analysis_warning_count'', ''network_bytes_total'', ''l4_payload_bytes_total'', ''ip_transport_header_bytes'',
     ''flow_count'', ''flows_for_80pct_payload'']"

definition TCP_COLUMNS :: "string list" where
  "TCP_COLUMNS = [''tcp_connection_count'', ''tcp_successful_handshake_count'', ''tcp_incomplete_handshake_count'',
     ''tcp_handshake_success_rate'', ''tcp_initial_rtt_avg_ms'', ''tcp_initial_rtt_p50_ms'',
     ''tcp_initial_rtt_p95_ms'', ''tcp_ack_rtt_min_ms'', ''tcp_ack_rtt_p50_ms'', ''tcp_ack_rtt_p95_ms'',
     ''tcp_rtt_tail_inflation'', ''tcp_data_segment_count'', ''tcp_retransmission_count'',
     ''tcp_fast_retransmission_count'', ''tcp_spurious_retransmission_count'', ''tcp_retransmitted_payload_bytes'',
     ''tcp_retransmission_rate'', ''tcp_recovery_tax'', ''tcp_zero_window_count'', ''tcp_window_full_count'',
     ''tcp_zero_window_duration_ms'', ''tcp_active_duration_ms'', ''tcp_receiver_stall_ratio'', ''tcp_reset_count'',
     ''tcp_reset_rate'', ''tcp_out_of_order_count'', ''tcp_duplicate_ack_count'',
     ''tcp_lost_segment_indicator_count'']"

definition QUIC_COLUMNS :: "string list" where
  "QUIC_COLUMNS = [''quic_identified_connection_count'', ''quic_version_count'', ''quic_versions_seen'',
     ''quic_retry_count'', ''quic_version_negotiation_count'', ''quic_0rtt_observed_count'',
     ''quic_initial_rtt_avg_ms'', ''quic_initial_rtt_p50_ms'', ''quic_initial_rtt_p95_ms'',
     ''quic_spin_rtt_sample_count'', ''quic_spin_rtt_min_ms'', ''quic_spin_rtt_p50_ms'', ''quic_spin_rtt_p95_ms'']"

definition UDP_COLUMNS :: "string list" where
  "UDP_COLUMNS = [''udp_flow_count'', ''udp_datagram_count'', ''udp_network_bytes'', ''udp_payload_bytes'',
     ''udp_payload_size_p50'', ''udp_payload_size_p95'', ''udp_bidirectional_byte_ratio'']"

definition DNS_COLUMNS :: "string list" where
  "DNS_COLUMNS = [''dns_query_count'', ''dns_response_count'', ''dns_failure_count'', ''dns_rtt_p50_ms'',
     ''dns_rtt_p95_ms'']"

section \<open>The row of an event\<close>

definition dict_update :: "(string \<times> metric_value) list \<Rightarrow> (string \<times> metric_value) list \<Rightarrow> (string \<times> metric_value) list" where
  "dict_update d kvs = fold (\<lambda>(k, v). AList.update k v) kvs d"

text \<open>One optional metric group: its values, or \<open>NULL\<close> for each of its columns.\<close>

definition group_values :: "('m \<Rightarrow> (string \<times> metric_value) list) \<Rightarrow> string list \<Rightarrow> 'm option \<Rightarrow> (string \<times> metric_value) list" where
  "group_values dump names m = (case m of Some x \<Rightarrow> dump x | None \<Rightarrow> map (\<lambda>n. (n, MNone)) names)"

text \<open>The parts of the dictionary, in the order the source unpacks and updates them.\<close>

definition row_groups :: "network_analysis_collected \<Rightarrow> (string \<times> metric_value) list list" where
  "row_groups payload =
       [[(''analysis_id'', MId (na_analysis_id payload)), (''capture_id'', MId (na_capture_id payload)),
         (''application_id'', MId (na_application_id payload)), (''package_name'', MText (na_package_name payload)),
         (''scenario'', MText (na_scenario payload)), (''analyzed_at'', MTime (na_analyzed_at payload)),
         (''analyzer_version'', MText (na_analyzer_version payload)), (''tshark_version'', MText (na_tshark_version payload)),
         (''source_analyzer'', MText (na_source_analyzer payload)), (''verified_sha256'', MText (na_verified_sha256 payload))],
        filter (\<lambda>(k, v). k \<noteq> ''analysis_warnings'') (dump_capture_metrics (na_capture payload)),
        dump_network_capabilities (na_capabilities payload),
        dump_traffic_metrics (na_traffic payload),
        dump_protocol_mix_metrics (na_protocol_mix payload),
        dump_ip_metrics (na_ip payload),
        dump_flow_metrics (na_flow payload),
        dump_transfer_metrics (na_transfer payload),
        [(''analysis_warnings'', MTexts (mc_analysis_warnings (na_capture payload)))],
        group_values dump_tcp_metrics TCP_COLUMNS (na_tcp payload),
        group_values dump_quic_metrics QUIC_COLUMNS (na_quic payload),
        group_values dump_udp_metrics UDP_COLUMNS (na_udp payload),
        group_values dump_dns_metrics DNS_COLUMNS (na_dns payload)]"

definition analysis_values :: "network_analysis_collected \<Rightarrow> (string \<times> metric_value) list" where
  "analysis_values payload = foldl dict_update [] (row_groups payload)"

section \<open>Check constraints\<close>

fun value_at_least_zero :: "metric_value \<Rightarrow> bool" where
  "value_at_least_zero (MInt n) = (0 \<le> n)"
| "value_at_least_zero (MFloat x) = (0 \<le> x)"
| "value_at_least_zero v = True"

fun value_at_most_one :: "metric_value \<Rightarrow> bool" where
  "value_at_most_one (MInt n) = (n \<le> 1)"
| "value_at_most_one (MFloat x) = (x \<le> 1)"
| "value_at_most_one v = True"

fun value_positive :: "metric_value \<Rightarrow> bool" where
  "value_positive (MInt n) = (0 < n)"
| "value_positive (MFloat x) = (0 < x)"
| "value_positive v = True"

fun value_in :: "string list \<Rightarrow> metric_value \<Rightarrow> bool" where
  "value_in texts (MText s) = (s \<in> set texts)"
| "value_in texts v = True"

definition column_check :: "string \<Rightarrow> metric_value \<Rightarrow> bool" where
  "column_check c v \<longleftrightarrow>
     (c \<in> set NON_NEGATIVE_ANALYSIS_COLUMNS \<union> set REQUIRED_NON_NEGATIVE_COLUMNS \<longrightarrow> value_at_least_zero v)
     \<and> (c \<in> set RATIO_COLUMNS \<longrightarrow> value_at_least_zero v \<and> value_at_most_one v)
     \<and> (c \<in> {''capture_size_bytes'', ''transfer_file_size_bytes''} \<longrightarrow> value_positive v)
     \<and> (c = ''scenario'' \<longrightarrow> value_in [''upload'', ''download''] v)
     \<and> (c = ''capture_format'' \<longrightarrow> value_in [''pcap'', ''pcapng''] v)"

definition result_checks :: "(string \<times> metric_value) list \<Rightarrow> bool" where
  "result_checks row \<longleftrightarrow> list_all (\<lambda>(c, v). column_check c v) row"

section \<open>Every column is given exactly once\<close>

lemma dict_update_append:
  "distinct (map fst d @ map fst kvs) \<Longrightarrow> dict_update d kvs = d @ kvs"
proof (induction kvs arbitrary: d)
  case (Cons kv kvs)
  obtain k v where kv: "kv = (k, v)" by fastforce
  have "AList.update k v d = d @ [(k, v)]" if "k \<notin> fst ` set d" for k :: string and v :: metric_value and d
    using that by (induction d) auto
  then have "AList.update k v d = d @ [(k, v)]" using Cons.prems by (auto simp: kv)
  then show ?case using Cons by (simp add: kv dict_update_def)
qed (simp add: dict_update_def)

lemma foldl_dict_update:
  "distinct (map fst d @ concat (map (map fst) ds)) \<Longrightarrow> foldl dict_update d ds = d @ concat ds"
proof (induction ds arbitrary: d)
  case (Cons e ds)
  then have "dict_update d e = d @ e" by (intro dict_update_append) auto
  moreover have "foldl dict_update (d @ e) ds = (d @ e) @ concat ds" using Cons.prems by (intro Cons.IH) auto
  ultimately show ?case by simp
qed simp

lemma group_columns:
  "map fst (group_values dump_tcp_metrics TCP_COLUMNS t) = TCP_COLUMNS"
  "map fst (group_values dump_quic_metrics QUIC_COLUMNS q) = QUIC_COLUMNS"
  "map fst (group_values dump_udp_metrics UDP_COLUMNS u) = UDP_COLUMNS"
  "map fst (group_values dump_dns_metrics DNS_COLUMNS d) = DNS_COLUMNS"
  by (simp_all add: group_values_def comp_def dump_tcp_metrics_def TCP_COLUMNS_def dump_quic_metrics_def QUIC_COLUMNS_def
      dump_udp_metrics_def UDP_COLUMNS_def dump_dns_metrics_def DNS_COLUMNS_def split: option.split)

text \<open>The names of the row in the order the dictionary is built.\<close>

definition HEAD_COLUMNS :: "string list" where
  "HEAD_COLUMNS = [''analysis_id'', ''capture_id'', ''application_id'', ''package_name'', ''scenario'',
     ''analyzed_at'', ''analyzer_version'', ''tshark_version'', ''source_analyzer'', ''verified_sha256'',
     ''capture_format'', ''capture_size_bytes'', ''transfer_file_size_bytes'', ''capture_duration_ms'',
     ''packet_count'', ''truncated_packet_count'', ''analysis_warning_count'', ''direction_metadata_available'',
     ''payload_plaintext_available'', ''handshake_observed'', ''tcp_present'', ''quic_present'',
     ''other_udp_present'', ''tcp_rtt_available'', ''quic_initial_rtt_available'', ''quic_spin_rtt_available'',
     ''dns_metrics_available'', ''comparison_ready'']"

definition METRIC_COLUMNS :: "string list" where
  "METRIC_COLUMNS = [''network_bytes_total'', ''tx_network_bytes'', ''rx_network_bytes'', ''l4_payload_bytes_total'',
     ''tx_l4_payload_bytes'', ''rx_l4_payload_bytes'', ''ip_transport_header_bytes'',
     ''ip_transport_header_overhead_ratio'', ''tx_packet_count'', ''rx_packet_count'', ''tcp_bytes'',
     ''quic_identified_bytes'', ''other_udp_bytes'', ''tcp_byte_share'', ''quic_byte_share'',
     ''other_udp_byte_share'', ''ipv4_byte_share'', ''ipv6_byte_share'', ''ip_fragment_count'', ''ip_fragment_rate'',
     ''ecn_ce_packet_count'', ''ecn_ce_packet_rate'', ''icmp_error_count'', ''flow_count'',
     ''unique_remote_ip_count'', ''top_flow_payload_share'', ''flows_for_80pct_payload'',
     ''connection_churn_per_mib'', ''observed_primary_payload_span_ms'', ''average_network_throughput_mbps'',
     ''peak_1s_network_throughput_mbps'', ''p95_1s_network_throughput_mbps'', ''effective_file_throughput_mbps'',
     ''primary_direction_amplification_ratio'', ''total_transfer_amplification_ratio'', ''reverse_path_cost_ratio'']"

definition ROW_COLUMNS :: "string list" where
  "ROW_COLUMNS = HEAD_COLUMNS @ METRIC_COLUMNS @ [''analysis_warnings''] @ TCP_COLUMNS @ QUIC_COLUMNS @ UDP_COLUMNS @ DNS_COLUMNS"

lemma row_groups_columns: "concat (map (map fst) (row_groups p)) = ROW_COLUMNS"
  by (simp add: row_groups_def ROW_COLUMNS_def HEAD_COLUMNS_def METRIC_COLUMNS_def group_columns dump_capture_metrics_def dump_network_capabilities_def
      dump_traffic_metrics_def dump_protocol_mix_metrics_def dump_ip_metrics_def dump_flow_metrics_def dump_transfer_metrics_def)

lemma distinct_row_columns: "distinct ROW_COLUMNS"
  by (simp add: ROW_COLUMNS_def HEAD_COLUMNS_def METRIC_COLUMNS_def TCP_COLUMNS_def QUIC_COLUMNS_def UDP_COLUMNS_def DNS_COLUMNS_def)

lemma result_columns: "RESULT_COLUMNS = HEAD_COLUMNS @ [''analysis_warnings''] @ METRIC_COLUMNS @ TCP_COLUMNS @ QUIC_COLUMNS @ UDP_COLUMNS @ DNS_COLUMNS"
  by (simp add: RESULT_COLUMNS_def HEAD_COLUMNS_def METRIC_COLUMNS_def TCP_COLUMNS_def QUIC_COLUMNS_def UDP_COLUMNS_def DNS_COLUMNS_def)

lemma row_columns: "map fst (analysis_values p) = ROW_COLUMNS" "analysis_values p = concat (row_groups p)"
proof -
  show v: "analysis_values p = concat (row_groups p)"
    using foldl_dict_update [of "[]" "row_groups p"] distinct_row_columns by (simp add: analysis_values_def row_groups_columns)
  show "map fst (analysis_values p) = ROW_COLUMNS" unfolding v map_concat row_groups_columns ..
qed

section \<open>Valid events satisfy the checks\<close>

lemma list_all_concat: "list_all P (concat xss) = list_all (list_all P) xss"
  by (induction xss) auto

text \<open>Ratio columns by group; no other column is one.\<close>

lemmas column_lists = NON_NEGATIVE_ANALYSIS_COLUMNS_def REQUIRED_NON_NEGATIVE_COLUMNS_def RATIO_COLUMNS_def

lemma opt_value_at_least_zero [simp]:
  "value_at_least_zero (opt_value MInt v) = optional non_negative v" "value_at_least_zero (opt_value MFloat w) = optional non_negative w"
  "value_at_least_zero (opt_value MTexts x)"
  by (auto simp: opt_value_def optional_def non_negative_def split: option.split)

lemma opt_value_at_most_one [simp]:
  "value_at_most_one (opt_value MFloat w) = optional (\<lambda>x. x \<le> 1) w"
  by (auto simp: opt_value_def optional_def split: option.split)

lemma ratio_split: "optional is_ratio v \<longleftrightarrow> optional non_negative v \<and> optional (\<lambda>x. x \<le> 1) v"
  by (auto simp: optional_def is_ratio_def non_negative_def split: option.split)

text \<open>A sufficient condition for the checks of a column, and the three columns that have their own.\<close>

lemma column_checkI:
  assumes "value_at_least_zero v" and "c \<notin> set RATIO_COLUMNS \<or> value_at_most_one v"
    and "c \<notin> {''capture_size_bytes'', ''transfer_file_size_bytes'', ''scenario'', ''capture_format''}"
  shows "column_check c v"
  using assms by (auto simp: column_check_def)

abbreviation checked :: "(string \<times> metric_value) list \<Rightarrow> bool" where
  "checked \<equiv> list_all (\<lambda>(c, v). column_check c v)"

lemma group_checks:
  "valid_traffic_metrics m1 \<Longrightarrow> checked (dump_traffic_metrics m1)"
  "valid_protocol_mix_metrics m2 \<Longrightarrow> checked (dump_protocol_mix_metrics m2)"
  "valid_ip_metrics m3 \<Longrightarrow> checked (dump_ip_metrics m3)"
  "valid_flow_metrics m4 \<Longrightarrow> checked (dump_flow_metrics m4)"
  "valid_transfer_metrics m5 \<Longrightarrow> checked (dump_transfer_metrics m5)"
  "checked (dump_network_capabilities m6)"
  by (simp_all add: dump_traffic_metrics_def valid_traffic_metrics_def dump_protocol_mix_metrics_def valid_protocol_mix_metrics_def
      dump_ip_metrics_def valid_ip_metrics_def dump_flow_metrics_def valid_flow_metrics_def dump_transfer_metrics_def
      valid_transfer_metrics_def dump_network_capabilities_def column_checkI RATIO_COLUMNS_def ratio_split non_negative_def)

lemma optional_group_checks:
  "valid_tcp_metrics m1 \<Longrightarrow> checked (dump_tcp_metrics m1)"
  "valid_quic_metrics m2 \<Longrightarrow> checked (dump_quic_metrics m2)"
  "valid_udp_metrics m3 \<Longrightarrow> checked (dump_udp_metrics m3)"
  "valid_dns_metrics m4 \<Longrightarrow> checked (dump_dns_metrics m4)"
  by (simp_all add: dump_tcp_metrics_def valid_tcp_metrics_def dump_quic_metrics_def valid_quic_metrics_def
      dump_udp_metrics_def valid_udp_metrics_def dump_dns_metrics_def valid_dns_metrics_def
      column_checkI RATIO_COLUMNS_def ratio_split non_negative_def)

lemma group_values_checks:
  assumes "\<And>x. m = Some x \<Longrightarrow> checked (dump x)"
  shows "checked (group_values dump names m)"
proof (cases m)
  case None
  have "column_check c MNone" for c by (simp add: column_check_def)
  then show ?thesis by (simp add: group_values_def None list_all_iff)
qed (use assms in \<open>simp add: group_values_def\<close>)

lemma head_checks:
  assumes "valid_network_analysis p"
  shows "checked (hd (row_groups p))" "checked (hd (tl (row_groups p)))" "checked [(''analysis_warnings'', MTexts ws)]"
  using assms
  by (simp_all add: row_groups_def dump_capture_metrics_def valid_network_analysis_def valid_capture_metrics_def is_scenario_def
      is_capture_format_def column_checkI RATIO_COLUMNS_def non_negative_def positive_def)
    (auto simp: column_check_def NON_NEGATIVE_ANALYSIS_COLUMNS_def REQUIRED_NON_NEGATIVE_COLUMNS_def RATIO_COLUMNS_def)

text \<open>
  C19: The row of a valid analysis event fits the table: it gives every column of the table exactly
  once and nothing else, whichever of the TCP, QUIC, UDP and DNS groups are absent, no value of one
  group overwrites another, and every check constraint of the table holds of it.
\<close>

theorem analysis_row_fits_table:
  assumes "valid_network_analysis p"
  shows "distinct (map fst (analysis_values p)) \<and> set (map fst (analysis_values p)) = set RESULT_COLUMNS
     \<and> result_checks (analysis_values p)"
proof -
  have "set ROW_COLUMNS = set RESULT_COLUMNS" unfolding ROW_COLUMNS_def result_columns by auto
  moreover have "checked (group_values dump_tcp_metrics TCP_COLUMNS (na_tcp p))" "checked (group_values dump_quic_metrics QUIC_COLUMNS (na_quic p))"
    "checked (group_values dump_udp_metrics UDP_COLUMNS (na_udp p))" "checked (group_values dump_dns_metrics DNS_COLUMNS (na_dns p))"
    using assms by (auto simp: valid_network_analysis_def optional_def intro!: group_values_checks optional_group_checks)
  then have "list_all checked (row_groups p)"
    using assms head_checks [OF assms] unfolding row_groups_def valid_network_analysis_def by (simp add: group_checks)
  then have "result_checks (analysis_values p)" by (simp add: result_checks_def row_columns(2) list_all_concat)
  ultimately show ?thesis using distinct_row_columns by (simp add: row_columns(1))
qed

text \<open>An empty capture, for the witness.\<close>

definition demo_analysis :: network_analysis_collected where
  "demo_analysis =
     \<lparr>na_analysis_id = 1, na_capture_id = 1, na_application_id = 1, na_package_name = ''x'',
       na_scenario = ''upload'', na_analyzed_at = 0, na_analyzer_version = ''x'', na_tshark_version = ''x'',
       na_source_analyzer = ''tshark'', na_verified_sha256 = replicate 64 (CHR ''0''),
       na_capture = \<lparr>mc_capture_format = ''pcap'', mc_capture_size_bytes = 10, mc_transfer_file_size_bytes = 5,
       mc_capture_duration_ms = 0, mc_packet_count = 0, mc_truncated_packet_count = 0,
       mc_analysis_warning_count = 0, mc_analysis_warnings = []\<rparr>,
       na_capabilities = \<lparr>direction_metadata_available = False, payload_plaintext_available = False,
       handshake_observed = False, tcp_present = False, quic_present = False, other_udp_present = False,
       tcp_rtt_available = False, quic_initial_rtt_available = False, quic_spin_rtt_available = False,
       dns_metrics_available = False, comparison_ready = False\<rparr>,
       na_traffic = \<lparr>network_bytes_total = 0, tx_network_bytes = None, rx_network_bytes = None,
       l4_payload_bytes_total = 0, tx_l4_payload_bytes = None, rx_l4_payload_bytes = None,
       ip_transport_header_bytes = 0, ip_transport_header_overhead_ratio = None, tx_packet_count = None,
       rx_packet_count = None\<rparr>,
       na_protocol_mix = \<lparr>tcp_bytes = 0, quic_identified_bytes = 0, other_udp_bytes = 0, tcp_byte_share = None,
       quic_byte_share = None, other_udp_byte_share = None, ipv4_byte_share = None,
       ipv6_byte_share = None\<rparr>,
       na_ip = \<lparr>ip_fragment_count = 0, ip_fragment_rate = None, ecn_ce_packet_count = 0, ecn_ce_packet_rate = None,
       icmp_error_count = 0\<rparr>,
       na_flow = \<lparr>flow_count = 0, unique_remote_ip_count = None, top_flow_payload_share = None,
       flows_for_80pct_payload = 0, connection_churn_per_mib = 0\<rparr>,
       na_transfer = \<lparr>observed_primary_payload_span_ms = None, average_network_throughput_mbps = None,
       peak_1s_network_throughput_mbps = None, p95_1s_network_throughput_mbps = None,
       effective_file_throughput_mbps = None, primary_direction_amplification_ratio = None,
       total_transfer_amplification_ratio = 0, reverse_path_cost_ratio = None\<rparr>,
       na_tcp = None, na_quic = None, na_udp = None, na_dns = None\<rparr>"

theorem analysis_row_fits_table_witness:
  "length (analysis_values demo_analysis) = length RESULT_COLUMNS \<and> result_checks (analysis_values demo_analysis)"
proof -
  have "valid_network_analysis demo_analysis" by code_simp
  then have fits: "distinct (map fst (analysis_values demo_analysis)) \<and> set (map fst (analysis_values demo_analysis)) = set RESULT_COLUMNS
     \<and> result_checks (analysis_values demo_analysis)" by (rule analysis_row_fits_table)
  have "length (analysis_values demo_analysis) = length ROW_COLUMNS" by (metis length_map row_columns(1))
  then show ?thesis using fits by (simp add: ROW_COLUMNS_def result_columns)
qed

end
