(* ===== verification/Kafka_Messaging.thy ===== *)
theory Kafka_Messaging
  imports Event_Contracts Crawl_Policies "HOL-Library.Multiset"
begin

text \<open>
  The synchronous Kafka clients (\<open>messaging/producer.py\<close>, \<open>messaging/consumer.py\<close>) and topic
  provisioning (\<open>messaging/admin.py\<close>). The library \<open>confluent_kafka\<close> is a parameter: a record of
  functions on its own state \<open>'b\<close>, each returning a library exception or a result, together with the
  delivery reports it hands to the callback while it is being served. \<open>producer_contract\<close> states
  what its documentation promises of the queue. The producer's lock makes its operations atomic, so
  each is one function on the state.
\<close>

section \<open>Text, bytes and library exceptions\<close>

text \<open>A Python text is its list of code points; \<open>str.isspace\<close> and UTF-8 as the language defines them.\<close>

type_synonym ptext = "nat list"

definition to_text :: "string \<Rightarrow> ptext" where
  "to_text s = map of_char s"

definition text_space :: "nat \<Rightarrow> bool" where
  "text_space c \<longleftrightarrow> 9 \<le> c \<and> c \<le> 13 \<or> 28 \<le> c \<and> c \<le> 32 \<or> 8192 \<le> c \<and> c \<le> 8202
     \<or> c \<in> {133, 160, 5760, 8232, 8233, 8239, 8287, 12288}"

definition utf8_char :: "nat \<Rightarrow> bytes option" where
  "utf8_char c =
     (if c < 128 then Some [c]
      else if c < 2048 then Some [192 + c div 64, 128 + c mod 64]
      else if 55296 \<le> c \<and> c < 57344 then None
      else if c < 65536 then Some [224 + c div 4096, 128 + c div 64 mod 64, 128 + c mod 64]
      else if c < 1114112 then Some [240 + c div 262144, 128 + c div 4096 mod 64, 128 + c div 64 mod 64, 128 + c mod 64]
      else None)"

fun utf8_encode :: "ptext \<Rightarrow> bytes option" where
  "utf8_encode [] = Some []"
| "utf8_encode (c # cs) = (case (utf8_char c, utf8_encode cs) of (Some b, Some bs) \<Rightarrow> Some (b @ bs) | _ \<Rightarrow> None)"

definition continuation :: "nat \<Rightarrow> bool" where
  "continuation b \<longleftrightarrow> 128 \<le> b \<and> b < 192"

text \<open>Strict decoding: no overlong form, no surrogate, nothing past the last code point.\<close>

definition utf8_two :: "nat \<Rightarrow> nat \<Rightarrow> nat option" where
  "utf8_two a b = (if continuation b then Some ((a - 192) * 64 + (b - 128)) else None)"

definition utf8_three :: "nat \<Rightarrow> nat \<Rightarrow> nat \<Rightarrow> nat option" where
  "utf8_three a b c = (let v = (a - 224) * 4096 + (b - 128) * 64 + (c - 128)
     in if continuation b \<and> continuation c \<and> 2048 \<le> v \<and> \<not> (55296 \<le> v \<and> v < 57344) then Some v else None)"

definition utf8_four :: "nat \<Rightarrow> nat \<Rightarrow> nat \<Rightarrow> nat \<Rightarrow> nat option" where
  "utf8_four a b c d = (let v = (a - 240) * 262144 + (b - 128) * 4096 + (c - 128) * 64 + (d - 128)
     in if continuation b \<and> continuation c \<and> continuation d \<and> 65536 \<le> v \<and> v < 1114112 then Some v else None)"

definition cons_opt :: "'a option \<Rightarrow> 'a list option \<Rightarrow> 'a list option" where
  "cons_opt v vs = (case (v, vs) of (Some x, Some xs) \<Rightarrow> Some (x # xs) | _ \<Rightarrow> None)"

fun utf8_decode :: "bytes \<Rightarrow> ptext option" where
  "utf8_decode [] = Some []"
| "utf8_decode (a # rest) =
     (if a < 128 then cons_opt (Some a) (utf8_decode rest)
      else if 194 \<le> a \<and> a < 224 then (case rest of b # r \<Rightarrow> cons_opt (utf8_two a b) (utf8_decode r) | _ \<Rightarrow> None)
      else if 224 \<le> a \<and> a < 240 then (case rest of b # c # r \<Rightarrow> cons_opt (utf8_three a b c) (utf8_decode r) | _ \<Rightarrow> None)
      else if 240 \<le> a \<and> a < 245 then (case rest of b # c # d # r \<Rightarrow> cons_opt (utf8_four a b c d) (utf8_decode r) | _ \<Rightarrow> None)
      else None)"

lemma base64_digits:
  fixes c :: nat
  shows "c div 4096 * 4096 + c div 64 mod 64 * 64 + c mod 64 = c"
    and "c div 262144 * 262144 + c div 4096 mod 64 * 4096 + c div 64 mod 64 * 64 + c mod 64 = c"
proof -
  have q: "c div 64 div 64 = c div 4096" "c div 4096 div 64 = c div 262144" by (simp_all flip: div_mult2_eq)
  have d: "n = n div 64 * 64 + n mod 64" for n :: nat by simp
  show "c div 4096 * 4096 + c div 64 mod 64 * 64 + c mod 64 = c"
    using d [of c] d [of "c div 64"] unfolding q by linarith
  then show "c div 262144 * 262144 + c div 4096 mod 64 * 4096 + c div 64 mod 64 * 64 + c mod 64 = c"
    using d [of "c div 4096"] unfolding q by linarith
qed

lemma utf8_decode_char:
  assumes "utf8_char c = Some b"
  shows "utf8_decode (b @ bs) = cons_opt (Some c) (utf8_decode bs)"
proof -
  consider (one) "c < 128" "b = [c]"
    | (two) "128 \<le> c" "c < 2048" "b = [192 + c div 64, 128 + c mod 64]"
    | (three) "2048 \<le> c" "c < 65536" "\<not> (55296 \<le> c \<and> c < 57344)" "b = [224 + c div 4096, 128 + c div 64 mod 64, 128 + c mod 64]"
    | (four) "65536 \<le> c" "c < 1114112"
        "b = [240 + c div 262144, 128 + c div 4096 mod 64, 128 + c div 64 mod 64, 128 + c mod 64]"
    using assms by (auto simp: utf8_char_def split: if_splits)
  then show ?thesis
  proof cases
    case two
    then have "2 \<le> c div 64" "c div 64 < 32" by linarith+
    with two show ?thesis by (simp add: utf8_two_def continuation_def)
  next
    case three
    note base64_digits(1) [of c]
    moreover have "c div 4096 < 16" using three by linarith
    ultimately show ?thesis using three by (simp add: utf8_three_def continuation_def Let_def)
  next
    case four
    note base64_digits(2) [of c]
    moreover have "c div 262144 < 5" using four by linarith
    ultimately show ?thesis using four by (simp add: utf8_four_def continuation_def Let_def)
  qed simp
qed

lemma utf8_round_trip: "utf8_encode s = Some b \<Longrightarrow> utf8_decode b = Some s"
proof (induction s arbitrary: b)
  case (Cons c cs)
  then obtain x y where "utf8_char c = Some x" "utf8_encode cs = Some y" "b = x @ y" by (auto split: option.splits)
  with Cons.IH show ?case using utf8_decode_char by (simp add: cons_opt_def)
qed simp

text \<open>\<open>repr\<close> of a text of ASCII characters.\<close>

definition hex_digit :: "nat \<Rightarrow> char" where
  "hex_digit d = char_of (if d < 10 then 48 + d else 87 + d)"

definition repr_char :: "char \<Rightarrow> char \<Rightarrow> string" where
  "repr_char q c = (let n = of_char c :: nat; bs = CHR 0x5C in
     if c = q \<or> c = bs then [bs, c]
     else if n = 9 then [bs, CHR ''t''] else if n = 10 then [bs, CHR ''n''] else if n = 13 then [bs, CHR ''r'']
     else if n < 32 \<or> n = 127 then [bs, CHR ''x'', hex_digit (n div 16), hex_digit (n mod 16)] else [c])"

definition py_repr :: "string \<Rightarrow> string" where
  "py_repr s = (let q = (if CHR 0x27 \<in> set s \<and> CHR 0x22 \<notin> set s then CHR 0x22 else CHR 0x27)
     in q # concat (map (repr_char q) s) @ [q])"

datatype lib_exn = BufferError string | KafkaException "int option" string | LibTypeError string | LibValueError string
  | LibTimeoutError string | LibOther exn

text \<open>An exception of the library that no handler catches.\<close>

definition lib_exn :: "lib_exn \<Rightarrow> exn" where
  "lib_exn e = (case e of BufferError t \<Rightarrow> mk_exn ''BufferError'' t False | KafkaException _ t \<Rightarrow> mk_exn ''KafkaException'' t False
     | LibTypeError t \<Rightarrow> mk_exn ''TypeError'' t False | LibValueError t \<Rightarrow> value_error t
     | LibTimeoutError t \<Rightarrow> mk_exn ''TimeoutError'' t False | LibOther x \<Rightarrow> x)"

fun join_with :: "string \<Rightarrow> string list \<Rightarrow> string" where
  "join_with sep [] = []"
| "join_with sep [w] = w"
| "join_with sep (w # v # ws) = w @ sep @ join_with sep (v # ws)"

section \<open>Messaging errors\<close>

definition ProducerClosedError :: exn where
  "ProducerClosedError = mk_exn ''ProducerClosedError'' ''Kafka producer is closed'' False"

definition ProducerPublishError :: "string \<Rightarrow> exn" where
  "ProducerPublishError t = mk_exn ''ProducerPublishError'' t False"

definition ProducerFlushError :: "string \<Rightarrow> exn" where
  "ProducerFlushError t = mk_exn ''ProducerFlushError'' t False"

definition ProducerDeliveryError :: "string list \<Rightarrow> exn" where
  "ProducerDeliveryError errors = mk_exn ''ProducerDeliveryError'' (join_with ''; '' errors) False"

definition ConsumerClosedError :: exn where
  "ConsumerClosedError = mk_exn ''ConsumerClosedError'' ''Kafka consumer is closed'' False"

definition ConsumerMessageError :: "string \<Rightarrow> exn" where
  "ConsumerMessageError t = mk_exn ''ConsumerMessageError'' t False"

definition ConsumerCommitError :: "string \<Rightarrow> exn" where
  "ConsumerCommitError t = mk_exn ''ConsumerCommitError'' t False"

definition TopicProvisioningError :: "string \<Rightarrow> exn" where
  "TopicProvisioningError t = mk_exn ''TopicProvisioningError'' t False"

definition TopicTopologyMismatchError :: "string \<Rightarrow> topic_topology \<Rightarrow> topic_topology \<Rightarrow> exn" where
  "TopicTopologyMismatchError topic expected actual = mk_exn ''TopicTopologyMismatchError''
     (''Kafka topic topology mismatch for '' @ py_repr topic @ '': expected partitions='' @ int_str (tt_partitions expected)
      @ '', replication_factor='' @ int_str (tt_replication_factor expected)
      @ ''; actual partitions='' @ int_str (tt_partitions actual)
      @ '', replication_factor='' @ int_str (tt_replication_factor actual)) False"

section \<open>Producer\<close>

record delivery =
  dl_error :: "string option"
  dl_topic :: string
  dl_partition :: int
  dl_key :: bytes
  dl_value :: bytes

record 'b producer_lib =
  lib_produce :: "string \<Rightarrow> bytes \<Rightarrow> bytes \<Rightarrow> 'b \<Rightarrow> (lib_exn + unit) \<times> 'b"
  lib_poll :: "seconds \<Rightarrow> 'b \<Rightarrow> (lib_exn + unit) \<times> delivery list \<times> 'b"
  lib_flush :: "seconds \<Rightarrow> 'b \<Rightarrow> (lib_exn + int) \<times> delivery list \<times> 'b"

record 'b kafka_producer =
  pr_flush_timeout :: seconds
  pr_max_retries :: int
  pr_poll_timeout :: seconds
  pr_delivery_errors :: "string list"
  pr_closed :: bool
  pr_broker :: 'b

definition producer_config :: "string \<Rightarrow> (string \<times> metric_value) list" where
  "producer_config bootstrap_servers = [(''bootstrap.servers'', MText bootstrap_servers), (''enable.idempotence'', MBool True),
     (''acks'', MText ''all'')]"

definition new_kafka_producer ::
  "((string \<times> metric_value) list \<Rightarrow> 'b) \<Rightarrow> string \<Rightarrow> seconds \<Rightarrow> int \<Rightarrow> seconds \<Rightarrow> exn + 'b kafka_producer" where
  "new_kafka_producer connect bootstrap_servers flush_timeout max_retries poll_timeout =
     (if max_retries < 0 then Inl (value_error ''queue-full retries must not be negative'')
      else if poll_timeout \<le> 0 then Inl (value_error ''queue-full poll timeout must be positive'')
      else Inr \<lparr>pr_flush_timeout = flush_timeout, pr_max_retries = max_retries, pr_poll_timeout = poll_timeout,
             pr_delivery_errors = [], pr_closed = False, pr_broker = connect (producer_config bootstrap_servers)\<rparr>)"

definition encode_message_key :: "ptext \<Rightarrow> exn + bytes" where
  "encode_message_key key =
     (if list_all text_space key then Inl (ProducerPublishError ''message key must not be blank'')
      else case utf8_encode key of
             None \<Rightarrow> Inl (ProducerPublishError ''message key is not valid UTF-8 text'')
           | Some b \<Rightarrow> Inr b)"

definition pr_on_delivery :: "delivery \<Rightarrow> 'b kafka_producer \<Rightarrow> 'b kafka_producer" where
  "pr_on_delivery d p = (case dl_error d of
     None \<Rightarrow> p
   | Some e \<Rightarrow> p\<lparr>pr_delivery_errors := pr_delivery_errors p
       @ [dl_topic d @ ''['' @ int_str (dl_partition d) @ ''] delivery failed: '' @ e]\<rparr>)"

definition pr_raise_delivery_errors :: "('b kafka_producer, unit) act" where
  "pr_raise_delivery_errors p =
     (if pr_delivery_errors p = [] then (Inr (), p)
      else (Inl (ProducerDeliveryError (pr_delivery_errors p)), p\<lparr>pr_delivery_errors := []\<rparr>))"

definition pr_poll :: "'b producer_lib \<Rightarrow> seconds \<Rightarrow> 'b kafka_producer \<Rightarrow> (lib_exn + unit) \<times> 'b kafka_producer" where
  "pr_poll lib timeout p = (case lib_poll lib timeout (pr_broker p) of
     (r, reports, b) \<Rightarrow> (r, fold pr_on_delivery reports (p\<lparr>pr_broker := b\<rparr>)))"

text \<open>One attempt to queue the message: \<open>False\<close> when the queue is full.\<close>

definition pr_try_produce ::
  "'b producer_lib \<Rightarrow> string \<Rightarrow> bytes \<Rightarrow> bytes \<Rightarrow> ('b kafka_producer, bool) act" where
  "pr_try_produce lib topic key val p =
     (case lib_produce lib topic key val (pr_broker p) of
        (r, b) \<Rightarrow>
          (case r of
             Inr _ \<Rightarrow> Inr True
           | Inl (BufferError _) \<Rightarrow> Inr False
           | Inl (LibTimeoutError t) \<Rightarrow> Inl (lib_exn (LibTimeoutError t))
           | Inl (LibOther e) \<Rightarrow>
               Inl (if is_value_error e then ProducerPublishError (''could not publish event to topic '' @ py_repr topic) else e)
           | Inl _ \<Rightarrow> Inl (ProducerPublishError (''could not publish event to topic '' @ py_repr topic)),
           p\<lparr>pr_broker := b\<rparr>))"

text \<open>Serving the callbacks while the queue is full; delivery failures are raised before the next attempt.\<close>

definition pr_service :: "'b producer_lib \<Rightarrow> seconds \<Rightarrow> string \<Rightarrow> ('b kafka_producer, unit) act" where
  "pr_service lib timeout message p =
     (case pr_poll lib timeout p of
        (Inl (KafkaException _ _), p1) \<Rightarrow> (Inl (ProducerPublishError message), p1)
      | (Inl e, p1) \<Rightarrow> (Inl (lib_exn e), p1)
      | (Inr _, p1) \<Rightarrow> pr_raise_delivery_errors p1)"

text \<open>The loop of \<open>_publish\<close>: \<open>n\<close> retries remain, that is \<open>attempt + n = queue_full_max_retries\<close>.\<close>

fun pr_produce_loop ::
  "'b producer_lib \<Rightarrow> string \<Rightarrow> bytes \<Rightarrow> bytes \<Rightarrow> nat \<Rightarrow> nat \<Rightarrow> ('b kafka_producer, unit) act" where
  "pr_produce_loop lib topic key val attempt 0 p =
     act_bind (pr_try_produce lib topic key val) (\<lambda>queued.
       if queued then act_return ()
       else act_raise (ProducerPublishError (''producer queue remained full for topic '' @ py_repr topic @ '' after ''
                         @ nat_str (attempt + 1) @ '' attempt(s)''))) p"
| "pr_produce_loop lib topic key val attempt (Suc n) p =
     act_bind (pr_try_produce lib topic key val) (\<lambda>queued.
       if queued then act_return ()
       else act_bind (pr_service lib (pr_poll_timeout p) (''could not service producer queue for topic '' @ py_repr topic))
              (\<lambda>_. pr_produce_loop lib topic key val (attempt + 1) n)) p"

definition pr_ensure_open :: "('b kafka_producer, unit) act" where
  "pr_ensure_open p = (if pr_closed p then Inl ProducerClosedError else Inr (), p)"

definition pr_publish ::
  "'b producer_lib \<Rightarrow> ('e \<Rightarrow> exn + bytes) \<Rightarrow> string \<Rightarrow> ptext \<Rightarrow> 'e \<Rightarrow> ('b kafka_producer, unit) act" where
  "pr_publish lib dump topic key event =
     act_bind pr_ensure_open (\<lambda>_ p.
       case serialize_event dump event of
         Inl e \<Rightarrow> (Inl e, p)
       | Inr val \<Rightarrow>
         (case encode_message_key key of
            Inl e \<Rightarrow> (Inl e, p)
          | Inr encoded_key \<Rightarrow>
              act_bind (pr_produce_loop lib topic encoded_key val 0 (nat (pr_max_retries p)))
                (\<lambda>_. pr_service lib 0 (''could not service delivery callbacks for topic '' @ py_repr topic)) p))"

definition pr_flush :: "'b producer_lib \<Rightarrow> seconds option \<Rightarrow> ('b kafka_producer, unit) act" where
  "pr_flush lib timeout = act_bind pr_ensure_open (\<lambda>_ p.
     case lib_flush lib (case timeout of None \<Rightarrow> pr_flush_timeout p | Some t \<Rightarrow> t) (pr_broker p) of
       (r, reports, b) \<Rightarrow>
         (let p1 = fold pr_on_delivery reports (p\<lparr>pr_broker := b\<rparr>)
          in case r of
               Inl (KafkaException _ _) \<Rightarrow> (Inl (ProducerFlushError ''Kafka producer flush failed''), p1)
             | Inl e \<Rightarrow> (Inl (lib_exn e), p1)
             | Inr remaining \<Rightarrow>
                 if remaining \<noteq> 0
                 then (Inl (ProducerFlushError (int_str remaining @ '' Kafka message(s) remained undelivered after flush'')), p1)
                 else pr_raise_delivery_errors p1))"

record 'e batch_message =
  bm_topic :: string
  bm_key :: ptext
  bm_event :: 'e

fun pr_publish_all ::
  "'b producer_lib \<Rightarrow> ('e \<Rightarrow> exn + bytes) \<Rightarrow> 'e batch_message list \<Rightarrow> ('b kafka_producer, unit) act" where
  "pr_publish_all lib dump [] p = (Inr (), p)"
| "pr_publish_all lib dump (m # ms) p =
     act_bind (pr_publish lib dump (bm_topic m) (bm_key m) (bm_event m)) (\<lambda>_. pr_publish_all lib dump ms) p"

definition pr_publish_batch ::
  "'b producer_lib \<Rightarrow> ('e \<Rightarrow> exn + bytes) \<Rightarrow> 'e batch_message list \<Rightarrow> ('b kafka_producer, unit) act" where
  "pr_publish_batch lib dump messages = act_bind (pr_publish_all lib dump messages) (\<lambda>_. pr_flush lib None)"

definition pr_close :: "'b producer_lib \<Rightarrow> seconds option \<Rightarrow> ('b kafka_producer, unit) act" where
  "pr_close lib timeout p =
     (if pr_closed p then (Inr (), p)
      else act_bind (pr_flush lib timeout) (\<lambda>_ q. (Inr (), q\<lparr>pr_closed := True\<rparr>)) p)"

section \<open>What a returned batch means\<close>

type_synonym message_id = "string \<times> bytes \<times> bytes"

definition report_id :: "delivery \<Rightarrow> message_id" where
  "report_id d = (dl_topic d, dl_key d, dl_value d)"

text \<open>
  The documented behaviour of the library: \<open>produce\<close> queues the message or raises; every message
  leaves the queue with one delivery report, which has no error exactly when the broker
  acknowledged it; \<open>flush\<close> returns the number of messages still in the queue.
\<close>

definition served :: "('b \<Rightarrow> message_id multiset) \<Rightarrow> ('b \<Rightarrow> message_id multiset) \<Rightarrow> delivery list \<Rightarrow> 'b \<Rightarrow> 'b \<Rightarrow> bool" where
  "served queued acked reports b b' \<longleftrightarrow> queued b = queued b' + mset (map report_id reports)
     \<and> acked b' = acked b + mset (map report_id (filter (\<lambda>d. dl_error d = None) reports))"

definition producer_contract ::
  "'b producer_lib \<Rightarrow> ('b \<Rightarrow> message_id multiset) \<Rightarrow> ('b \<Rightarrow> message_id multiset) \<Rightarrow> bool" where
  "producer_contract lib queued acked \<longleftrightarrow>
     (\<forall>topic key v b r b'. lib_produce lib topic key v b = (r, b') \<longrightarrow> acked b' = acked b
        \<and> queued b' = (case r of Inr _ \<Rightarrow> add_mset (topic, key, v) (queued b) | Inl _ \<Rightarrow> queued b))
     \<and> (\<forall>t b r reports b'. lib_poll lib t b = (r, reports, b') \<longrightarrow> served queued acked reports b b')
     \<and> (\<forall>t b r reports b'. lib_flush lib t b = (r, reports, b') \<longrightarrow> served queued acked reports b b'
          \<and> (\<forall>n. r = Inr n \<longrightarrow> n = int (size (queued b'))))"

lemma on_deliveries:
  "pr_broker (fold pr_on_delivery ds p) = pr_broker p"
  "pr_max_retries (fold pr_on_delivery ds p) = pr_max_retries p"
  "pr_closed (fold pr_on_delivery ds p) = pr_closed p"
  "pr_delivery_errors (fold pr_on_delivery ds p) = [] \<longleftrightarrow> pr_delivery_errors p = [] \<and> (\<forall>d \<in> set ds. dl_error d = None)"
  by (induction ds arbitrary: p) (auto simp: pr_on_delivery_def split: option.splits)

text \<open>Everything handed to the library is queued or acknowledged, as long as no error is reported.\<close>

lemma served_total:
  assumes "served queued acked ds b b'" and "\<forall>d \<in> set ds. dl_error d = None"
  shows "acked b' + queued b' = acked b + queued b"
proof -
  have "filter (\<lambda>d. dl_error d = None) ds = ds" using assms(2) by simp
  then show ?thesis using assms(1) by (simp add: served_def ac_simps)
qed

lemma raise_returns: "pr_raise_delivery_errors p = (Inr u, p') \<longleftrightarrow> pr_delivery_errors p = [] \<and> p' = p"
  by (auto simp: pr_raise_delivery_errors_def)

lemma service_returns:
  assumes "producer_contract lib queued acked" and "pr_service lib t m p = (Inr u, p')"
  shows "acked (pr_broker p') + queued (pr_broker p') = acked (pr_broker p) + queued (pr_broker p)"
    and "pr_delivery_errors p = []" and "pr_delivery_errors p' = []"
proof -
  obtain r ds b where l: "lib_poll lib t (pr_broker p) = (r, ds, b)" "p' = fold pr_on_delivery ds (p\<lparr>pr_broker := b\<rparr>)"
    and clean: "pr_delivery_errors p' = []"
    using assms(2) by (auto simp: pr_service_def pr_poll_def raise_returns split: prod.splits sum.splits lib_exn.splits)
  have "served queued acked ds (pr_broker p) b" using assms(1) l(1) unfolding producer_contract_def by blast
  then show "acked (pr_broker p') + queued (pr_broker p') = acked (pr_broker p) + queued (pr_broker p)" "pr_delivery_errors p = []"
    using clean served_total by (auto simp: l(2) on_deliveries)
qed (use assms(2) in \<open>auto simp: pr_service_def raise_returns split: prod.splits sum.splits lib_exn.splits\<close>)

lemma try_produce_returns:
  assumes "producer_contract lib queued acked" and "pr_try_produce lib topic key v p = (Inr q, p')"
  shows "acked (pr_broker p') + queued (pr_broker p')
       = (if q then add_mset (topic, key, v) (acked (pr_broker p) + queued (pr_broker p)) else acked (pr_broker p) + queued (pr_broker p))"
    and "pr_delivery_errors p' = pr_delivery_errors p"
proof -
  obtain r b where pd: "lib_produce lib topic key v (pr_broker p) = (r, b)" by fastforce
  have "acked b = acked (pr_broker p) \<and> queued b = (case r of Inr _ \<Rightarrow> add_mset (topic, key, v) (queued (pr_broker p))
      | Inl _ \<Rightarrow> queued (pr_broker p))" using assms(1) pd unfolding producer_contract_def by blast
  then show "acked (pr_broker p') + queued (pr_broker p')
       = (if q then add_mset (topic, key, v) (acked (pr_broker p) + queued (pr_broker p)) else acked (pr_broker p) + queued (pr_broker p))"
    "pr_delivery_errors p' = pr_delivery_errors p"
    using assms(2) pd by (auto simp: pr_try_produce_def split: sum.splits lib_exn.splits)
qed

lemma produce_loop_returns:
  assumes "producer_contract lib queued acked" and "pr_produce_loop lib topic key v attempt n p = (Inr u, p')"
  shows "pr_delivery_errors p' = pr_delivery_errors p
     \<and> acked (pr_broker p') + queued (pr_broker p') = add_mset (topic, key, v) (acked (pr_broker p) + queued (pr_broker p))"
  using assms(2)
proof (induction n arbitrary: attempt p)
  case 0
  then have "pr_try_produce lib topic key v p = (Inr True, p')"
    by (auto simp: act_bind_def act_return_def act_raise_def split: prod.splits sum.splits if_splits)
  from try_produce_returns [OF assms(1) this] show ?case by simp
next
  case (Suc n)
  obtain q p1 where tr: "pr_try_produce lib topic key v p = (Inr q, p1)"
    using Suc.prems by (auto simp: act_bind_def split: prod.splits sum.splits)
  show ?case
  proof (cases q)
    case True
    then show ?thesis using Suc.prems tr try_produce_returns [OF assms(1) tr] by (simp add: act_bind_def act_return_def)
  next
    case False
    then obtain w p2 m where serve: "pr_service lib (pr_poll_timeout p) m p1 = (Inr w, p2)"
      and rest: "pr_produce_loop lib topic key v (attempt + 1) n p2 = (Inr u, p')"
      using Suc.prems tr by (auto simp: act_bind_def split: prod.splits sum.splits)
    from service_returns [OF assms(1) serve] Suc.IH [OF rest] try_produce_returns [OF assms(1) tr] False show ?thesis by simp
  qed
qed

lemma publish_returns:
  assumes "producer_contract lib queued acked" and "pr_publish lib dump topic key event p = (Inr u, p')"
  obtains v k where "serialize_event dump event = Inr v" and "encode_message_key key = Inr k"
    and "pr_delivery_errors p = []" and "pr_delivery_errors p' = []"
    and "acked (pr_broker p') + queued (pr_broker p') = add_mset (topic, k, v) (acked (pr_broker p) + queued (pr_broker p))"
proof -
  obtain v k w p1 m where v: "serialize_event dump event = Inr v" and k: "encode_message_key key = Inr k"
    and loop: "pr_produce_loop lib topic k v 0 (nat (pr_max_retries p)) p = (Inr w, p1)"
    and serve: "pr_service lib 0 m p1 = (Inr u, p')"
    using assms(2) by (auto simp: pr_publish_def act_bind_def pr_ensure_open_def split: sum.splits prod.splits if_splits)
  from service_returns [OF assms(1) serve] produce_loop_returns [OF assms(1) loop] that [OF v k] show thesis by auto
qed

text \<open>The records a batch stands for.\<close>

definition encoded :: "('e \<Rightarrow> exn + bytes) \<Rightarrow> 'e batch_message \<Rightarrow> message_id" where
  "encoded dump m = (bm_topic m, projr (encode_message_key (bm_key m)), projr (serialize_event dump (bm_event m)))"

lemma publish_all_returns:
  assumes "producer_contract lib queued acked" and "pr_publish_all lib dump ms p = (Inr u, p')"
  shows "(pr_delivery_errors p' = [] \<longrightarrow> pr_delivery_errors p = [])
     \<and> acked (pr_broker p') + queued (pr_broker p') = acked (pr_broker p) + queued (pr_broker p) + mset (map (encoded dump) ms)"
  using assms(2)
proof (induction ms arbitrary: p)
  case (Cons m ms)
  obtain w p1 where one: "pr_publish lib dump (bm_topic m) (bm_key m) (bm_event m) p = (Inr w, p1)"
    and rest: "pr_publish_all lib dump ms p1 = (Inr u, p')"
    using Cons.prems by (auto simp: act_bind_def split: sum.splits prod.splits)
  from one show ?case
    by (rule publish_returns [OF assms(1)]) (use Cons.IH [OF rest] in \<open>simp add: encoded_def\<close>)
qed simp

text \<open>
  C17: When \<open>publish_batch\<close> returns, every message of the batch, and every message that was in the
  queue before, has been acknowledged by the broker and the queue is empty: no message of the batch
  is dropped, none is sent twice, and no delivery failure goes unreported.
\<close>

theorem returned_batch_is_acknowledged:
  assumes "producer_contract lib queued acked" and "pr_publish_batch lib dump messages p = (Inr u, p')"
  shows "queued (pr_broker p') = {#} \<and> pr_delivery_errors p' = []
     \<and> acked (pr_broker p') = acked (pr_broker p) + queued (pr_broker p) + mset (map (encoded dump) messages)"
proof -
  obtain w p1 where all: "pr_publish_all lib dump messages p = (Inr w, p1)" and fl: "pr_flush lib None p1 = (Inr u, p')"
    using assms(2) by (auto simp: pr_publish_batch_def act_bind_def split: sum.splits prod.splits)
  obtain n ds b where lf: "lib_flush lib (pr_flush_timeout p1) (pr_broker p1) = (Inr n, ds, b)" and "n = 0"
    and p': "p' = fold pr_on_delivery ds (p1\<lparr>pr_broker := b\<rparr>)" "pr_delivery_errors p' = []"
    using fl by (auto simp: pr_flush_def act_bind_def pr_ensure_open_def raise_returns Let_def
        split: sum.splits prod.splits lib_exn.splits if_splits)
  have s: "served queued acked ds (pr_broker p1) b" "n = int (size (queued b))"
    using assms(1) lf unfolding producer_contract_def by blast+
  have "acked b + queued b = acked (pr_broker p1) + queued (pr_broker p1)"
    using served_total [OF s(1)] p' by (simp add: on_deliveries)
  moreover have "queued b = {#}" using s(2) \<open>n = 0\<close> by simp
  ultimately show ?thesis using publish_all_returns [OF assms(1) all] p' by (simp add: on_deliveries)
qed

text \<open>A library that meets the contract: a queue of two messages, each acknowledged when served.\<close>

definition ack :: "message_id \<Rightarrow> delivery" where
  "ack m = (case m of (x, k, v) \<Rightarrow> \<lparr>dl_error = None, dl_topic = x, dl_partition = 0, dl_key = k, dl_value = v\<rparr>)"

definition demo_lib :: "(message_id list \<times> message_id list) producer_lib" where
  "demo_lib = \<lparr>
     lib_produce = (\<lambda>topic key v (q, a). if length q < 2 then (Inr (), (topic, key, v) # q, a) else (Inl (BufferError ''full''), q, a)),
     lib_poll = (\<lambda>t (q, a). (Inr (), map ack q, [], q @ a)),
     lib_flush = (\<lambda>t (q, a). (Inr 0, map ack q, [], q @ a))\<rparr>"

definition demo_producer :: "(message_id list \<times> message_id list) kafka_producer" where
  "demo_producer = \<lparr>pr_flush_timeout = 10, pr_max_retries = 3, pr_poll_timeout = 1, pr_delivery_errors = [], pr_closed = False,
     pr_broker = ([], [])\<rparr>"

lemma demo_lib_contract: "producer_contract demo_lib (mset \<circ> fst) (mset \<circ> snd)"
proof -
  have "report_id (ack m) = m \<and> dl_error (ack m) = None" for m by (cases m) (simp add: report_id_def ack_def)
  then have "map report_id (map ack q) = q" "filter (\<lambda>d. dl_error d = None) (map ack q) = map ack q" for q
    by (induction q) simp_all
  then show ?thesis unfolding producer_contract_def demo_lib_def served_def
    by (auto simp del: map_map mset_map mset_filter split: if_splits)
qed

theorem returned_batch_is_acknowledged_witness:
  "snd (pr_broker (snd (pr_publish_batch demo_lib (\<lambda>e. Inr [e]) [\<lparr>bm_topic = ''t'', bm_key = [65], bm_event = 7\<rparr>] demo_producer)))
     = [(''t'', [65], [7])]"
proof -
  let ?ms = "[\<lparr>bm_topic = ''t'', bm_key = [65], bm_event = (7 :: nat)\<rparr>]"
  let ?run = "pr_publish_batch demo_lib (\<lambda>e. Inr [e]) ?ms demo_producer"
  have key: "encode_message_key [65] = Inr [65]" by (simp add: encode_message_key_def text_space_def utf8_char_def)
  then have "fst ?run = Inr ()"
    by (simp add: pr_publish_batch_def pr_publish_def act_bind_def pr_ensure_open_def serialize_event_def pr_flush_def pr_service_def
        pr_poll_def ack_def pr_on_delivery_def demo_lib_def demo_producer_def pr_try_produce_def pr_raise_delivery_errors_def
        act_return_def eval_nat_numeral)
  then have run: "?run = (Inr (), snd ?run)" by (metis surjective_pairing)
  have "encoded (\<lambda>e. Inr [e]) (hd ?ms) = (''t'', [65], [7])" by (simp add: encoded_def key serialize_event_def)
  then have "mset (snd (pr_broker (snd ?run))) = mset [(''t'', [65], [7])]"
    using returned_batch_is_acknowledged [OF demo_lib_contract run] by (simp add: demo_producer_def)
  then show ?thesis by (simp add: mset_single_iff)
qed

section \<open>Consumer\<close>

datatype raw_field = RawBytes bytes | RawText string

record kafka_message =
  km_error :: "string option"
  km_topic :: string
  km_partition :: int
  km_offset :: int
  km_key :: "raw_field option"
  km_value :: "raw_field option"

record 'c consumer_lib =
  cl_subscribe :: "string list \<Rightarrow> 'c \<Rightarrow> 'c"
  cl_poll :: "seconds \<Rightarrow> 'c \<Rightarrow> (lib_exn + kafka_message option) \<times> 'c"
  cl_commit :: "kafka_message \<Rightarrow> 'c \<Rightarrow> (lib_exn + string option list option) \<times> 'c"
  cl_assignment :: "'c \<Rightarrow> (lib_exn + (string \<times> int) list) \<times> 'c"
  cl_close :: "'c \<Rightarrow> 'c"

record 'c kafka_consumer =
  kc_closed :: bool
  kc_client :: 'c

definition consumer_config :: "string \<Rightarrow> string \<Rightarrow> string \<Rightarrow> int option \<Rightarrow> exn + (string \<times> metric_value) list" where
  "consumer_config bootstrap_servers group_id auto_offset_reset max_poll_interval_ms =
     (if auto_offset_reset \<notin> {''earliest'', ''latest''}
      then Inl (value_error (''auto.offset.reset must be '' @ py_repr ''earliest'' @ '' or '' @ py_repr ''latest''))
      else let config = [(''bootstrap.servers'', MText bootstrap_servers), (''group.id'', MText group_id),
                 (''enable.auto.commit'', MBool False), (''enable.auto.offset.store'', MBool False),
                 (''auto.offset.reset'', MText auto_offset_reset)]
           in case max_poll_interval_ms of
                None \<Rightarrow> Inr config
              | Some ms \<Rightarrow> if ms \<le> 0 then Inl (value_error ''max.poll.interval.ms must be positive'')
                          else Inr (config @ [(''max.poll.interval.ms'', MInt ms)]))"

text \<open>\<open>dict.fromkeys\<close> keeps the first occurrence of every topic.\<close>

fun first_occurrences :: "'a list \<Rightarrow> 'a list" where
  "first_occurrences [] = []"
| "first_occurrences (x # xs) = x # filter (\<lambda>y. y \<noteq> x) (first_occurrences xs)"

definition validated_topics :: "string list \<Rightarrow> exn + string list" where
  "validated_topics topics = (let selected = first_occurrences topics
     in if selected = [] then Inl (value_error ''at least one Kafka topic is required'')
        else if list_ex is_blank selected then Inl (value_error ''Kafka topic names must not be blank'')
        else Inr selected)"

definition new_kafka_consumer ::
  "'c consumer_lib \<Rightarrow> ((string \<times> metric_value) list \<Rightarrow> 'c) \<Rightarrow> string \<Rightarrow> string \<Rightarrow> string list \<Rightarrow> string \<Rightarrow> int option
     \<Rightarrow> exn + 'c kafka_consumer" where
  "new_kafka_consumer lib connect bootstrap_servers group_id topics auto_offset_reset max_poll_interval_ms =
     (case validated_topics topics of
        Inl e \<Rightarrow> Inl e
      | Inr selected \<Rightarrow>
          (case consumer_config bootstrap_servers group_id auto_offset_reset max_poll_interval_ms of
             Inl e \<Rightarrow> Inl e
           | Inr config \<Rightarrow> Inr \<lparr>kc_closed = False, kc_client = cl_subscribe lib selected (connect config)\<rparr>))"

definition kc_ensure_open :: "('c kafka_consumer, unit) act" where
  "kc_ensure_open c = (if kc_closed c then Inl ConsumerClosedError else Inr (), c)"

definition kc_subscribe :: "'c consumer_lib \<Rightarrow> string list \<Rightarrow> ('c kafka_consumer, unit) act" where
  "kc_subscribe lib topics = act_bind kc_ensure_open (\<lambda>_ c.
     case validated_topics topics of
       Inl e \<Rightarrow> (Inl e, c)
     | Inr selected \<Rightarrow> (Inr (), c\<lparr>kc_client := cl_subscribe lib selected (kc_client c)\<rparr>))"

definition kc_poll :: "'c consumer_lib \<Rightarrow> seconds \<Rightarrow> ('c kafka_consumer, kafka_message option) act" where
  "kc_poll lib timeout = act_bind kc_ensure_open (\<lambda>_ c.
     case cl_poll lib timeout (kc_client c) of
       (r, client) \<Rightarrow>
         (case r of
            Inl (KafkaException _ _) \<Rightarrow> Inl (ConsumerMessageError ''Kafka polling failed'')
          | Inl e \<Rightarrow> Inl (lib_exn e)
          | Inr None \<Rightarrow> Inr None
          | Inr (Some m) \<Rightarrow> (case km_error m of
                Some e \<Rightarrow> Inl (ConsumerMessageError (''Kafka message error: '' @ e))
              | None \<Rightarrow> Inr (Some m)),
          c\<lparr>kc_client := client\<rparr>))"

definition kc_commit :: "'c consumer_lib \<Rightarrow> kafka_message \<Rightarrow> ('c kafka_consumer, unit) act" where
  "kc_commit lib m = act_bind kc_ensure_open (\<lambda>_ c.
     case cl_commit lib m (kc_client c) of
       (r, client) \<Rightarrow>
         (case r of
            Inl (KafkaException _ _) \<Rightarrow> Inl (ConsumerCommitError ''Kafka offset commit failed'')
          | Inl e \<Rightarrow> Inl (lib_exn e)
          | Inr None \<Rightarrow> Inl (ConsumerCommitError ''Kafka returned no result for synchronous offset commit'')
          | Inr (Some partitions) \<Rightarrow>
              (let failures = map the (filter (\<lambda>e. e \<noteq> None) partitions)
               in if failures \<noteq> [] then Inl (ConsumerCommitError (''Kafka offset commit failed: '' @ join_with ''; '' failures))
                  else Inr ()),
          c\<lparr>kc_client := client\<rparr>))"

definition kc_assignment :: "'c consumer_lib \<Rightarrow> ('c kafka_consumer, (string \<times> int) list) act" where
  "kc_assignment lib = act_bind kc_ensure_open (\<lambda>_ c.
     case cl_assignment lib (kc_client c) of
       (r, client) \<Rightarrow>
         (case r of
            Inl (KafkaException _ _) \<Rightarrow> Inl (ConsumerMessageError ''Kafka assignment lookup failed'')
          | Inl e \<Rightarrow> Inl (lib_exn e)
          | Inr a \<Rightarrow> Inr a,
          c\<lparr>kc_client := client\<rparr>))"

definition kc_close :: "'c consumer_lib \<Rightarrow> 'c kafka_consumer \<Rightarrow> 'c kafka_consumer" where
  "kc_close lib c = (if kc_closed c then c else \<lparr>kc_closed = True, kc_client = cl_close lib (kc_client c)\<rparr>)"

end
