(* ===== verification/Kafka_Admin.thy ===== *)
theory Kafka_Admin
  imports Kafka_Messaging
begin

text \<open>
  Topic provisioning (\<open>messaging/admin.py\<close>): creating the missing topics of a list and verifying the
  topology of the existing ones. The admin client of \<open>confluent_kafka\<close> is a parameter. Metadata the
  library may leave out or give in another shape (\<open>getattr\<close>, \<open>isinstance\<close>) is \<open>None\<close>.
\<close>

section \<open>Metadata\<close>

record partition_metadata =
  pm_error :: "string option"
  pm_replicas :: "int list option"

record topic_metadata =
  tm_error :: "string option"
  tm_partitions :: "(int \<times> partition_metadata) list option"

type_synonym cluster_metadata = "(string \<times> topic_metadata) list option"

record 'a admin_lib =
  ad_list_topics :: "seconds \<Rightarrow> 'a \<Rightarrow> (lib_exn + cluster_metadata) \<times> 'a"
  ad_create_topics :: "string list \<Rightarrow> topic_topology \<Rightarrow> seconds \<Rightarrow> 'a \<Rightarrow> (lib_exn + (string \<times> (lib_exn + unit)) list) \<times> 'a"
  ad_delete_topics :: "string list \<Rightarrow> seconds \<Rightarrow> 'a \<Rightarrow> (lib_exn + (string \<times> (lib_exn + unit)) list) \<times> 'a"

text \<open>Codes of \<open>KafkaError\<close> the module compares with.\<close>

definition TOPIC_ALREADY_EXISTS :: int where
  "TOPIC_ALREADY_EXISTS = 36"

definition UNKNOWN_TOPIC_OR_PART :: int where
  "UNKNOWN_TOPIC_OR_PART = 3"

definition validated_topic_names :: "string list \<Rightarrow> exn + string list" where
  "validated_topic_names topics =
     (if list_ex is_blank topics then Inl (value_error ''Kafka topic names must not be blank'')
      else if \<not> distinct topics then Inl (value_error ''Kafka topic names must be unique'')
      else Inr topics)"

definition read_metadata :: "'a admin_lib \<Rightarrow> seconds \<Rightarrow> ('a, cluster_metadata) act" where
  "read_metadata lib timeout a = (case ad_list_topics lib timeout a of
     (Inr m, a') \<Rightarrow> (Inr m, a')
   | (Inl (KafkaException _ _), a') \<Rightarrow> (Inl (TopicProvisioningError ''could not read Kafka topic metadata''), a')
   | (Inl (LibTimeoutError _), a') \<Rightarrow> (Inl (TopicProvisioningError ''timed out reading Kafka topic metadata''), a')
   | (Inl e, a') \<Rightarrow> (Inl (lib_exn e), a'))"

fun replica_counts :: "string \<Rightarrow> (int \<times> partition_metadata) list \<Rightarrow> exn + int list" where
  "replica_counts topic [] = Inr []"
| "replica_counts topic ((i, p) # ps) =
     (let here = ''Kafka metadata for topic '' @ py_repr topic @ '' partition '' @ int_str i
      in case pm_error p of
           Some e \<Rightarrow> Inl (TopicProvisioningError (here @ '' contains an error: '' @ e))
         | None \<Rightarrow>
           (case pm_replicas p of
              None \<Rightarrow> Inl (TopicProvisioningError (here @ '' has no valid replica list''))
            | Some rs \<Rightarrow>
                if rs = [] then Inl (TopicProvisioningError (here @ '' has no replicas''))
                else (case replica_counts topic ps of
                        Inl e \<Rightarrow> Inl e
                      | Inr counts \<Rightarrow> Inr (List.insert (int (length rs)) counts))))"

definition existing_topic_topology :: "string \<Rightarrow> topic_metadata \<Rightarrow> exn + topic_topology" where
  "existing_topic_topology topic m = (case tm_error m of
     Some e \<Rightarrow> Inl (TopicProvisioningError (''Kafka metadata for topic '' @ py_repr topic @ '' contains an error: '' @ e))
   | None \<Rightarrow>
     (case tm_partitions m of
        None \<Rightarrow> Inl (TopicProvisioningError (''Kafka metadata for topic '' @ py_repr topic @ '' has no valid partitions''))
      | Some ps \<Rightarrow>
          if ps = [] then Inl (TopicProvisioningError (''Kafka metadata for topic '' @ py_repr topic @ '' has no valid partitions''))
          else (case replica_counts topic ps of
                  Inl e \<Rightarrow> Inl e
                | Inr counts \<Rightarrow>
                    if length counts \<noteq> 1
                    then Inl (TopicProvisioningError (''Kafka topic '' @ py_repr topic
                           @ '' has inconsistent replication factors across partitions: '' @ join_with '', '' (map int_str (sort counts))))
                    else Inr \<lparr>tt_partitions = int (length ps), tt_replication_factor = hd counts\<rparr>)))"

definition metadata_topics :: "cluster_metadata \<Rightarrow> exn + (string \<times> topic_metadata) list" where
  "metadata_topics m = (case m of
     None \<Rightarrow> Inl (TopicProvisioningError ''Kafka cluster metadata has no valid topic map'') | Some ts \<Rightarrow> Inr ts)"

definition verify_topic_topology :: "string \<Rightarrow> topic_metadata \<Rightarrow> topic_topology \<Rightarrow> exn + unit" where
  "verify_topic_topology topic m expected = (case existing_topic_topology topic m of
     Inl e \<Rightarrow> Inl e
   | Inr actual \<Rightarrow> if actual \<noteq> expected then Inl (TopicTopologyMismatchError topic expected actual) else Inr ())"

definition is_kafka_error :: "lib_exn \<Rightarrow> int \<Rightarrow> bool" where
  "is_kafka_error e code = (case e of KafkaException (Some c) _ \<Rightarrow> c = code | _ \<Rightarrow> False)"

section \<open>Creating topics\<close>

fun missing_topics :: "(string \<times> topic_metadata) list \<Rightarrow> topic_topology \<Rightarrow> string list \<Rightarrow> exn + string list" where
  "missing_topics ts topology [] = Inr []"
| "missing_topics ts topology (name # names) =
     (case map_of ts name of
        None \<Rightarrow> (case missing_topics ts topology names of Inl e \<Rightarrow> Inl e | Inr rest \<Rightarrow> Inr (name # rest))
      | Some m \<Rightarrow> (case verify_topic_topology name m topology of Inl e \<Rightarrow> Inl e | Inr _ \<Rightarrow> missing_topics ts topology names))"

text \<open>The results of the creation futures: the topics created here, and those created meanwhile by others.\<close>

fun creation_results ::
  "(string \<times> (lib_exn + unit)) list \<Rightarrow> string list \<Rightarrow> exn + (string list \<times> string list)" where
  "creation_results futures [] = Inr ([], [])"
| "creation_results futures (name # names) =
     (case map_of futures name of
        None \<Rightarrow> Inl (TopicProvisioningError (''Kafka did not return a creation result for topic '' @ py_repr name))
      | Some (Inr _) \<Rightarrow>
          (case creation_results futures names of Inl e \<Rightarrow> Inl e | Inr (created, raced) \<Rightarrow> Inr (name # created, raced))
      | Some (Inl e) \<Rightarrow>
          if is_kafka_error e TOPIC_ALREADY_EXISTS
          then (case creation_results futures names of Inl x \<Rightarrow> Inl x | Inr (created, raced) \<Rightarrow> Inr (created, name # raced))
          else Inl (case e of
                 KafkaException _ _ \<Rightarrow> TopicProvisioningError (''could not create Kafka topic '' @ py_repr name)
               | LibTimeoutError _ \<Rightarrow> TopicProvisioningError (''timed out while creating Kafka topic '' @ py_repr name)
               | _ \<Rightarrow> lib_exn e))"

fun verify_raced :: "(string \<times> topic_metadata) list \<Rightarrow> topic_topology \<Rightarrow> string list \<Rightarrow> exn + unit" where
  "verify_raced ts topology [] = Inr ()"
| "verify_raced ts topology (name # names) =
     (case map_of ts name of
        None \<Rightarrow> Inl (TopicProvisioningError (''Kafka reported topic '' @ py_repr name @ '' already exists, but metadata is missing''))
      | Some m \<Rightarrow> (case verify_topic_topology name m topology of Inl e \<Rightarrow> Inl e | Inr _ \<Rightarrow> verify_raced ts topology names))"

definition lift_result :: "exn + 'r \<Rightarrow> ('s, 'r) act" where
  "lift_result r s = (r, s)"

definition create_missing ::
  "'a admin_lib \<Rightarrow> string list \<Rightarrow> topic_topology \<Rightarrow> seconds \<Rightarrow> ('a, (string \<times> (lib_exn + unit)) list) act" where
  "create_missing lib missing topology timeout a = (case ad_create_topics lib missing topology timeout a of
     (Inr futures, a') \<Rightarrow> (Inr futures, a')
   | (Inl (KafkaException _ _), a') \<Rightarrow> (Inl (TopicProvisioningError ''could not request Kafka topic creation''), a')
   | (Inl (LibTimeoutError _), a') \<Rightarrow> (Inl (TopicProvisioningError ''timed out requesting Kafka topic creation''), a')
   | (Inl e, a') \<Rightarrow> (Inl (lib_exn e), a'))"

definition check_raced :: "'a admin_lib \<Rightarrow> string list \<Rightarrow> topic_topology \<Rightarrow> seconds \<Rightarrow> ('a, unit) act" where
  "check_raced lib raced topology timeout =
     (if raced = [] then act_return ()
      else act_bind (read_metadata lib timeout) (\<lambda>m.
           act_bind (lift_result (metadata_topics m)) (\<lambda>ts. lift_result (verify_raced ts topology raced))))"

text \<open>The admin client is constructed by the caller; a failure to construct it is the first error.\<close>

definition ensure_topics ::
  "'a admin_lib \<Rightarrow> (lib_exn + 'a) \<Rightarrow> string list \<Rightarrow> topic_topology \<Rightarrow> seconds \<Rightarrow> (exn + string list) \<times> 'a option" where
  "ensure_topics lib connect topics topology timeout =
     (case validated_topic_names topics of
        Inl e \<Rightarrow> (Inl e, None)
      | Inr names \<Rightarrow>
          (case connect of
             Inl (KafkaException _ _) \<Rightarrow> (Inl (TopicProvisioningError ''could not construct Kafka admin client''), None)
           | Inl e \<Rightarrow> (Inl (lib_exn e), None)
           | Inr client \<Rightarrow>
               apsnd Some
                 (act_bind (read_metadata lib timeout) (\<lambda>m.
                  act_bind (lift_result (metadata_topics m)) (\<lambda>ts.
                  act_bind (lift_result (missing_topics ts topology names)) (\<lambda>missing.
                    if missing = [] then act_return []
                    else
                      act_bind (create_missing lib missing topology timeout) (\<lambda>futures.
                      act_bind (lift_result (creation_results futures missing)) (\<lambda>(created, raced).
                      act_bind (check_raced lib raced topology timeout) (\<lambda>_. act_return created)))))) client)))"

section \<open>Deleting topics\<close>

fun deletion_results :: "(string \<times> (lib_exn + unit)) list \<Rightarrow> string list \<Rightarrow> exn + string list" where
  "deletion_results futures [] = Inr []"
| "deletion_results futures (name # names) =
     (case map_of futures name of
        None \<Rightarrow> Inl (TopicProvisioningError (''Kafka did not return a deletion result for topic '' @ py_repr name))
      | Some (Inr _) \<Rightarrow> (case deletion_results futures names of Inl e \<Rightarrow> Inl e | Inr deleted \<Rightarrow> Inr (name # deleted))
      | Some (Inl e) \<Rightarrow>
          if is_kafka_error e UNKNOWN_TOPIC_OR_PART then deletion_results futures names
          else Inl (case e of
                 KafkaException _ _ \<Rightarrow> TopicProvisioningError (''could not delete Kafka topic '' @ py_repr name)
               | LibTimeoutError _ \<Rightarrow> TopicProvisioningError (''timed out while deleting Kafka topic '' @ py_repr name)
               | _ \<Rightarrow> lib_exn e))"

definition delete_topics ::
  "'a admin_lib \<Rightarrow> (lib_exn + 'a) \<Rightarrow> string list \<Rightarrow> seconds \<Rightarrow> (exn + string list) \<times> 'a option" where
  "delete_topics lib connect topics timeout =
     (case validated_topic_names topics of
        Inl e \<Rightarrow> (Inl e, None)
      | Inr names \<Rightarrow>
          if names = [] then (Inr [], None)
          else (case connect of
             Inl (KafkaException _ _) \<Rightarrow> (Inl (TopicProvisioningError ''could not construct Kafka admin client''), None)
           | Inl e \<Rightarrow> (Inl (lib_exn e), None)
           | Inr client \<Rightarrow>
               (case ad_delete_topics lib names timeout client of
                  (Inr futures, c) \<Rightarrow> (deletion_results futures names, Some c)
                | (Inl (KafkaException _ _), c) \<Rightarrow> (Inl (TopicProvisioningError ''could not request Kafka topic deletion''), Some c)
                | (Inl (LibTimeoutError _), c) \<Rightarrow> (Inl (TopicProvisioningError ''timed out requesting Kafka topic deletion''), Some c)
                | (Inl e, c) \<Rightarrow> (Inl (lib_exn e), Some c))))"

section \<open>Properties\<close>

text \<open>
  What the admin client promises of the cluster, \<open>topology_of a\<close> being the topics that exist: topics
  are never removed or changed by listing and creating, other clients may create topics at any time,
  metadata describes the cluster at the time of the answer, and a creation future that succeeds
  means that the topic exists as requested.
\<close>

definition admin_contract :: "'a admin_lib \<Rightarrow> ('a \<Rightarrow> string \<rightharpoonup> topic_topology) \<Rightarrow> bool" where
  "admin_contract lib topology_of \<longleftrightarrow>
     (\<forall>t a r a'. ad_list_topics lib t a = (r, a') \<longrightarrow> topology_of a \<subseteq>\<^sub>m topology_of a'
        \<and> (\<forall>ts. r = Inr (Some ts) \<longrightarrow> (\<forall>name m x. map_of ts name = Some m \<longrightarrow> existing_topic_topology name m = Inr x
              \<longrightarrow> topology_of a' name = Some x)))
     \<and> (\<forall>names x t a r a'. ad_create_topics lib names x t a = (r, a') \<longrightarrow> topology_of a \<subseteq>\<^sub>m topology_of a'
        \<and> (\<forall>futures name. r = Inr futures \<longrightarrow> map_of futures name = Some (Inr ()) \<longrightarrow> topology_of a' name = Some x))"

lemma admin_contract_create:
  assumes "admin_contract lib topology_of" and "ad_create_topics lib names x t a = (Inr fs, a')"
  shows "topology_of a \<subseteq>\<^sub>m topology_of a' \<and> (\<forall>n. map_of fs n = Some (Inr ()) \<longrightarrow> topology_of a' n = Some x)"
  using assms(1) [unfolded admin_contract_def, THEN conjunct2, rule_format, OF assms(2)] by simp

lemma apsnd_Some [simp]: "apsnd Some x = (r, Some a) \<longleftrightarrow> x = (r, a)"
  by (cases x) auto

lemma map_le_Some: "f \<subseteq>\<^sub>m g \<Longrightarrow> f x = Some y \<Longrightarrow> g x = Some y"
  by (metis domI map_le_def)

lemma missing_topics_split:
  "missing_topics ts x names = Inr missing \<Longrightarrow> name \<in> set names \<Longrightarrow>
     name \<in> set missing \<or> (\<exists>m. map_of ts name = Some m \<and> existing_topic_topology name m = Inr x)"
  by (induction names arbitrary: missing)
    (auto simp: verify_topic_topology_def split: option.splits sum.splits if_splits)

lemma creation_results_split:
  "creation_results futures names = Inr (created, raced) \<Longrightarrow>
     set created \<union> set raced = set names \<and> (\<forall>name \<in> set created. map_of futures name = Some (Inr ()))"
  by (induction names arbitrary: created raced) (auto split: option.splits sum.splits if_splits)

lemma verify_raced_all:
  "verify_raced ts x names = Inr u \<Longrightarrow> name \<in> set names \<Longrightarrow>
     \<exists>m. map_of ts name = Some m \<and> existing_topic_topology name m = Inr x"
  by (induction names) (auto simp: verify_topic_topology_def split: option.splits sum.splits if_splits)

lemma read_metadata_returns: "read_metadata lib t a = (Inr m, a') \<Longrightarrow> ad_list_topics lib t a = (Inr m, a')"
  by (auto simp: read_metadata_def split: prod.splits sum.splits lib_exn.splits)

lemma create_missing_returns: "create_missing lib names x t a = (Inr fs, a') \<Longrightarrow> ad_create_topics lib names x t a = (Inr fs, a')"
  by (auto simp: create_missing_def split: prod.splits sum.splits lib_exn.splits)

lemma metadata_topics_returns: "metadata_topics m = Inr ts \<longleftrightarrow> m = Some ts"
  by (auto simp: metadata_topics_def split: option.splits)

lemma check_raced_returns:
  assumes "admin_contract lib topology_of" and "check_raced lib raced x t a = (Inr u, a')"
  shows "topology_of a \<subseteq>\<^sub>m topology_of a' \<and> (\<forall>name \<in> set raced. topology_of a' name = Some x)"
proof (cases "raced = []")
  case False
  then obtain ts where l: "ad_list_topics lib t a = (Inr (Some ts), a')" and v: "verify_raced ts x raced = Inr u"
    using assms(2) by (auto simp: check_raced_def act_bind_def lift_result_def metadata_topics_returns
        dest!: read_metadata_returns split: prod.splits sum.splits)
  with assms(1) show ?thesis unfolding admin_contract_def using verify_raced_all [OF v] by metis
qed (use assms(2) in \<open>simp add: check_raced_def act_return_def\<close>)


text \<open>A cluster whose topics all have one partition with one replica, for the witness.\<close>

definition one_by_one :: topic_topology where
  "one_by_one = \<lparr>tt_partitions = 1, tt_replication_factor = 1\<rparr>"

definition one_metadata :: topic_metadata where
  "one_metadata = \<lparr>tm_error = None, tm_partitions = Some [(0, \<lparr>pm_error = None, pm_replicas = Some [1]\<rparr>)]\<rparr>"

definition demo_admin :: "string list admin_lib" where
  "demo_admin = \<lparr>
     ad_list_topics = (\<lambda>t a. (Inr (Some (map (\<lambda>n. (n, one_metadata)) a)), a)),
     ad_create_topics = (\<lambda>names x t a. if x = one_by_one then (Inr (map (\<lambda>n. (n, Inr ())) names), names @ a)
        else (Inl (KafkaException None ''unsupported''), a)),
     ad_delete_topics = (\<lambda>names t a. (Inr (map (\<lambda>n. (n, Inr ())) names), filter (\<lambda>n. n \<notin> set names) a))\<rparr>"

definition demo_cluster :: "string list \<Rightarrow> string \<rightharpoonup> topic_topology" where
  "demo_cluster a n = (if n \<in> set a then Some one_by_one else None)"

lemma map_of_const: "map_of (map (\<lambda>n. (n, v)) a) n = (if n \<in> set a then Some v else None)"
  by (induction a) auto

lemma demo_admin_contract: "admin_contract demo_admin demo_cluster"
proof -
  have "existing_topic_topology n one_metadata = Inr one_by_one" for n
    by (simp add: existing_topic_topology_def one_metadata_def one_by_one_def Let_def)
  then show ?thesis
    by (auto simp: admin_contract_def demo_admin_def demo_cluster_def map_le_def map_of_const split: if_splits)
qed


end
