(* ===== verification/Ingestion_Store.thy ===== *)
theory Ingestion_Store
  imports Analysis_Results Crawl_Lifecycle
begin

text \<open>
  The tables of the ingestion worker (\<open>ingestion/models.py\<close>), the operations of its repository on
  them (\<open>ingestion/repository.py\<close>) and the event handlers (\<open>ingestion/handlers.py\<close>).

  A table is the list of its rows. Unique constraints, foreign keys and check constraints that
  PostgreSQL enforces are guards of the inserting operation, which raise \<open>IntegrityError\<close>; a value
  the column type cannot hold (an integer beyond \<open>BIGINT\<close>, a text with a NUL character) raises
  \<open>DataError\<close>. Identity columns count up; the gaps PostgreSQL leaves in them are not modelled.
  The crawl tasks are the rows of the crawl lifecycle; applications and captures are owned by other
  components and only read here.
\<close>

section \<open>Tables\<close>

record ingested_event =
  ie_event_id :: uuid
  ie_event_type :: string
  ie_schema_version :: int
  ie_topic :: string
  ie_partition :: int
  ie_offset :: int
  ie_processed_at :: seconds

record app_snapshot =
  sn_id :: nat
  sn_stats :: app_stats_collected
  sn_created_at :: seconds

record review =
  rv_id :: nat
  rv_application_id :: uuid
  rv_external_review_id :: string
  rv_source_at :: seconds
  rv_author_name :: string
  rv_thumbs_up_count :: int
  rv_score :: int
  rv_content :: string
  rv_source_adapter :: string
  rv_first_observed_at :: seconds
  rv_last_observed_at :: seconds
  rv_created_at :: seconds
  rv_updated_at :: seconds

record review_observation =
  ob_crawl_task_id :: uuid
  ob_review_id :: nat
  ob_observed_at :: seconds
  ob_position :: int
  ob_score :: int
  ob_thumbs_up_count :: int
  ob_source_adapter :: string
  ob_content :: "string option"
  ob_source_at :: "seconds option"
  ob_sentiment_language :: "string option"
  ob_sentiment_label :: "string option"
  ob_sentiment_status :: string
  ob_sentiment_processed_at :: "seconds option"
  ob_sentiment_attempt_count :: int

record network_capture =
  nc_application_id :: uuid
  nc_scenario :: string
  nc_original_filename :: string
  nc_capture_format :: string
  nc_content_type :: string
  nc_object_key :: string
  nc_expected_sha256 :: string
  nc_verified_sha256 :: "string option"
  nc_capture_size_bytes :: int
  nc_transfer_file_size_bytes :: int
  nc_status :: string
  nc_ready_event_id :: uuid
  nc_analysis_id :: uuid
  nc_analysis_event_id :: uuid
  nc_analysis_attempt_count :: int
  nc_created_at :: seconds
  nc_uploaded_at :: "seconds option"
  nc_analysis_started_at :: "seconds option"
  nc_analysis_finished_at :: "seconds option"
  nc_object_deleted_at :: "seconds option"
  nc_error_code :: "string option"
  nc_error_message :: "string option"

type_synonym result_row = "(string \<times> metric_value) list"

record ingest_db =
  ig_events :: "ingested_event list"
  ig_snapshots :: "app_snapshot list"
  ig_reviews :: "review list"
  ig_observations :: "review_observation list"
  ig_results :: "result_row list"
  ig_snapshot_seq :: nat
  ig_review_seq :: nat
  ig_tasks :: "(uuid \<times> crawl_task) list"
  ig_applications :: "(uuid \<times> string) list"
  ig_captures :: "(uuid \<times> network_capture) list"

section \<open>Values the columns can hold\<close>

definition data_error :: "string \<Rightarrow> exn" where
  "data_error m = mk_exn ''DataError'' m False"

definition fits_bigint :: "int \<Rightarrow> bool" where
  "fits_bigint n \<longleftrightarrow> - (2 ^ 63) \<le> n \<and> n < 2 ^ 63"

definition fits_text :: "string \<Rightarrow> bool" where
  "fits_text s \<longleftrightarrow> CHR 0x00 \<notin> set s"

definition storable_stats :: "app_stats_collected \<Rightarrow> bool" where
  "storable_stats p \<longleftrightarrow> fits_text (as_package_name p) \<and> fits_bigint (as_min_installs p) \<and> fits_bigint (as_ratings_count p)
     \<and> fits_bigint (as_reviews_count p) \<and> (case as_version p of None \<Rightarrow> True | Some v \<Rightarrow> fits_text v) \<and> fits_text (as_source_adapter p)"

definition storable_review :: "review_observed \<Rightarrow> bool" where
  "storable_review p \<longleftrightarrow> fits_text (ro_external_review_id p) \<and> fits_text (ro_author_name p) \<and> fits_bigint (ro_thumbs_up_count p)
     \<and> fits_text (ro_content p) \<and> fits_text (ro_source_adapter p)"

fun storable_value :: "metric_value \<Rightarrow> bool" where
  "storable_value (MInt n) = fits_bigint n"
| "storable_value (MText s) = fits_text s"
| "storable_value (MTexts ss) = list_all fits_text ss"
| "storable_value v = True"

section \<open>Repository\<close>

definition consistency_error :: "string \<Rightarrow> exn" where
  "consistency_error m = mk_exn ''IngestionConsistencyError'' m False"

definition claim_event ::
  "seconds \<Rightarrow> uuid \<Rightarrow> string \<Rightarrow> int \<Rightarrow> string \<Rightarrow> int \<Rightarrow> int \<Rightarrow> ingest_db \<Rightarrow> exn + (bool \<times> ingest_db)" where
  "claim_event now event_id event_type schema_version topic part offset db =
     (if schema_version < 1 \<or> part < 0 \<or> offset < 0 then Inl (integrity_error ''ingested_events'')
      else if list_ex (\<lambda>r. ie_event_id r = event_id
                \<or> ie_topic r = topic \<and> ie_partition r = part \<and> ie_offset r = offset) (ig_events db)
        then Inr (False, db)
      else Inr (True, db\<lparr>ig_events := ig_events db @ [\<lparr>ie_event_id = event_id, ie_event_type = event_type,
             ie_schema_version = schema_version, ie_topic = topic, ie_partition = part, ie_offset = offset,
             ie_processed_at = now\<rparr>]\<rparr>))"

definition validate_crawl_task :: "uuid \<Rightarrow> uuid \<Rightarrow> crawl_task_type \<Rightarrow> ingest_db \<Rightarrow> exn + (unit \<times> ingest_db)" where
  "validate_crawl_task crawl_task_id application_id expected_task_type db =
     (if list_ex (\<lambda>(i, t). i = crawl_task_id \<and> task_application_id t = application_id \<and> task_task_type t = expected_task_type) (ig_tasks db)
      then Inr ((), db)
      else Inl (consistency_error ''crawl task is missing or does not match the event application and task type''))"

definition insert_app_snapshot :: "seconds \<Rightarrow> app_stats_collected \<Rightarrow> ingest_db \<Rightarrow> exn + (unit \<times> ingest_db)" where
  "insert_app_snapshot now payload db =
     (if \<not> storable_stats payload then Inl (data_error ''playstore_app_snapshots'')
      else if as_min_installs payload < 0 \<or> as_score payload < 0 \<or> as_score payload > 5 \<or> as_ratings_count payload < 0
        \<or> as_reviews_count payload < 0 then Inl (integrity_error ''playstore_app_snapshots'')
      else if list_ex (\<lambda>s. as_crawl_task_id (sn_stats s) = as_crawl_task_id payload) (ig_snapshots db) then Inr ((), db)
      else if map_of (ig_applications db) (as_application_id payload) = None then Inl (integrity_error ''application_id'')
      else Inr ((), db\<lparr>ig_snapshots := ig_snapshots db @ [\<lparr>sn_id = ig_snapshot_seq db, sn_stats = payload, sn_created_at = now\<rparr>],
                      ig_snapshot_seq := ig_snapshot_seq db + 1\<rparr>))"

definition new_review :: "seconds \<Rightarrow> nat \<Rightarrow> review_observed \<Rightarrow> review" where
  "new_review now i p = \<lparr>rv_id = i, rv_application_id = ro_application_id p, rv_external_review_id = ro_external_review_id p,
     rv_source_at = ro_source_at p, rv_author_name = ro_author_name p, rv_thumbs_up_count = ro_thumbs_up_count p,
     rv_score = ro_score p, rv_content = ro_content p, rv_source_adapter = ro_source_adapter p,
     rv_first_observed_at = ro_observed_at p, rv_last_observed_at = ro_observed_at p,
     rv_created_at = now, rv_updated_at = now\<rparr>"

text \<open>The \<open>DO UPDATE\<close> branch: the incoming row wins when it is at least as recent.\<close>

definition merge_review :: "seconds \<Rightarrow> review_observed \<Rightarrow> review \<Rightarrow> review" where
  "merge_review now p r = (let current = rv_last_observed_at r \<le> ro_observed_at p in
     r\<lparr>rv_source_at := if current then ro_source_at p else rv_source_at r,
       rv_author_name := if current then ro_author_name p else rv_author_name r,
       rv_thumbs_up_count := if current then ro_thumbs_up_count p else rv_thumbs_up_count r,
       rv_score := if current then ro_score p else rv_score r,
       rv_content := if current then ro_content p else rv_content r,
       rv_source_adapter := if current then ro_source_adapter p else rv_source_adapter r,
       rv_first_observed_at := min (rv_first_observed_at r) (ro_observed_at p),
       rv_last_observed_at := if current then ro_observed_at p else rv_last_observed_at r,
       rv_updated_at := now\<rparr>)"

definition same_review :: "review_observed \<Rightarrow> review \<Rightarrow> bool" where
  "same_review p r \<longleftrightarrow> rv_application_id r = ro_application_id p \<and> rv_external_review_id r = ro_external_review_id p"

definition review_row_ok :: "review \<Rightarrow> bool" where
  "review_row_ok r \<longleftrightarrow> 0 \<le> rv_thumbs_up_count r \<and> 1 \<le> rv_score r \<and> rv_score r \<le> 5 \<and> rv_first_observed_at r \<le> rv_last_observed_at r"

definition upsert_review :: "seconds \<Rightarrow> review_observed \<Rightarrow> ingest_db \<Rightarrow> exn + (nat \<times> ingest_db)" where
  "upsert_review now payload db =
     (if \<not> storable_review payload then Inl (data_error ''reviews'')
      else if \<not> review_row_ok (new_review now 0 payload) then Inl (integrity_error ''reviews'')
      else case find (same_review payload) (ig_reviews db) of
             Some r \<Rightarrow>
               if review_row_ok (merge_review now payload r)
               then Inr (rv_id r, db\<lparr>ig_reviews := map (\<lambda>x. if same_review payload x then merge_review now payload x else x) (ig_reviews db)\<rparr>)
               else Inl (integrity_error ''reviews'')
           | None \<Rightarrow>
               if map_of (ig_applications db) (ro_application_id payload) = None then Inl (integrity_error ''application_id'')
               else let i = ig_review_seq db
                    in Inr (i, db\<lparr>ig_reviews := ig_reviews db @ [new_review now i payload], ig_review_seq := i + 1\<rparr>))"

definition insert_review_observation :: "review_observed \<Rightarrow> nat \<Rightarrow> ingest_db \<Rightarrow> exn + (unit \<times> ingest_db)" where
  "insert_review_observation payload review_id db =
     (if \<not> storable_review payload then Inl (data_error ''review_observations'')
      else if \<not> (1 \<le> ro_position payload \<and> ro_position payload \<le> 1000) \<or> \<not> (1 \<le> ro_score payload \<and> ro_score payload \<le> 5)
        \<or> ro_thumbs_up_count payload < 0 then Inl (integrity_error ''review_observations'')
      else if list_ex (\<lambda>o1. ob_crawl_task_id o1 = ro_crawl_task_id payload \<and> ob_review_id o1 = review_id) (ig_observations db)
        then Inr ((), db)
      else Inr ((), db\<lparr>ig_observations := ig_observations db @ [\<lparr>ob_crawl_task_id = ro_crawl_task_id payload, ob_review_id = review_id,
             ob_observed_at = ro_observed_at payload, ob_position = ro_position payload, ob_score = ro_score payload,
             ob_thumbs_up_count = ro_thumbs_up_count payload, ob_source_adapter = ro_source_adapter payload,
             ob_content = Some (ro_content payload), ob_source_at = Some (ro_source_at payload),
             ob_sentiment_language = None, ob_sentiment_label = None, ob_sentiment_status = ''pending'',
             ob_sentiment_processed_at = None, ob_sentiment_attempt_count = 0\<rparr>]\<rparr>))"

definition validate_network_analysis :: "network_analysis_collected \<Rightarrow> ingest_db \<Rightarrow> exn + (unit \<times> ingest_db)" where
  "validate_network_analysis payload db =
     (case map_of (ig_captures db) (na_capture_id payload) of
        None \<Rightarrow> Inl (consistency_error ''network capture does not exist'')
      | Some capture \<Rightarrow>
          (case map_of (ig_applications db) (nc_application_id capture) of
             None \<Rightarrow> Inl (consistency_error ''network capture does not exist'')
           | Some package_name \<Rightarrow>
               if nc_analysis_id capture \<noteq> na_analysis_id payload \<or> nc_application_id capture \<noteq> na_application_id payload
                 \<or> package_name \<noteq> na_package_name payload \<or> nc_scenario capture \<noteq> na_scenario payload
                 \<or> nc_verified_sha256 capture \<noteq> Some (na_verified_sha256 payload)
               then Inl (consistency_error ''network analysis does not match capture and application state'')
               else Inr ((), db)))"

definition insert_network_analysis :: "network_analysis_collected \<Rightarrow> ingest_db \<Rightarrow> exn + (unit \<times> ingest_db)" where
  "insert_network_analysis payload db =
     (let row = analysis_values payload in
      if \<not> list_all (storable_value \<circ> snd) row then Inl (data_error ''network_analysis_results'')
      else if \<not> result_checks row then Inl (integrity_error ''network_analysis_results'')
      else if list_ex (\<lambda>r. map_of r ''analysis_id'' = map_of row ''analysis_id'' \<or> map_of r ''capture_id'' = map_of row ''capture_id'') (ig_results db)
        then Inl (integrity_error ''uq_network_analysis_results_capture_id'')
      else if map_of (ig_captures db) (na_capture_id payload) = None \<or> map_of (ig_applications db) (na_application_id payload) = None
        then Inl (integrity_error ''foreign key'')
      else Inr ((), db\<lparr>ig_results := ig_results db @ [row]\<rparr>))"

section \<open>Handlers\<close>

datatype supported_event = AppStatsEvent "app_stats_collected envelope" | ReviewObservedEvent "review_observed envelope"
  | NetworkAnalysisEvent "network_analysis_collected envelope"

definition event_id_of :: "supported_event \<Rightarrow> uuid" where
  "event_id_of ev = (case ev of AppStatsEvent e \<Rightarrow> ev_event_id e | ReviewObservedEvent e \<Rightarrow> ev_event_id e | NetworkAnalysisEvent e \<Rightarrow> ev_event_id e)"

definition event_type_of :: "supported_event \<Rightarrow> string" where
  "event_type_of ev = (case ev of AppStatsEvent e \<Rightarrow> ev_event_type e | ReviewObservedEvent e \<Rightarrow> ev_event_type e | NetworkAnalysisEvent e \<Rightarrow> ev_event_type e)"

definition schema_version_of :: "supported_event \<Rightarrow> int" where
  "schema_version_of ev = (case ev of AppStatsEvent e \<Rightarrow> ev_schema_version e | ReviewObservedEvent e \<Rightarrow> ev_schema_version e
     | NetworkAnalysisEvent e \<Rightarrow> ev_schema_version e)"

definition application_id_of :: "supported_event \<Rightarrow> uuid" where
  "application_id_of ev = (case ev of AppStatsEvent e \<Rightarrow> as_application_id (ev_payload e)
     | ReviewObservedEvent e \<Rightarrow> ro_application_id (ev_payload e) | NetworkAnalysisEvent e \<Rightarrow> na_application_id (ev_payload e))"

definition db_bind :: "exn + ('a \<times> ingest_db) \<Rightarrow> ('a \<Rightarrow> ingest_db \<Rightarrow> exn + ('b \<times> ingest_db)) \<Rightarrow> exn + ('b \<times> ingest_db)" where
  "db_bind m k = (case m of Inl e \<Rightarrow> Inl e | Inr (a, db) \<Rightarrow> k a db)"

definition handle_app_stats :: "seconds \<Rightarrow> app_stats_collected \<Rightarrow> ingest_db \<Rightarrow> exn + (unit \<times> ingest_db)" where
  "handle_app_stats now payload db =
     db_bind (validate_crawl_task (as_crawl_task_id payload) (as_application_id payload) APP_DETAILS db)
       (\<lambda>_. insert_app_snapshot now payload)"

definition handle_review_observed :: "seconds \<Rightarrow> review_observed \<Rightarrow> ingest_db \<Rightarrow> exn + (unit \<times> ingest_db)" where
  "handle_review_observed now payload db =
     db_bind (validate_crawl_task (ro_crawl_task_id payload) (ro_application_id payload) REVIEWS db)
       (\<lambda>_ db1. db_bind (upsert_review now payload db1) (insert_review_observation payload))"

definition handle_network_analysis :: "network_analysis_collected \<Rightarrow> ingest_db \<Rightarrow> exn + (unit \<times> ingest_db)" where
  "handle_network_analysis payload db = db_bind (validate_network_analysis payload db) (\<lambda>_. insert_network_analysis payload)"

text \<open>Routing is by the name in the envelope; a payload of another class would lack the attributes the handler reads.\<close>

definition handle_event :: "seconds \<Rightarrow> supported_event \<Rightarrow> ingest_db \<Rightarrow> exn + (unit \<times> ingest_db)" where
  "handle_event now ev db =
     (let wrong_payload = Inl (mk_exn ''AttributeError'' (event_type_of ev) False) in
      if event_type_of ev = APP_STATS_EVENT_TYPE
      then (case ev of AppStatsEvent e \<Rightarrow> handle_app_stats now (ev_payload e) db | _ \<Rightarrow> wrong_payload)
      else if event_type_of ev = REVIEW_OBSERVED_EVENT_TYPE
      then (case ev of ReviewObservedEvent e \<Rightarrow> handle_review_observed now (ev_payload e) db | _ \<Rightarrow> wrong_payload)
      else if event_type_of ev = NETWORK_ANALYSIS_COLLECTED_EVENT_TYPE
      then (case ev of NetworkAnalysisEvent e \<Rightarrow> handle_network_analysis (ev_payload e) db | _ \<Rightarrow> wrong_payload)
      else Inl (mk_exn ''AssertionError'' (''validated event type is not routed: '' @ event_type_of ev) False))"

text \<open>The body of one worker transaction: claim the event and, when it is new, handle it.\<close>

definition ingest_event :: "seconds \<Rightarrow> supported_event \<Rightarrow> string \<Rightarrow> int \<Rightarrow> int \<Rightarrow> ingest_db \<Rightarrow> exn + (bool \<times> ingest_db)" where
  "ingest_event now ev topic part offset db =
     db_bind (claim_event now (event_id_of ev) (event_type_of ev) (schema_version_of ev) topic part offset db)
       (\<lambda>claimed db1. if claimed then db_bind (handle_event now ev db1) (\<lambda>_ db2. Inr (True, db2)) else Inr (False, db1))"

section \<open>Rows only grow\<close>

definition same_events :: "ingest_db \<Rightarrow> ingest_db \<Rightarrow> bool" where
  "same_events db db' \<longleftrightarrow> ig_events db' = ig_events db \<and> ig_tasks db' = ig_tasks db \<and> ig_applications db' = ig_applications db
     \<and> ig_captures db' = ig_captures db"

lemma db_bind_Inr: "db_bind m k = Inr r \<longleftrightarrow> (\<exists>a db. m = Inr (a, db) \<and> k a db = Inr r)"
  by (auto simp: db_bind_def split: sum.splits)

lemma db_bind_same:
  assumes "db_bind m k = Inr (b, db2)" and "\<And>a db1. m = Inr (a, db1) \<Longrightarrow> same_events db db1"
    and "\<And>a db1. k a db1 = Inr (b, db2) \<Longrightarrow> same_events db1 db2"
  shows "same_events db db2"
  using assms by (fastforce simp: db_bind_Inr same_events_def)

lemma repository_same_events:
  "validate_crawl_task i a ty db = Inr (u, db') \<Longrightarrow> same_events db db'"
  "insert_app_snapshot now p db = Inr (u, db') \<Longrightarrow> same_events db db'"
  "upsert_review now q db = Inr (n, db') \<Longrightarrow> same_events db db'"
  "insert_review_observation q m db = Inr (u, db') \<Longrightarrow> same_events db db'"
  "validate_network_analysis x db = Inr (u, db') \<Longrightarrow> same_events db db'"
  "insert_network_analysis x db = Inr (u, db') \<Longrightarrow> same_events db db'"
  by (auto simp: validate_crawl_task_def insert_app_snapshot_def upsert_review_def insert_review_observation_def
      validate_network_analysis_def insert_network_analysis_def same_events_def Let_def split: if_splits option.splits)

lemma handle_event_same: "handle_event now ev db = Inr (u, db') \<Longrightarrow> same_events db db'"
  by (auto simp: handle_event_def handle_app_stats_def handle_review_observed_def handle_network_analysis_def Let_def
      intro: repository_same_events elim!: db_bind_same split: if_splits supported_event.splits)

section \<open>The reviews table summarises the observations\<close>

definition payload_key :: "review_observed \<Rightarrow> uuid \<times> string" where
  "payload_key p = (ro_application_id p, ro_external_review_id p)"

definition review_key :: "review \<Rightarrow> uuid \<times> string" where
  "review_key r = (rv_application_id r, rv_external_review_id r)"

text \<open>
  The abstract view of a review: the time it was first and last seen, and its content at the last
  time, by the observation that arrived last among those of that time.
\<close>

definition first_seen :: "review_observed list \<Rightarrow> seconds" where
  "first_seen qs = Min (ro_observed_at ` set qs)"

definition last_seen :: "review_observed list \<Rightarrow> seconds" where
  "last_seen qs = Max (ro_observed_at ` set qs)"

definition latest :: "review_observed list \<Rightarrow> review_observed" where
  "latest qs = last (filter (\<lambda>p. ro_observed_at p = last_seen qs) qs)"

definition summarises :: "review_observed list \<Rightarrow> review \<Rightarrow> bool" where
  "summarises qs r \<longleftrightarrow> qs \<noteq> [] \<and> rv_first_observed_at r = first_seen qs \<and> rv_last_observed_at r = last_seen qs
     \<and> rv_source_at r = ro_source_at (latest qs) \<and> rv_author_name r = ro_author_name (latest qs)
     \<and> rv_thumbs_up_count r = ro_thumbs_up_count (latest qs) \<and> rv_score r = ro_score (latest qs)
     \<and> rv_content r = ro_content (latest qs) \<and> rv_source_adapter r = ro_source_adapter (latest qs)"

definition history :: "review_observed list \<Rightarrow> uuid \<times> string \<Rightarrow> review_observed list" where
  "history ps k = filter (\<lambda>p. payload_key p = k) ps"

definition reflects :: "review_observed list \<Rightarrow> review list \<Rightarrow> bool" where
  "reflects ps rs \<longleftrightarrow> distinct (map review_key rs) \<and> review_key ` set rs = payload_key ` set ps
     \<and> (\<forall>r \<in> set rs. summarises (history ps (review_key r)) r)"

lemma seen_snoc:
  assumes "qs \<noteq> []"
  shows "last_seen (qs @ [p]) = max (last_seen qs) (ro_observed_at p)" "first_seen (qs @ [p]) = min (first_seen qs) (ro_observed_at p)"
  using assms by (simp_all add: last_seen_def first_seen_def max.commute min.commute)

lemma latest_snoc:
  assumes "qs \<noteq> []"
  shows "latest (qs @ [p]) = (if last_seen qs \<le> ro_observed_at p then p else latest qs)"
  using assms by (simp add: latest_def seen_snoc max_def)

lemma summarises_new: "summarises [p] (new_review now i p)"
  by (simp add: summarises_def latest_def new_review_def first_seen_def last_seen_def)

lemma summarises_merge:
  assumes "summarises qs r"
  shows "summarises (qs @ [p]) (merge_review now p r)"
proof -
  have ne: "qs \<noteq> []" using assms by (simp add: summarises_def)
  show ?thesis using assms latest_snoc [OF ne, of p] seen_snoc [OF ne, of p]
    by (auto simp: summarises_def merge_review_def Let_def max_def)
qed

lemma merge_review_key [simp]: "review_key (merge_review now p r) = review_key r" "rv_id (merge_review now p r) = rv_id r"
  by (simp_all add: review_key_def merge_review_def Let_def)

lemma new_review_key [simp]: "review_key (new_review now i p) = payload_key p"
  by (simp add: review_key_def new_review_def payload_key_def)

lemma same_review_key: "same_review p r \<longleftrightarrow> review_key r = payload_key p"
  by (simp add: same_review_def review_key_def payload_key_def)

lemma history_snoc: "history (ps @ [p]) k = history ps k @ (if payload_key p = k then [p] else [])"
  by (simp add: history_def)

lemma history_Nil: "history ps k = [] \<longleftrightarrow> k \<notin> payload_key ` set ps"
  by (auto simp: history_def filter_empty_conv)

lemma upsert_reflects:
  assumes "upsert_review now p db = Inr (i, db')" and "reflects ps (ig_reviews db)"
  shows "reflects (ps @ [p]) (ig_reviews db')"
proof (cases "find (same_review p) (ig_reviews db)")
  case None
  then have db': "ig_reviews db' = ig_reviews db @ [new_review now i p]"
    using assms(1) by (auto simp: upsert_review_def Let_def split: if_splits)
  have fresh: "payload_key p \<notin> review_key ` set (ig_reviews db)"
    using None by (auto simp: find_None_iff same_review_key)
  then have "payload_key p \<notin> payload_key ` set ps" using assms(2) by (simp add: reflects_def)
  then have "history ps (payload_key p) = []" by (simp add: history_Nil)
  then show ?thesis
    using assms(2) fresh summarises_new by (auto simp: reflects_def db' history_snoc)
next
  case (Some r)
  let ?f = "\<lambda>x. if same_review p x then merge_review now p x else x"
  have db': "ig_reviews db' = map ?f (ig_reviews db)"
    using assms(1) Some by (auto simp: upsert_review_def split: if_splits)
  have r: "r \<in> set (ig_reviews db)" "review_key r = payload_key p" using find_SomeD [OF Some] by (simp_all add: same_review_key)
  have keys: "map review_key (map ?f (ig_reviews db)) = map review_key (ig_reviews db)" by simp
  have "review_key ` set (map ?f (ig_reviews db)) = review_key ` set (ig_reviews db)"
    using arg_cong [OF keys, of set] by (simp only: list.set_map)
  moreover have "payload_key p \<in> review_key ` set (ig_reviews db)" using r(1) by (rule rev_image_eqI) (simp add: r(2))
  ultimately have k: "review_key ` set (map ?f (ig_reviews db)) = payload_key ` set (ps @ [p])"
    using assms(2) by (simp add: reflects_def insert_absorb)
  have "summarises (history (ps @ [p]) (review_key y)) y" if y: "y \<in> set (map ?f (ig_reviews db))" for y
  proof -
    obtain x where x: "x \<in> set (ig_reviews db)" "y = ?f x" using y by auto
    then have s: "summarises (history ps (review_key x)) x" using assms(2) by (simp add: reflects_def)
    show ?thesis
    proof (cases "same_review p x")
      case True
      then show ?thesis using x s summarises_merge [OF s, of p now] by (simp add: history_snoc same_review_key)
    next
      case False
      then show ?thesis using x s by (simp add: history_snoc same_review_key)
    qed
  qed
  moreover have "distinct (map review_key (map ?f (ig_reviews db)))" unfolding keys using assms(2) by (simp add: reflects_def)
  ultimately show ?thesis using k unfolding reflects_def db' by blast
qed

section \<open>Deliveries\<close>

text \<open>One delivery of a message to the worker; a transaction that raises leaves the tables alone.\<close>

record delivered =
  de_now :: seconds
  de_event :: supported_event
  de_topic :: string
  de_partition :: int
  de_offset :: int

definition outcome_of :: "delivered \<Rightarrow> ingest_db \<Rightarrow> exn + (bool \<times> ingest_db)" where
  "outcome_of d db = ingest_event (de_now d) (de_event d) (de_topic d) (de_partition d) (de_offset d) db"

definition deliver :: "delivered \<Rightarrow> ingest_db \<Rightarrow> ingest_db" where
  "deliver d db = (case outcome_of d db of Inl _ \<Rightarrow> db | Inr (_, db') \<Rightarrow> db')"

definition accepted :: "delivered \<Rightarrow> ingest_db \<Rightarrow> bool" where
  "accepted d db = (case outcome_of d db of Inr (True, _) \<Rightarrow> True | _ \<Rightarrow> False)"

text \<open>The review payloads a sequence of deliveries got accepted, in order.\<close>

definition review_of :: "delivered \<Rightarrow> review_observed list" where
  "review_of d = (case de_event d of ReviewObservedEvent e \<Rightarrow> [ev_payload e] | _ \<Rightarrow> [])"

fun accepted_reviews :: "delivered list \<Rightarrow> ingest_db \<Rightarrow> review_observed list" where
  "accepted_reviews [] db = []"
| "accepted_reviews (d # ds) db = (if accepted d db then review_of d else []) @ accepted_reviews ds (deliver d db)"

lemma same_reviews:
  "validate_crawl_task i a ty db = Inr (u, db') \<Longrightarrow> ig_reviews db' = ig_reviews db"
  "insert_app_snapshot now p db = Inr (u, db') \<Longrightarrow> ig_reviews db' = ig_reviews db"
  "insert_review_observation q m db = Inr (u, db') \<Longrightarrow> ig_reviews db' = ig_reviews db"
  "validate_network_analysis x db = Inr (u, db') \<Longrightarrow> ig_reviews db' = ig_reviews db"
  "insert_network_analysis x db = Inr (u, db') \<Longrightarrow> ig_reviews db' = ig_reviews db"
  "claim_event now e t v topic part offset db = Inr (c, db') \<Longrightarrow> ig_reviews db' = ig_reviews db"
  by (auto simp: validate_crawl_task_def insert_app_snapshot_def insert_review_observation_def claim_event_def
      validate_network_analysis_def insert_network_analysis_def Let_def split: if_splits option.splits)

lemma handle_event_reflects:
  assumes "handle_event now ev db = Inr (u, db')" and "reflects ps (ig_reviews db)"
  shows "reflects (ps @ (case ev of ReviewObservedEvent e \<Rightarrow> [ev_payload e] | _ \<Rightarrow> [])) (ig_reviews db')"
proof (cases ev)
  case (ReviewObservedEvent e)
  then obtain n db1 where "upsert_review now (ev_payload e) db = Inr (n, db1)" "ig_reviews db' = ig_reviews db1"
    using assms(1) by (auto simp: handle_event_def handle_review_observed_def Let_def db_bind_Inr validate_crawl_task_def
        dest: same_reviews(3) split: if_splits)
  then show ?thesis using upsert_reflects [OF _ assms(2)] ReviewObservedEvent by simp
next
  case (AppStatsEvent e)
  then have "ig_reviews db' = ig_reviews db"
    using assms(1) by (auto simp: handle_event_def handle_app_stats_def Let_def db_bind_Inr dest!: same_reviews split: if_splits)
  then show ?thesis using assms(2) AppStatsEvent by simp
next
  case (NetworkAnalysisEvent e)
  then have "ig_reviews db' = ig_reviews db"
    using assms(1) by (auto simp: handle_event_def handle_network_analysis_def Let_def db_bind_Inr dest!: same_reviews split: if_splits)
  then show ?thesis using assms(2) NetworkAnalysisEvent by simp
qed

lemma deliver_reflects:
  assumes "reflects ps (ig_reviews db)"
  shows "reflects (ps @ (if accepted d db then review_of d else [])) (ig_reviews (deliver d db))"
proof (cases "outcome_of d db")
  case (Inl e)
  then show ?thesis using assms by (simp add: accepted_def deliver_def)
next
  case (Inr r)
  obtain c db2 where r: "r = (c, db2)" by fastforce
  from Inr [unfolded r outcome_of_def ingest_event_def db_bind_Inr] obtain cl db1 where
    claim: "claim_event (de_now d) (event_id_of (de_event d)) (event_type_of (de_event d)) (schema_version_of (de_event d))
        (de_topic d) (de_partition d) (de_offset d) db = Inr (cl, db1)"
    and rest: "(if cl then db_bind (handle_event (de_now d) (de_event d) db1) (\<lambda>_ db2. Inr (True, db2)) else Inr (False, db1)) = Inr (c, db2)"
    by auto
  have "reflects ps (ig_reviews db1)" using assms same_reviews(6) [OF claim] by simp
  then show ?thesis
    using rest Inr r handle_event_reflects [of "de_now d" "de_event d" db1 _ db2 ps]
    by (cases cl) (auto simp: accepted_def deliver_def review_of_def db_bind_Inr split: supported_event.splits)
qed

lemma deliveries_reflect:
  "reflects ps (ig_reviews db) \<Longrightarrow> reflects (ps @ accepted_reviews ds db) (ig_reviews (fold deliver ds db))"
proof (induction ds arbitrary: ps db)
  case (Cons d ds)
  from Cons.IH [OF deliver_reflects [OF Cons.prems]] show ?case by simp
qed simp

lemma claim_event_cases:
  assumes "claim_event now i ty v topic part offset db = Inr (c, db')"
  shows "if c then i \<notin> ie_event_id ` set (ig_events db) \<and> (\<exists>row. ie_event_id row = i \<and> ie_topic row = topic
            \<and> ie_partition row = part \<and> ie_offset row = offset \<and> ig_events db' = ig_events db @ [row])
         else db' = db \<and> (\<exists>row \<in> set (ig_events db). ie_event_id row = i
            \<or> ie_topic row = topic \<and> ie_partition row = part \<and> ie_offset row = offset)"
  using assms by (auto simp: claim_event_def list_ex_iff split: if_splits)

lemma ingest_event_events:
  assumes "ingest_event now ev topic part offset db = Inr (c, db')"
  shows "if c then event_id_of ev \<notin> ie_event_id ` set (ig_events db) \<and> (\<exists>row. ie_event_id row = event_id_of ev \<and> ie_topic row = topic
            \<and> ie_partition row = part \<and> ie_offset row = offset \<and> ig_events db' = ig_events db @ [row])
         else db' = db \<and> (\<exists>row \<in> set (ig_events db). ie_event_id row = event_id_of ev
            \<or> ie_topic row = topic \<and> ie_partition row = part \<and> ie_offset row = offset)"
proof -
  obtain cl db1 where claim: "claim_event now (event_id_of ev) (event_type_of ev) (schema_version_of ev) topic part offset db = Inr (cl, db1)"
    and rest: "(if cl then db_bind (handle_event now ev db1) (\<lambda>_ db2. Inr (True, db2)) else Inr (False, db1)) = Inr (c, db')"
    using assms unfolding ingest_event_def db_bind_Inr by auto
  show ?thesis
  proof (cases cl)
    case True
    then have "c" "ig_events db' = ig_events db1" using rest by (auto simp: db_bind_Inr dest!: handle_event_same simp: same_events_def)
    then show ?thesis using claim_event_cases [OF claim] True by simp
  next
    case False
    then show ?thesis using rest claim_event_cases [OF claim] by simp
  qed
qed

text \<open>An event that is in the table of ingested events is never accepted again.\<close>

lemma known_event_ignored:
  assumes "event_id_of (de_event d) \<in> ie_event_id ` set (ig_events db)"
  shows "deliver d db = db \<and> \<not> accepted d db"
proof (cases "outcome_of d db")
  case (Inr r)
  obtain c db' where r: "r = (c, db')" by fastforce
  from ingest_event_events [OF Inr [unfolded r outcome_of_def]] assms have "\<not> c" "db' = db" by (auto split: if_splits)
  then show ?thesis using Inr r by (simp add: deliver_def accepted_def)
qed (simp add: deliver_def accepted_def)

lemma deliver_keeps_events: "set (ig_events db) \<subseteq> set (ig_events (deliver d db))"
proof (cases "outcome_of d db")
  case (Inr r)
  obtain c db' where r: "r = (c, db')" by fastforce
  from ingest_event_events [OF Inr [unfolded r outcome_of_def]] show ?thesis using Inr r by (auto simp: deliver_def split: if_splits)
qed (simp add: deliver_def)

lemma deliveries_keep_events: "set (ig_events db) \<subseteq> set (ig_events (fold deliver ds db))"
proof (induction ds arbitrary: db)
  case (Cons d ds)
  show ?case using deliver_keeps_events [of db d] Cons.IH [of "deliver d db"] by simp
qed simp

lemma accepted_recorded: "accepted d db \<Longrightarrow> event_id_of (de_event d) \<in> ie_event_id ` set (ig_events (deliver d db))"
  using ingest_event_events [of "de_now d" "de_event d" "de_topic d" "de_partition d" "de_offset d" db True]
  by (fastforce simp: accepted_def deliver_def outcome_of_def split: sum.splits prod.splits bool.splits)

section \<open>Properties\<close>

text \<open>
  C3: The reviews table refines the stream of observations: whatever events are delivered, in
  whatever order, with duplicates and failed transactions, there is one row per application and
  external review id among the accepted observations, its first and last observation times are the
  minimum and maximum over them, and its content is that of the most recent one.
\<close>

theorem reviews_summarise_observations:
  assumes "ig_reviews db = []" and "ps = accepted_reviews ds db" and "rs = ig_reviews (fold deliver ds db)"
  shows "distinct (map review_key rs) \<and> review_key ` set rs = payload_key ` set ps
     \<and> (\<forall>r \<in> set rs. summarises (filter (\<lambda>p. payload_key p = review_key r) ps) r)"
proof -
  have "reflects [] (ig_reviews db)" using assms(1) by (simp add: reflects_def)
  from deliveries_reflect [OF this, of ds] show ?thesis using assms(2,3) by (simp add: reflects_def history_def)
qed

definition same_content :: "review \<Rightarrow> review \<Rightarrow> bool" where
  "same_content r r' \<longleftrightarrow> review_key r = review_key r' \<and> rv_source_at r = rv_source_at r' \<and> rv_author_name r = rv_author_name r'
     \<and> rv_thumbs_up_count r = rv_thumbs_up_count r' \<and> rv_score r = rv_score r' \<and> rv_content r = rv_content r'
     \<and> rv_source_adapter r = rv_source_adapter r' \<and> rv_first_observed_at r = rv_first_observed_at r'
     \<and> rv_last_observed_at r = rv_last_observed_at r'"

lemma latest_in:
  assumes "qs \<noteq> []"
  shows "latest qs \<in> set qs \<and> ro_observed_at (latest qs) = last_seen qs"
proof -
  have "last_seen qs \<in> ro_observed_at ` set qs" unfolding last_seen_def using assms by (intro Max_in) auto
  then have "filter (\<lambda>p. ro_observed_at p = last_seen qs) qs \<noteq> []" by (auto simp: filter_empty_conv)
  from last_in_set [OF this] show ?thesis by (simp add: latest_def)
qed

lemma summarises_same_set:
  assumes "summarises qs r" and "summarises qs' r'" and "set qs = set qs'" and "review_key r = review_key r'"
    and "\<And>p q. p \<in> set qs \<Longrightarrow> q \<in> set qs \<Longrightarrow> ro_observed_at p = ro_observed_at q \<Longrightarrow> p = q"
  shows "same_content r r'"
proof -
  have "qs \<noteq> []" "qs' \<noteq> []" using assms(1,2) by (simp_all add: summarises_def)
  then have "latest qs = latest qs'"
    using latest_in [of qs] latest_in [of qs'] assms(3) by (intro assms(5)) (auto simp: last_seen_def)
  then show ?thesis using assms(1-4) by (simp add: summarises_def same_content_def first_seen_def last_seen_def)
qed


text \<open>
  C2: Ingestion is exactly once: after an event was accepted, every further delivery of an event
  with its identifier, whatever came in between and whatever its coordinates, changes no table.
\<close>

theorem redelivery_changes_nothing:
  assumes "accepted d db" and "event_id_of (de_event d') = event_id_of (de_event d)"
  shows "deliver d' (fold deliver ds (deliver d db)) = fold deliver ds (deliver d db)
     \<and> \<not> accepted d' (fold deliver ds (deliver d db))"
  using accepted_recorded [OF assms(1)] deliveries_keep_events [of "deliver d db" ds] assms(2)
  by (intro known_event_ignored) auto

text \<open>One crawl with a reviews task, and two observations of a review, for the witnesses.\<close>

definition demo_db :: ingest_db where
  "demo_db = \<lparr>ig_events = [], ig_snapshots = [], ig_reviews = [], ig_observations = [], ig_results = [],
     ig_snapshot_seq = 1, ig_review_seq = 1, ig_tasks = [(2, new_task 0 one_app (''fa'', ''ir'') REVIEWS)],
     ig_applications = [(7, ''com.maps'')], ig_captures = []\<rparr>"

definition demo_review :: "rat \<Rightarrow> int \<Rightarrow> review_observed" where
  "demo_review t stars = \<lparr>ro_crawl_task_id = 2, ro_application_id = 7, ro_package_name = ''com.maps'', ro_observed_at = t,
     ro_position = 1, ro_external_review_id = ''r1'', ro_source_at = 0, ro_author_name = ''a'', ro_thumbs_up_count = 0,
     ro_score = stars, ro_content = ''ok'', ro_source_adapter = ''gplay''\<rparr>"

definition demo_delivery :: "nat \<Rightarrow> review_observed \<Rightarrow> delivered" where
  "demo_delivery i p = \<lparr>de_now = 100, de_event = ReviewObservedEvent \<lparr>ev_event_id = i, ev_event_type = REVIEW_OBSERVED_EVENT_TYPE,
     ev_schema_version = 1, ev_occurred_at = ro_observed_at p, ev_payload = p\<rparr>,
     de_topic = PLAYSTORE_REVIEW_OBSERVED_TOPIC, de_partition = 0, de_offset = int i\<rparr>"

definition demo_late :: "delivered list" where
  "demo_late = [demo_delivery 1 (demo_review 20 5), demo_delivery 2 (demo_review 10 1)]"

lemma demo_late_accepted: "accepted_reviews demo_late demo_db = [demo_review 20 5, demo_review 10 1]"
  "accepted_reviews (rev demo_late) demo_db = [demo_review 10 1, demo_review 20 5]"
  "map rv_score (ig_reviews (fold deliver demo_late demo_db)) = [5]"
  by code_simp+

theorem reviews_summarise_observations_witness:
  "\<exists>r \<in> set (ig_reviews (fold deliver demo_late demo_db)). rv_first_observed_at r = 10 \<and> rv_last_observed_at r = 20"
proof -
  have e: "ig_reviews demo_db = []" by (simp add: demo_db_def)
  have k: "payload_key (demo_review 20 5) = (7, ''r1'')" "payload_key (demo_review 10 1) = (7, ''r1'')"
    by (simp_all add: payload_key_def demo_review_def)
  note R = reviews_summarise_observations [OF e refl refl, of demo_late, unfolded demo_late_accepted]
  from R k have "(7, ''r1'') \<in> review_key ` set (ig_reviews (fold deliver demo_late demo_db))" by simp
  then obtain r where r: "r \<in> set (ig_reviews (fold deliver demo_late demo_db))" "review_key r = (7, ''r1'')" by force
  with R k have "summarises [demo_review 20 5, demo_review 10 1] r" by auto
  then have "rv_first_observed_at r = 10 \<and> rv_last_observed_at r = 20"
    by (simp add: summarises_def first_seen_def last_seen_def demo_review_def)
  with r(1) show ?thesis by blast
qed


theorem redelivery_changes_nothing_witness:
  "deliver (demo_delivery 1 (demo_review 20 5)) (fold deliver [] (deliver (demo_delivery 1 (demo_review 20 5)) demo_db))
     = deliver (demo_delivery 1 (demo_review 20 5)) demo_db"
proof -
  have "accepted (demo_delivery 1 (demo_review 20 5)) demo_db" by code_simp
  from redelivery_changes_nothing [OF this refl, of "[]"] show ?thesis by simp
qed

end
