(* ===== verification/Ingestion.thy ===== *)
theory Ingestion
  imports Ingestion_Store Kafka_Messaging "HOL-Library.Sublist"
begin

text \<open>
  The ingestion worker (\<open>ingestion/worker.py\<close>): decoding a Kafka record, claiming and handling its
  event in one transaction, and committing the offset afterwards.

  JSON parsing and pydantic's validation are parameters (a \<open>codec\<close>); \<open>codec_contract\<close> states that
  they read back what the producers write. Kafka is the parameter \<open>lib\<close>; \<open>log_contract\<close> states the
  documented meaning of positions and committed offsets. A database fault may strike before or after
  the commit took effect. Log records are not modelled.
\<close>

section \<open>Decoding\<close>

datatype json = JNull | JBool bool | JInt int | JFloat rat | JStr string | JArr "json list" | JObj "(string \<times> json) list"

record codec =
  jc_loads :: "bytes \<Rightarrow> json option"
  jc_app_stats :: "bytes \<Rightarrow> exn + app_stats_collected envelope"
  jc_review_observed :: "bytes \<Rightarrow> exn + review_observed envelope"
  jc_network_analysis :: "bytes \<Rightarrow> exn + network_analysis_collected envelope"

datatype decode_result = Decoded supported_event | InvalidMessage string "(string \<times> json) list" | DecodeRaised exn

definition ENVELOPE_FIELDS :: "string set" where
  "ENVELOPE_FIELDS = {''event_id'', ''event_type'', ''schema_version'', ''occurred_at'', ''payload''}"

definition safe_metadata :: "json \<Rightarrow> bool" where
  "safe_metadata v = (case v of JStr s \<Rightarrow> length s \<le> 100 | JInt _ \<Rightarrow> True | _ \<Rightarrow> False)"

definition invalid :: "string \<Rightarrow> (string \<times> json) list \<Rightarrow> decode_result" where
  "invalid reason context = InvalidMessage reason (filter (safe_metadata \<circ> snd) context)"

definition expected_topic :: "string \<Rightarrow> string" where
  "expected_topic event_type =
     (if event_type = APP_STATS_EVENT_TYPE then PLAYSTORE_APP_STATS_TOPIC
      else if event_type = REVIEW_OBSERVED_EVENT_TYPE then PLAYSTORE_REVIEW_OBSERVED_TOPIC
      else NETWORK_ANALYSIS_COLLECTED_TOPIC)"

definition typed_event :: "codec \<Rightarrow> string \<Rightarrow> bytes \<Rightarrow> exn + supported_event" where
  "typed_event codec event_type data =
     (if event_type = APP_STATS_EVENT_TYPE then map_sum id AppStatsEvent (deserialize_event (jc_app_stats codec) data)
      else if event_type = REVIEW_OBSERVED_EVENT_TYPE
      then map_sum id ReviewObservedEvent (deserialize_event (jc_review_observed codec) data)
      else map_sum id NetworkAnalysisEvent (deserialize_event (jc_network_analysis codec) data))"

text \<open>The key of a record must be the identifier of the application its event is about.\<close>

definition check_key :: "raw_field option \<Rightarrow> supported_event \<Rightarrow> (string \<times> json) list \<Rightarrow> decode_result" where
  "check_key key ev context =
     (case key of
        None \<Rightarrow> invalid ''missing_key'' context
      | Some (RawText _) \<Rightarrow> invalid ''invalid_utf8_key'' context
      | Some (RawBytes k) \<Rightarrow>
          (case utf8_decode k of
             None \<Rightarrow> invalid ''invalid_utf8_key'' context
           | Some decoded \<Rightarrow>
               if decoded \<noteq> to_text (nat_str (application_id_of ev)) then invalid ''application_key_mismatch'' context
               else Decoded ev))"

definition decode_typed :: "codec \<Rightarrow> kafka_message \<Rightarrow> bytes \<Rightarrow> string \<Rightarrow> json option \<Rightarrow> decode_result" where
  "decode_typed codec m data event_type schema_version =
     (let version = (if event_type = NETWORK_ANALYSIS_COLLECTED_EVENT_TYPE then NETWORK_SCHEMA_VERSION else PLAYSTORE_SCHEMA_VERSION);
          context = [(''event_type'', JStr event_type), (''schema_version'', case schema_version of Some v \<Rightarrow> v | None \<Rightarrow> JNull)]
      in if event_type \<notin> {APP_STATS_EVENT_TYPE, REVIEW_OBSERVED_EVENT_TYPE, NETWORK_ANALYSIS_COLLECTED_EVENT_TYPE}
         then invalid ''unsupported_event_type'' [(''event_type'', JStr event_type)]
         else if schema_version \<noteq> Some (JInt version) then invalid ''unsupported_schema_version'' context
         else if km_topic m \<noteq> expected_topic event_type then invalid ''topic_event_mismatch'' context
         else (case typed_event codec event_type data of
                 Inl e \<Rightarrow> if exn_name e = ''EventDeserializationError'' then invalid ''invalid_envelope_or_payload'' context
                         else DecodeRaised e
               | Inr ev \<Rightarrow> check_key (km_key m) ev context))"

definition decode_message :: "codec \<Rightarrow> kafka_message \<Rightarrow> decode_result" where
  "decode_message codec m =
     (case km_value m of
        None \<Rightarrow> invalid ''missing_value'' []
      | Some (RawText _) \<Rightarrow> invalid ''invalid_json'' []
      | Some (RawBytes data) \<Rightarrow>
          (case jc_loads codec data of
             None \<Rightarrow> invalid ''invalid_json'' []
           | Some (JObj entries) \<Rightarrow>
               if set (map fst entries) \<noteq> ENVELOPE_FIELDS then invalid ''invalid_envelope'' []
               else (case map_of entries ''event_type'' of
                       Some (JStr event_type) \<Rightarrow>
                         if event_type = [] then invalid ''invalid_envelope'' []
                         else decode_typed codec m data event_type (map_of entries ''schema_version'')
                     | _ \<Rightarrow> invalid ''invalid_envelope'' [])
           | Some _ \<Rightarrow> invalid ''invalid_envelope'' []))"

section \<open>The worker\<close>

datatype db_fault = BeforeCommit exn | AfterCommit exn

record ingest_store =
  is_db :: ingest_db
  is_faults :: "db_fault option list"

record 'c ingestion_worker =
  iw_consumer :: "'c kafka_consumer"
  iw_store :: ingest_store
  iw_closed :: bool

text \<open>\<open>with session_factory.begin()\<close>: commit when the block ends, roll back when it raises.\<close>

definition ig_transaction ::
  "(ingest_db \<Rightarrow> exn + ('r \<times> ingest_db)) \<Rightarrow> ingest_store \<Rightarrow> (exn + 'r) \<times> ingest_store" where
  "ig_transaction body st = (let st' = st\<lparr>is_faults := tl (is_faults st)\<rparr>
     in case body (is_db st) of
          Inl e \<Rightarrow> (Inl e, st')
        | Inr (r, db) \<Rightarrow>
            (case is_faults st of
               Some (BeforeCommit e) # _ \<Rightarrow> (Inl e, st')
             | Some (AfterCommit e) # _ \<Rightarrow> (Inl e, st'\<lparr>is_db := db\<rparr>)
             | _ \<Rightarrow> (Inr r, st'\<lparr>is_db := db\<rparr>)))"

definition iw_commit_offset :: "'c consumer_lib \<Rightarrow> kafka_message \<Rightarrow> ('c ingestion_worker, bool) act" where
  "iw_commit_offset lib m w = (case kc_commit lib m (iw_consumer w) of
     (Inl e, c) \<Rightarrow> (Inl e, w\<lparr>iw_consumer := c\<rparr>)
   | (Inr _, c) \<Rightarrow> (Inr True, w\<lparr>iw_consumer := c\<rparr>))"

definition process_next :: "'c consumer_lib \<Rightarrow> codec \<Rightarrow> seconds \<Rightarrow> seconds \<Rightarrow> ('c ingestion_worker, bool) act" where
  "process_next lib codec timeout now w =
     (case kc_poll lib timeout (iw_consumer w) of
        (Inl e, c) \<Rightarrow> (Inl e, w\<lparr>iw_consumer := c\<rparr>)
      | (Inr None, c) \<Rightarrow> (Inr False, w\<lparr>iw_consumer := c\<rparr>)
      | (Inr (Some m), c) \<Rightarrow>
          (let w1 = w\<lparr>iw_consumer := c\<rparr> in
           case decode_message codec m of
             InvalidMessage reason context \<Rightarrow> iw_commit_offset lib m w1
           | DecodeRaised e \<Rightarrow> (Inl e, w1)
           | Decoded ev \<Rightarrow>
               (case ig_transaction (ingest_event now ev (km_topic m) (km_partition m) (km_offset m)) (iw_store w1) of
                  (Inl e, st) \<Rightarrow> (Inl e, w1\<lparr>iw_store := st\<rparr>)
                | (Inr claimed, st) \<Rightarrow> iw_commit_offset lib m (w1\<lparr>iw_store := st\<rparr>))))"

definition iw_close :: "'c consumer_lib \<Rightarrow> 'c ingestion_worker \<Rightarrow> 'c ingestion_worker" where
  "iw_close lib w = (if iw_closed w then w else w\<lparr>iw_consumer := kc_close lib (iw_consumer w), iw_closed := True\<rparr>)"

text \<open>
  \<open>run_forever\<close> over the readings of \<open>_stopping\<close> and of the clock at each turn of the loop; \<open>None\<close>
  when it is still running after them.
\<close>

fun run_forever ::
  "'c consumer_lib \<Rightarrow> codec \<Rightarrow> seconds \<Rightarrow> (bool \<times> seconds) list \<Rightarrow> 'c ingestion_worker \<Rightarrow> (exn + unit) option \<times> 'c ingestion_worker" where
  "run_forever lib codec timeout [] w = (None, w)"
| "run_forever lib codec timeout ((stopping, now) # turns) w =
     (if stopping then (Some (Inr ()), iw_close lib w)
      else case process_next lib codec timeout now w of
             (Inl e, w1) \<Rightarrow> (Some (Inl e), iw_close lib w1)
           | (Inr _, w1) \<Rightarrow> run_forever lib codec timeout turns w1)"

section \<open>What the producers publish is decoded\<close>

definition app_stats_message :: "uuid \<Rightarrow> app_stats_collected \<Rightarrow> supported_event batch_message" where
  "app_stats_message fresh_id payload = \<lparr>bm_topic = PLAYSTORE_APP_STATS_TOPIC, bm_key = to_text (nat_str (as_application_id payload)),
     bm_event = AppStatsEvent (projr (app_stats_envelope fresh_id payload))\<rparr>"

definition review_message :: "uuid \<Rightarrow> review_observed \<Rightarrow> supported_event batch_message" where
  "review_message fresh_id payload = \<lparr>bm_topic = PLAYSTORE_REVIEW_OBSERVED_TOPIC, bm_key = to_text (nat_str (ro_application_id payload)),
     bm_event = ReviewObservedEvent (projr (review_observed_envelope fresh_id payload))\<rparr>"

definition analysis_message :: "network_capture \<Rightarrow> network_analysis_collected \<Rightarrow> supported_event batch_message" where
  "analysis_message capture payload = \<lparr>bm_topic = NETWORK_ANALYSIS_COLLECTED_TOPIC, bm_key = to_text (nat_str (nc_application_id capture)),
     bm_event = NetworkAnalysisEvent (projr (analysis_collected_envelope payload (nc_analysis_event_id capture)))\<rparr>"

text \<open>
  What is assumed of JSON and pydantic: the text of an envelope parses to an object with the fields
  of the envelope, and validates to the envelope it came from.
\<close>

definition reads_back :: "codec \<Rightarrow> supported_event \<Rightarrow> bytes \<Rightarrow> bool" where
  "reads_back codec ev data = (case ev of AppStatsEvent e \<Rightarrow> jc_app_stats codec data = Inr e
     | ReviewObservedEvent e \<Rightarrow> jc_review_observed codec data = Inr e | NetworkAnalysisEvent e \<Rightarrow> jc_network_analysis codec data = Inr e)"

definition codec_contract :: "codec \<Rightarrow> (supported_event \<Rightarrow> exn + bytes) \<Rightarrow> bool" where
  "codec_contract codec dump \<longleftrightarrow> (\<forall>ev data. dump ev = Inr data \<longrightarrow> reads_back codec ev data
     \<and> (\<exists>entries. jc_loads codec data = Some (JObj entries) \<and> set (map fst entries) = ENVELOPE_FIELDS
          \<and> map_of entries ''event_type'' = Some (JStr (event_type_of ev))
          \<and> map_of entries ''schema_version'' = Some (JInt (schema_version_of ev))))"

definition record_of :: "(supported_event \<Rightarrow> exn + bytes) \<Rightarrow> supported_event batch_message \<Rightarrow> int \<Rightarrow> int \<Rightarrow> kafka_message" where
  "record_of dump m part offset = (case encoded dump m of (topic, key, data) \<Rightarrow>
     \<lparr>km_error = None, km_topic = topic, km_partition = part, km_offset = offset, km_key = Some (RawBytes key), km_value = Some (RawBytes data)\<rparr>)"

lemma ascii_encodes: "list_all (\<lambda>c. c < 128) s \<Longrightarrow> utf8_encode s = Some s"
  by (induction s) (auto simp: utf8_char_def)

lemma nat_str_digits: "nat_str n \<noteq> [] \<and> list_all (\<lambda>c. 48 \<le> (of_char c :: nat) \<and> (of_char c :: nat) < 58) (nat_str n)"
proof (induction n rule: nat_str.induct)
  case (1 n)
  then show ?case by (subst nat_str.simps) (simp add: nat_str.simps [of n] of_digit_char)
qed

lemma id_key: "encode_message_key (to_text (nat_str n)) = Inr (to_text (nat_str n))"
  and id_key_decodes: "utf8_decode (to_text (nat_str n)) = Some (to_text (nat_str n))"
proof -
  obtain c cs where n: "nat_str n = c # cs" using nat_str_digits [of n] by (cases "nat_str n") auto
  have d: "48 \<le> (of_char c :: nat) \<and> (of_char c :: nat) < 58" using nat_str_digits [of n] by (simp add: n)
  have "list_all (\<lambda>c. c < 128) (to_text (nat_str n))" using nat_str_digits [of n] by (auto simp: to_text_def list_all_iff)
  then have e: "utf8_encode (to_text (nat_str n)) = Some (to_text (nat_str n))" by (rule ascii_encodes)
  have "\<not> list_all text_space (to_text (nat_str n))" using d by (auto simp: n to_text_def text_space_def)
  then show "encode_message_key (to_text (nat_str n)) = Inr (to_text (nat_str n))" using e by (simp add: encode_message_key_def)
  show "utf8_decode (to_text (nat_str n)) = Some (to_text (nat_str n))" by (rule utf8_round_trip [OF e])
qed

definition published :: "supported_event batch_message \<Rightarrow> bool" where
  "published m \<longleftrightarrow> (\<exists>i p. m = app_stats_message i p) \<or> (\<exists>i p. m = review_message i p)
     \<or> (\<exists>c p. m = analysis_message c p \<and> na_application_id p = nc_application_id c)"

lemma published_shape:
  assumes "published m"
  shows "bm_key m = to_text (nat_str (application_id_of (bm_event m)))"
    and "bm_topic m = expected_topic (event_type_of (bm_event m))"
    and "event_type_of (bm_event m) \<in> {APP_STATS_EVENT_TYPE, REVIEW_OBSERVED_EVENT_TYPE, NETWORK_ANALYSIS_COLLECTED_EVENT_TYPE}"
    and "event_type_of (bm_event m) \<noteq> []" and "schema_version_of (bm_event m) = 1"
    and "reads_back codec (bm_event m) data \<Longrightarrow> typed_event codec (event_type_of (bm_event m)) data = Inr (bm_event m)"
  using assms
  by (auto simp: published_def app_stats_message_def review_message_def analysis_message_def application_id_of_def
      event_type_of_def schema_version_of_def expected_topic_def event_type_defs topic_defs reads_back_def typed_event_def
      deserialize_event_def)

lemma published_decoded:
  assumes "codec_contract codec dump" and "published m" and "dump (bm_event m) = Inr data"
  shows "decode_message codec (record_of dump m part offset) = Decoded (bm_event m)"
proof -
  note s = published_shape [OF assms(2)]
  obtain es where es: "jc_loads codec data = Some (JObj es)" "set (map fst es) = ENVELOPE_FIELDS"
    "map_of es ''event_type'' = Some (JStr (event_type_of (bm_event m)))" "map_of es ''schema_version'' = Some (JInt 1)"
    and rb: "reads_back codec (bm_event m) data"
    using assms(1,3) s(5) unfolding codec_contract_def by metis
  have r: "record_of dump m part offset = \<lparr>km_error = None, km_topic = bm_topic m, km_partition = part, km_offset = offset,
      km_key = Some (RawBytes (to_text (nat_str (application_id_of (bm_event m))))), km_value = Some (RawBytes data)\<rparr>"
    using assms(3) by (simp add: record_of_def encoded_def s(1) id_key serialize_event_def)
  have "check_key (Some (RawBytes (to_text (nat_str (application_id_of (bm_event m)))))) (bm_event m) ctx = Decoded (bm_event m)"
    for ctx by (simp add: check_key_def id_key_decodes)
  then show ?thesis
    using es s(2-4) s(6) [OF rb] unfolding r
    by (simp add: decode_message_def decode_typed_def Let_def NETWORK_SCHEMA_VERSION_def PLAYSTORE_SCHEMA_VERSION_def del: set_map)
qed

text \<open>
  C8: Publishing and decoding are inverse: the record of any event the crawler or the network
  analysis worker publishes, under the key and topic they use, is decoded by the ingestion worker
  to exactly that event, and is never skipped as invalid.
\<close>

theorem published_events_are_decoded:
  assumes "codec_contract codec dump" and "published m" and "dump (bm_event m) = Inr data"
  shows "decode_message codec (record_of dump m part offset) = Decoded (bm_event m)"
  using assms by (rule published_decoded)

text \<open>A codec for one event, for the witness.\<close>

definition demo_stats :: app_stats_collected where
  "demo_stats = \<lparr>as_crawl_task_id = 1, as_application_id = 7, as_package_name = ''com.maps'', as_collected_at = 3, as_min_installs = 10,
     as_score = 4, as_ratings_count = 2, as_reviews_count = 1, as_store_updated_on = None, as_version = None, as_ad_supported = False,
     as_source_adapter = ''gplay''\<rparr>"

definition demo_codec :: codec where
  "demo_codec = \<lparr>jc_loads = (\<lambda>_. Some (JObj [(''event_id'', JInt 5), (''event_type'', JStr APP_STATS_EVENT_TYPE), (''schema_version'', JInt 1),
       (''occurred_at'', JInt 3), (''payload'', JNull)])),
     jc_app_stats = (\<lambda>_. app_stats_envelope 5 demo_stats), jc_review_observed = (\<lambda>_. Inl (value_error [])),
     jc_network_analysis = (\<lambda>_. Inl (value_error []))\<rparr>"

definition demo_dump :: "supported_event \<Rightarrow> exn + bytes" where
  "demo_dump ev = (if ev = bm_event (app_stats_message 5 demo_stats) then Inr [1] else Inl (value_error []))"

lemma demo_codec_contract: "codec_contract demo_codec demo_dump"
  by (auto simp: codec_contract_def demo_dump_def demo_codec_def reads_back_def app_stats_message_def ENVELOPE_FIELDS_def
      event_type_of_def schema_version_of_def PLAYSTORE_SCHEMA_VERSION_def split: if_splits)

theorem published_events_are_decoded_witness:
  "decode_message demo_codec (record_of demo_dump (app_stats_message 5 demo_stats) 0 12) = Decoded (bm_event (app_stats_message 5 demo_stats))"
proof -
  have "published (app_stats_message 5 demo_stats)" "demo_dump (bm_event (app_stats_message 5 demo_stats)) = Inr [1]"
    by (auto simp: published_def demo_dump_def)
  then show ?thesis by (rule published_events_are_decoded [OF demo_codec_contract])
qed

section \<open>No record is lost\<close>

text \<open>
  What Kafka promises of one partition: records have consecutive offsets and are never changed or
  removed (within retention); polling returns the record at the position and advances it; a commit
  either takes effect or does not, also when it reports a failure.
\<close>

definition log_contract ::
  "'c consumer_lib \<Rightarrow> ('c \<Rightarrow> kafka_message list) \<Rightarrow> ('c \<Rightarrow> nat) \<Rightarrow> ('c \<Rightarrow> nat) \<Rightarrow> string \<Rightarrow> int \<Rightarrow> bool" where
  "log_contract lib records position committed topic part \<longleftrightarrow>
     (\<forall>c i. i < length (records c) \<longrightarrow> km_error (records c ! i) = None \<and> km_topic (records c ! i) = topic
        \<and> km_partition (records c ! i) = part \<and> km_offset (records c ! i) = int i)
     \<and> (\<forall>t c r c'. cl_poll lib t c = (r, c') \<longrightarrow> prefix (records c) (records c') \<and> committed c' = committed c
          \<and> (case r of
                Inr (Some m) \<Rightarrow> if km_error m = None then position c < length (records c') \<and> m = records c' ! position c \<and> position c' = Suc (position c)
                               else position c' = position c
              | _ \<Rightarrow> position c' = position c))
     \<and> (\<forall>m c r c'. cl_commit lib m c = (r, c') \<longrightarrow> prefix (records c) (records c') \<and> position c' = position c
          \<and> committed c' \<in> {committed c, Suc (nat (km_offset m))})"

lemma log_contractD:
  assumes "log_contract lib records position committed topic part"
  shows "i < length (records c) \<Longrightarrow> km_error (records c ! i) = None \<and> km_topic (records c ! i) = topic
      \<and> km_partition (records c ! i) = part \<and> km_offset (records c ! i) = int i"
    and "cl_poll lib t c = (r, c') \<Longrightarrow> prefix (records c) (records c') \<and> committed c' = committed c
      \<and> (case r of
            Inr (Some m) \<Rightarrow> if km_error m = None then position c < length (records c') \<and> m = records c' ! position c \<and> position c' = Suc (position c)
                           else position c' = position c
          | _ \<Rightarrow> position c' = position c)"
    and "cl_commit lib m c = (r', c') \<Longrightarrow> prefix (records c) (records c') \<and> position c' = position c
      \<and> committed c' \<in> {committed c, Suc (nat (km_offset m))}"
  using assms unfolding log_contract_def by (blast, blast, blast)

abbreviation client_of :: "'c ingestion_worker \<Rightarrow> 'c" where
  "client_of w \<equiv> kc_client (iw_consumer w)"

abbreviation ingested :: "'c ingestion_worker \<Rightarrow> uuid set" where
  "ingested w \<equiv> ie_event_id ` set (ig_events (is_db (iw_store w)))"

text \<open>
  A deployment of the worker on one partition: it starts with an empty table of events at the
  beginning of the log; it processes records; it is stopped or crashes at any moment, in particular
  after an error, and is restarted at the committed offset; other components change other tables.
\<close>

inductive ingesting ::
  "'c consumer_lib \<Rightarrow> ('c \<Rightarrow> kafka_message list) \<Rightarrow> ('c \<Rightarrow> nat) \<Rightarrow> ('c \<Rightarrow> nat) \<Rightarrow> codec \<Rightarrow> 'c ingestion_worker \<Rightarrow> bool"
  for lib :: "'c consumer_lib" and records position committed codec where
  ing_start: "position (client_of w) = 0 \<Longrightarrow> committed (client_of w) = 0 \<Longrightarrow> ig_events (is_db (iw_store w)) = []
     \<Longrightarrow> ingesting lib records position committed codec w"
| ing_step: "ingesting lib records position committed codec w \<Longrightarrow> process_next lib codec timeout now w = (Inr b, w')
     \<Longrightarrow> ingesting lib records position committed codec w'"
| ing_restart: "ingesting lib records position committed codec w \<Longrightarrow> w' = w \<or> w' = snd (process_next lib codec timeout now w)
     \<Longrightarrow> prefix (records (client_of w')) (records c) \<Longrightarrow> committed c = committed (client_of w') \<Longrightarrow> position c = committed c
     \<Longrightarrow> ingesting lib records position committed codec (w'\<lparr>iw_consumer := \<lparr>kc_closed = False, kc_client = c\<rparr>, iw_closed := False\<rparr>)"
| ing_others: "ingesting lib records position committed codec w \<Longrightarrow> ig_events (is_db st) = ig_events (is_db (iw_store w))
     \<Longrightarrow> ingesting lib records position committed codec (w\<lparr>iw_store := st\<rparr>)"

definition settled :: "codec \<Rightarrow> kafka_message \<Rightarrow> uuid set \<Rightarrow> bool" where
  "settled codec m ids = (case decode_message codec m of InvalidMessage _ _ \<Rightarrow> True | Decoded ev \<Rightarrow> event_id_of ev \<in> ids | DecodeRaised _ \<Rightarrow> False)"

text \<open>Every row of the table of events comes from the record at its offset.\<close>

definition rows_from_log :: "codec \<Rightarrow> string \<Rightarrow> int \<Rightarrow> kafka_message list \<Rightarrow> ingested_event list \<Rightarrow> bool" where
  "rows_from_log codec topic part records rows \<longleftrightarrow> (\<forall>row \<in> set rows. \<exists>i < length records. ie_topic row = topic \<and> ie_partition row = part
     \<and> ie_offset row = int i \<and> (\<exists>ev. decode_message codec (records ! i) = Decoded ev \<and> event_id_of ev = ie_event_id row))"

definition ingestion_inv ::
  "codec \<Rightarrow> ('c \<Rightarrow> kafka_message list) \<Rightarrow> string \<Rightarrow> int \<Rightarrow> nat \<Rightarrow> 'c \<Rightarrow> ingested_event list \<Rightarrow> bool" where
  "ingestion_inv codec records topic part n c rows \<longleftrightarrow> n \<le> length (records c) \<and> rows_from_log codec topic part (records c) rows
     \<and> (\<forall>i < n. settled codec (records c ! i) (ie_event_id ` set rows))"

lemma settled_mono: "settled codec m A \<Longrightarrow> A \<subseteq> B \<Longrightarrow> settled codec m B"
  by (auto simp: settled_def split: decode_result.splits)

lemma ingestion_inv_mono:
  assumes "ingestion_inv codec records topic part n c rows" and "prefix (records c) (records c')" and "k \<le> n"
  shows "ingestion_inv codec records topic part k c' rows"
proof -
  obtain ext where "records c' = records c @ ext" using assms(2) by (auto simp: prefix_def)
  then show ?thesis using assms(1,3)
    unfolding ingestion_inv_def rows_from_log_def by (fastforce simp: nth_append)
qed

text \<open>A transaction of the event of record \<open>n\<close> settles the record, whether it reports success or not.\<close>

lemma ig_transaction_cases:
  assumes "ig_transaction body st = (r, st')"
  obtains (unchanged) e where "r = Inl e" "is_db st' = is_db st"
  | (applied) x where "body (is_db st) = Inr (x, is_db st')" "r = Inr x \<or> (\<exists>e. r = Inl e)"
  using assms by (auto simp: ig_transaction_def Let_def split: sum.splits list.splits option.splits db_fault.splits)

lemma ingest_settles:
  assumes inv: "ingestion_inv codec records topic part n c (ig_events db)" and n: "n < length (records c)"
    and dec: "decode_message codec (records c ! n) = Decoded ev" and run: "ingest_event now ev topic part (int n) db = Inr (x, db')"
  shows "ingestion_inv codec records topic part (Suc n) c (ig_events db')"
proof -
  have grow: "set (ig_events db) \<subseteq> set (ig_events db')" and id: "event_id_of ev \<in> ie_event_id ` set (ig_events db')"
    and rows: "rows_from_log codec topic part (records c) (ig_events db')"
  proof -
    note e = ingest_event_events [OF run]
    have R: "rows_from_log codec topic part (records c) (ig_events db)" using inv by (simp add: ingestion_inv_def)
    show "set (ig_events db) \<subseteq> set (ig_events db')" using e by (auto split: if_splits)
    show "event_id_of ev \<in> ie_event_id ` set (ig_events db')"
    proof (cases x)
      case True
      then show ?thesis using e by force
    next
      case False
      then obtain row where row: "db' = db" "row \<in> set (ig_events db)" "ie_event_id row = event_id_of ev
          \<or> ie_topic row = topic \<and> ie_partition row = part \<and> ie_offset row = int n" using e by auto
      have "ie_event_id row = event_id_of ev" using R row(2,3) dec unfolding rows_from_log_def by fastforce
      then show ?thesis using row(1,2) by force
    qed
    show "rows_from_log codec topic part (records c) (ig_events db')"
      using e R n dec unfolding rows_from_log_def by (cases x) (auto intro: exI [of _ n])
  qed
  have "settled codec (records c ! i) (ie_event_id ` set (ig_events db'))" if "i < Suc n" for i
  proof (cases "i = n")
    case True
    then show ?thesis using dec id by (simp add: settled_def)
  next
    case False
    then have "settled codec (records c ! i) (ie_event_id ` set (ig_events db))" using inv that by (simp add: ingestion_inv_def)
    then show ?thesis using grow by (rule settled_mono [OF _ image_mono])
  qed
  then show ?thesis using rows n by (simp add: ingestion_inv_def)
qed

lemma kc_poll_cases:
  assumes "kc_poll lib t k = (r, k')"
  obtains (closed) e where "r = Inl e" "k' = k"
  | (message) m where "r = Inr (Some m)" "cl_poll lib t (kc_client k) = (Inr (Some m), kc_client k')" "km_error m = None"
  | (idle) lr where "\<forall>m. r \<noteq> Inr (Some m)" "cl_poll lib t (kc_client k) = (lr, kc_client k')"
      "\<forall>m. lr = Inr (Some m) \<longrightarrow> km_error m \<noteq> None"
  using assms
  by (auto simp: kc_poll_def act_bind_def kc_ensure_open_def split: prod.splits sum.splits lib_exn.splits option.splits if_splits)

lemma iw_commit_offset_effect:
  assumes "log_contract lib records position committed topic part" and "iw_commit_offset lib m w = (r, w')"
  shows "iw_store w' = iw_store w \<and> prefix (records (client_of w)) (records (client_of w')) \<and> position (client_of w') = position (client_of w)
     \<and> committed (client_of w') \<in> {committed (client_of w), Suc (nat (km_offset m))}"
proof -
  obtain lr k' where k: "kc_commit lib m (iw_consumer w) = (lr, k')" "w' = w\<lparr>iw_consumer := k'\<rparr>"
    using assms(2) by (auto simp: iw_commit_offset_def split: prod.splits sum.splits)
  show ?thesis
  proof (cases "kc_closed (iw_consumer w)")
    case True
    then show ?thesis using k by (auto simp: kc_commit_def act_bind_def kc_ensure_open_def)
  next
    case False
    then obtain x where "cl_commit lib m (client_of w) = (x, kc_client k')"
      using k(1) by (auto simp: kc_commit_def act_bind_def kc_ensure_open_def split: prod.splits)
    from log_contractD(3) [OF assms(1) this] show ?thesis using k(2) by simp
  qed
qed

definition worker_inv ::
  "codec \<Rightarrow> ('c \<Rightarrow> kafka_message list) \<Rightarrow> ('c \<Rightarrow> nat) \<Rightarrow> string \<Rightarrow> int \<Rightarrow> nat \<Rightarrow> 'c ingestion_worker \<Rightarrow> bool" where
  "worker_inv codec records committed topic part n w \<longleftrightarrow> committed (client_of w) \<le> n
     \<and> ingestion_inv codec records topic part n (client_of w) (ig_events (is_db (iw_store w)))"

lemma commit_keeps_inv:
  assumes "log_contract lib records position committed topic part" and "iw_commit_offset lib m w = (r, w')"
    and "worker_inv codec records committed topic part n w" and "n = Suc (nat (km_offset m))"
  shows "worker_inv codec records committed topic part n w' \<and> position (client_of w') = position (client_of w)"
  using iw_commit_offset_effect [OF assms(1,2)] assms(3,4)
    ingestion_inv_mono [of codec records topic part n "client_of w" "ig_events (is_db (iw_store w))" "client_of w'" n]
  by (auto simp: worker_inv_def)

lemma process_next_inv:
  assumes c: "log_contract lib records position committed topic part" and run: "process_next lib codec timeout now w = (res, w')"
    and inv: "worker_inv codec records committed topic part (position (client_of w)) w"
  shows "\<exists>n. worker_inv codec records committed topic part n w' \<and> (\<forall>b. res = Inr b \<longrightarrow> n = position (client_of w'))"
proof -
  obtain r k where poll: "kc_poll lib timeout (iw_consumer w) = (r, k)" by fastforce
  let ?p = "position (client_of w)" and ?w1 = "w\<lparr>iw_consumer := k\<rparr>"
  from poll show ?thesis
  proof (cases rule: kc_poll_cases)
    case (closed e)
    then show ?thesis using run poll inv by (auto simp: process_next_def)
  next
    case (idle lr)
    have l: "prefix (records (client_of w)) (records (kc_client k))" "committed (kc_client k) = committed (client_of w)" "position (kc_client k) = ?p"
      using log_contractD(2) [OF c idle(2)] idle(3) by (auto split: sum.splits option.splits)
    have "w' = ?w1" using run poll idle(1) by (auto simp: process_next_def split: sum.splits option.splits)
    then show ?thesis using l inv ingestion_inv_mono [where records = records, OF _ l(1) order_refl] by (auto simp: worker_inv_def)
  next
    case (message m)
    have l: "prefix (records (client_of w)) (records (kc_client k))" "committed (kc_client k) = committed (client_of w)"
      "?p < length (records (kc_client k))" "m = records (kc_client k) ! ?p" "position (kc_client k) = Suc ?p"
      using log_contractD(2) [OF c message(2)] message(3) by auto
    have m: "km_topic m = topic" "km_partition m = part" "km_offset m = int ?p" using log_contractD(1) [OF c l(3)] l(4) by simp_all
    have inv1: "worker_inv codec records committed topic part ?p ?w1"
      using inv l(2) ingestion_inv_mono [where records = records, OF _ l(1) order_refl] by (auto simp: worker_inv_def)
    have commit: "\<exists>n. worker_inv codec records committed topic part n w' \<and> (\<forall>b. res = Inr b \<longrightarrow> n = position (client_of w'))"
      if "iw_commit_offset lib m w2 = (res, w')" "iw_consumer w2 = k" "worker_inv codec records committed topic part (Suc ?p) w2" for w2
      using commit_keeps_inv [OF c that(1) that(3)] that(2) l(5) m(3) by auto
    show ?thesis
    proof (cases "decode_message codec m")
      case (InvalidMessage reason ctx)
      have "worker_inv codec records committed topic part (Suc ?p) ?w1"
        using inv1 l(3,4) InvalidMessage by (auto simp: worker_inv_def ingestion_inv_def less_Suc_eq settled_def)
      then show ?thesis using commit [of ?w1] run poll message(1) InvalidMessage by (simp add: process_next_def Let_def)
    next
      case (DecodeRaised e)
      then show ?thesis using run poll message(1) inv1 by (auto simp: process_next_def Let_def)
    next
      case (Decoded ev)
      obtain tr st where tx: "ig_transaction (ingest_event now ev topic part (int ?p)) (iw_store w) = (tr, st)" by fastforce
      have out: "(res, w') = (case tr of Inl e \<Rightarrow> (Inl e, ?w1\<lparr>iw_store := st\<rparr>) | Inr _ \<Rightarrow> iw_commit_offset lib m (?w1\<lparr>iw_store := st\<rparr>))"
        using run poll message(1) Decoded tx m by (simp add: process_next_def Let_def split: sum.splits)
      from tx show ?thesis
      proof (cases rule: ig_transaction_cases)
        case (unchanged e)
        then show ?thesis using out inv1 by (auto simp: worker_inv_def)
      next
        case (applied x)
        have "ingestion_inv codec records topic part (Suc ?p) (kc_client k) (ig_events (is_db st))"
          using ingest_settles [where records = records and codec = codec, OF _ l(3) _ applied(1)] inv1 Decoded l(4) by (simp add: worker_inv_def)
        then have inv2: "worker_inv codec records committed topic part (Suc ?p) (?w1\<lparr>iw_store := st\<rparr>)" using inv1 by (simp add: worker_inv_def)
        show ?thesis
        proof (cases tr)
          case (Inl e)
          then show ?thesis using out inv2 by auto
        next
          case (Inr y)
          then show ?thesis using out commit [OF _ _ inv2] by simp
        qed
      qed
    qed
  qed
qed

lemma ingesting_inv:
  assumes "log_contract lib records position committed topic part" and "ingesting lib records position committed codec w"
  shows "worker_inv codec records committed topic part (position (client_of w)) w"
  using assms(2)
proof (induction rule: ingesting.induct)
  case (ing_start w)
  then show ?case by (simp add: worker_inv_def ingestion_inv_def rows_from_log_def)
next
  case (ing_step w timeout now b w')
  then show ?case using process_next_inv [OF assms(1) ing_step.hyps(2)] by blast
next
  case (ing_restart w w' timeout now c)
  obtain n where "worker_inv codec records committed topic part n w'"
    using ing_restart process_next_inv [OF assms(1) surjective_pairing] by metis
  then show ?case
    using ing_restart.hyps(3-5) ingestion_inv_mono [where records = records and codec = codec and topic = topic and part = part and n = n and c = "client_of w'" and c' = c]
    by (auto simp: worker_inv_def)
qed (simp add: worker_inv_def)

text \<open>
  C1: No record is lost: however often the worker is stopped, crashes, fails to reach the database
  or to commit an offset, and is restarted, every record below the committed offset of its partition
  is permanently invalid or its event is stored. Together with the at-most-once claim of an event,
  every event is ingested exactly once.
\<close>

theorem no_record_is_lost:
  assumes "log_contract lib records position committed topic part" and "ingesting lib records position committed codec w"
    and "i < committed (client_of w)"
  shows "(\<exists>reason ctx. decode_message codec (records (client_of w) ! i) = InvalidMessage reason ctx)
     \<or> (\<exists>ev. decode_message codec (records (client_of w) ! i) = Decoded ev \<and> event_id_of ev \<in> ingested w)"
  using ingesting_inv [OF assms(1,2)] assms(3)
  by (auto simp: worker_inv_def ingestion_inv_def settled_def split: decode_result.splits) (meson decode_result.exhaust order_less_le_trans)

text \<open>A partition with one record, for the witness.\<close>

definition demo_record :: kafka_message where
  "demo_record = \<lparr>km_error = None, km_topic = PLAYSTORE_APP_STATS_TOPIC, km_partition = 0, km_offset = 0,
     km_key = Some (RawBytes [55]), km_value = Some (RawBytes [1])\<rparr>"

definition demo_partition :: "(nat \<times> nat) consumer_lib" where
  "demo_partition = \<lparr>cl_subscribe = (\<lambda>_ c. c),
     cl_poll = (\<lambda>t (p, c). if p = 0 then (Inr (Some demo_record), (1, c)) else (Inr None, (p, c))),
     cl_commit = (\<lambda>m (p, c). (Inr (Some []), (p, Suc (nat (km_offset m))))),
     cl_assignment = (\<lambda>c. (Inr [], c)), cl_close = (\<lambda>c. c)\<rparr>"

definition demo_worker :: "(nat \<times> nat) ingestion_worker" where
  "demo_worker = \<lparr>iw_consumer = \<lparr>kc_closed = False, kc_client = (0, 0)\<rparr>,
     iw_store = \<lparr>is_db = demo_db\<lparr>ig_tasks := [(1, new_task 0 one_app (''fa'', ''ir'') APP_DETAILS)]\<rparr>, is_faults = []\<rparr>, iw_closed = False\<rparr>"

lemma demo_partition_contract: "log_contract demo_partition (\<lambda>_. [demo_record]) fst snd PLAYSTORE_APP_STATS_TOPIC 0"
  by (auto simp: log_contract_def demo_partition_def demo_record_def split: if_splits)

lemma demo_decodes: "decode_message demo_codec demo_record = Decoded (bm_event (app_stats_message 5 demo_stats))"
proof -
  have k: "to_text (nat_str 7) = [55]"
    by (simp add: nat_str.simps to_text_def of_digit_char)
  then have "record_of demo_dump (app_stats_message 5 demo_stats) 0 0 = demo_record"
    using id_key [of 7] by (simp add: record_of_def encoded_def demo_record_def app_stats_message_def demo_stats_def demo_dump_def serialize_event_def)
  then show ?thesis
    using published_decoded [OF demo_codec_contract, of "app_stats_message 5 demo_stats" "[1]" 0 0]
    by (metis published_def demo_dump_def)
qed

theorem no_record_is_lost_witness:
  "5 \<in> ingested (snd (process_next demo_partition demo_codec 1 9 demo_worker))"
proof -
  let ?run = "process_next demo_partition demo_codec 1 9 demo_worker"
  have "fst ?run = Inr True" and committed: "snd (client_of (snd ?run)) = 1" by code_simp+
  then have run: "?run = (Inr True, snd ?run)" by (metis surjective_pairing)
  have "ingesting demo_partition (\<lambda>_. [demo_record]) fst snd demo_codec demo_worker"
    by (rule ing_start) (simp_all add: demo_worker_def demo_db_def)
  then have "ingesting demo_partition (\<lambda>_. [demo_record]) fst snd demo_codec (snd ?run)" by (rule ing_step [OF _ run])
  from no_record_is_lost [OF demo_partition_contract this, of 0] committed show ?thesis
    by (auto simp: demo_decodes event_id_of_def app_stats_message_def)
qed

end
