(* ===== verification/Network_Metrics.thy ===== *)
theory Network_Metrics
  imports Event_Contracts "HOL-Library.AList" "HOL-Library.List_Lexorder" "HOL-Library.Char_ord" "HOL-Library.Product_Lexorder" "HOL-Library.Multiset"
begin

text \<open>
  The aggregation of the packets of a capture into metrics (\<open>network/metrics.py\<close>). A dictionary is
  an association list in insertion order, a set of warnings is a list without duplicates. Floating
  point numbers are exact rationals. Constructing a metrics model validates it against its contract
  and raises \<open>ValidationError\<close> otherwise, in the order the source constructs them.
\<close>

section \<open>Packets\<close>

datatype direction = Tx | Rx
datatype transport = TCP | UDP | OtherTransport

record packet_record =
  pk_timestamp :: rat
  pk_frame_len :: int
  pk_captured_len :: int
  pk_direction :: "direction option"
  pk_ip_version :: "int option"
  pk_network_bytes :: int
  pk_src_ip :: "string option"
  pk_dst_ip :: "string option"
  pk_src_port :: "int option"
  pk_dst_port :: "int option"
  pk_transport :: transport
  pk_l4_payload_bytes :: int
  pk_tcp_stream :: "int option"
  pk_ip_fragment :: bool
  pk_ecn_ce :: bool
  pk_icmp_error :: bool
  pk_tcp_syn :: bool
  pk_tcp_ack :: bool
  pk_tcp_rst :: bool
  pk_tcp_window_size :: "int option"
  pk_tcp_initial_rtt_seconds :: "rat option"
  pk_tcp_ack_rtt_seconds :: "rat option"
  pk_tcp_retransmission :: bool
  pk_tcp_fast_retransmission :: bool
  pk_tcp_spurious_retransmission :: bool
  pk_tcp_zero_window :: bool
  pk_tcp_window_full :: bool
  pk_tcp_out_of_order :: bool
  pk_tcp_duplicate_ack :: bool
  pk_tcp_lost_segment :: bool
  pk_quic :: bool
  pk_quic_version :: "string option"
  pk_quic_packet_type :: "string option"
  pk_quic_spin_bit :: "int option"
  pk_dns_is_response :: "bool option"
  pk_dns_response_code :: "int option"
  pk_dns_time_seconds :: "rat option"

record aggregated_metrics =
  am_capture :: capture_metrics
  am_capabilities :: network_capabilities
  am_traffic :: traffic_metrics
  am_protocol_mix :: protocol_mix_metrics
  am_ip :: ip_metrics
  am_flow :: flow_metrics
  am_transfer :: transfer_metrics
  am_tcp :: "tcp_metrics option"
  am_quic :: "quic_metrics option"
  am_udp :: "udp_metrics option"
  am_dns :: "dns_metrics option"

section \<open>Helpers\<close>

definition percentile :: "rat list \<Rightarrow> rat \<Rightarrow> exn + rat option" where
  "percentile values p =
     (if values = [] then Inr None
      else if \<not> (0 \<le> p \<and> p \<le> 100) then Inl (value_error ''percentile must be between 0 and 100'')
      else let ordered = sort values; rank = max 1 \<lceil>p / 100 * of_nat (length ordered)\<rceil>
           in Inr (Some (ordered ! nat (rank - 1))))"

text \<open>The percentiles the module asks for, 50 and 95, are in range.\<close>

definition pct :: "rat list \<Rightarrow> rat \<Rightarrow> rat option" where
  "pct values p = (case percentile values p of Inr v \<Rightarrow> v | Inl _ \<Rightarrow> None)"

definition ratio :: "rat \<Rightarrow> rat \<Rightarrow> rat option" where
  "ratio numerator denominator = (if denominator \<le> 0 then None else Some (numerator / denominator))"

type_synonym flow_key = "int \<times> string \<times> int \<times> string \<times> int \<times> transport"

definition flow_key :: "packet_record \<Rightarrow> flow_key option" where
  "flow_key p =
     (case (pk_ip_version p, pk_src_ip p, pk_dst_ip p, pk_src_port p, pk_dst_port p) of
        (Some v, Some s, Some d, Some sp, Some dp) \<Rightarrow>
          if pk_transport p = OtherTransport then None
          else let left = (s, sp); right = (d, dp); a = min left right; b = max left right
               in Some (v, fst a, snd a, fst b, snd b, pk_transport p)
      | _ \<Rightarrow> None)"

fun flows_80_loop :: "rat \<Rightarrow> int \<Rightarrow> int \<Rightarrow> int \<Rightarrow> int list \<Rightarrow> int" where
  "flows_80_loop threshold accumulated index flow_total [] = flow_total"
| "flows_80_loop threshold accumulated index flow_total (b # bs) =
     (if threshold \<le> of_int (accumulated + b) then index
      else flows_80_loop threshold (accumulated + b) (index + 1) flow_total bs)"

definition flows_for_80_percent :: "(flow_key \<times> int) list \<Rightarrow> int \<Rightarrow> int" where
  "flows_for_80_percent flow_payload total_payload =
     (if total_payload \<le> 0 then 0
      else flows_80_loop (of_int total_payload * (8 / 10)) 0 1 (int (length flow_payload)) (rev (sort (map snd flow_payload))))"

datatype tcp_connection_key = Stream int | Flow flow_key

definition tcp_connection_key :: "packet_record \<Rightarrow> tcp_connection_key option" where
  "tcp_connection_key p = (case pk_tcp_stream p of Some n \<Rightarrow> Some (Stream n) | None \<Rightarrow> map_option Flow (flow_key p))"

definition source_of :: "packet_record \<Rightarrow> string option \<times> int option" where
  "source_of p = (pk_src_ip p, pk_src_port p)"

definition target_of :: "packet_record \<Rightarrow> string option \<times> int option" where
  "target_of p = (pk_dst_ip p, pk_dst_port p)"

definition acknowledges :: "packet_record \<Rightarrow> packet_record \<Rightarrow> bool" where
  "acknowledges syn p \<longleftrightarrow> \<not> pk_tcp_syn p \<and> pk_tcp_ack p \<and> source_of p = source_of syn \<and> target_of p = target_of syn"

fun syn_acknowledged :: "packet_record \<Rightarrow> packet_record list \<Rightarrow> bool" where
  "syn_acknowledged syn [] = False"
| "syn_acknowledged syn (p # ps) =
     (pk_tcp_syn p \<and> pk_tcp_ack p \<and> source_of p = target_of syn \<and> target_of p = source_of syn \<and> list_ex (acknowledges syn) ps
      \<or> syn_acknowledged syn ps)"

fun tcp_handshake_completed :: "packet_record list \<Rightarrow> bool" where
  "tcp_handshake_completed [] = False"
| "tcp_handshake_completed (syn # ps) =
     (pk_tcp_syn syn \<and> \<not> pk_tcp_ack syn \<and> syn_acknowledged syn ps \<or> tcp_handshake_completed ps)"

text \<open>\<open>defaultdict(list)\<close> filled in one pass.\<close>

definition group_by :: "('a \<Rightarrow> 'k option) \<Rightarrow> 'a list \<Rightarrow> ('k \<times> 'a list) list" where
  "group_by key xs = fold (\<lambda>x g. case key x of None \<Rightarrow> g | Some k \<Rightarrow> AList.map_default k [x] (\<lambda>l. l @ [x]) g) xs []"

definition sum_by :: "('a \<Rightarrow> 'k option) \<Rightarrow> ('a \<Rightarrow> int) \<Rightarrow> 'a list \<Rightarrow> ('k \<times> int) list" where
  "sum_by key f xs = fold (\<lambda>x g. case key x of None \<Rightarrow> g | Some k \<Rightarrow> AList.map_default k (f x) (\<lambda>s. s + f x) g) xs []"

definition count_if :: "('a \<Rightarrow> bool) \<Rightarrow> 'a list \<Rightarrow> int" where
  "count_if P xs = int (length (filter P xs))"

definition validated :: "('m \<Rightarrow> bool) \<Rightarrow> 'm \<Rightarrow> exn + 'm" where
  "validated P m = (if P m then Inr m else Inl (ValidationError ''metrics''))"

definition values_of :: "('a \<Rightarrow> 'b option) \<Rightarrow> 'a list \<Rightarrow> 'b list" where
  "values_of f xs = concat (map (\<lambda>x. case f x of None \<Rightarrow> [] | Some y \<Rightarrow> [y]) xs)"

definition average :: "rat list \<Rightarrow> rat option" where
  "average xs = (if xs = [] then None else Some (sum_list xs / of_nat (length xs)))"

definition minimum :: "rat list \<Rightarrow> rat option" where
  "minimum xs = (if xs = [] then None else Some (Min (set xs)))"

section \<open>Receiver stalls\<close>

type_synonym endpoints = "string option \<times> int option \<times> string option \<times> int option"

definition direction_key :: "packet_record \<Rightarrow> endpoints" where
  "direction_key p = (pk_src_ip p, pk_src_port p, pk_dst_ip p, pk_dst_port p)"

fun scan_stalls :: "packet_record list \<Rightarrow> (endpoints \<times> rat) list \<Rightarrow> (rat \<times> rat) list \<Rightarrow> (endpoints \<times> rat) list \<times> (rat \<times> rat) list" where
  "scan_stalls [] started_at intervals = (started_at, intervals)"
| "scan_stalls (p # ps) started_at intervals =
     (if pk_tcp_zero_window p then
        scan_stalls ps (if map_of started_at (direction_key p) = None then started_at @ [(direction_key p, pk_timestamp p)] else started_at) intervals
      else case pk_tcp_window_size p of
        Some w \<Rightarrow>
          if 0 < w then
            (case map_of started_at (direction_key p) of
               None \<Rightarrow> scan_stalls ps started_at intervals
             | Some started \<Rightarrow>
                 scan_stalls ps (filter (\<lambda>(k, t). k \<noteq> direction_key p) started_at) (intervals @ [(started, pk_timestamp p)]))
          else scan_stalls ps started_at intervals
      | None \<Rightarrow> scan_stalls ps started_at intervals)"

text \<open>The merged intervals, the last one first.\<close>

fun merge_intervals :: "(rat \<times> rat) list \<Rightarrow> (rat \<times> rat) list \<Rightarrow> (rat \<times> rat) list" where
  "merge_intervals merged [] = merged"
| "merge_intervals merged ((started, ended) # rest) =
     (if ended \<le> started then merge_intervals merged rest
      else case merged of
             [] \<Rightarrow> merge_intervals [(started, ended)] rest
           | (a, b) # ms \<Rightarrow>
               if b < started then merge_intervals ((started, ended) # (a, b) # ms) rest
               else merge_intervals ((a, max b ended) # ms) rest)"

definition total_length :: "(rat \<times> rat) list \<Rightarrow> rat" where
  "total_length is = sum_list (map (\<lambda>(s, e). e - s) is)"

section \<open>TCP\<close>

record tcp_flow =
  tf_handshake :: bool
  tf_initial_rtt :: "rat option"
  tf_reset :: bool
  tf_active_ms :: rat
  tf_stall_ms :: rat
  tf_open_stall :: bool

definition tcp_flow_of :: "packet_record list \<Rightarrow> tcp_flow" where
  "tcp_flow_of packets =
     (let records = sort_key pk_timestamp packets;
          flow_end = pk_timestamp (last records);
          (open_stalls, closed) = scan_stalls records [] [];
          intervals = closed @ map (\<lambda>(k, started). (started, flow_end)) open_stalls
      in \<lparr>tf_handshake = tcp_handshake_completed records,
          tf_initial_rtt = (case values_of pk_tcp_initial_rtt_seconds records of [] \<Rightarrow> None | r # _ \<Rightarrow> Some (r * 1000)),
          tf_reset = list_ex pk_tcp_rst records,
          tf_active_ms = max 0 ((flow_end - pk_timestamp (hd records)) * 1000),
          tf_stall_ms = total_length (merge_intervals [] (sort intervals)) * 1000,
          tf_open_stall = (open_stalls \<noteq> [])\<rparr>)"

definition retransmitted :: "packet_record \<Rightarrow> bool" where
  "retransmitted p \<longleftrightarrow> pk_tcp_retransmission p \<or> pk_tcp_fast_retransmission p \<or> pk_tcp_spurious_retransmission p"

definition payload_sum :: "packet_record list \<Rightarrow> int" where
  "payload_sum ps = sum_list (map pk_l4_payload_bytes ps)"

definition network_sum :: "packet_record list \<Rightarrow> int" where
  "network_sum ps = sum_list (map pk_network_bytes ps)"

definition tcp_metrics_of :: "packet_record list \<Rightarrow> tcp_flow list \<Rightarrow> tcp_metrics" where
  "tcp_metrics_of tcp_packets flows =
     (let initial_rtts = values_of tf_initial_rtt flows;
          ack_rtts = map (\<lambda>r. r * 1000) (values_of pk_tcp_ack_rtt_seconds tcp_packets);
          ack_p50 = pct ack_rtts 50; ack_p95 = pct ack_rtts 95;
          data_segments = count_if (\<lambda>p. 0 < pk_l4_payload_bytes p) tcp_packets;
          retransmits = filter retransmitted tcp_packets;
          connection_count = int (length flows);
          successful = count_if tf_handshake flows;
          zero_window = sum_list (map tf_stall_ms flows);
          active = sum_list (map tf_active_ms flows);
          resets = count_if tf_reset flows
      in \<lparr>tcp_connection_count = connection_count,
          tcp_successful_handshake_count = successful,
          tcp_incomplete_handshake_count = max 0 (connection_count - successful),
          tcp_handshake_success_rate = ratio (of_int successful) (of_int connection_count),
          tcp_initial_rtt_avg_ms = average initial_rtts,
          tcp_initial_rtt_p50_ms = pct initial_rtts 50,
          tcp_initial_rtt_p95_ms = pct initial_rtts 95,
          tcp_ack_rtt_min_ms = minimum ack_rtts,
          tcp_ack_rtt_p50_ms = ack_p50,
          tcp_ack_rtt_p95_ms = ack_p95,
          tcp_rtt_tail_inflation = (case (ack_p95, ack_p50) of (Some x, Some y) \<Rightarrow> if y = 0 then None else Some (x / y) | _ \<Rightarrow> None),
          tcp_data_segment_count = data_segments,
          tcp_retransmission_count = int (length retransmits),
          tcp_fast_retransmission_count = count_if pk_tcp_fast_retransmission tcp_packets,
          tcp_spurious_retransmission_count = count_if pk_tcp_spurious_retransmission tcp_packets,
          tcp_retransmitted_payload_bytes = payload_sum retransmits,
          tcp_retransmission_rate = ratio (of_nat (length retransmits)) (of_int data_segments),
          tcp_recovery_tax = ratio (of_int (payload_sum retransmits)) (of_int (payload_sum tcp_packets)),
          tcp_zero_window_count = count_if pk_tcp_zero_window tcp_packets,
          tcp_window_full_count = count_if pk_tcp_window_full tcp_packets,
          tcp_zero_window_duration_ms = zero_window,
          tcp_active_duration_ms = active,
          tcp_receiver_stall_ratio = ratio zero_window active,
          tcp_reset_count = resets,
          tcp_reset_rate = ratio (of_int resets) (of_int connection_count),
          tcp_out_of_order_count = count_if pk_tcp_out_of_order tcp_packets,
          tcp_duplicate_ack_count = count_if pk_tcp_duplicate_ack tcp_packets,
          tcp_lost_segment_indicator_count = count_if pk_tcp_lost_segment tcp_packets\<rparr>)"

definition tcp_flows :: "packet_record list \<Rightarrow> tcp_flow list" where
  "tcp_flows tcp_packets = map (tcp_flow_of \<circ> snd) (group_by tcp_connection_key tcp_packets)"

text \<open>The metrics, whether a round trip time was seen, and the warnings with those of this group added.\<close>

definition aggregate_tcp :: "packet_record list \<Rightarrow> string list \<Rightarrow> exn + (tcp_metrics option \<times> bool \<times> string list)" where
  "aggregate_tcp packets warnings =
     (let tcp_packets = filter (\<lambda>p. pk_transport p = TCP) packets
      in if tcp_packets = [] then Inr (None, False, warnings)
         else let flows = tcp_flows tcp_packets;
                  w1 = (if list_ex tf_open_stall flows then List.insert ''tcp_zero_window_open_at_capture_end'' warnings else warnings);
                  w2 = (if count_if tf_handshake flows = 0 then List.insert ''missing_tcp_handshake'' w1 else w1)
              in case validated valid_tcp_metrics (tcp_metrics_of tcp_packets flows) of
                   Inl e \<Rightarrow> Inl e
                 | Inr m \<Rightarrow> Inr (Some m, values_of tf_initial_rtt flows \<noteq> [] \<or> values_of pk_tcp_ack_rtt_seconds tcp_packets \<noteq> [], w2))"

section \<open>QUIC\<close>

definition initial_direction_times :: "packet_record list \<Rightarrow> (direction \<times> rat) list" where
  "initial_direction_times records = fold (\<lambda>p first.
     case (pk_direction p, pk_quic_packet_type p) of
       (Some d, Some ty) \<Rightarrow>
         if lower ty \<in> {''0'', ''initial''} \<and> map_of first d = None then first @ [(d, pk_timestamp p)] else first
     | _ \<Rightarrow> first) records []"

definition quic_initial_rtt :: "packet_record list \<Rightarrow> rat list" where
  "quic_initial_rtt records =
     (let first = initial_direction_times records
      in case (map_of first Tx, map_of first Rx) of (Some t, Some r) \<Rightarrow> [abs (r - t) * 1000] | _ \<Rightarrow> [])"

text \<open>The samples of one flow: the time between two packets of a direction whose spin bit differs.\<close>

fun spin_samples :: "(direction \<times> int \<times> rat) list \<Rightarrow> packet_record list \<Rightarrow> rat list" where
  "spin_samples previous [] = []"
| "spin_samples previous (p # ps) =
     (case (pk_direction p, pk_quic_spin_bit p) of
        (Some d, Some spin) \<Rightarrow>
          (let rest = spin_samples (AList.update d (spin, pk_timestamp p) previous) ps
           in case map_of previous d of
                Some (prior, t) \<Rightarrow> if prior \<noteq> spin then max 0 ((pk_timestamp p - t) * 1000) # rest else rest
              | None \<Rightarrow> rest)
      | _ \<Rightarrow> spin_samples previous ps)"

definition quic_versions :: "packet_record list \<Rightarrow> string list" where
  "quic_versions quic_packets =
     sort (remdups (filter (\<lambda>v. v \<notin> {[], ''0'', ''0x00000000''}) (values_of pk_quic_version quic_packets)))"

definition quic_metrics_of :: "packet_record list \<Rightarrow> string list \<Rightarrow> rat list \<Rightarrow> rat list \<Rightarrow> int \<Rightarrow> quic_metrics" where
  "quic_metrics_of quic_packets supported_fields initial_rtts samples connection_count =
     (let versions = quic_versions quic_packets;
          version_known = ''quic.version'' \<in> set supported_fields;
          types_known = ''quic.long.packet_type'' \<in> set supported_fields;
          packet_types = map lower (values_of pk_quic_packet_type quic_packets)
      in \<lparr>quic_identified_connection_count = Some connection_count,
          quic_version_count = (if version_known then Some (int (length versions)) else None),
          quic_versions_seen = (if version_known then Some versions else None),
          quic_retry_count = (if types_known then Some (count_if (\<lambda>v. v \<in> {''3'', ''retry''}) packet_types) else None),
          quic_version_negotiation_count = (if version_known
             then Some (count_if (\<lambda>p. pk_quic_version p \<in> {Some ''0'', Some ''0x00000000''}) quic_packets) else None),
          quic_0rtt_observed_count = (if types_known
             then Some (count_if (\<lambda>v. v \<in> {''1'', ''0-rtt'', ''0rtt'', ''0_rtt''}) packet_types) else None),
          quic_initial_rtt_avg_ms = average initial_rtts,
          quic_initial_rtt_p50_ms = pct initial_rtts 50,
          quic_initial_rtt_p95_ms = pct initial_rtts 95,
          quic_spin_rtt_sample_count = (if ''quic.spin_bit'' \<in> set supported_fields then Some (int (length samples)) else None),
          quic_spin_rtt_min_ms = minimum samples,
          quic_spin_rtt_p50_ms = pct samples 50,
          quic_spin_rtt_p95_ms = pct samples 95\<rparr>)"

definition aggregate_quic :: "packet_record list \<Rightarrow> string list \<Rightarrow> exn + (quic_metrics option \<times> bool \<times> bool)" where
  "aggregate_quic packets supported_fields =
     (let quic_packets = filter pk_quic packets
      in if quic_packets = [] then Inr (None, False, False)
         else let flows = map (sort_key pk_timestamp \<circ> snd) (group_by flow_key quic_packets);
                  initial_rtts = concat (map quic_initial_rtt flows);
                  samples = concat (map (spin_samples []) flows)
              in case validated valid_quic_metrics (quic_metrics_of quic_packets supported_fields initial_rtts samples (int (length flows))) of
                   Inl e \<Rightarrow> Inl e
                 | Inr m \<Rightarrow> Inr (Some m, initial_rtts \<noteq> [], samples \<noteq> []))"

section \<open>UDP and DNS\<close>

definition forward_bytes :: "packet_record \<Rightarrow> int \<times> int" where
  "forward_bytes p = (case flow_key p of
     Some (v, a, ap, b, bp, t) \<Rightarrow> if source_of p = (Some a, Some ap) then (pk_network_bytes p, 0) else (0, pk_network_bytes p)
   | None \<Rightarrow> (0, 0))"

definition add_pair :: "int \<times> int \<Rightarrow> int \<times> int \<Rightarrow> int \<times> int" where
  "add_pair x y = (fst x + fst y, snd x + snd y)"

definition flow_directions :: "packet_record list \<Rightarrow> (flow_key \<times> (int \<times> int)) list" where
  "flow_directions ps = fold (\<lambda>p g. case flow_key p of
     None \<Rightarrow> g | Some k \<Rightarrow> AList.map_default k (forward_bytes p) (add_pair (forward_bytes p)) g) ps []"

definition direction_totals :: "packet_record list \<Rightarrow> int \<times> int" where
  "direction_totals ps = fold add_pair (map snd (flow_directions ps)) (0, 0)"

definition udp_metrics_of :: "packet_record list \<Rightarrow> udp_metrics" where
  "udp_metrics_of udp_packets =
     (let (x, y) = direction_totals udp_packets;
          largest_direction = max x y;
          payload_sizes = map (of_int \<circ> pk_l4_payload_bytes) udp_packets
      in \<lparr>udp_flow_count = int (length (remdups (values_of flow_key udp_packets))),
          udp_datagram_count = int (length udp_packets),
          udp_network_bytes = network_sum udp_packets,
          udp_payload_bytes = payload_sum udp_packets,
          udp_payload_size_p50 = pct payload_sizes 50,
          udp_payload_size_p95 = pct payload_sizes 95,
          udp_bidirectional_byte_ratio = (if 0 < largest_direction then Some (of_int (min x y) / of_int largest_direction) else None)\<rparr>)"

definition aggregate_udp :: "packet_record list \<Rightarrow> exn + udp_metrics option" where
  "aggregate_udp packets =
     (let udp_packets = filter (\<lambda>p. pk_transport p = UDP \<and> \<not> pk_quic p) packets
      in if udp_packets = [] then Inr None else map_sum id Some (validated valid_udp_metrics (udp_metrics_of udp_packets)))"

definition dns_metrics_of :: "packet_record list \<Rightarrow> dns_metrics" where
  "dns_metrics_of dns_packets =
     (let rtts = map (\<lambda>t. t * 1000) (values_of pk_dns_time_seconds dns_packets)
      in \<lparr>dns_query_count = count_if (\<lambda>p. pk_dns_is_response p = Some False) dns_packets,
          dns_response_count = count_if (\<lambda>p. pk_dns_is_response p = Some True) dns_packets,
          dns_failure_count = count_if (\<lambda>p. pk_dns_is_response p = Some True \<and> pk_dns_response_code p \<notin> {None, Some 0}) dns_packets,
          dns_rtt_p50_ms = pct rtts 50, dns_rtt_p95_ms = pct rtts 95\<rparr>)"

definition aggregate_dns :: "packet_record list \<Rightarrow> exn + dns_metrics option" where
  "aggregate_dns packets =
     (let dns_packets = filter (\<lambda>p. pk_dns_is_response p \<noteq> None) packets
      in if dns_packets = [] then Inr None else map_sum id Some (validated valid_dns_metrics (dns_metrics_of dns_packets)))"

section \<open>The whole capture\<close>

definition span :: "rat list \<Rightarrow> rat" where
  "span ts = Max (set ts) - Min (set ts)"

definition duration_ms :: "packet_record list \<Rightarrow> rat" where
  "duration_ms packets = (if packets = [] then 0 else max 0 (span (map pk_timestamp packets) * 1000))"

definition ip_packets_of :: "packet_record list \<Rightarrow> packet_record list" where
  "ip_packets_of packets = filter (\<lambda>p. pk_ip_version p \<in> {Some 4, Some 6}) packets"

definition direction_available :: "packet_record list \<Rightarrow> bool" where
  "direction_available ip_packets \<longleftrightarrow> ip_packets \<noteq> [] \<and> list_all (\<lambda>p. pk_direction p \<noteq> None) ip_packets"

definition in_direction :: "direction \<Rightarrow> packet_record list \<Rightarrow> packet_record list" where
  "in_direction d ps = filter (\<lambda>p. pk_direction p = Some d) ps"

definition when_known :: "bool \<Rightarrow> 'a \<Rightarrow> 'a option" where
  "when_known b v = (if b then Some v else None)"

definition flow_payload_of :: "packet_record list \<Rightarrow> (flow_key \<times> int) list" where
  "flow_payload_of ip_packets = sum_by flow_key pk_l4_payload_bytes ip_packets"

definition remote_ips :: "packet_record list \<Rightarrow> string list" where
  "remote_ips ip_packets = remdups (filter (\<lambda>ip. ip \<noteq> [])
     (values_of (\<lambda>p. if pk_direction p = Some Tx then pk_dst_ip p else pk_src_ip p) ip_packets))"

definition throughput_windows :: "packet_record list \<Rightarrow> rat list" where
  "throughput_windows ip_packets =
     map (\<lambda>(second, bytes). of_int bytes * 8 / 1000000) (sum_by (\<lambda>p. Some \<lfloor>pk_timestamp p\<rfloor>) pk_network_bytes ip_packets)"

text \<open>The span of the payload in the direction of the transfer, with the warning about it.\<close>

definition primary_span :: "packet_record list \<Rightarrow> direction \<Rightarrow> string list \<Rightarrow> rat option \<times> string list" where
  "primary_span ip_packets primary warnings =
     (let times = map pk_timestamp (filter (\<lambda>p. pk_direction p = Some primary \<and> 0 < pk_l4_payload_bytes p) ip_packets)
      in if direction_available ip_packets \<and> times \<noteq> []
         then (if span times * 1000 \<le> 0 then (None, List.insert ''zero_transfer_span'' warnings) else (Some (span times * 1000), warnings))
         else (None, List.insert ''no_primary_payload'' warnings))"

definition traffic_metrics_of :: "packet_record list \<Rightarrow> traffic_metrics" where
  "traffic_metrics_of ip_packets =
     (let known = direction_available ip_packets; tx = in_direction Tx ip_packets; rx = in_direction Rx ip_packets;
          header_bytes = max 0 (network_sum ip_packets - payload_sum ip_packets)
      in \<lparr>network_bytes_total = network_sum ip_packets,
          tx_network_bytes = when_known known (network_sum tx),
          rx_network_bytes = when_known known (network_sum rx),
          l4_payload_bytes_total = payload_sum ip_packets,
          tx_l4_payload_bytes = when_known known (payload_sum tx),
          rx_l4_payload_bytes = when_known known (payload_sum rx),
          ip_transport_header_bytes = header_bytes,
          ip_transport_header_overhead_ratio = ratio (of_int header_bytes) (of_int (network_sum ip_packets)),
          tx_packet_count = when_known known (int (length tx)),
          rx_packet_count = when_known known (int (length rx))\<rparr>)"

definition protocol_mix_of :: "packet_record list \<Rightarrow> protocol_mix_metrics" where
  "protocol_mix_of ip_packets =
     (let tcp = network_sum (filter (\<lambda>p. pk_transport p = TCP) ip_packets);
          quic = network_sum (filter pk_quic ip_packets);
          udp = network_sum (filter (\<lambda>p. pk_transport p = UDP \<and> \<not> pk_quic p) ip_packets);
          transport_bytes = of_int (tcp + quic + udp);
          total = of_int (network_sum ip_packets)
      in \<lparr>tcp_bytes = tcp, quic_identified_bytes = quic, other_udp_bytes = udp,
          tcp_byte_share = ratio (of_int tcp) transport_bytes,
          quic_byte_share = ratio (of_int quic) transport_bytes,
          other_udp_byte_share = ratio (of_int udp) transport_bytes,
          ipv4_byte_share = ratio (of_int (network_sum (filter (\<lambda>p. pk_ip_version p = Some 4) ip_packets))) total,
          ipv6_byte_share = ratio (of_int (network_sum (filter (\<lambda>p. pk_ip_version p = Some 6) ip_packets))) total\<rparr>)"

definition ip_metrics_of :: "packet_record list \<Rightarrow> packet_record list \<Rightarrow> ip_metrics" where
  "ip_metrics_of packets ip_packets =
     \<lparr>ip_fragment_count = count_if pk_ip_fragment ip_packets,
      ip_fragment_rate = ratio (of_int (count_if pk_ip_fragment ip_packets)) (of_nat (length ip_packets)),
      ecn_ce_packet_count = count_if pk_ecn_ce ip_packets,
      ecn_ce_packet_rate = ratio (of_int (count_if pk_ecn_ce ip_packets)) (of_nat (length ip_packets)),
      icmp_error_count = count_if pk_icmp_error packets\<rparr>"

definition flow_metrics_of :: "packet_record list \<Rightarrow> int \<Rightarrow> flow_metrics" where
  "flow_metrics_of ip_packets transfer_file_size_bytes =
     (let flow_payload = flow_payload_of ip_packets; payload_total = payload_sum ip_packets
      in \<lparr>flow_count = int (length flow_payload),
          unique_remote_ip_count = when_known (direction_available ip_packets) (int (length (remote_ips ip_packets))),
          top_flow_payload_share = (if flow_payload = [] then None
             else ratio (of_int (Max (set (map snd flow_payload)))) (of_int payload_total)),
          flows_for_80pct_payload = flows_for_80_percent flow_payload payload_total,
          connection_churn_per_mib = of_nat (length flow_payload) / (of_int transfer_file_size_bytes / 1048576)\<rparr>)"

definition transfer_metrics_of ::
  "packet_record list \<Rightarrow> packet_record list \<Rightarrow> direction \<Rightarrow> rat option \<Rightarrow> int \<Rightarrow> transfer_metrics" where
  "transfer_metrics_of packets ip_packets primary primary_span_ms file_size =
     (let known = direction_available ip_packets;
          seconds = duration_ms packets / 1000; windows = throughput_windows ip_packets;
          forward = network_sum (in_direction primary ip_packets);
          backward = network_sum (in_direction (if primary = Tx then Rx else Tx) ip_packets)
      in \<lparr>observed_primary_payload_span_ms = primary_span_ms,
          average_network_throughput_mbps =
            (if 0 < seconds then Some (of_int (network_sum ip_packets) * 8 / seconds / 1000000) else None),
          peak_1s_network_throughput_mbps = (if windows = [] then None else Some (Max (set windows))),
          p95_1s_network_throughput_mbps = pct windows 95,
          effective_file_throughput_mbps = (case primary_span_ms of None \<Rightarrow> None | Some t \<Rightarrow> Some (of_int file_size * 8 / (t / 1000) / 1000000)),
          primary_direction_amplification_ratio = when_known known (of_int forward / of_int file_size),
          total_transfer_amplification_ratio = of_int (network_sum ip_packets) / of_int file_size,
          reverse_path_cost_ratio = (if known then ratio (of_int backward) (of_int forward) else None)\<rparr>)"

definition capture_metrics_of :: "packet_record list \<Rightarrow> string \<Rightarrow> int \<Rightarrow> int \<Rightarrow> string list \<Rightarrow> capture_metrics" where
  "capture_metrics_of packets capture_format capture_size_bytes transfer_file_size_bytes warnings =
     \<lparr>mc_capture_format = capture_format, mc_capture_size_bytes = capture_size_bytes,
      mc_transfer_file_size_bytes = transfer_file_size_bytes, mc_capture_duration_ms = duration_ms packets,
      mc_packet_count = int (length packets),
      mc_truncated_packet_count = count_if (\<lambda>p. pk_captured_len p < pk_frame_len p) packets,
      mc_analysis_warning_count = int (length warnings), mc_analysis_warnings = sort warnings\<rparr>"

definition default_fields :: "string list option \<Rightarrow> string list" where
  "default_fields supported_fields = (case supported_fields of
     None \<Rightarrow> [''quic.version'', ''quic.long.packet_type'', ''quic.spin_bit'']
   | Some fs \<Rightarrow> if fs = [] then [''quic.version'', ''quic.long.packet_type'', ''quic.spin_bit''] else fs)"

definition sum_bind :: "'e + 'a \<Rightarrow> ('a \<Rightarrow> 'e + 'b) \<Rightarrow> 'e + 'b" where
  "sum_bind m k = (case m of Inl e \<Rightarrow> Inl e | Inr a \<Rightarrow> k a)"

definition add_if :: "bool \<Rightarrow> string \<Rightarrow> string list \<Rightarrow> string list" where
  "add_if b w ws = (if b then List.insert w ws else ws)"

definition aggregate_packets ::
  "packet_record list \<Rightarrow> string \<Rightarrow> int \<Rightarrow> string \<Rightarrow> int \<Rightarrow> string list option \<Rightarrow> exn + aggregated_metrics" where
  "aggregate_packets packets capture_format capture_size_bytes scenario transfer_file_size_bytes supported_fields =
     (let fs = default_fields supported_fields;
          truncated = count_if (\<lambda>p. pk_captured_len p < pk_frame_len p) packets;
          ip = ip_packets_of packets;
          known = direction_available ip;
          primary = (if scenario = ''upload'' then Tx else Rx);
          w1 = add_if (\<not> known) ''direction_unavailable'' (add_if (truncated \<noteq> 0) ''capture_truncated'' []);
          (span_ms, w2) = primary_span ip primary w1
      in sum_bind (aggregate_tcp ip w2) (\<lambda>(tcp, tcp_rtt, w3).
         sum_bind (aggregate_quic ip fs) (\<lambda>(quic, quic_initial, quic_spin).
         sum_bind (aggregate_udp ip) (\<lambda>udp.
         sum_bind (aggregate_dns packets) (\<lambda>dns.
         let w4 = add_if (quic \<noteq> None \<and> \<not> quic_spin) ''quic_spin_unavailable'' w3;
             w5 = add_if (case dns of None \<Rightarrow> False | Some d \<Rightarrow> dns_query_count d \<noteq> dns_response_count d) ''dns_incomplete'' w4;
             ready = (packets \<noteq> [] \<and> 0 < duration_ms packets \<and> truncated = 0 \<and> known \<and> span_ms \<noteq> None);
             capabilities = \<lparr>direction_metadata_available = known, payload_plaintext_available = True,
                handshake_observed = (case tcp of None \<Rightarrow> False | Some t \<Rightarrow> 0 < tcp_successful_handshake_count t),
                tcp_present = (tcp \<noteq> None), quic_present = (quic \<noteq> None), other_udp_present = (udp \<noteq> None),
                tcp_rtt_available = tcp_rtt, quic_initial_rtt_available = quic_initial, quic_spin_rtt_available = quic_spin,
                dns_metrics_available = (dns \<noteq> None), comparison_ready = ready\<rparr>
         in sum_bind (validated valid_capture_metrics
                       (capture_metrics_of packets capture_format capture_size_bytes transfer_file_size_bytes w5)) (\<lambda>capture.
            sum_bind (validated valid_traffic_metrics (traffic_metrics_of ip)) (\<lambda>traffic.
            sum_bind (validated valid_protocol_mix_metrics (protocol_mix_of ip)) (\<lambda>mix.
            sum_bind (validated valid_ip_metrics (ip_metrics_of packets ip)) (\<lambda>ipm.
            sum_bind (validated valid_flow_metrics (flow_metrics_of ip transfer_file_size_bytes)) (\<lambda>flow.
            sum_bind (validated valid_transfer_metrics (transfer_metrics_of packets ip primary span_ms transfer_file_size_bytes)) (\<lambda>transfer.
              Inr \<lparr>am_capture = capture, am_capabilities = capabilities, am_traffic = traffic, am_protocol_mix = mix, am_ip = ipm,
                   am_flow = flow, am_transfer = transfer, am_tcp = tcp, am_quic = quic, am_udp = udp, am_dns = dns\<rparr>)))))))))))"

section \<open>Intervals\<close>

text \<open>Merged intervals, the last one first, with a gap between any two.\<close>

fun separated :: "(rat \<times> rat) list \<Rightarrow> bool" where
  "separated [] = True"
| "separated ((a, b) # ms) = (a < b \<and> (\<forall>(c, d) \<in> set ms. d < a) \<and> separated ms)"

definition covered :: "(rat \<times> rat) list \<Rightarrow> rat set" where
  "covered is = (\<Union>(s, e) \<in> set is. {s..e})"

definition proper :: "(rat \<times> rat) list \<Rightarrow> (rat \<times> rat) list" where
  "proper is = filter (\<lambda>(s, e). s < e) is"

lemma covered_Cons [simp]: "covered ((s, e) # is) = {s..e} \<union> covered is"
  by (simp add: covered_def)

lemma covered_Nil [simp]: "covered [] = {}"
  by (simp add: covered_def)

lemma proper_Cons: "proper ((s, e) # is) = (if s < e then (s, e) # proper is else proper is)"
  by (simp add: proper_def)

lemma merge_intervals_spec:
  assumes "sorted (map fst is)" and "separated ms" and "\<And>a b rest. ms = (a, b) # rest \<Longrightarrow> \<forall>(s, e) \<in> set is. a \<le> s"
  shows "separated (merge_intervals ms is) \<and> covered (merge_intervals ms is) = covered ms \<union> covered (proper is)"
  using assms
proof (induction ms "is" rule: merge_intervals.induct)
  case (2 ms s e rest)
  have le: "\<forall>(s', e') \<in> set rest. s \<le> s'" using "2.prems"(1) by auto
  have so: "sorted (map fst rest)" using "2.prems"(1) by simp
  show ?case
  proof (cases "e \<le> s")
    case True
    have "\<And>a b l. ms = (a, b) # l \<Longrightarrow> \<forall>(s', e') \<in> set rest. a \<le> s'" using "2.prems"(3) by auto
    from "2.IH"(1) [OF True so "2.prems"(2) this] True show ?thesis by (simp add: proper_Cons)
  next
    case False
    show ?thesis
    proof (cases ms)
      case Nil
      then show ?thesis using "2.IH"(2) [OF False Nil so] False le by (auto simp: proper_Cons)
    next
      case (Cons m ms')
      obtain a b where m: "m = (a, b)" by fastforce
      have as: "a \<le> s" using "2.prems"(3) Cons m by auto
      have sep: "a < b" "\<forall>(c, d) \<in> set ms'. d < a" "separated ms'" using "2.prems"(2) Cons m by auto
      show ?thesis
      proof (cases "b < s")
        case True
        have "\<forall>(c, d) \<in> set ((a, b) # ms'). d < s" using sep True as by fastforce
        then have "separated ((s, e) # (a, b) # ms')" using False sep by auto
        then show ?thesis using "2.IH"(3) [OF False Cons m [symmetric] True so] False True Cons m le by (auto simp: proper_Cons)
      next
        case nb: False
        have "separated ((a, max b e) # ms')" using sep by auto
        moreover have "\<forall>(s', e') \<in> set rest. a \<le> s'" using le as by fastforce
        moreover have "{a..max b e} = {a..b} \<union> {s..e}" using as nb sep(1) False by (auto simp: max_def)
        ultimately show ?thesis using "2.IH"(4) [OF False Cons m [symmetric] nb so] False nb Cons m by (auto simp: proper_Cons)
      qed
    qed
  qed
qed (simp add: proper_def)

definition in_range :: "rat \<Rightarrow> rat \<Rightarrow> (rat \<times> rat) list \<Rightarrow> bool" where
  "in_range lo hi is \<longleftrightarrow> list_all (\<lambda>(s, e). lo \<le> s \<and> e \<le> hi) is"

lemma in_range_simps [simp]:
  "in_range lo hi []"
  "in_range lo hi ((s, e) # is) \<longleftrightarrow> lo \<le> s \<and> e \<le> hi \<and> in_range lo hi is"
  "in_range lo hi (is @ js) \<longleftrightarrow> in_range lo hi is \<and> in_range lo hi js"
  by (auto simp: in_range_def)

text \<open>Separated intervals inside a range are no longer than the range.\<close>

lemma separated_length:
  assumes "separated ms" and "in_range lo hi ms" and "lo \<le> hi"
  shows "0 \<le> total_length ms \<and> total_length ms \<le> hi - lo"
  using assms
proof (induction ms arbitrary: hi)
  case (Cons m ms)
  obtain a b where m: "m = (a, b)" by fastforce
  have "in_range lo a ms" using Cons.prems(1,2) by (force simp: m in_range_def list_all_iff)
  then have "0 \<le> total_length ms \<and> total_length ms \<le> a - lo" using Cons.prems by (intro Cons.IH) (auto simp: m)
  then show ?case using Cons.prems by (auto simp: m total_length_def)
qed (simp add: total_length_def)

lemma merge_within:
  "in_range lo hi is \<Longrightarrow> in_range lo hi ms \<Longrightarrow> in_range lo hi (merge_intervals ms is)"
proof (induction "is" arbitrary: ms)
  case (Cons i rest)
  obtain s e where i: "i = (s, e)" by fastforce
  with Cons.prems have b: "lo \<le> s" "e \<le> hi" "in_range lo hi rest" by auto
  note IH = Cons.IH [OF b(3)]
  show ?case
  proof (cases ms)
    case Nil
    then show ?thesis using IH b by (simp add: i)
  next
    case (Cons m ms')
    obtain a b' where ab: "m = (a, b')" by fastforce
    have "lo \<le> a" "b' \<le> hi" "in_range lo hi ms'" using \<open>in_range lo hi ms\<close> Cons ab by auto
    with b have "in_range lo hi (merge_intervals ((s, e) # (a, b') # ms') rest)"
      "in_range lo hi (merge_intervals ((a, max b' e) # ms') rest)" "in_range lo hi (merge_intervals ((a, b') # ms') rest)"
      by (auto intro!: IH)
    then show ?thesis by (simp add: i Cons ab)
  qed
qed simp


section \<open>Stall time\<close>

lemma scan_stalls_range:
  assumes "\<forall>p \<in> set ps. lo \<le> pk_timestamp p \<and> pk_timestamp p \<le> hi"
    and "\<forall>(k, t) \<in> set st. lo \<le> t \<and> t \<le> hi" and "in_range lo hi iv"
    and "scan_stalls ps st iv = (st', iv')"
  shows "(\<forall>(k, t) \<in> set st'. lo \<le> t \<and> t \<le> hi) \<and> in_range lo hi iv'"
  using assms
proof (induction ps arbitrary: st iv)
  case (Cons p ps)
  have b: "lo \<le> pk_timestamp p" "pk_timestamp p \<le> hi" and ps: "\<forall>p \<in> set ps. lo \<le> pk_timestamp p \<and> pk_timestamp p \<le> hi"
    using Cons.prems(1) by auto
  note IH = Cons.IH [OF ps]
  consider (zero) "pk_tcp_zero_window p"
    | (reopened) started w where "\<not> pk_tcp_zero_window p" "pk_tcp_window_size p = Some w" "0 < w"
        "map_of st (direction_key p) = Some started"
    | (other) "scan_stalls (p # ps) st iv = scan_stalls ps st iv"
    by (fastforce split: option.splits)
  then show ?case
  proof cases
    case zero
    then show ?thesis using Cons.prems(2-4) b by (intro IH [OF _ Cons.prems(3)]) (auto split: if_splits)
  next
    case reopened
    have "lo \<le> started" using Cons.prems(2) map_of_SomeD [OF reopened(4)] by auto
    then have "in_range lo hi (iv @ [(started, pk_timestamp p)])" using Cons.prems(3) b by simp
    then show ?thesis using reopened Cons.prems(2,4) by (intro IH) auto
  next
    case other
    then show ?thesis using Cons.prems(2-4) by (intro IH) simp_all
  qed
qed simp

text \<open>The intervals in which a direction of a flow advertised no window, closed or open at its end.\<close>

definition stalls_of :: "packet_record list \<Rightarrow> (rat \<times> rat) list" where
  "stalls_of records =
     (let (open_stalls, closed) = scan_stalls records [] []
      in closed @ map (\<lambda>(k, started). (started, pk_timestamp (last records))) open_stalls)"

lemma tf_stall_ms_of:
  "tf_stall_ms (tcp_flow_of packets) =
     total_length (merge_intervals [] (sort (stalls_of (sort_key pk_timestamp packets)))) * 1000"
  by (simp add: tcp_flow_of_def stalls_of_def Let_def split: prod.splits)

lemma tf_active_ms_of:
  "tf_active_ms (tcp_flow_of packets) =
     max 0 ((pk_timestamp (last (sort_key pk_timestamp packets)) - pk_timestamp (hd (sort_key pk_timestamp packets))) * 1000)"
  by (simp add: tcp_flow_of_def Let_def split: prod.splits)

lemma in_range_sort [simp]: "in_range lo hi (sort is) = in_range lo hi is"
  by (simp add: in_range_def list_all_iff)

lemma sorted_timestamps:
  assumes "p \<in> set packets"
  shows "pk_timestamp (hd (sort_key pk_timestamp packets)) \<le> pk_timestamp p"
    and "pk_timestamp p \<le> pk_timestamp (last (sort_key pk_timestamp packets))"
proof -
  let ?r = "sort_key pk_timestamp packets"
  obtain i where i: "i < length ?r" "p = ?r ! i" using assms by (metis in_set_conv_nth set_sort)
  have s: "sorted (map pk_timestamp ?r)" by simp
  have ne': "packets \<noteq> []" using assms by auto
  have ne: "?r \<noteq> []" using i(1) by (metis length_0_conv not_less_zero)
  have "map pk_timestamp ?r ! 0 \<le> map pk_timestamp ?r ! i" "map pk_timestamp ?r ! i \<le> map pk_timestamp ?r ! (length ?r - 1)"
    by (rule sorted_nth_mono [OF s]; use i(1) in simp)+
  then show "pk_timestamp (hd ?r) \<le> pk_timestamp p" "pk_timestamp p \<le> pk_timestamp (last ?r)"
    using i ne ne' by (auto simp: hd_conv_nth last_conv_nth)
qed

lemma stalls_in_flow:
  assumes "packets \<noteq> []" and "r = sort_key pk_timestamp packets"
  shows "in_range (pk_timestamp (hd r)) (pk_timestamp (last r)) (stalls_of r)"
proof -
  obtain st iv where s: "scan_stalls r [] [] = (st, iv)" by fastforce
  have "(\<forall>(k, t) \<in> set st. pk_timestamp (hd r) \<le> t \<and> t \<le> pk_timestamp (last r)) \<and> in_range (pk_timestamp (hd r)) (pk_timestamp (last r)) iv"
    by (rule scan_stalls_range [OF _ _ _ s]) (auto simp: assms(2) sorted_timestamps)
  then show ?thesis by (auto simp: stalls_of_def s in_range_def list_all_iff)
qed

lemma merge_sorted:
  "separated (merge_intervals [] (sort is)) \<and> covered (merge_intervals [] (sort is)) = covered (proper is)"
proof -
  have "sorted (map fst (sort is))" by (rule sorted_map_mono) (auto simp: mono_on_def less_eq_prod_def)
  moreover have "covered (proper (sort is)) = covered (proper is)" by (simp add: covered_def proper_def)
  ultimately show ?thesis using merge_intervals_spec [of "sort is" "[]"] by simp
qed

lemma stall_bounds:
  assumes "packets \<noteq> []"
  shows "0 \<le> tf_stall_ms (tcp_flow_of packets)" and "tf_stall_ms (tcp_flow_of packets) \<le> tf_active_ms (tcp_flow_of packets)"
proof -
  define r where "r = sort_key pk_timestamp packets"
  let ?lo = "pk_timestamp (hd r)" and ?hi = "pk_timestamp (last r)"
  have r: "set r = set packets" "r \<noteq> []" using assms by (simp_all add: r_def flip: set_empty)
  have le: "?lo \<le> ?hi" unfolding r_def by (rule sorted_timestamps(1)) (use r in \<open>simp add: r_def [symmetric] flip: r(1)\<close>)
  have "in_range ?lo ?hi (merge_intervals [] (sort (stalls_of r)))" by (rule merge_within) (simp_all add: stalls_in_flow [OF assms r_def])
  from separated_length [OF merge_sorted [THEN conjunct1] this le] le
  show "0 \<le> tf_stall_ms (tcp_flow_of packets)" "tf_stall_ms (tcp_flow_of packets) \<le> tf_active_ms (tcp_flow_of packets)"
    by (auto simp: tf_stall_ms_of tf_active_ms_of r_def)
qed


section \<open>Counting and order statistics\<close>

lemma count_if_bounds: "0 \<le> count_if P xs" "count_if P xs \<le> int (length xs)"
  by (simp_all add: count_if_def)

lemma count_if_append: "count_if P (xs @ ys) = count_if P xs + count_if P ys"
  by (simp add: count_if_def)

lemma count_if_sort: "count_if P (sort xs) = count_if P xs"
  by (metis count_if_def mset_filter mset_sort size_mset)

lemma count_if_all: "\<forall>x \<in> set xs. P x \<Longrightarrow> count_if P xs = int (length xs)"
  by (simp add: count_if_def)

lemma count_if_none: "\<forall>x \<in> set xs. \<not> P x \<Longrightarrow> count_if P xs = 0"
  by (simp add: count_if_def filter_empty_conv)

lemma sorted_rank:
  assumes "sorted l" and "j < length l"
  shows "count_if (\<lambda>x. x < l ! j) l \<le> int j" and "int j + 1 \<le> count_if (\<lambda>x. x \<le> l ! j) l"
proof -
  have "\<forall>x \<in> set (drop j l). \<not> x < l ! j" using assms by (auto simp: in_set_conv_nth not_less intro!: sorted_nth_mono)
  then have "count_if (\<lambda>x. x < l ! j) (take j l @ drop j l) \<le> int j"
    using count_if_bounds(2) [of _ "take j l"] assms(2) unfolding count_if_append by (simp add: count_if_none min_def)
  then show "count_if (\<lambda>x. x < l ! j) l \<le> int j" by simp
  have "\<forall>x \<in> set (take (Suc j) l). x \<le> l ! j" using assms by (auto simp: in_set_conv_nth less_Suc_eq_le intro!: sorted_nth_mono)
  then have "int j + 1 \<le> count_if (\<lambda>x. x \<le> l ! j) (take (Suc j) l @ drop (Suc j) l)"
    using count_if_bounds(1) [of _ "drop (Suc j) l"] assms(2) unfolding count_if_append by (simp add: count_if_all min_def)
  then show "int j + 1 \<le> count_if (\<lambda>x. x \<le> l ! j) l" by (simp del: append_take_drop_id add: append_take_drop_id)
qed

lemma percentile_at:
  assumes "values \<noteq> []" and "0 \<le> p" and "p \<le> 100" and "k = max 1 \<lceil>p / 100 * of_nat (length values)\<rceil>"
  shows "percentile values p = Inr (Some (sort values ! nat (k - 1)))" and "1 \<le> k" and "nat (k - 1) < length values"
proof -
  have "p / 100 * of_nat (length values) \<le> of_nat (length values)"
    using mult_right_mono [of "p / 100" 1 "of_nat (length values)"] assms(3) by simp
  then have "\<lceil>p / 100 * of_nat (length values)\<rceil> \<le> int (length values)" by (simp add: ceiling_le_iff)
  moreover have "1 \<le> int (length values)" using assms(1) by (cases "values") auto
  ultimately show "1 \<le> k" "nat (k - 1) < length values" by (auto simp: assms(4))
  show "percentile values p = Inr (Some (sort values ! nat (k - 1)))" using assms by (simp add: percentile_def Let_def)
qed

text \<open>
  \<open>percentile\<close> is the nearest rank percentile: the value returned is one of the values, at least the
  given share of the values is not above it, and less than that share is below it (none, when the share
  is 0).
\<close>

theorem percentile_is_nearest_rank:
  assumes "values \<noteq> []" and "0 \<le> p" and "p \<le> 100"
  shows "\<exists>v \<in> set values. percentile values p = Inr (Some v)
           \<and> p / 100 * of_nat (length values) \<le> of_int (count_if (\<lambda>x. x \<le> v) values)
           \<and> (count_if (\<lambda>x. x < v) values = 0 \<or> of_int (count_if (\<lambda>x. x < v) values) < p / 100 * of_nat (length values))"
proof -
  define q where "q = p / 100 * of_nat (length values)"
  define k where "k = max 1 \<lceil>q\<rceil>"
  define v where "v = sort values ! nat (k - 1)"
  have k_eq: "k = max 1 \<lceil>p / 100 * of_nat (length values)\<rceil>" unfolding k_def q_def ..
  note rank = percentile_at [OF assms k_eq, folded v_def]
  have k: "1 \<le> k" and j: "nat (k - 1) < length (sort values)" using rank(2,3) by simp_all
  have v: "v \<in> set values" using nth_mem [OF j] by (simp add: v_def)
  have lo: "count_if (\<lambda>x. x < v) values \<le> k - 1" and hi: "k \<le> count_if (\<lambda>x. x \<le> v) values"
    using sorted_rank [OF sorted_sort j] k by (auto simp: v_def count_if_sort)
  have "q \<le> of_int k" by (simp add: k_def le_of_int_ceiling le_max_iff_disj of_int_max)
  then have "q \<le> of_int (count_if (\<lambda>x. x \<le> v) values)" using hi by (meson of_int_le_iff order_trans)
  moreover have "count_if (\<lambda>x. x < v) values = 0 \<or> of_int (count_if (\<lambda>x. x < v) values) < q"
  proof (cases "k = 1")
    case True
    then show ?thesis using lo count_if_bounds(1) [of "\<lambda>x. x < v" "values"] by simp
  next
    case False
    then have "k = \<lceil>q\<rceil>" by (auto simp: k_def)
    then have "count_if (\<lambda>x. x < v) values < \<lceil>q\<rceil>" using lo by linarith
    then show ?thesis by (simp add: less_ceiling_iff)
  qed
  moreover note rank(1)
  ultimately show ?thesis using v unfolding q_def by blast
qed

theorem percentile_is_nearest_rank_witness:
  "\<exists>v \<in> set [7, 1, 4 :: rat]. percentile [7, 1, 4] 50 = Inr (Some v)
     \<and> 50 / 100 * of_nat (length [7, 1, 4 :: rat]) \<le> (of_int (count_if (\<lambda>x. x \<le> v) [7, 1, 4]) :: rat)"
  using percentile_is_nearest_rank [of "[7, 1, 4]" 50] by fastforce


section \<open>The flows that carry most of the payload\<close>

lemma flows_80_loop_spec:
  "(\<exists>k < length bs. flows_80_loop t acc i n bs = i + int k \<and> t \<le> of_int (acc + sum_list (take (Suc k) bs))
      \<and> (\<forall>j. 1 \<le> j \<and> j \<le> k \<longrightarrow> of_int (acc + sum_list (take j bs)) < t))
   \<or> flows_80_loop t acc i n bs = n \<and> (\<forall>j. 1 \<le> j \<and> j \<le> length bs \<longrightarrow> of_int (acc + sum_list (take j bs)) < t)"
proof (induction bs arbitrary: acc i)
  case (Cons b bs)
  show ?case
  proof (cases "t \<le> of_int (acc + b)")
    case True
    then show ?thesis by (intro disjI1 exI [of _ 0]) simp
  next
    case False
    have shift: "(\<forall>j. 1 \<le> j \<and> j \<le> m \<longrightarrow> of_int (acc + b + sum_list (take j bs)) < t)
      \<Longrightarrow> (\<forall>j. 1 \<le> j \<and> j \<le> Suc m \<longrightarrow> of_int (acc + sum_list (take j (b # bs))) < t)" for m
    proof (intro allI impI)
      fix j assume a: "\<forall>j. 1 \<le> j \<and> j \<le> m \<longrightarrow> of_int (acc + b + sum_list (take j bs)) < t" and j: "1 \<le> j \<and> j \<le> Suc m"
      then obtain j' where j': "j = Suc j'" "j' \<le> m" by (cases j) auto
      show "of_int (acc + sum_list (take j (b # bs))) < t"
      proof (cases "j' = 0")
        case True
        then show ?thesis using False j' by simp
      next
        case nz: False
        then show ?thesis using a [rule_format, of j'] j' by (simp add: algebra_simps)
      qed
    qed
    from Cons.IH [of "acc + b" "i + 1"] show ?thesis
    proof
      assume "\<exists>k < length bs. flows_80_loop t (acc + b) (i + 1) n bs = i + 1 + int k
        \<and> t \<le> of_int (acc + b + sum_list (take (Suc k) bs))
        \<and> (\<forall>j. 1 \<le> j \<and> j \<le> k \<longrightarrow> of_int (acc + b + sum_list (take j bs)) < t)"
      then obtain k where k: "k < length bs" "flows_80_loop t (acc + b) (i + 1) n bs = i + 1 + int k"
        "t \<le> of_int (acc + b + sum_list (take (Suc k) bs))"
        "\<forall>j. 1 \<le> j \<and> j \<le> k \<longrightarrow> of_int (acc + b + sum_list (take j bs)) < t" by blast
      show ?thesis by (intro disjI1 exI [of _ "Suc k"] conjI shift [OF k(4)]) (use k(1-3) False in \<open>simp_all add: algebra_simps\<close>)
    next
      assume r: "flows_80_loop t (acc + b) (i + 1) n bs = n
        \<and> (\<forall>j. 1 \<le> j \<and> j \<le> length bs \<longrightarrow> of_int (acc + b + sum_list (take j bs)) < t)"
      show ?thesis using shift [OF r [THEN conjunct2]] r False by simp
    qed
  qed
qed simp

text \<open>No choice of \<open>m\<close> values of a descending list adds up to more than its first \<open>m\<close>.\<close>

lemma take_shift:
  assumes "\<forall>x \<in> set bs. x \<le> (b :: int)" and "m \<le> length bs"
  shows "sum_list (take m bs) \<le> sum_list (take m (b # bs))"
proof (cases m)
  case (Suc n)
  then have "take m bs = take n bs @ [bs ! n]" using assms(2) by (simp add: take_Suc_conv_app_nth)
  then show ?thesis using Suc assms by simp
qed simp

lemma largest_first:
  "sorted_wrt (\<ge>) bs \<Longrightarrow> M \<subseteq># mset bs \<Longrightarrow> sum_mset M \<le> sum_list (take (size M) (bs :: int list))"
proof (induction bs arbitrary: M)
  case (Cons b bs)
  show ?case
  proof (cases "b \<in># M")
    case True
    then obtain M' where M: "M = add_mset b M'" by (meson multi_member_split)
    then have "M' \<subseteq># mset bs" using Cons.prems(2) by simp
    then show ?thesis using Cons.IH Cons.prems(1) by (simp add: M)
  next
    case False
    then have sub: "M \<subseteq># mset bs" using Cons.prems(2) by (metis (no_types) count_add_mset le0 mset.simps(2) not_in_iff subseteq_mset_def)
    then have "size M \<le> length bs" using size_mset_mono by fastforce
    then have "sum_list (take (size M) bs) \<le> sum_list (take (size M) (b # bs))" using Cons.prems(1) by (intro take_shift) auto
    then show ?thesis using Cons.IH [OF _ sub] Cons.prems(1) by simp
  qed
qed simp


lemma flows_for_80_cases:
  assumes "0 < total_payload" and "t = of_int total_payload * (8 / 10 :: rat)" and "bs = rev (sort (map snd fp))"
  shows "(\<exists>k. 1 \<le> k \<and> k \<le> length fp \<and> flows_for_80_percent fp total_payload = int k \<and> t \<le> of_int (sum_list (take k bs))
            \<and> (\<forall>j < k. of_int (sum_list (take j bs)) < t))
         \<or> flows_for_80_percent fp total_payload = int (length fp) \<and> (\<forall>j. of_int (sum_list (take j bs)) < t)"
proof -
  have l: "length bs = length fp" by (simp add: assms(3))
  have t: "0 < t" using assms by simp
  have f: "flows_for_80_percent fp total_payload = flows_80_loop t 0 1 (int (length fp)) bs"
    unfolding flows_for_80_percent_def assms(2,3) using assms(1) by simp
  from flows_80_loop_spec [of bs t 0 1 "int (length fp)"] show ?thesis
  proof
    assume "\<exists>k < length bs. flows_80_loop t 0 1 (int (length fp)) bs = 1 + int k \<and> t \<le> of_int (0 + sum_list (take (Suc k) bs))
      \<and> (\<forall>j. 1 \<le> j \<and> j \<le> k \<longrightarrow> of_int (0 + sum_list (take j bs)) < t)"
    then obtain k where k: "k < length bs" "flows_80_loop t 0 1 (int (length fp)) bs = 1 + int k"
      "t \<le> of_int (sum_list (take (Suc k) bs))" "\<forall>j. 1 \<le> j \<and> j \<le> k \<longrightarrow> of_int (sum_list (take j bs)) < t" by auto
    have "of_int (sum_list (take j bs)) < t" if "j < Suc k" for j using k(4) that t by (cases "j = 0") auto
    then show ?thesis using k f l by (intro disjI1 exI [of _ "Suc k"]) auto
  next
    assume a: "flows_80_loop t 0 1 (int (length fp)) bs = int (length fp)
      \<and> (\<forall>j. 1 \<le> j \<and> j \<le> length bs \<longrightarrow> of_int (0 + sum_list (take j bs)) < t)"
    have "of_int (sum_list (take j bs)) < t" for j
    proof (cases "length bs < j")
      case True
      then have "take j bs = take (length bs) bs" by simp
      moreover have "of_int (sum_list (take (length bs) bs)) < t" if "bs \<noteq> []"
        using a [THEN conjunct2, rule_format, of "length bs"] that by (cases bs) auto
      ultimately show ?thesis using t by (cases "bs = []") (simp_all del: take_all)
    next
      case False
      then show ?thesis using a t by (cases "j = 0") auto
    qed
    then show ?thesis using a f by simp
  qed
qed

text \<open>
  C23: \<open>_flows_for_80_percent\<close> is the least number of flows that carry 80 % of the payload: some flows of that
  number reach the share and no smaller choice of flows does. When no choice of flows reaches it (packets
  without ports carry payload outside every flow), it is the number of all flows.
\<close>

theorem flows_for_80_percent_is_least:
  assumes "0 < total_payload"
  shows "(\<exists>M. M \<subseteq># mset (map snd flow_payload) \<and> flows_for_80_percent flow_payload total_payload = int (size M)
            \<and> of_int total_payload * (8 / 10 :: rat) \<le> of_int (sum_mset M)
            \<and> (\<forall>N. N \<subseteq># mset (map snd flow_payload) \<and> size N < size M \<longrightarrow> of_int (sum_mset N) < of_int total_payload * (8 / 10 :: rat)))
         \<or> flows_for_80_percent flow_payload total_payload = int (length flow_payload)
            \<and> (\<forall>N. N \<subseteq># mset (map snd flow_payload) \<longrightarrow> of_int (sum_mset N) < of_int total_payload * (8 / 10 :: rat))"
proof -
  define bs where "bs = rev (sort (map snd flow_payload))"
  define t :: rat where "t = of_int total_payload * (8 / 10)"
  have ms: "mset bs = mset (map snd flow_payload)" and l: "length bs = length flow_payload" by (simp_all add: bs_def)
  have so: "sorted_wrt (\<ge>) bs" by (simp add: bs_def sorted_wrt_rev)
  have bound: "of_int (sum_mset N) < t" if "N \<subseteq># mset bs" "of_int (sum_list (take (size N) bs)) < t" for N
    using largest_first [OF so that(1)] that(2) by (meson of_int_le_iff order_le_less_trans)
  from flows_for_80_cases [OF assms t_def bs_def] show ?thesis
  proof (elim disjE exE conjE)
    fix k assume k: "k \<le> length flow_payload" "flows_for_80_percent flow_payload total_payload = int k"
      "t \<le> of_int (sum_list (take k bs))" "\<forall>j < k. of_int (sum_list (take j bs)) < t"
    have "mset (take k bs) \<subseteq># mset bs" by (metis append_take_drop_id mset_append mset_subset_eq_add_left)
    moreover have "size (mset (take k bs)) = k" using k(1) l by simp
    moreover have "sum_mset (mset (take k bs)) = sum_list (take k bs)" by (simp add: sum_mset_sum_list)
    ultimately show ?thesis using k(2-4) bound unfolding ms t_def [symmetric] by (intro disjI1 exI [of _ "mset (take k bs)"]) auto
  next
    assume "flows_for_80_percent flow_payload total_payload = int (length flow_payload)" "\<forall>j. of_int (sum_list (take j bs)) < t"
    then show ?thesis using bound unfolding ms t_def [symmetric] by blast
  qed
qed

theorem flows_for_80_percent_is_least_witness:
  "\<exists>M. M \<subseteq># mset [70, 20, 10 :: int] \<and> int (size M) = 2 \<and> (80 :: rat) \<le> of_int (sum_mset M)
     \<and> flows_for_80_percent [((4, [], 0, [], 0, TCP), 70), ((4, [], 1, [], 0, TCP), 20), ((4, [], 2, [], 0, TCP), 10)] 100 = int (size M)"
proof -
  let ?fp = "[((4, [], 0, [], 0, TCP), 70), ((4, [], 1, [], 0, TCP), 20), ((4, [], 2, [], 0, TCP), 10)] :: (flow_key \<times> int) list"
  have e: "flows_for_80_percent ?fp 100 = 2" by (simp add: flows_for_80_percent_def)
  have m: "mset (map snd ?fp) = mset [70, 20, 10]" by simp
  have t: "of_int 100 * (8 / 10) = (80 :: rat)" by simp
  have "\<not> of_int (sum_mset (mset [70, 20, 10 :: int])) < (80 :: rat)" by simp
  then have "\<not> (\<forall>N. N \<subseteq># mset [70, 20, 10 :: int] \<longrightarrow> of_int (sum_mset N) < (80 :: rat))" by blast
  moreover note flows_for_80_percent_is_least [of 100 ?fp, unfolded m t]
  ultimately show ?thesis using e by auto
qed

end
