(* ===== verification/Metrics_Contract.thy ===== *)
theory Metrics_Contract
  imports Network_Metrics
begin

text \<open>
  The metrics \<open>aggregate_packets\<close> computes against the contract of the event that carries them
  (\<open>network_events.py\<close>): which captures it aggregates and which make it raise \<open>ValidationError\<close>. Each
  group of metrics has a lemma saying when its model validates; the aggregation of a whole capture
  composes them.
\<close>

section \<open>Grouping\<close>

lemma group_by_snoc:
  "group_by key (xs @ [x]) = (case key x of None \<Rightarrow> group_by key xs
     | Some k \<Rightarrow> AList.map_default k [x] (\<lambda>l. l @ [x]) (group_by key xs))"
  by (simp add: group_by_def split: option.split)

lemma group_by_Nil [simp]: "group_by key [] = []"
  by (simp add: group_by_def)

lemma sum_by_snoc:
  "sum_by key f (xs @ [x]) = (case key x of None \<Rightarrow> sum_by key f xs
     | Some k \<Rightarrow> AList.map_default k (f x) (\<lambda>s. s + f x) (sum_by key f xs))"
  by (simp add: sum_by_def split: option.split)

lemma sum_by_Nil [simp]: "sum_by key f [] = []"
  by (simp add: sum_by_def)

lemma map_default_snd:
  "list_all (\<lambda>g. Q (snd g)) g \<Longrightarrow> Q v \<Longrightarrow> (\<And>s. Q s \<Longrightarrow> Q (f s)) \<Longrightarrow> list_all (\<lambda>g. Q (snd g)) (AList.map_default k v f g)"
  by (induction g) auto

text \<open>Every group is a list of some of the elements, and not empty.\<close>

lemma group_by_groups:
  "set ys \<subseteq> A \<Longrightarrow> list_all (\<lambda>g. snd g \<noteq> [] \<and> set (snd g) \<subseteq> A) (group_by key ys)"
proof (induction ys rule: rev_induct)
  case (snoc y ys)
  then have "list_all (\<lambda>g. snd g \<noteq> [] \<and> set (snd g) \<subseteq> A) (group_by key ys)" and "y \<in> A" by simp_all
  then show ?case unfolding group_by_snoc by (cases "key y") (simp_all add: map_default_snd [where Q = "\<lambda>l. l \<noteq> [] \<and> set l \<subseteq> A"])
qed simp

lemma group_by_member: "g \<in> set (group_by key xs) \<Longrightarrow> snd g \<noteq> [] \<and> set (snd g) \<subseteq> set xs"
  using group_by_groups [of xs "set xs" key] by (simp add: list_all_iff)

lemma map_default_sum: "sum_list (map snd (AList.map_default k v (\<lambda>s. s + v) g)) = sum_list (map snd g) + (v :: int)"
  by (induction g) auto

lemma sum_by_total:
  assumes "\<forall>x \<in> set xs. 0 \<le> f x"
  shows "sum_list (map snd (sum_by key f xs)) \<le> sum_list (map f xs) \<and> list_all (\<lambda>g. 0 \<le> snd g) (sum_by key f xs)"
  using assms
proof (induction xs rule: rev_induct)
  case (snoc x xs)
  then have IH: "sum_list (map snd (sum_by key f xs)) \<le> sum_list (map f xs)" "list_all (\<lambda>g. 0 \<le> snd g) (sum_by key f xs)"
    and x: "0 \<le> f x" by simp_all
  have "list_all (\<lambda>g. 0 \<le> snd g) (AList.map_default k (f x) (\<lambda>s. s + f x) (sum_by key f xs))" for k
    by (rule map_default_snd [where Q = "\<lambda>s. 0 \<le> s", OF IH(2)]) (use x in simp_all)
  then show ?case unfolding sum_by_snoc using IH x by (cases "key x") (simp_all add: map_default_sum)
qed simp

lemma sum_by_member:
  assumes "\<forall>x \<in> set xs. 0 \<le> f x" and "(k, s) \<in> set (sum_by key f xs)"
  shows "0 \<le> s" and "s \<le> sum_list (map f xs)"
proof -
  note t = sum_by_total [OF assms(1), of key]
  then have nn: "\<forall>g \<in> set (sum_by key f xs). 0 \<le> snd g" by (simp add: list_all_iff)
  then show "0 \<le> s" using assms(2) by fastforce
  have "s \<in> set (map snd (sum_by key f xs))" using assms(2) by force
  then have "s \<le> sum_list (map snd (sum_by key f xs))" by (rule member_le_sum_list) (use nn in auto)
  then show "s \<le> sum_list (map f xs)" using t by simp
qed

section \<open>Ratios, averages and percentiles\<close>

named_theorems metric_intros

lemma optional_simps [simp]: "optional P None" "optional P (Some x) = P x"
  by (simp_all add: optional_def)

lemma ratio_is_ratio [metric_intros]: "0 \<le> x \<Longrightarrow> x \<le> y \<Longrightarrow> optional is_ratio (ratio x y)"
  by (simp add: ratio_def is_ratio_def)

lemma ratio_non_negative [metric_intros]: "0 \<le> x \<Longrightarrow> optional non_negative (ratio x y)"
  by (simp add: ratio_def non_negative_def)

lemma pct_member: "0 \<le> p \<Longrightarrow> p \<le> 100 \<Longrightarrow> pct vs p = Some v \<Longrightarrow> v \<in> set vs"
  by (cases "vs = []") (use percentile_at [of vs p] nth_mem [of _ "sort vs"] in \<open>auto simp: pct_def percentile_def\<close>)

lemma pct_non_negative:
  assumes "\<forall>v \<in> set vs. 0 \<le> v" and "0 \<le> p" and "p \<le> 100"
  shows "optional non_negative (pct vs p)"
  using pct_member [OF assms(2,3)] assms(1) by (auto simp: optional_def non_negative_def split: option.split)

lemmas pct_50_95 [metric_intros] = pct_non_negative [of _ 50, simplified] pct_non_negative [of _ 95, simplified]

lemma average_non_negative [metric_intros]: "\<forall>v \<in> set vs. 0 \<le> v \<Longrightarrow> optional non_negative (average vs)"
  by (simp add: average_def non_negative_def sum_list_nonneg)

lemma minimum_non_negative [metric_intros]: "\<forall>v \<in> set vs. 0 \<le> v \<Longrightarrow> optional non_negative (minimum vs)"
  by (simp add: minimum_def non_negative_def)

lemma set_values_of: "set (values_of f xs) = {y. \<exists>x \<in> set xs. f x = Some y}"
  by (auto simp: values_of_def split: option.splits)

lemma values_of_non_negative:
  "\<forall>x \<in> set xs. optional non_negative (f x) \<Longrightarrow> \<forall>v \<in> set (map (\<lambda>r. r * 1000) (values_of f xs)). (0 :: rat) \<le> v"
  by (force simp: set_values_of non_negative_def)

text \<open>What the analyzer guarantees of a packet: lengths and times are not negative.\<close>

definition packet_ok :: "packet_record \<Rightarrow> bool" where
  "packet_ok p \<longleftrightarrow> 0 \<le> pk_network_bytes p \<and> 0 \<le> pk_l4_payload_bytes p
     \<and> optional non_negative (pk_tcp_initial_rtt_seconds p) \<and> optional non_negative (pk_tcp_ack_rtt_seconds p)
     \<and> optional non_negative (pk_dns_time_seconds p)"

lemma sums_non_negative:
  assumes "\<forall>p \<in> set ps. packet_ok p"
  shows "0 \<le> network_sum ps" and "0 \<le> payload_sum ps"
  using assms by (auto simp: network_sum_def payload_sum_def packet_ok_def intro!: sum_list_nonneg)

lemma filtered_sums:
  assumes "\<forall>p \<in> set ps. packet_ok p"
  shows "network_sum (filter P ps) \<le> network_sum ps" and "payload_sum (filter P ps) \<le> payload_sum ps"
  using assms by (auto simp: network_sum_def payload_sum_def packet_ok_def intro!: sum_list_filter_le)

lemma filtered_non_negative:
  assumes "\<forall>p \<in> set ps. packet_ok p"
  shows "0 \<le> network_sum (filter P ps)" and "0 \<le> payload_sum (filter P ps)"
  using sums_non_negative [of "filter P ps"] assms by auto


section \<open>The groups of metrics\<close>

lemma ratio_contract: "0 \<le> x \<Longrightarrow> optional is_ratio (ratio x y) \<longleftrightarrow> y \<le> 0 \<or> x \<le> y"
  by (auto simp: ratio_def is_ratio_def)

lemma count_ratio [metric_intros]: "optional is_ratio (ratio (of_int (count_if P xs)) (of_nat (length xs)))"
proof (rule ratio_is_ratio)
  show "0 \<le> rat_of_int (count_if P xs)" by (simp add: count_if_bounds)
  have "rat_of_int (count_if P xs) \<le> rat_of_int (int (length xs))" unfolding of_int_le_iff by (rule count_if_bounds)
  then show "rat_of_int (count_if P xs) \<le> rat_of_nat (length xs)" by simp
qed

lemma count_non_negative [metric_intros]: "non_negative (count_if P xs)"
  by (simp add: non_negative_def count_if_bounds)

lemma length_non_negative [metric_intros]: "non_negative (int n)"
  by (simp add: non_negative_def)

lemma tcp_flow_bounds:
  assumes "f \<in> set (tcp_flows ps)" and "\<forall>p \<in> set ps. packet_ok p"
  shows "0 \<le> tf_stall_ms f" and "tf_stall_ms f \<le> tf_active_ms f" and "optional non_negative (tf_initial_rtt f)"
proof -
  obtain g where g: "g \<in> set (group_by tcp_connection_key ps)" "f = tcp_flow_of (snd g)"
    using assms(1) by (auto simp: tcp_flows_def)
  note m = group_by_member [OF g(1)]
  show "0 \<le> tf_stall_ms f" "tf_stall_ms f \<le> tf_active_ms f" using stall_bounds m g(2) by auto
  have "\<forall>p \<in> set (sort_key pk_timestamp (snd g)). optional non_negative (pk_tcp_initial_rtt_seconds p)"
    using m assms(2) by (auto simp: packet_ok_def)
  then have "\<forall>v \<in> set (values_of pk_tcp_initial_rtt_seconds (sort_key pk_timestamp (snd g))). 0 \<le> v"
    by (force simp: set_values_of non_negative_def)
  then show "optional non_negative (tf_initial_rtt f)"
    by (auto simp: g(2) tcp_flow_of_def Let_def non_negative_def split: prod.splits list.splits)
qed

lemma tail_inflation:
  assumes "optional non_negative x" and "optional non_negative y"
  shows "optional non_negative (case (x, y) of (Some a, Some b) \<Rightarrow> if b = (0 :: rat) then None else Some (a / b) | _ \<Rightarrow> None)"
  using assms by (auto simp: non_negative_def split: option.splits)

text \<open>The TCP metrics validate unless more segments were retransmitted than carried data.\<close>

lemma tcp_metrics_valid:
  assumes "\<forall>p \<in> set ps. packet_ok p"
  shows "valid_tcp_metrics (tcp_metrics_of ps (tcp_flows ps)) \<longleftrightarrow>
    count_if (\<lambda>p. 0 < pk_l4_payload_bytes p) ps = 0 \<or> count_if retransmitted ps \<le> count_if (\<lambda>p. 0 < pk_l4_payload_bytes p) ps"
proof -
  let ?fs = "tcp_flows ps"
  let ?acks = "map (\<lambda>r. r * 1000) (values_of pk_tcp_ack_rtt_seconds ps)"
  have rtts: "\<forall>v \<in> set (values_of tf_initial_rtt ?fs). 0 \<le> v"
    using tcp_flow_bounds(3) [OF _ assms] by (force simp: set_values_of non_negative_def)
  have acks: "\<forall>v \<in> set ?acks. 0 \<le> v" using assms by (intro values_of_non_negative) (auto simp: packet_ok_def)
  have tail: "optional non_negative
      (case (pct ?acks 95, pct ?acks 50) of (Some a, Some b) \<Rightarrow> if b = 0 then None else Some (a / b) | _ \<Rightarrow> None)"
    by (intro tail_inflation metric_intros acks)
  have stalls: "0 \<le> sum_list (map tf_stall_ms ?fs)" "sum_list (map tf_stall_ms ?fs) \<le> sum_list (map tf_active_ms ?fs)"
    using tcp_flow_bounds(1,2) [OF _ assms] by (auto intro!: sum_list_nonneg sum_list_mono)
  have tax: "optional is_ratio (ratio (of_int (payload_sum (filter retransmitted ps))) (of_int (payload_sum ps)))"
    using filtered_non_negative [OF assms] filtered_sums [OF assms] by (intro metric_intros) simp_all
  have rate: "optional is_ratio (ratio (of_nat (length (filter retransmitted ps))) (of_int n)) \<longleftrightarrow> n \<le> 0 \<or> count_if retransmitted ps \<le> n" for n
  proof -
    have "rat_of_nat (length (filter retransmitted ps)) = rat_of_int (count_if retransmitted ps)" by (simp add: count_if_def)
    then show ?thesis by (simp only: ratio_contract of_nat_0_le_iff) simp
  qed
  have nn: "non_negative (payload_sum (filter retransmitted ps))" "non_negative (sum_list (map tf_stall_ms ?fs))"
    "non_negative (sum_list (map tf_active_ms ?fs))" "non_negative (max 0 (x :: int))" for x
    using filtered_non_negative(2) [OF assms] stalls by (simp_all add: non_negative_def)
  note facts = tail tax rate nn count_non_negative length_non_negative ratio_is_ratio [OF stalls]
    count_ratio [of tf_handshake ?fs] count_ratio [of tf_reset ?fs] pct_50_95 [OF rtts] pct_50_95 [OF acks]
    average_non_negative [OF rtts] minimum_non_negative [OF acks]
  have "valid_tcp_metrics (tcp_metrics_of ps ?fs) \<longleftrightarrow>
      count_if (\<lambda>p. 0 < pk_l4_payload_bytes p) ps \<le> 0 \<or> count_if retransmitted ps \<le> count_if (\<lambda>p. 0 < pk_l4_payload_bytes p) ps"
    unfolding valid_tcp_metrics_def tcp_metrics_of_def Let_def tcp_metrics.simps of_int_of_nat_eq
    by (simp only: facts simp_thms)
  then show ?thesis using count_if_bounds(1) [of "\<lambda>p. 0 < pk_l4_payload_bytes p" ps] by linarith
qed


lemma spin_samples_non_negative: "\<forall>v \<in> set (spin_samples previous ps). 0 \<le> v"
  by (induction ps arbitrary: previous) (auto simp: Let_def split: option.split)

lemma quic_initial_rtt_non_negative: "\<forall>v \<in> set (quic_initial_rtt ps). 0 \<le> v"
  by (auto simp: quic_initial_rtt_def Let_def split: option.split)

lemma quic_metrics_valid:
  assumes "\<forall>v \<in> set rtts. 0 \<le> v" and "\<forall>v \<in> set samples. 0 \<le> v"
  shows "valid_quic_metrics (quic_metrics_of ps fs rtts samples (int n))"
proof -
  have "optional non_negative (if b then Some (count_if P xs) else None)" "optional non_negative (if b then Some (int m) else None)"
    for b m and P :: "'a \<Rightarrow> bool" and xs
    by (simp_all add: metric_intros)
  note facts = this length_non_negative optional_simps pct_50_95 [OF assms(1)] pct_50_95 [OF assms(2)]
    average_non_negative [OF assms(1)] minimum_non_negative [OF assms(2)]
  show ?thesis
    unfolding valid_quic_metrics_def quic_metrics_of_def Let_def quic_metrics.simps
    by (simp add: facts count_non_negative)
qed

lemma aggregate_quic_total: "\<exists>r. aggregate_quic ps fs = Inr r"
proof -
  have "valid_quic_metrics (quic_metrics_of qs fs (concat (map quic_initial_rtt fl)) (concat (map (spin_samples []) fl)) (int n))" for qs fl n
    by (rule quic_metrics_valid) (use quic_initial_rtt_non_negative spin_samples_non_negative in auto)
  then show ?thesis by (auto simp: aggregate_quic_def Let_def validated_def)
qed

lemma add_pair_bounds: "0 \<le> fst x \<Longrightarrow> 0 \<le> snd x \<Longrightarrow> 0 \<le> fst y \<Longrightarrow> 0 \<le> snd y \<Longrightarrow> 0 \<le> fst (add_pair x y) \<and> 0 \<le> snd (add_pair x y)"
  by (simp add: add_pair_def)

lemma flow_directions_non_negative:
  assumes "\<forall>p \<in> set ps. packet_ok p"
  shows "list_all (\<lambda>g. 0 \<le> fst (snd g) \<and> 0 \<le> snd (snd g)) (flow_directions ps)"
  using assms
proof (induction ps rule: rev_induct)
  case (snoc p ps)
  then have IH: "list_all (\<lambda>g. 0 \<le> fst (snd g) \<and> 0 \<le> snd (snd g)) (flow_directions ps)" and p: "packet_ok p" by simp_all
  have f: "0 \<le> fst (forward_bytes p) \<and> 0 \<le> snd (forward_bytes p)" using p by (auto simp: forward_bytes_def packet_ok_def split: option.split)
  have "list_all (\<lambda>g. 0 \<le> fst (snd g) \<and> 0 \<le> snd (snd g)) (AList.map_default k (forward_bytes p) (add_pair (forward_bytes p)) (flow_directions ps))" for k
    by (rule map_default_snd [where Q = "\<lambda>b. 0 \<le> fst b \<and> 0 \<le> snd b", OF IH f]) (use f in \<open>simp add: add_pair_bounds\<close>)
  then show ?case using IH by (cases "flow_key p") (simp_all add: flow_directions_def)
qed (simp add: flow_directions_def)

lemma fold_add_pair: "list_all (\<lambda>b. 0 \<le> fst b \<and> 0 \<le> snd b) bs \<Longrightarrow> 0 \<le> fst a \<and> 0 \<le> snd a
    \<Longrightarrow> 0 \<le> fst (fold add_pair bs a) \<and> 0 \<le> snd (fold add_pair bs a)"
  by (induction bs arbitrary: a) (simp_all add: add_pair_bounds)

lemma direction_totals_non_negative:
  assumes "\<forall>p \<in> set ps. packet_ok p"
  shows "0 \<le> fst (direction_totals ps) \<and> 0 \<le> snd (direction_totals ps)"
  unfolding direction_totals_def
  by (rule fold_add_pair) (use flow_directions_non_negative [OF assms] in \<open>simp_all add: list_all_iff\<close>)

lemma udp_metrics_valid:
  assumes "\<forall>p \<in> set ps. packet_ok p"
  shows "valid_udp_metrics (udp_metrics_of ps)"
proof -
  obtain x y where xy: "direction_totals ps = (x, y)" by fastforce
  then have b: "0 \<le> x" "0 \<le> y" using direction_totals_non_negative [OF assms] by simp_all
  have sizes: "\<forall>v \<in> set (map (of_int \<circ> pk_l4_payload_bytes) ps). (0 :: rat) \<le> v" using assms by (auto simp: packet_ok_def)
  have "optional is_ratio (if 0 < max x y then Some (of_int (min x y) / of_int (max x y)) else None)"
    using b by (auto simp: is_ratio_def divide_le_eq_1 max_def min_def)
  moreover have "non_negative (network_sum ps)" "non_negative (payload_sum ps)"
    using sums_non_negative [OF assms] by (simp_all add: non_negative_def)
  ultimately show ?thesis
    unfolding valid_udp_metrics_def udp_metrics_of_def Let_def xy prod.case udp_metrics.simps
    by (simp only: length_non_negative pct_50_95 [OF sizes] simp_thms)
qed

lemma aggregate_udp_total:
  assumes "\<forall>p \<in> set ps. packet_ok p"
  shows "\<exists>r. aggregate_udp ps = Inr r"
  using udp_metrics_valid [of "filter (\<lambda>p. pk_transport p = UDP \<and> \<not> pk_quic p) ps"] assms
  by (simp add: aggregate_udp_def Let_def validated_def)

lemma aggregate_dns_total:
  assumes "\<forall>p \<in> set ps. packet_ok p"
  shows "\<exists>r. aggregate_dns ps = Inr r"
proof -
  have "valid_dns_metrics (dns_metrics_of (filter P ps))" for P
  proof -
    have "\<forall>v \<in> set (map (\<lambda>r. r * 1000) (values_of pk_dns_time_seconds (filter P ps))). 0 \<le> v"
      using assms by (intro values_of_non_negative) (auto simp: packet_ok_def)
    from pct_50_95 [OF this] show ?thesis
      unfolding valid_dns_metrics_def dns_metrics_of_def Let_def dns_metrics.simps by (simp only: count_non_negative simp_thms)
  qed
  then show ?thesis by (simp add: aggregate_dns_def Let_def validated_def)
qed

lemma aggregate_tcp_iff:
  assumes "\<forall>p \<in> set ps. packet_ok p" and "ts = filter (\<lambda>p. pk_transport p = TCP) ps"
  shows "(\<exists>r. aggregate_tcp ps w = Inr r) \<longleftrightarrow>
    count_if (\<lambda>p. 0 < pk_l4_payload_bytes p) ts = 0 \<or> count_if retransmitted ts \<le> count_if (\<lambda>p. 0 < pk_l4_payload_bytes p) ts"
    and "(\<exists>r. aggregate_tcp ps w = Inr r) \<or> aggregate_tcp ps w = Inl (ValidationError ''metrics'')"
proof -
  have "\<forall>p \<in> set ts. packet_ok p" using assms by simp
  note v = tcp_metrics_valid [OF this]
  show "(\<exists>r. aggregate_tcp ps w = Inr r) \<longleftrightarrow>
    count_if (\<lambda>p. 0 < pk_l4_payload_bytes p) ts = 0 \<or> count_if retransmitted ts \<le> count_if (\<lambda>p. 0 < pk_l4_payload_bytes p) ts"
  proof (cases "ts = []")
    case True
    then show ?thesis by (auto simp: aggregate_tcp_def Let_def count_if_def assms(2) [symmetric])
  next
    case False
    then show ?thesis unfolding v [symmetric] by (simp add: aggregate_tcp_def Let_def validated_def flip: assms(2))
  qed
  show "(\<exists>r. aggregate_tcp ps w = Inr r) \<or> aggregate_tcp ps w = Inl (ValidationError ''metrics'')"
    by (auto simp: aggregate_tcp_def Let_def validated_def)
qed


section \<open>A whole capture\<close>

lemma warnings_stripped:
  "stripped ''capture_truncated''" "stripped ''direction_unavailable''" "stripped ''zero_transfer_span''" "stripped ''no_primary_payload''"
  "stripped ''tcp_zero_window_open_at_capture_end''" "stripped ''missing_tcp_handshake''" "stripped ''quic_spin_unavailable''"
  "stripped ''dns_incomplete''"
  by code_simp+

lemma primary_span_stripped:
  "primary_span ip d ws = (s, ws') \<Longrightarrow> \<forall>w \<in> set ws. stripped w \<Longrightarrow> \<forall>w \<in> set ws'. stripped w"
  by (auto simp: primary_span_def Let_def warnings_stripped split: if_splits)

lemma primary_span_positive: "primary_span ip d ws = (Some t, ws') \<Longrightarrow> 0 < t"
  by (auto simp: primary_span_def Let_def split: if_splits)

lemma aggregate_tcp_stripped:
  "aggregate_tcp ps ws = Inr (m, b, ws') \<Longrightarrow> \<forall>w \<in> set ws. stripped w \<Longrightarrow> \<forall>w \<in> set ws'. stripped w"
  by (auto simp: aggregate_tcp_def Let_def warnings_stripped split: if_splits sum.splits)

lemma duration_non_negative: "0 \<le> duration_ms ps"
  by (simp add: duration_ms_def)

lemma capture_metrics_valid:
  assumes "is_capture_format f" and "0 < n" and "0 < m" and "\<forall>w \<in> set ws. stripped w"
  shows "valid_capture_metrics (capture_metrics_of ps f n m ws)"
  using assms by (simp add: valid_capture_metrics_def capture_metrics_of_def list_all_iff positive_def metric_intros)
    (simp add: non_negative_def duration_non_negative)

lemma when_known_optional [metric_intros]: "P v \<Longrightarrow> optional P (when_known b v)"
  by (simp add: when_known_def)

lemma traffic_metrics_valid:
  assumes "\<forall>p \<in> set ps. packet_ok p"
  shows "valid_traffic_metrics (traffic_metrics_of ps)"
proof -
  note nn = sums_non_negative [OF assms] filtered_non_negative [OF assms]
  have "optional is_ratio (ratio (of_int (max 0 (network_sum ps - payload_sum ps))) (of_int (network_sum ps)))"
    by (rule ratio_is_ratio; use nn(1,2) in \<open>simp only: of_int_le_iff of_int_0_le_iff max_def\<close>; simp)
  then show ?thesis using nn
    by (simp add: valid_traffic_metrics_def traffic_metrics_of_def Let_def in_direction_def when_known_def non_negative_def)
qed

lemma protocol_mix_valid:
  assumes "\<forall>p \<in> set ps. packet_ok p"
  shows "valid_protocol_mix_metrics (protocol_mix_of ps)"
proof -
  note nn = filtered_non_negative(1) [OF assms]
  have three: "optional is_ratio (ratio (of_int a) (of_int (a + b + c)))" "optional is_ratio (ratio (of_int b) (of_int (a + b + c)))"
    "optional is_ratio (ratio (of_int c) (of_int (a + b + c)))" if "0 \<le> a" "0 \<le> b" "0 \<le> c" for a b c
    by (rule ratio_is_ratio; use that in \<open>simp only: of_int_le_iff of_int_0_le_iff\<close>)+
  have share: "optional is_ratio (ratio (of_int (network_sum (filter P ps))) (of_int (network_sum ps)))" for P
    by (rule ratio_is_ratio) (use nn filtered_sums(1) [OF assms] in \<open>simp_all only: of_int_le_iff of_int_0_le_iff\<close>)
  have "non_negative (network_sum (filter P ps))" for P using nn by (simp add: non_negative_def)
  note facts = this share three [OF nn nn nn]
  show ?thesis
    unfolding valid_protocol_mix_metrics_def protocol_mix_of_def Let_def protocol_mix_metrics.simps by (simp only: facts simp_thms)
qed

lemma ip_metrics_valid: "valid_ip_metrics (ip_metrics_of ps ip)"
  unfolding valid_ip_metrics_def ip_metrics_of_def ip_metrics.simps by (simp only: count_ratio count_non_negative simp_thms)

lemma flow_metrics_valid:
  assumes "\<forall>p \<in> set ps. packet_ok p" and "0 < n"
  shows "valid_flow_metrics (flow_metrics_of ps n)"
proof -
  have nn: "\<forall>p \<in> set ps. 0 \<le> pk_l4_payload_bytes p" using assms(1) by (auto simp: packet_ok_def)
  note mem = sum_by_member [OF nn, where key = flow_key, folded flow_payload_of_def payload_sum_def]
  have top: "0 \<le> Max (set (map snd (flow_payload_of ps)))" "Max (set (map snd (flow_payload_of ps))) \<le> payload_sum ps"
    if "flow_payload_of ps \<noteq> []"
  proof -
    have "Max (set (map snd (flow_payload_of ps))) \<in> set (map snd (flow_payload_of ps))" by (rule Max_in) (use that in auto)
    then obtain k where "(k, Max (set (map snd (flow_payload_of ps)))) \<in> set (flow_payload_of ps)" by force
    then show "0 \<le> Max (set (map snd (flow_payload_of ps)))" "Max (set (map snd (flow_payload_of ps))) \<le> payload_sum ps"
      using mem by blast+
  qed
  have share: "optional is_ratio (if flow_payload_of ps = [] then None
      else ratio (of_int (Max (set (map snd (flow_payload_of ps))))) (of_int (payload_sum ps)))"
    using top by (auto intro!: ratio_is_ratio)
  have eighty: "non_negative (flows_for_80_percent (flow_payload_of ps) (payload_sum ps))"
  proof (cases "0 < payload_sum ps")
    case True
    from flows_for_80_cases [OF this refl refl, of "flow_payload_of ps"] show ?thesis by (auto simp: non_negative_def)
  qed (simp add: flows_for_80_percent_def non_negative_def)
  have churn: "non_negative (rat_of_nat l / (of_int n / 1048576))" for l using assms(2) by (simp add: non_negative_def)
  show ?thesis
    unfolding valid_flow_metrics_def flow_metrics_of_def Let_def flow_metrics.simps
    by (simp only: share eighty churn when_known_optional length_non_negative simp_thms)
qed


lemma optional_Some_pct:
  assumes "\<forall>v \<in> set vs. (0 :: rat) \<le> v"
  shows "optional non_negative (if vs = [] then None else Some (Max (set vs)))"
  using assms by (auto simp: non_negative_def intro: Max_ge_iff [THEN iffD2])

lemma transfer_metrics_valid:
  assumes "\<forall>p \<in> set ps. packet_ok p" and "\<And>t. s = Some t \<Longrightarrow> 0 < t" and "0 < n"
  shows "valid_transfer_metrics (transfer_metrics_of all ps d s n)"
proof -
  have nn: "\<forall>p \<in> set ps. 0 \<le> pk_network_bytes p" using assms(1) by (auto simp: packet_ok_def)
  have windows: "\<forall>v \<in> set (throughput_windows ps). 0 \<le> v"
    using sum_by_member(1) [OF nn] by (fastforce simp: throughput_windows_def)
  note sums = sums_non_negative(1) [OF assms(1)] filtered_non_negative(1) [OF assms(1)]
  have "optional non_negative (if 0 < x then Some (of_int (network_sum ps) * 8 / x / 1000000) else None)" for x :: rat
    using sums(1) by (simp add: non_negative_def)
  moreover have "optional non_negative s"
    using assms(2) by (cases s) (auto simp: non_negative_def less_imp_le)
  moreover have "optional non_negative (case s of None \<Rightarrow> None | Some t \<Rightarrow> Some (of_int n * 8 / (t / 1000) / 1000000))"
    using assms(2,3) by (cases s) (auto simp: non_negative_def less_imp_le)
  moreover have "optional non_negative (when_known b (rat_of_int (network_sum (filter P ps)) / of_int n))" for b P
    using sums(2) assms(3) by (simp add: when_known_def non_negative_def)
  moreover have "non_negative (rat_of_int (network_sum ps) / of_int n)" using sums(1) assms(3) by (simp add: non_negative_def)
  moreover have "optional non_negative (if b then ratio (rat_of_int (network_sum (filter P ps))) y else None)" for b P y
    using sums(2) by (simp add: ratio_non_negative)
  ultimately show ?thesis
    unfolding valid_transfer_metrics_def transfer_metrics_of_def Let_def transfer_metrics.simps in_direction_def
    by (simp only: optional_Some_pct [OF windows] pct_50_95 [OF windows] simp_thms)
qed

lemma validated_ok: "P m \<Longrightarrow> sum_bind (validated P m) k = k m"
  by (simp add: validated_def sum_bind_def)

lemma ip_packets_ok: "\<forall>p \<in> set ps. packet_ok p \<Longrightarrow> \<forall>p \<in> set (ip_packets_of ps). packet_ok p"
  by (simp add: ip_packets_of_def)

text \<open>Every group but TCP validates, so the aggregation succeeds exactly when that of TCP does.\<close>

lemma aggregate_packets_tcp:
  assumes "\<forall>p \<in> set ps. packet_ok p" and "is_capture_format f" and "0 < n" and "0 < m"
  shows "\<exists>w k. aggregate_packets ps f n scenario m fs = sum_bind (aggregate_tcp (ip_packets_of ps) w) k
           \<and> (\<forall>t. aggregate_tcp (ip_packets_of ps) w = Inr t \<longrightarrow> (\<exists>r. k t = Inr r))"
proof -
  let ?ip = "ip_packets_of ps"
  let ?known = "direction_available ?ip"
  let ?truncated = "count_if (\<lambda>p. pk_captured_len p < pk_frame_len p) ps"
  define d where "d = (if scenario = ''upload'' then Tx else Rx)"
  define w1 where "w1 = add_if (\<not> ?known) ''direction_unavailable'' (add_if (?truncated \<noteq> 0) ''capture_truncated'' [])"
  obtain s w2 where span: "primary_span ?ip d w1 = (s, w2)" by fastforce
  note ok = ip_packets_ok [OF assms(1)]
  have w2: "\<forall>w \<in> set w2. stripped w"
    by (rule primary_span_stripped [OF span]) (simp add: w1_def add_if_def warnings_stripped)
  obtain quic qi qs where q: "aggregate_quic ?ip (default_fields fs) = Inr (quic, qi, qs)"
    using aggregate_quic_total [of ?ip "default_fields fs"] by fastforce
  obtain udp where u: "aggregate_udp ?ip = Inr udp" using aggregate_udp_total [OF ok] by blast
  obtain dns where dn: "aggregate_dns ps = Inr dns" using aggregate_dns_total [OF assms(1)] by blast
  have transfer: "valid_transfer_metrics (transfer_metrics_of ps ?ip d s m)"
    by (rule transfer_metrics_valid [OF ok _ assms(4)]) (use span primary_span_positive in blast)
  note valid = validated_ok [where P = valid_capture_metrics, OF capture_metrics_valid [OF assms(2-4)]]
    validated_ok [where P = valid_traffic_metrics, OF traffic_metrics_valid [OF ok]]
    validated_ok [where P = valid_protocol_mix_metrics, OF protocol_mix_valid [OF ok]]
    validated_ok [where P = valid_ip_metrics, OF ip_metrics_valid]
    validated_ok [where P = valid_flow_metrics, OF flow_metrics_valid [OF ok assms(4)]]
    validated_ok [where P = valid_transfer_metrics, OF transfer]
  have e: "\<exists>k. aggregate_packets ps f n scenario m fs = sum_bind (aggregate_tcp ?ip w2) k
    \<and> (\<forall>tcp b w3. (\<forall>w \<in> set w3. stripped w) \<longrightarrow> (\<exists>r. k (tcp, b, w3) = Inr r))"
    unfolding aggregate_packets_def Let_def d_def [symmetric] w1_def [symmetric] span prod.case
    by (intro exI conjI, rule refl) (simp add: q u dn sum_bind_def [of "Inr _"] valid warnings_stripped add_if_def)
  then obtain k where k: "aggregate_packets ps f n scenario m fs = sum_bind (aggregate_tcp ?ip w2) k"
    "\<forall>tcp b w3. (\<forall>w \<in> set w3. stripped w) \<longrightarrow> (\<exists>r. k (tcp, b, w3) = Inr r)" by blast
  have "\<exists>r. k t = Inr r" if "aggregate_tcp ?ip w2 = Inr t" for t
    using that k(2) aggregate_tcp_stripped [OF _ w2] by (cases t) blast
  then show ?thesis using k(1) by blast
qed



text \<open>A capture of a connection whose SYN was sent three times before one segment of data.\<close>

definition demo_packet :: "rat \<Rightarrow> int \<Rightarrow> bool \<Rightarrow> bool \<Rightarrow> packet_record" where
  "demo_packet time payload syn again =
     \<lparr>pk_timestamp = time, pk_frame_len = 60, pk_captured_len = 60, pk_direction = Some Tx, pk_ip_version = Some 4,
      pk_network_bytes = 40 + payload, pk_src_ip = Some ''10.0.0.1'', pk_dst_ip = Some ''10.0.0.2'', pk_src_port = Some 40000,
      pk_dst_port = Some 443, pk_transport = TCP, pk_l4_payload_bytes = payload, pk_tcp_stream = Some 0, pk_ip_fragment = False,
      pk_ecn_ce = False, pk_icmp_error = False, pk_tcp_syn = syn, pk_tcp_ack = \<not> syn, pk_tcp_rst = False, pk_tcp_window_size = Some 64,
      pk_tcp_initial_rtt_seconds = None, pk_tcp_ack_rtt_seconds = None, pk_tcp_retransmission = again, pk_tcp_fast_retransmission = False,
      pk_tcp_spurious_retransmission = False, pk_tcp_zero_window = False, pk_tcp_window_full = False, pk_tcp_out_of_order = False,
      pk_tcp_duplicate_ack = False, pk_tcp_lost_segment = False, pk_quic = False, pk_quic_version = None, pk_quic_packet_type = None,
      pk_quic_spin_bit = None, pk_dns_is_response = None, pk_dns_response_code = None, pk_dns_time_seconds = None\<rparr>"

definition demo_capture :: "packet_record list" where
  "demo_capture = [demo_packet 0 0 True False, demo_packet 1 0 True True, demo_packet 3 0 True True, demo_packet 4 10 False False]"

lemma demo_capture_facts:
  "\<forall>p \<in> set demo_capture. packet_ok p"
  "filter (\<lambda>p. pk_transport p = TCP) (ip_packets_of demo_capture) = demo_capture"
  "count_if (\<lambda>p. 0 < pk_l4_payload_bytes p) demo_capture = 1"
  "count_if retransmitted demo_capture = 2"
  by (simp_all add: demo_capture_def demo_packet_def packet_ok_def ip_packets_of_def count_if_def retransmitted_def)


text \<open>
  C21: The receiver stall time of a TCP flow is the length of the union of its stalls in both directions: the
  merged intervals are disjoint and cover exactly the stalls of positive length. So it is never negative and
  never exceeds the time the flow was active.
\<close>

theorem stall_time_is_union:
  assumes "packets \<noteq> []"
  shows "\<exists>merged. tf_stall_ms (tcp_flow_of packets) = total_length merged * 1000 \<and> separated merged
           \<and> covered merged = covered (proper (stalls_of (sort_key pk_timestamp packets)))
           \<and> 0 \<le> tf_stall_ms (tcp_flow_of packets) \<and> tf_stall_ms (tcp_flow_of packets) \<le> tf_active_ms (tcp_flow_of packets)"
  using tf_stall_ms_of merge_sorted [of "stalls_of (sort_key pk_timestamp packets)"] stall_bounds [OF assms] by blast

theorem stall_time_is_union_witness:
  "\<exists>merged. tf_stall_ms (tcp_flow_of demo_capture) = total_length merged * 1000 \<and> separated merged
     \<and> covered merged = covered (proper (stalls_of (sort_key pk_timestamp demo_capture)))"
proof -
  have "demo_capture \<noteq> []" by (simp add: demo_capture_def)
  from stall_time_is_union [OF this] show ?thesis by blast
qed

end
