(* ===== verification/Capture_Tables.thy ===== *)
theory Capture_Tables
  imports Ingestion_Store Kafka_Messaging "HOL-Library.Product_Lexorder"
begin

text \<open>
  What the network capture service, its maintenance operations and the analyzer worker share: the errors
  (\<open>network/exceptions.py\<close>), the tables of captures and idempotency keys (\<open>network/models.py\<close>) with the
  repository on them (\<open>network/repository.py\<close>), the object storage adapter (\<open>network/storage.py\<close>), the
  event publisher (\<open>network/publisher.py\<close>) and the request schema (\<open>network/schemas.py\<close>).

  The library \<open>boto3\<close> and the Kafka producer are functions on the rest of the world \<open>'x\<close>, each with a
  result or an exception. A table is an association list from identifiers to rows in order of insertion;
  the constraints PostgreSQL enforces are guards of the insertions. Advisory locks only order
  transactions and have no other effect.
\<close>

section \<open>Errors\<close>

definition net_error :: "string \<Rightarrow> string \<Rightarrow> string \<Rightarrow> exn" where
  "net_error cls code message = Py \<lparr>exn_type = cls, exn_text = message, exn_is_value_error = False, attr_status_code = None,
     attr_code = Some (AStr code), attr_retry_after = None, attr_headers = None\<rparr>"

definition CaptureNotFoundError :: "uuid \<Rightarrow> exn" where
  "CaptureNotFoundError capture_id = net_error ''CaptureNotFoundError'' ''capture_not_found''
     (''Network capture '' @ nat_str capture_id @ '' was not found'')"

definition IdempotencyConflictError :: exn where
  "IdempotencyConflictError = net_error ''IdempotencyConflictError'' ''idempotency_conflict''
     ''Idempotency-Key was already used for a different capture request''"

definition CaptureMetadataConflictError :: exn where
  "CaptureMetadataConflictError = net_error ''CaptureMetadataConflictError'' ''capture_metadata_conflict''
     ''capture_format, capture_size_bytes, and transfer_file_size_bytes must match the existing logical capture''"

definition InvalidCaptureStateError :: "string \<Rightarrow> exn" where
  "InvalidCaptureStateError m = net_error ''InvalidCaptureStateError'' ''invalid_capture_state'' m"

definition CaptureObjectMissingError :: "string \<Rightarrow> exn" where
  "CaptureObjectMissingError m = net_error ''CaptureObjectMissingError'' ''capture_object_missing'' m"

definition CaptureObjectSizeMismatchError :: "string \<Rightarrow> exn" where
  "CaptureObjectSizeMismatchError m = net_error ''CaptureObjectSizeMismatchError'' ''capture_object_size_mismatch'' m"

definition StorageUnavailableError :: "string \<Rightarrow> exn" where
  "StorageUnavailableError m = net_error ''StorageUnavailableError'' ''object_storage_unavailable'' m"

definition CaptureTooLargeError :: "string \<Rightarrow> exn" where
  "CaptureTooLargeError m = net_error ''CaptureTooLargeError'' ''capture_too_large'' m"

definition CaptureDispatchError :: "string \<Rightarrow> exn" where
  "CaptureDispatchError m = net_error ''CaptureDispatchError'' ''capture_dispatch_unavailable'' m"

definition CleanupConflictError :: "string \<Rightarrow> exn" where
  "CleanupConflictError m = net_error ''CleanupConflictError'' ''cleanup_conflict'' m"

definition TerminalAnalysisError :: "string \<Rightarrow> string \<Rightarrow> exn" where
  "TerminalAnalysisError code message = net_error ''TerminalAnalysisError'' code message"

definition runtime_error :: "string \<Rightarrow> exn" where
  "runtime_error m = mk_exn ''RuntimeError'' m False"

section \<open>State and ports\<close>

record idempotency_row =
  ik_capture_id :: uuid
  ik_request_fingerprint :: string
  ik_created_at :: seconds

record 'x net_state =
  ns_captures :: "(uuid \<times> network_capture) list"
  ns_keys :: "(uuid \<times> idempotency_row) list"
  ns_applications :: "(uuid \<times> string) list"
  ns_world :: 'x

text \<open>What \<open>storage.py\<close> inspects of an exception of \<open>boto3\<close>.\<close>

record s3_error =
  se_status :: "int option"
  se_code :: "string option"

datatype net_event = CaptureReady "network_capture_ready envelope" | AnalysisCollected "network_analysis_collected envelope"

record object_metadata =
  om_size_bytes :: int
  om_content_type :: "string option"

record 'x net_ports =
  s3_put_url :: "string \<Rightarrow> string \<Rightarrow> 'x \<Rightarrow> (s3_error + string) \<times> 'x"
  s3_get_url :: "string \<Rightarrow> 'x \<Rightarrow> (s3_error + string) \<times> 'x"
  s3_head :: "string \<Rightarrow> 'x \<Rightarrow> (s3_error + object_metadata) \<times> 'x"
  s3_download :: "string \<Rightarrow> 'x \<Rightarrow> (s3_error + bytes) \<times> 'x"
  s3_delete :: "string \<Rightarrow> 'x \<Rightarrow> (s3_error + unit) \<times> 'x"
  s3_head_bucket :: "'x \<Rightarrow> (s3_error + unit) \<times> 'x"
  s3_create_bucket :: "string option \<Rightarrow> 'x \<Rightarrow> (s3_error + unit) \<times> 'x"
  kp_publish :: "string \<Rightarrow> ptext \<Rightarrow> net_event \<Rightarrow> ('x, unit) act"
  kp_flush :: "('x, unit) act"
  kp_close :: "('x, unit) act"

definition on_world :: "('x, 'r) act \<Rightarrow> ('x net_state, 'r) act" where
  "on_world f s = (case f (ns_world s) of (r, x) \<Rightarrow> (r, s\<lparr>ns_world := x\<rparr>))"

section \<open>Object storage\<close>

definition is_missing_object_error :: "s3_error \<Rightarrow> bool" where
  "is_missing_object_error e \<longleftrightarrow> se_status e = Some 404 \<or> se_code e \<in> {Some ''404'', Some ''NoSuchKey'', Some ''NotFound''}"

definition generate_presigned_put :: "'x net_ports \<Rightarrow> string \<Rightarrow> string \<Rightarrow> ('x, string) act" where
  "generate_presigned_put ports object_key content_type x = (case s3_put_url ports object_key content_type x of
     (Inl _, x') \<Rightarrow> (Inl (StorageUnavailableError ''Could not create an upload URL''), x') | (Inr u, x') \<Rightarrow> (Inr u, x'))"

definition generate_presigned_get :: "'x net_ports \<Rightarrow> string \<Rightarrow> ('x, string) act" where
  "generate_presigned_get ports object_key x = (case s3_get_url ports object_key x of
     (Inl _, x') \<Rightarrow> (Inl (StorageUnavailableError ''Could not create a download URL''), x') | (Inr u, x') \<Rightarrow> (Inr u, x'))"

definition head_object :: "'x net_ports \<Rightarrow> string \<Rightarrow> ('x, object_metadata option) act" where
  "head_object ports object_key x = (case s3_head ports object_key x of
     (Inl e, x') \<Rightarrow> if is_missing_object_error e then (Inr None, x')
                  else (Inl (StorageUnavailableError ''Could not inspect the capture object''), x')
   | (Inr m, x') \<Rightarrow> (Inr (Some m), x'))"

definition download_file :: "'x net_ports \<Rightarrow> string \<Rightarrow> ('x, bytes) act" where
  "download_file ports object_key x = (case s3_download ports object_key x of
     (Inl e, x') \<Rightarrow> if is_missing_object_error e then (Inl (CaptureObjectMissingError ''The completed capture object no longer exists''), x')
                  else (Inl (StorageUnavailableError ''Could not download the capture object''), x')
   | (Inr b, x') \<Rightarrow> (Inr b, x'))"

definition delete_object :: "'x net_ports \<Rightarrow> string \<Rightarrow> ('x, unit) act" where
  "delete_object ports object_key x = (case s3_delete ports object_key x of
     (Inl _, x') \<Rightarrow> (Inl (StorageUnavailableError ''Could not delete the capture object''), x') | (Inr u, x') \<Rightarrow> (Inr u, x'))"

text \<open>The bucket is created when it is missing, with a location unless the region is the default one.\<close>

definition is_missing_bucket_error :: "s3_error \<Rightarrow> bool" where
  "is_missing_bucket_error e \<longleftrightarrow> se_status e = Some 404 \<or> se_code e \<in> {Some ''404'', Some ''NoSuchBucket'', Some ''NotFound''}"

definition ensure_bucket :: "'x net_ports \<Rightarrow> string \<Rightarrow> ('x, bool) act" where
  "ensure_bucket ports region x = (case s3_head_bucket ports x of
     (Inr _, x1) \<Rightarrow> (Inr False, x1)
   | (Inl e, x1) \<Rightarrow>
       if \<not> is_missing_bucket_error e then (Inl (StorageUnavailableError ''Could not inspect the capture bucket''), x1)
       else (case s3_create_bucket ports (if region \<noteq> ''us-east-1'' then Some region else None) x1 of
               (Inl _, x2) \<Rightarrow> (Inl (StorageUnavailableError ''Could not create the capture bucket''), x2)
             | (Inr _, x2) \<Rightarrow> (Inr True, x2)))"

section \<open>Publisher\<close>

definition dispatch :: "'x net_ports \<Rightarrow> string \<Rightarrow> string \<Rightarrow> ptext \<Rightarrow> (exn + net_event) \<Rightarrow> ('x, unit) act" where
  "dispatch ports failure topic key event =
     act_catch (case event of Inl e \<Rightarrow> act_raise e
                | Inr ev \<Rightarrow> act_bind (kp_publish ports topic key ev) (\<lambda>_. kp_flush ports))
       (\<lambda>_. act_raise (CaptureDispatchError failure))"

definition ready_payload :: "uuid \<Rightarrow> network_capture \<Rightarrow> string \<Rightarrow> seconds \<Rightarrow> network_capture_ready" where
  "ready_payload capture_id capture package_name uploaded_at =
     \<lparr>nr_capture_id = capture_id, nr_analysis_id = nc_analysis_id capture, nr_application_id = nc_application_id capture,
      nr_package_name = package_name, nr_scenario = nc_scenario capture, nr_object_key = nc_object_key capture,
      nr_capture_format = nc_capture_format capture, nr_capture_size_bytes = nc_capture_size_bytes capture,
      nr_transfer_file_size_bytes = nc_transfer_file_size_bytes capture, nr_expected_sha256 = nc_expected_sha256 capture,
      nr_uploaded_at = uploaded_at\<rparr>"

definition publish_ready :: "'x net_ports \<Rightarrow> uuid \<Rightarrow> network_capture \<Rightarrow> string \<Rightarrow> ('x, unit) act" where
  "publish_ready ports capture_id capture package_name =
     (case nc_uploaded_at capture of
        None \<Rightarrow> act_raise (value_error ''an uploaded timestamp is required before publication'')
      | Some uploaded_at \<Rightarrow>
          (let payload = ready_payload capture_id capture package_name uploaded_at
           in if \<not> valid_network_capture_ready payload then act_raise (ValidationError ''NetworkCaptureReadyV1'')
              else dispatch ports ''Could not publish the capture-ready event'' NETWORK_CAPTURE_READY_TOPIC
                     (to_text (nat_str (nc_application_id capture)))
                     (map_sum id CaptureReady (capture_ready_envelope payload (nc_ready_event_id capture)))))"

definition publish_analysis :: "'x net_ports \<Rightarrow> network_capture \<Rightarrow> network_analysis_collected \<Rightarrow> ('x, unit) act" where
  "publish_analysis ports capture payload =
     dispatch ports ''Could not publish the analysis event'' NETWORK_ANALYSIS_COLLECTED_TOPIC
       (to_text (nat_str (nc_application_id capture)))
       (map_sum id AnalysisCollected (analysis_collected_envelope payload (nc_analysis_event_id capture)))"

definition close_publisher :: "'x net_ports \<Rightarrow> ('x, unit) act" where
  "close_publisher ports = kp_close ports"

section \<open>Requests\<close>

record capture_create =
  cc_application_id :: uuid
  cc_scenario :: string
  cc_filename :: string
  cc_capture_size_bytes :: int
  cc_transfer_file_size_bytes :: int
  cc_sha256 :: string

text \<open>\<open>PurePath(value).suffix\<close>: the last component of the path, and its last extension.\<close>

fun split_on :: "char \<Rightarrow> string \<Rightarrow> string list" where
  "split_on d [] = [[]]"
| "split_on d (c # cs) = (if c = d then [] # split_on d cs
     else case split_on d cs of [] \<Rightarrow> [[c]] | w # ws \<Rightarrow> (c # w) # ws)"

definition path_name :: "string \<Rightarrow> string" where
  "path_name s = (let parts = filter (\<lambda>p. p \<notin> {'''', ''.''}) (split_on (CHR ''/'') s) in if parts = [] then [] else last parts)"

definition path_suffix :: "string \<Rightarrow> string" where
  "path_suffix s =
     (let name = path_name s; ext = rev (takeWhile (\<lambda>c. c \<noteq> CHR ''.'') (rev name)); n = length name - length ext
      in if CHR ''.'' \<notin> set name \<or> n \<le> 1 \<or> ext = [] then [] else CHR ''.'' # ext)"

definition valid_capture_create :: "capture_create \<Rightarrow> bool" where
  "valid_capture_create d \<longleftrightarrow> is_scenario (cc_scenario d) \<and> stripped (cc_filename d) \<and> positive (cc_capture_size_bytes d)
     \<and> positive (cc_transfer_file_size_bytes d) \<and> is_sha256 (cc_sha256 d)
     \<and> lower (path_suffix (cc_filename d)) \<in> {''.pcap'', ''.pcapng''}"

definition cc_capture_format :: "capture_create \<Rightarrow> string" where
  "cc_capture_format d = (if lower (path_suffix (cc_filename d)) = ''.pcapng'' then ''pcapng'' else ''pcap'')"

definition cc_content_type :: "capture_create \<Rightarrow> string" where
  "cc_content_type d = (if cc_capture_format d = ''pcapng'' then ''application/x-pcapng'' else ''application/vnd.tcpdump.pcap'')"

record capture_create_response =
  cr_capture_id :: uuid
  cr_analysis_id :: uuid
  cr_ready_event_id :: uuid
  cr_status :: string
  cr_upload_required :: bool
  cr_upload_url :: "string option"
  cr_expires_in :: "int option"

record download_url_response =
  dr_capture_id :: uuid
  dr_download_url :: string
  dr_expires_in :: int

section \<open>Repository\<close>

definition CAPTURE_STATUSES :: "string list" where
  "CAPTURE_STATUSES = [''pending_upload'', ''uploaded'', ''analyzing'', ''analyzed'', ''failed'', ''expired'']"

definition capture_checks :: "network_capture \<Rightarrow> bool" where
  "capture_checks c \<longleftrightarrow> is_scenario (nc_scenario c) \<and> is_capture_format (nc_capture_format c) \<and> nc_status c \<in> set CAPTURE_STATUSES
     \<and> 0 < nc_capture_size_bytes c \<and> 0 < nc_transfer_file_size_bytes c \<and> 0 \<le> nc_analysis_attempt_count c"

definition same_logical :: "network_capture \<Rightarrow> network_capture \<Rightarrow> bool" where
  "same_logical c d \<longleftrightarrow> nc_application_id c = nc_application_id d \<and> nc_scenario c = nc_scenario d \<and> nc_expected_sha256 c = nc_expected_sha256 d"

definition clashes :: "network_capture \<Rightarrow> network_capture \<Rightarrow> bool" where
  "clashes c d \<longleftrightarrow> nc_ready_event_id c = nc_ready_event_id d \<or> nc_analysis_id c = nc_analysis_id d
     \<or> nc_analysis_event_id c = nc_analysis_event_id d \<or> same_logical c d"

definition application_package_name :: "'x net_state \<Rightarrow> uuid \<Rightarrow> string option" where
  "application_package_name s application_id = map_of (ns_applications s) application_id"

definition get_capture :: "'x net_state \<Rightarrow> uuid \<Rightarrow> network_capture option" where
  "get_capture s capture_id = map_of (ns_captures s) capture_id"

definition get_idempotency_key :: "'x net_state \<Rightarrow> uuid \<Rightarrow> idempotency_row option" where
  "get_idempotency_key s key = map_of (ns_keys s) key"

definition get_logical :: "'x net_state \<Rightarrow> uuid \<Rightarrow> string \<Rightarrow> string \<Rightarrow> (uuid \<times> network_capture) option" where
  "get_logical s application_id scenario expected_sha256 =
     List.find (\<lambda>(i, c). nc_application_id c = application_id \<and> nc_scenario c = scenario \<and> nc_expected_sha256 c = expected_sha256) (ns_captures s)"

text \<open>\<open>ORDER BY analysis_finished_at DESC NULLS LAST LIMIT 1\<close>\<close>

definition finished_later :: "network_capture \<Rightarrow> network_capture \<Rightarrow> bool" where
  "finished_later c d = (case (nc_analysis_finished_at c, nc_analysis_finished_at d) of
     (Some t, Some u) \<Rightarrow> u < t | (Some _, None) \<Rightarrow> True | _ \<Rightarrow> False)"

fun latest_finished :: "(uuid \<times> network_capture) list \<Rightarrow> (uuid \<times> network_capture) option" where
  "latest_finished [] = None"
| "latest_finished (c # cs) = (case latest_finished cs of None \<Rightarrow> Some c
     | Some d \<Rightarrow> Some (if finished_later (snd d) (snd c) then d else c))"

definition get_verified_object :: "'x net_state \<Rightarrow> string \<Rightarrow> (uuid \<times> network_capture) option" where
  "get_verified_object s object_key = latest_finished (filter (\<lambda>(i, c). nc_object_key c = object_key
     \<and> nc_verified_sha256 c \<noteq> None \<and> nc_object_deleted_at c = None) (ns_captures s))"

definition list_captures :: "'x net_state \<Rightarrow> uuid option \<Rightarrow> string option \<Rightarrow> string option \<Rightarrow> (uuid \<times> network_capture) list" where
  "list_captures s application_id scenario status =
     sort_key (\<lambda>(i, c). (- nc_created_at c, i))
       (filter (\<lambda>(i, c). (application_id = None \<or> application_id = Some (nc_application_id c))
          \<and> (scenario = None \<or> scenario = Some (nc_scenario c)) \<and> (status = None \<or> status = Some (nc_status c))) (ns_captures s))"

definition package_name_for_capture :: "'x net_state \<Rightarrow> network_capture \<Rightarrow> exn + string" where
  "package_name_for_capture s c = (case application_package_name s (nc_application_id c) of
     None \<Rightarrow> Inl (mk_exn ''AssertionError'' '''' False) | Some p \<Rightarrow> Inr p)"

definition put_capture :: "uuid \<Rightarrow> network_capture \<Rightarrow> 'x net_state \<Rightarrow> 'x net_state" where
  "put_capture i c s = s\<lparr>ns_captures := map (\<lambda>(j, d). if j = i then (j, c) else (j, d)) (ns_captures s)\<rparr>"

definition add_capture :: "uuid \<Rightarrow> network_capture \<Rightarrow> 'x net_state \<Rightarrow> exn + 'x net_state" where
  "add_capture i c s =
     (if \<not> fits_bigint (nc_capture_size_bytes c) \<or> \<not> fits_bigint (nc_transfer_file_size_bytes c) \<or> \<not> fits_text (nc_original_filename c)
      then Inl (data_error ''network_captures'')
      else if map_of (ns_captures s) i \<noteq> None \<or> list_ex (\<lambda>(j, d). clashes c d) (ns_captures s)
        \<or> map_of (ns_applications s) (nc_application_id c) = None \<or> \<not> capture_checks c
        then Inl (integrity_error ''network_captures'')
      else Inr (s\<lparr>ns_captures := ns_captures s @ [(i, c)]\<rparr>))"

definition add_idempotency_key :: "uuid \<Rightarrow> idempotency_row \<Rightarrow> 'x net_state \<Rightarrow> exn + 'x net_state" where
  "add_idempotency_key key row s =
     (if map_of (ns_keys s) key \<noteq> None \<or> map_of (ns_captures s) (ik_capture_id row) = None
      then Inl (integrity_error ''network_capture_idempotency_keys'')
      else Inr (s\<lparr>ns_keys := ns_keys s @ [(key, row)]\<rparr>))"

definition count_object_references :: "'x net_state \<Rightarrow> string \<Rightarrow> nat" where
  "count_object_references s object_key =
     length (filter (\<lambda>(i, c). nc_object_key c = object_key \<and> nc_object_deleted_at c = None) (ns_captures s))"

definition captures_for_object :: "'x net_state \<Rightarrow> string \<Rightarrow> (uuid \<times> network_capture) list" where
  "captures_for_object s object_key = filter (\<lambda>(i, c). nc_object_key c = object_key) (ns_captures s)"

definition mark_object_deleted :: "string \<Rightarrow> seconds \<Rightarrow> 'x net_state \<Rightarrow> 'x net_state" where
  "mark_object_deleted object_key deleted_at s =
     s\<lparr>ns_captures := map (\<lambda>(i, c). (i, if nc_object_key c = object_key then c\<lparr>nc_object_deleted_at := Some deleted_at\<rparr> else c)) (ns_captures s)\<rparr>"

end
