(* ===== verification/Capture_Service.thy ===== *)
theory Capture_Service
  imports Capture_Tables
begin

text \<open>
  The capture service behind the HTTP routes (\<open>network/service.py\<close>): creating a capture with an
  idempotency key, completing an upload, and handing out URLs.

  A request is one transaction of the session up to its commit, followed by the publication. The
  argument \<open>others\<close> of \<open>cs_create\<close> is what concurrent transactions commit between the reads of the
  request and its insertion, which is how the insertion can meet an \<open>IntegrityError\<close>. The digest
  \<open>hashlib.sha256(...).hexdigest()\<close> is a parameter; clock readings and generated identifiers are arguments.
\<close>

definition object_key_for :: "string \<Rightarrow> string \<Rightarrow> string" where
  "object_key_for sha256 capture_format = ''captures/sha256/'' @ take 2 sha256 @ ''/'' @ sha256 @ ''.'' @ capture_format"

section \<open>Request fingerprint\<close>

text \<open>\<open>json.dumps\<close> of a string with \<open>ensure_ascii=False\<close>.\<close>

definition hex_char :: "nat \<Rightarrow> char" where
  "hex_char d = (if d < 10 then char_of (48 + d) else char_of (87 + d))"

definition json_char :: "char \<Rightarrow> string" where
  "json_char c =
     (if c = CHR 0x22 then [CHR 0x5C, CHR 0x22]
      else if c = CHR 0x5C then [CHR 0x5C, CHR 0x5C]
      else if c = CHR 0x08 then [CHR 0x5C, CHR ''b'']
      else if c = CHR 0x0C then [CHR 0x5C, CHR ''f'']
      else if c = CHR 0x0A then [CHR 0x5C, CHR ''n'']
      else if c = CHR 0x0D then [CHR 0x5C, CHR ''r'']
      else if c = CHR 0x09 then [CHR 0x5C, CHR ''t'']
      else if (of_char c :: nat) < 32 then [CHR 0x5C, CHR ''u'', CHR ''0'', CHR ''0'', hex_char (of_char c div 16), hex_char (of_char c mod 16)]
      else [c])"

definition json_string :: "string \<Rightarrow> string" where
  "json_string s = CHR 0x22 # concat (map json_char s) @ [CHR 0x22]"

definition json_member :: "string \<Rightarrow> string \<Rightarrow> string" where
  "json_member name text_value = json_string name @ CHR '':'' # text_value"

definition canonical_request :: "capture_create \<Rightarrow> string" where
  "canonical_request d = CHR ''{'' # json_member ''application_id'' (json_string (nat_str (cc_application_id d)))
     @ CHR '','' # json_member ''capture_format'' (json_string (cc_capture_format d))
     @ CHR '','' # json_member ''capture_size_bytes'' (int_str (cc_capture_size_bytes d))
     @ CHR '','' # json_member ''expected_sha256'' (json_string (cc_sha256 d))
     @ CHR '','' # json_member ''original_filename'' (json_string (cc_filename d))
     @ CHR '','' # json_member ''scenario'' (json_string (cc_scenario d))
     @ CHR '','' # json_member ''transfer_file_size_bytes'' (int_str (cc_transfer_file_size_bytes d)) @ ''}''"

definition request_fingerprint :: "(bytes \<Rightarrow> string) \<Rightarrow> capture_create \<Rightarrow> string" where
  "request_fingerprint digest d = digest (the (utf8_encode (to_text (canonical_request d))))"

section \<open>Creating a capture\<close>

record capture_settings =
  set_max_capture_size_bytes :: int
  set_presign_expiry_seconds :: int

definition validate_logical_metadata :: "network_capture \<Rightarrow> capture_create \<Rightarrow> bool" where
  "validate_logical_metadata c d \<longleftrightarrow> nc_capture_format c = cc_capture_format d \<and> nc_capture_size_bytes c = cc_capture_size_bytes d
     \<and> nc_transfer_file_size_bytes c = cc_transfer_file_size_bytes d"

definition reopen_expired :: "network_capture \<Rightarrow> network_capture" where
  "reopen_expired c = (if nc_status c \<noteq> ''expired'' then c
     else c\<lparr>nc_status := ''pending_upload'', nc_verified_sha256 := None, nc_uploaded_at := None, nc_analysis_started_at := None,
            nc_analysis_finished_at := None, nc_error_code := None, nc_error_message := None\<rparr>)"

definition dispatchable :: "network_capture \<Rightarrow> bool" where
  "dispatchable c \<longleftrightarrow> nc_status c \<in> {''uploaded'', ''analyzing''}"

definition publish_ready_if_dispatchable ::
  "'x net_ports \<Rightarrow> uuid \<Rightarrow> network_capture \<Rightarrow> string option \<Rightarrow> ('x net_state, unit) act" where
  "publish_ready_if_dispatchable ports i c package_name s =
     (if \<not> dispatchable c then (Inr (), s)
      else case (case package_name of Some p \<Rightarrow> Inr p | None \<Rightarrow> package_name_for_capture s c) of
             Inl e \<Rightarrow> (Inl e, s)
           | Inr p \<Rightarrow> on_world (publish_ready ports i c p) s)"

definition create_response ::
  "'x net_ports \<Rightarrow> capture_settings \<Rightarrow> uuid \<Rightarrow> network_capture \<Rightarrow> ('x net_state, capture_create_response) act" where
  "create_response ports conf i c =
     (let response = (\<lambda>url expires. \<lparr>cr_capture_id = i, cr_analysis_id = nc_analysis_id c, cr_ready_event_id = nc_ready_event_id c,
            cr_status = nc_status c, cr_upload_required = (nc_status c = ''pending_upload''), cr_upload_url = url, cr_expires_in = expires\<rparr>)
      in if nc_status c = ''pending_upload''
         then act_bind (on_world (generate_presigned_put ports (nc_object_key c) (nc_content_type c)))
                (\<lambda>url. act_return (response (Some url) (Some (set_presign_expiry_seconds conf))))
         else act_return (response None None))"

definition announce ::
  "'x net_ports \<Rightarrow> capture_settings \<Rightarrow> uuid \<Rightarrow> network_capture \<Rightarrow> string option \<Rightarrow> ('x net_state, capture_create_response) act" where
  "announce ports conf i c package_name =
     act_bind (publish_ready_if_dispatchable ports i c package_name) (\<lambda>_. create_response ports conf i c)"

text \<open>The request's key is known: the same request gets the same capture.\<close>

definition create_replay ::
  "'x net_ports \<Rightarrow> capture_settings \<Rightarrow> string \<Rightarrow> idempotency_row \<Rightarrow> ('x net_state, capture_create_response) act" where
  "create_replay ports conf fingerprint mapping s =
     (if ik_request_fingerprint mapping \<noteq> fingerprint then (Inl IdempotencyConflictError, s)
      else case get_capture s (ik_capture_id mapping) of
             None \<Rightarrow> (Inl (runtime_error ''Idempotency mapping references a missing network capture''), s)
           | Some c \<Rightarrow> announce ports conf (ik_capture_id mapping) (reopen_expired c) None
               (put_capture (ik_capture_id mapping) (reopen_expired c) s))"

text \<open>A capture of the same content for the same application and scenario exists: the key is bound to it.\<close>

definition create_reuse ::
  "'x net_ports \<Rightarrow> capture_settings \<Rightarrow> string \<Rightarrow> capture_create \<Rightarrow> uuid \<Rightarrow> seconds \<Rightarrow> uuid \<times> network_capture
     \<Rightarrow> ('x net_state, capture_create_response) act" where
  "create_reuse ports conf fingerprint d key now logical s = (case logical of (i, c) \<Rightarrow>
     if \<not> validate_logical_metadata c d then (Inl CaptureMetadataConflictError, s)
     else case add_idempotency_key key \<lparr>ik_capture_id = i, ik_request_fingerprint = fingerprint, ik_created_at = now\<rparr>
                 (put_capture i (reopen_expired c) s) of
            Inl e \<Rightarrow> (Inl e, s)
          | Inr s1 \<Rightarrow> announce ports conf i (reopen_expired c) None s1)"

record fresh_ids =
  fr_capture :: uuid
  fr_ready_event :: uuid
  fr_analysis :: uuid
  fr_analysis_event :: uuid

definition new_capture :: "capture_create \<Rightarrow> fresh_ids \<Rightarrow> seconds \<Rightarrow> network_capture option \<Rightarrow> network_capture" where
  "new_capture d fresh now verified =
     \<lparr>nc_application_id = cc_application_id d, nc_scenario = cc_scenario d, nc_original_filename = cc_filename d,
      nc_capture_format = cc_capture_format d, nc_content_type = cc_content_type d,
      nc_object_key = object_key_for (cc_sha256 d) (cc_capture_format d), nc_expected_sha256 = cc_sha256 d,
      nc_verified_sha256 = (case verified of None \<Rightarrow> None | Some v \<Rightarrow> nc_verified_sha256 v),
      nc_capture_size_bytes = cc_capture_size_bytes d, nc_transfer_file_size_bytes = cc_transfer_file_size_bytes d,
      nc_status = (if verified = None then ''pending_upload'' else ''uploaded''), nc_ready_event_id = fr_ready_event fresh,
      nc_analysis_id = fr_analysis fresh, nc_analysis_event_id = fr_analysis_event fresh, nc_analysis_attempt_count = 0,
      nc_created_at = now, nc_uploaded_at = (if verified = None then None else Some now), nc_analysis_started_at = None,
      nc_analysis_finished_at = None, nc_object_deleted_at = None, nc_error_code = None, nc_error_message = None\<rparr>"

text \<open>The verified object the new capture can share, if storage still has it with the right size.\<close>

definition shared_object :: "'x net_ports \<Rightarrow> capture_create \<Rightarrow> ('x net_state, network_capture option) act" where
  "shared_object ports d s =
     (let object_key = object_key_for (cc_sha256 d) (cc_capture_format d)
      in case get_verified_object s object_key of
           None \<Rightarrow> (Inr None, s)
         | Some (j, v) \<Rightarrow>
             if nc_capture_size_bytes v \<noteq> cc_capture_size_bytes d
             then (Inl (CaptureObjectSizeMismatchError ''capture_size_bytes conflicts with the verified content-addressed object''), s)
             else act_bind (on_world (head_object ports object_key)) (\<lambda>metadata. case metadata of
                    None \<Rightarrow> act_return None
                  | Some m \<Rightarrow> if om_size_bytes m \<noteq> cc_capture_size_bytes d
                      then act_raise (CaptureObjectSizeMismatchError ''The verified content-addressed object size is inconsistent with storage'')
                      else act_return (Some v)) s)"

definition insert_new ::
  "capture_create \<Rightarrow> uuid \<Rightarrow> fresh_ids \<Rightarrow> seconds \<Rightarrow> string \<Rightarrow> network_capture option \<Rightarrow> 'x net_state \<Rightarrow> exn + 'x net_state" where
  "insert_new d key fresh now fingerprint verified s =
     (case add_capture (fr_capture fresh) (new_capture d fresh now verified) s of
        Inl e \<Rightarrow> Inl e
      | Inr s1 \<Rightarrow> add_idempotency_key key
          \<lparr>ik_capture_id = fr_capture fresh, ik_request_fingerprint = fingerprint, ik_created_at = now\<rparr> s1)"

definition is_integrity_error :: "exn \<Rightarrow> bool" where
  "is_integrity_error e = (case e of Py p \<Rightarrow> exn_type p = ''IntegrityError'' | _ \<Rightarrow> False)"

definition cs_create ::
  "'x net_ports \<Rightarrow> capture_settings \<Rightarrow> (bytes \<Rightarrow> string) \<Rightarrow> ('x net_state \<Rightarrow> 'x net_state) \<Rightarrow> capture_create \<Rightarrow> uuid
     \<Rightarrow> fresh_ids \<Rightarrow> seconds \<Rightarrow> ('x net_state, capture_create_response) act" where
  "cs_create ports conf digest others d key fresh now s =
     (let fingerprint = request_fingerprint digest d;
          logical = (\<lambda>st. get_logical st (cc_application_id d) (cc_scenario d) (cc_sha256 d))
      in case get_idempotency_key s key of
           Some mapping \<Rightarrow> create_replay ports conf fingerprint mapping s
         | None \<Rightarrow>
             if set_max_capture_size_bytes conf < cc_capture_size_bytes d
             then (Inl (CaptureTooLargeError ''capture_size_bytes exceeds the configured maximum''), s)
             else case logical s of
               Some l \<Rightarrow> create_reuse ports conf fingerprint d key now l s
             | None \<Rightarrow>
                 (case application_package_name s (cc_application_id d) of
                    None \<Rightarrow> (Inl (mk_exn ''ApplicationNotFoundError'' (nat_str (cc_application_id d)) False), s)
                  | Some package_name \<Rightarrow>
                      act_bind (shared_object ports d) (\<lambda>verified s1.
                        let s2 = others s1 in
                        case insert_new d key fresh now fingerprint verified s2 of
                          Inr s3 \<Rightarrow> announce ports conf (fr_capture fresh) (new_capture d fresh now verified) (Some package_name) s3
                        | Inl e \<Rightarrow>
                            if \<not> is_integrity_error e then (Inl e, s2)
                            else case get_idempotency_key s2 key of
                              Some mapping \<Rightarrow> create_replay ports conf fingerprint mapping s2
                            | None \<Rightarrow> (case logical s2 of
                                Some l \<Rightarrow> create_reuse ports conf fingerprint d key now l s2
                              | None \<Rightarrow> (Inl e, s2))) s))"


section \<open>The other requests\<close>

definition cs_get :: "uuid \<Rightarrow> 'x net_state \<Rightarrow> exn + network_capture" where
  "cs_get capture_id s = (case get_capture s capture_id of None \<Rightarrow> Inl (CaptureNotFoundError capture_id) | Some c \<Rightarrow> Inr c)"

definition cs_list :: "uuid option \<Rightarrow> string option \<Rightarrow> string option \<Rightarrow> 'x net_state \<Rightarrow> (uuid \<times> network_capture) list" where
  "cs_list application_id scenario status s = list_captures s application_id scenario status"

definition mark_uploaded :: "seconds \<Rightarrow> network_capture \<Rightarrow> network_capture" where
  "mark_uploaded now c = c\<lparr>nc_status := ''uploaded'', nc_uploaded_at := Some now, nc_object_deleted_at := None,
     nc_error_code := None, nc_error_message := None\<rparr>"

definition cs_complete :: "'x net_ports \<Rightarrow> uuid \<Rightarrow> seconds \<Rightarrow> ('x net_state, network_capture) act" where
  "cs_complete ports capture_id now s =
     (case cs_get capture_id s of
        Inl e \<Rightarrow> (Inl e, s)
      | Inr c \<Rightarrow>
          if nc_status c \<in> {''failed'', ''expired''}
          then (Inl (InvalidCaptureStateError (''Capture in status '' @ py_repr (nc_status c) @ '' cannot be completed'')), s)
          else act_bind (on_world (head_object ports (nc_object_key c))) (\<lambda>metadata s1.
            case metadata of
              None \<Rightarrow> (Inl (CaptureObjectMissingError ''The uploaded capture object was not found''), s1)
            | Some m \<Rightarrow>
                if om_size_bytes m \<noteq> nc_capture_size_bytes c
                then (Inl (CaptureObjectSizeMismatchError ''The uploaded object size does not match capture_size_bytes''), s1)
                else (let c1 = (if nc_status c = ''pending_upload'' then mark_uploaded now c else c);
                          s2 = (if nc_status c = ''pending_upload'' then put_capture capture_id c1 s1 else s1)
                      in if dispatchable c1
                         then (case package_name_for_capture s2 c1 of
                                 Inl e \<Rightarrow> (Inl e, s2)
                               | Inr p \<Rightarrow> act_bind (on_world (publish_ready ports capture_id c1 p)) (\<lambda>_. act_return c1) s2)
                         else (Inr c1, s2))) s)"

definition cs_download_url :: "'x net_ports \<Rightarrow> capture_settings \<Rightarrow> uuid \<Rightarrow> ('x net_state, download_url_response) act" where
  "cs_download_url ports conf capture_id s =
     (case cs_get capture_id s of
        Inl e \<Rightarrow> (Inl e, s)
      | Inr c \<Rightarrow>
          if nc_status c = ''pending_upload'' \<or> nc_object_deleted_at c \<noteq> None
          then (Inl (InvalidCaptureStateError ''Capture raw data is not available for download''), s)
          else act_bind (on_world (head_object ports (nc_object_key c))) (\<lambda>metadata.
            case metadata of
              None \<Rightarrow> act_raise (CaptureObjectMissingError ''The capture object was not found'')
            | Some _ \<Rightarrow> act_bind (on_world (generate_presigned_get ports (nc_object_key c))) (\<lambda>url.
                act_return \<lparr>dr_capture_id = capture_id, dr_download_url = url, dr_expires_in = set_presign_expiry_seconds conf\<rparr>)) s)"

section \<open>Maintenance operations\<close>

text \<open>One row of the reconciliation: the row after it, and whether it is to be published, uploaded or expired.\<close>

definition expire :: "string \<Rightarrow> string \<Rightarrow> network_capture \<Rightarrow> network_capture" where
  "expire code message c = c\<lparr>nc_status := ''expired'', nc_error_code := Some code, nc_error_message := Some message\<rparr>"

datatype reconciled = Untouched | Expired network_capture | Uploaded network_capture | Republish

definition reconcile_one :: "'x net_ports \<Rightarrow> seconds \<Rightarrow> seconds \<Rightarrow> seconds \<Rightarrow> network_capture \<Rightarrow> ('x, reconciled) act" where
  "reconcile_one ports current pending_cutoff analyzing_cutoff c =
     (if nc_status c = ''pending_upload'' then
        (if pending_cutoff < nc_created_at c then act_return Untouched
         else act_bind (head_object ports (nc_object_key c)) (\<lambda>metadata. act_return (case metadata of
                None \<Rightarrow> Expired (expire ''upload_expired'' ''No object was found before the upload deadline'' c)
              | Some m \<Rightarrow>
                  if om_size_bytes m \<noteq> nc_capture_size_bytes c
                  then Expired (expire ''capture_object_size_mismatch'' ''Uploaded object size did not match registered size'' c)
                  else Uploaded (mark_uploaded current c))))
      else if nc_status c = ''uploaded'' \<or> nc_status c = ''analyzing''
                \<and> (case nc_analysis_started_at c of None \<Rightarrow> False | Some t \<Rightarrow> t \<le> analyzing_cutoff)
      then act_return Republish
      else act_return Untouched)"

text \<open>The loop of the transaction: the updated rows, the captures to publish, the numbers uploaded and expired.\<close>

fun reconcile_rows ::
  "'x net_ports \<Rightarrow> seconds \<Rightarrow> seconds \<Rightarrow> seconds \<Rightarrow> (uuid \<times> network_capture \<times> string) list
     \<Rightarrow> ('x, (uuid \<times> network_capture) list \<times> (uuid \<times> string) list \<times> nat \<times> nat) act" where
  "reconcile_rows ports current pc ac [] = act_return ([], [], 0, 0)"
| "reconcile_rows ports current pc ac ((i, c, package_name) # rows) =
     act_bind (reconcile_one ports current pc ac c) (\<lambda>r.
     act_bind (reconcile_rows ports current pc ac rows) (\<lambda>(changed, to_publish, uploaded, expired).
       act_return (case r of
         Untouched \<Rightarrow> (changed, to_publish, uploaded, expired)
       | Expired c' \<Rightarrow> ((i, c') # changed, to_publish, uploaded, expired + 1)
       | Uploaded c' \<Rightarrow> ((i, c') # changed, (i, package_name) # to_publish, uploaded + 1, expired)
       | Republish \<Rightarrow> (changed, (i, package_name) # to_publish, uploaded, expired))))"

definition reconcile_select :: "'x net_state \<Rightarrow> (uuid \<times> network_capture \<times> string) list" where
  "reconcile_select s =
     concat (map (\<lambda>(i, c). case map_of (ns_applications s) (nc_application_id c) of None \<Rightarrow> [] | Some p \<Rightarrow> [(i, c, p)])
       (sort_key (\<lambda>(i, c). (nc_created_at c, i))
         (filter (\<lambda>(i, c). nc_status c \<in> {''pending_upload'', ''uploaded'', ''analyzing''}) (ns_captures s))))"

fun publish_rows :: "'x net_ports \<Rightarrow> (uuid \<times> string) list \<Rightarrow> ('x net_state, unit) act" where
  "publish_rows ports [] s = (Inr (), s)"
| "publish_rows ports ((i, package_name) # rows) s =
     (case get_capture s i of
        None \<Rightarrow> publish_rows ports rows s
      | Some c \<Rightarrow> act_bind (on_world (publish_ready ports i c package_name)) (\<lambda>_. publish_rows ports rows) s)"

record reconcile_summary =
  rs_published :: nat
  rs_uploaded :: nat
  rs_expired :: nat

definition put_captures :: "(uuid \<times> network_capture) list \<Rightarrow> 'x net_state \<Rightarrow> 'x net_state" where
  "put_captures changed s = fold (\<lambda>(i, c). put_capture i c) changed s"

definition reconcile_captures ::
  "'x net_ports \<Rightarrow> seconds \<Rightarrow> seconds \<Rightarrow> seconds \<Rightarrow> ('x net_state, reconcile_summary) act" where
  "reconcile_captures ports pending_expiry stale_analysis current s =
     (case on_world (reconcile_rows ports current (current - pending_expiry) (current - stale_analysis) (reconcile_select s)) s of
        (Inl e, s1) \<Rightarrow> (Inl e, s1)
      | (Inr (changed, to_publish, uploaded, expired), s1) \<Rightarrow>
          act_bind (publish_rows ports to_publish)
            (\<lambda>_. act_return \<lparr>rs_published = length to_publish, rs_uploaded = uploaded, rs_expired = expired\<rparr>)
            (put_captures changed s1))"

definition retry_capture :: "'x net_ports \<Rightarrow> uuid \<Rightarrow> ('x net_state, network_capture) act" where
  "retry_capture ports capture_id s =
     (case get_capture s capture_id of
        None \<Rightarrow> (Inl (CaptureNotFoundError capture_id), s)
      | Some c \<Rightarrow>
          (case application_package_name s (nc_application_id c) of
             None \<Rightarrow> (Inl (CaptureNotFoundError capture_id), s)
           | Some package_name \<Rightarrow>
               if nc_status c \<noteq> ''failed'' then (Inl (InvalidCaptureStateError ''Only a failed capture is eligible for explicit retry''), s)
               else if nc_object_deleted_at c \<noteq> None
                 then (Inl (InvalidCaptureStateError ''A capture whose raw object was deleted cannot be retried''), s)
               else (let c1 = c\<lparr>nc_status := ''uploaded'', nc_error_code := None, nc_error_message := None, nc_analysis_finished_at := None\<rparr>
                     in act_bind (on_world (publish_ready ports capture_id c1 package_name)) (\<lambda>_. act_return c1) (put_capture capture_id c1 s))))"

definition terminal :: "network_capture \<Rightarrow> bool" where
  "terminal c \<longleftrightarrow> nc_status c \<in> {''analyzed'', ''failed'', ''expired''}"

definition object_references :: "'x net_state \<Rightarrow> string \<Rightarrow> (uuid \<times> network_capture) list" where
  "object_references s object_key = filter (\<lambda>(i, c). nc_object_key c = object_key \<and> nc_object_deleted_at c = None) (ns_captures s)"

definition cleanup_capture_object :: "'x net_ports \<Rightarrow> uuid \<Rightarrow> seconds \<Rightarrow> ('x net_state, nat) act" where
  "cleanup_capture_object ports capture_id now s =
     (case get_capture s capture_id of
        None \<Rightarrow> (Inl (CaptureNotFoundError capture_id), s)
      | Some c \<Rightarrow>
          (let references = object_references s (nc_object_key c)
           in if list_ex (\<lambda>(i, r). \<not> terminal r) references
              then (Inl (CleanupConflictError ''Raw object is still required by a non-terminal logical capture''), s)
              else if references = [] then (Inr 0, s)
              else act_bind (on_world (head_object ports (nc_object_key c))) (\<lambda>metadata.
                   act_bind (if metadata = None then act_return () else on_world (delete_object ports (nc_object_key c))) (\<lambda>_ s1.
                     (Inr (length references),
                      put_captures (map (\<lambda>(i, r). (i, r\<lparr>nc_object_deleted_at := Some now\<rparr>)) references) s1))) s))"

definition verify_capture_object_size :: "'x net_ports \<Rightarrow> network_capture \<Rightarrow> ('x, unit) act" where
  "verify_capture_object_size ports c = act_bind (head_object ports (nc_object_key c)) (\<lambda>metadata. case metadata of
     Some m \<Rightarrow> if om_size_bytes m \<noteq> nc_capture_size_bytes c
       then act_raise (CaptureObjectSizeMismatchError ''Capture object size does not match metadata'') else act_return ()
   | None \<Rightarrow> act_return ())"

end
