(* ===== verification/Capture_Analyzer.thy ===== *)
theory Capture_Analyzer
  imports Capture_Tables Metrics_Contract
begin

text \<open>
  The analyzer of one capture file (\<open>network/analyzer.py\<close>): the check of its header and digest, the
  packets read from the rows \<open>tshark\<close> prints, and the metrics computed from them.

  The file is its bytes, or \<open>None\<close> when it cannot be read. The process \<open>tshark\<close> is a parameter: what its
  metadata commands print, and for a capture the rows \<open>csv.reader\<close> yields from its output together with
  how it ended. \<open>hashlib.sha256\<close>, \<open>float(s)\<close> and \<open>int(s, base)\<close> are parameters too.
\<close>

section \<open>The file\<close>

definition PCAP_MAGIC :: "bytes list" where
  "PCAP_MAGIC = [[0xd4, 0xc3, 0xb2, 0xa1], [0xa1, 0xb2, 0xc3, 0xd4], [0x4d, 0x3c, 0xb2, 0xa1], [0xa1, 0xb2, 0x3c, 0x4d]]"

definition PCAPNG_MAGIC :: bytes where
  "PCAPNG_MAGIC = [0x0a, 0x0d, 0x0d, 0x0a]"

definition file_format :: "bytes option \<Rightarrow> exn + string" where
  "file_format file = (case file of
     None \<Rightarrow> Inl (TerminalAnalysisError ''invalid_capture'' ''Capture could not be read'')
   | Some b \<Rightarrow>
       if take 4 b \<in> set PCAP_MAGIC then Inr ''pcap''
       else if take 4 b = PCAPNG_MAGIC then Inr ''pcapng''
       else Inl (TerminalAnalysisError ''invalid_capture'' ''Capture magic/header is not PCAP or PCAPNG''))"

definition sha256_file :: "(bytes \<Rightarrow> string) \<Rightarrow> bytes option \<Rightarrow> exn + string" where
  "sha256_file digest file = (case file of
     None \<Rightarrow> Inl (TerminalAnalysisError ''invalid_capture'' ''Capture could not be read'') | Some b \<Rightarrow> Inr (digest b))"

section \<open>Fields\<close>

record number_parsers =
  parse_float :: "string \<Rightarrow> rat option"
  parse_int0 :: "string \<Rightarrow> int option"
  parse_int10 :: "string \<Rightarrow> int option"

text \<open>\<open>value.split(",", 1)[0]\<close>\<close>

definition before_comma :: "string \<Rightarrow> string" where
  "before_comma s = takeWhile (\<lambda>c. c \<noteq> CHR '','') s"

definition integer_field :: "number_parsers \<Rightarrow> string option \<Rightarrow> int option" where
  "integer_field ps v = (case v of None \<Rightarrow> None | Some s \<Rightarrow>
     if is_blank s then None
     else case parse_int0 ps (strip (before_comma s)) of Some n \<Rightarrow> Some n | None \<Rightarrow> parse_int10 ps (strip (before_comma s)))"

definition float_field :: "number_parsers \<Rightarrow> string option \<Rightarrow> rat option" where
  "float_field ps v = (case v of None \<Rightarrow> None | Some s \<Rightarrow> if is_blank s then None else parse_float ps (before_comma s))"

definition flag_field :: "string option \<Rightarrow> bool" where
  "flag_field v = (case v of None \<Rightarrow> False | Some s \<Rightarrow> lower (strip s) \<notin> {'''', ''0'', ''false'', ''no''})"

definition direction_field :: "string option \<Rightarrow> direction option" where
  "direction_field v =
     (let normalized = lower (strip (case v of None \<Rightarrow> [] | Some s \<Rightarrow> s))
      in if normalized \<in> {''2'', ''outbound'', ''sent''} then Some Tx
         else if normalized \<in> {''1'', ''inbound'', ''received''} then Some Rx else None)"

definition first_field :: "string option \<Rightarrow> string option" where
  "first_field v = (case v of None \<Rightarrow> None | Some s \<Rightarrow>
     (let stripped_value = strip (before_comma s) in if stripped_value = [] then None else Some stripped_value))"

definition ICMPV4_ERROR_TYPES :: "int list" where
  "ICMPV4_ERROR_TYPES = [3, 4, 5, 11, 12]"

text \<open>Version, length, source, destination and ECN bits of the network layer.\<close>

definition network_layer ::
  "number_parsers \<Rightarrow> (string \<Rightarrow> string option) \<Rightarrow> int option \<times> int \<times> string option \<times> string option \<times> int option" where
  "network_layer ps row = (case integer_field ps (row ''ip.len'') of
     Some n \<Rightarrow> (Some 4, n, first_field (row ''ip.src''), first_field (row ''ip.dst''), integer_field ps (row ''ip.dsfield.ecn''))
   | None \<Rightarrow> (case integer_field ps (row ''ipv6.plen'') of
       Some n \<Rightarrow> (Some 6, n + 40, first_field (row ''ipv6.src''), first_field (row ''ipv6.dst''),
                  map_option (\<lambda>t. t mod 4) (integer_field ps (row ''ipv6.tclass'')))
     | None \<Rightarrow> (None, 0, None, None, None)))"

definition or_zero :: "int option \<Rightarrow> int" where
  "or_zero v = (case v of None \<Rightarrow> 0 | Some n \<Rightarrow> n)"

text \<open>Transport, ports and payload length.\<close>

definition transport_layer ::
  "number_parsers \<Rightarrow> (string \<Rightarrow> string option) \<Rightarrow> transport \<times> int option \<times> int option \<times> int" where
  "transport_layer ps row =
     (case (integer_field ps (row ''tcp.srcport''), integer_field ps (row ''tcp.dstport'')) of
        (Some sp, Some dp) \<Rightarrow> (TCP, Some sp, Some dp, or_zero (integer_field ps (row ''tcp.len'')))
      | _ \<Rightarrow> (case (integer_field ps (row ''udp.srcport''), integer_field ps (row ''udp.dstport'')) of
          (Some sp, Some dp) \<Rightarrow> (UDP, Some sp, Some dp, max 0 (or_zero (integer_field ps (row ''udp.length'')) - 8))
        | _ \<Rightarrow> (OtherTransport, None, None, 0)))"

definition is_quic_row :: "(string \<Rightarrow> string option) \<Rightarrow> bool" where
  "is_quic_row row \<longleftrightarrow> ''quic'' \<in> set (split_on (CHR '':'') (lower (case row ''frame.protocols'' of None \<Rightarrow> [] | Some s \<Rightarrow> s)))
     \<or> list_ex (\<lambda>name. first_field (row name) \<noteq> None) [''quic.version'', ''quic.long.packet_type'', ''quic.spin_bit'']"

definition packet_of_row :: "number_parsers \<Rightarrow> (string \<Rightarrow> string option) \<Rightarrow> packet_record option" where
  "packet_of_row ps row =
     (case (float_field ps (row ''frame.time_epoch''), integer_field ps (row ''frame.len''), integer_field ps (row ''frame.cap_len'')) of
        (Some timestamp, Some frame_len, Some captured_len) \<Rightarrow>
          (case (network_layer ps row, transport_layer ps row) of
             ((ip_version, network_bytes, src_ip, dst_ip, ecn_value), (protocol, src_port, dst_port, payload_bytes)) \<Rightarrow>
               Some \<lparr>pk_timestamp = timestamp, pk_frame_len = frame_len, pk_captured_len = captured_len,
                 pk_direction = direction_field (row ''frame.packet_flags_direction''), pk_ip_version = ip_version,
                 pk_network_bytes = max 0 network_bytes, pk_src_ip = src_ip, pk_dst_ip = dst_ip, pk_src_port = src_port,
                 pk_dst_port = dst_port, pk_transport = protocol, pk_l4_payload_bytes = max 0 payload_bytes,
                 pk_tcp_stream = integer_field ps (row ''tcp.stream''),
                 pk_ip_fragment = (flag_field (row ''ip.flags.mf'') \<or> 0 < or_zero (integer_field ps (row ''ip.frag_offset''))
                    \<or> first_field (row ''ipv6.fraghdr.offset'') \<noteq> None),
                 pk_ecn_ce = (ecn_value = Some 3),
                 pk_icmp_error = ((case integer_field ps (row ''icmp.type'') of None \<Rightarrow> False | Some n \<Rightarrow> n \<in> set ICMPV4_ERROR_TYPES)
                    \<or> (case integer_field ps (row ''icmpv6.type'') of None \<Rightarrow> False | Some n \<Rightarrow> n < 128)),
                 pk_tcp_syn = flag_field (row ''tcp.flags.syn''), pk_tcp_ack = flag_field (row ''tcp.flags.ack''),
                 pk_tcp_rst = flag_field (row ''tcp.flags.reset''), pk_tcp_window_size = integer_field ps (row ''tcp.window_size_value''),
                 pk_tcp_initial_rtt_seconds = float_field ps (row ''tcp.analysis.initial_rtt''),
                 pk_tcp_ack_rtt_seconds = float_field ps (row ''tcp.analysis.ack_rtt''),
                 pk_tcp_retransmission = flag_field (row ''tcp.analysis.retransmission''),
                 pk_tcp_fast_retransmission = flag_field (row ''tcp.analysis.fast_retransmission''),
                 pk_tcp_spurious_retransmission = flag_field (row ''tcp.analysis.spurious_retransmission''),
                 pk_tcp_zero_window = flag_field (row ''tcp.analysis.zero_window''),
                 pk_tcp_window_full = flag_field (row ''tcp.analysis.window_full''),
                 pk_tcp_out_of_order = flag_field (row ''tcp.analysis.out_of_order''),
                 pk_tcp_duplicate_ack = flag_field (row ''tcp.analysis.duplicate_ack''),
                 pk_tcp_lost_segment = flag_field (row ''tcp.analysis.lost_segment''),
                 pk_quic = is_quic_row row, pk_quic_version = first_field (row ''quic.version''),
                 pk_quic_packet_type = first_field (row ''quic.long.packet_type''),
                 pk_quic_spin_bit = integer_field ps (row ''quic.spin_bit''),
                 pk_dns_is_response = map_option (\<lambda>n. n \<noteq> 0) (integer_field ps (row ''dns.flags.response'')),
                 pk_dns_response_code = integer_field ps (row ''dns.flags.rcode''),
                 pk_dns_time_seconds = float_field ps (row ''dns.time'')\<rparr>)
      | _ \<Rightarrow> None)"


section \<open>The engine\<close>

text \<open>\<open>str.splitlines\<close> on ASCII line boundaries.\<close>

definition line_end :: "char \<Rightarrow> bool" where
  "line_end c \<longleftrightarrow> c \<in> {CHR 0x0A, CHR 0x0B, CHR 0x0C, CHR 0x0D, CHR 0x1C, CHR 0x1D, CHR 0x1E}"

fun splitlines_acc :: "string \<Rightarrow> string \<Rightarrow> string list" where
  "splitlines_acc w [] = (if w = [] then [] else [w])"
| "splitlines_acc w (c # cs) =
     (if c = CHR 0x0D \<and> (case cs of d # _ \<Rightarrow> d = CHR 0x0A | [] \<Rightarrow> False) then splitlines_acc w cs
      else if line_end c then w # splitlines_acc [] cs
      else splitlines_acc (w @ [c]) cs)"

definition splitlines :: "string \<Rightarrow> string list" where
  "splitlines s = splitlines_acc [] s"

definition FIELD_NAMES :: "string list" where
  "FIELD_NAMES = [''frame.time_epoch'', ''frame.len'', ''frame.cap_len'', ''frame.packet_flags_direction'', ''frame.protocols'',
     ''ip.version'', ''ip.len'', ''ip.src'', ''ip.dst'', ''ip.flags.mf'', ''ip.frag_offset'', ''ip.dsfield.ecn'', ''ipv6.plen'',
     ''ipv6.src'', ''ipv6.dst'', ''ipv6.tclass'', ''ipv6.fraghdr.offset'', ''tcp.srcport'', ''tcp.dstport'', ''tcp.stream'',
     ''tcp.len'', ''tcp.flags.syn'', ''tcp.flags.ack'', ''tcp.flags.reset'', ''tcp.window_size_value'',
     ''tcp.analysis.initial_rtt'', ''tcp.analysis.ack_rtt'', ''tcp.analysis.retransmission'', ''tcp.analysis.fast_retransmission'',
     ''tcp.analysis.spurious_retransmission'', ''tcp.analysis.zero_window'', ''tcp.analysis.window_full'',
     ''tcp.analysis.out_of_order'', ''tcp.analysis.duplicate_ack'', ''tcp.analysis.lost_segment'', ''udp.srcport'', ''udp.dstport'',
     ''udp.length'', ''quic.version'', ''quic.long.packet_type'', ''quic.spin_bit'', ''dns.flags.response'', ''dns.flags.rcode'',
     ''dns.time'', ''icmp.type'', ''icmpv6.type'']"

definition REQUIRED_FIELDS :: "string list" where
  "REQUIRED_FIELDS = [''frame.time_epoch'', ''frame.len'', ''frame.cap_len'', ''frame.protocols'', ''ip.len'', ''ipv6.plen'',
     ''tcp.len'', ''udp.length'']"

record tshark_engine =
  te_executable :: string
  te_timeout_seconds :: seconds
  te_max_parsed_records :: int
  te_version :: "string option"
  te_supported_fields :: "string list option"

definition new_tshark_engine :: "string \<Rightarrow> seconds \<Rightarrow> int \<Rightarrow> exn + tshark_engine" where
  "new_tshark_engine executable timeout_seconds max_parsed_records =
     (if is_blank executable then Inl (value_error ''TShark executable must not be blank'')
      else if timeout_seconds \<le> 0 then Inl (value_error ''TShark timeout must be positive'')
      else if max_parsed_records \<le> 0 then Inl (value_error ''maximum parsed record count must be positive'')
      else Inr \<lparr>te_executable = executable, te_timeout_seconds = timeout_seconds, te_max_parsed_records = max_parsed_records,
                te_version = None, te_supported_fields = None\<rparr>)"

text \<open>What running the executable gives: metadata on standard output, or the rows of a capture.\<close>

datatype metadata_run = RunNotFound | RunTimedOut | RunFinished int string

record capture_run =
  ru_rows :: "string list list"
  ru_timed_out :: bool
  ru_return_code :: int
  ru_stderr :: string

record tshark_port =
  ts_metadata :: "string list \<Rightarrow> metadata_run"
  ts_capture :: "string list \<Rightarrow> bytes option \<Rightarrow> capture_run option"

definition run_metadata :: "tshark_port \<Rightarrow> string list \<Rightarrow> string \<Rightarrow> exn + string" where
  "run_metadata ts command description = (case ts_metadata ts command of
     RunNotFound \<Rightarrow> Inl (runtime_error ''TShark executable was not found'')
   | RunTimedOut \<Rightarrow> Inl (runtime_error (description @ '' command timed out''))
   | RunFinished code out \<Rightarrow> if code \<noteq> 0 then Inl (runtime_error (description @ '' command failed'')) else Inr out)"

definition te_read_version :: "tshark_port \<Rightarrow> (tshark_engine, string) act" where
  "te_read_version ts te = (case te_version te of
     Some v \<Rightarrow> (Inr v, te)
   | None \<Rightarrow> (case run_metadata ts [te_executable te, ''--version''] ''TShark version'' of
       Inl e \<Rightarrow> (Inl e, te)
     | Inr out \<Rightarrow>
         (let first_line = (if out = [] then [] else strip (hd (splitlines out)))
          in if first_line = [] then (Inl (runtime_error ''TShark returned an unknown version''), te)
             else (Inr first_line, te\<lparr>te_version := Some first_line\<rparr>))))"

definition parse_fields :: "string \<Rightarrow> string list" where
  "parse_fields out = remdups (concat (map (\<lambda>line. let parts = split_on (CHR 0x09) line
     in if 3 \<le> length parts \<and> parts ! 0 = ''F'' then [parts ! 2] else []) (splitlines out)))"

fun join_comma :: "string list \<Rightarrow> string" where
  "join_comma [] = []"
| "join_comma [w] = w"
| "join_comma (w # v # ws) = w @ '', '' @ join_comma (v # ws)"

definition te_read_fields :: "tshark_port \<Rightarrow> (tshark_engine, string list) act" where
  "te_read_fields ts te = (case te_supported_fields te of
     Some fs \<Rightarrow> (Inr fs, te)
   | None \<Rightarrow> (case run_metadata ts [te_executable te, ''-G'', ''fields''] ''TShark fields'' of
       Inl e \<Rightarrow> (Inl e, te)
     | Inr out \<Rightarrow>
         (let supported = parse_fields out; missing = filter (\<lambda>f. f \<notin> set supported) REQUIRED_FIELDS
          in if missing \<noteq> [] then (Inl (runtime_error (''TShark is missing required fields: '' @ join_comma (sort missing))), te)
             else (Inr supported, te\<lparr>te_supported_fields := Some supported\<rparr>))))"

definition validate_runtime :: "tshark_port \<Rightarrow> (tshark_engine, unit) act" where
  "validate_runtime ts = act_bind (te_read_version ts) (\<lambda>_. act_bind (te_read_fields ts) (\<lambda>_. act_return ()))"

definition tshark_command :: "string \<Rightarrow> string list \<Rightarrow> string list" where
  "tshark_command executable selected_fields =
     [executable, ''-n'', ''-r'', ''capture'', ''-T'', ''fields'', ''-E'', ''separator=/t'', ''-E'', ''quote=d'', ''-E'', ''occurrence=f'']
     @ concat (map (\<lambda>f. [''-e'', f]) selected_fields)"

text \<open>The row of a line: the selected fields with the values, missing ones empty.\<close>

definition row_of :: "string list \<Rightarrow> string list \<Rightarrow> string \<Rightarrow> string option" where
  "row_of selected_fields row_values =
     map_of (zip selected_fields (row_values @ replicate (length selected_fields - length row_values) []))"

fun read_rows :: "number_parsers \<Rightarrow> int \<Rightarrow> string list \<Rightarrow> packet_record list \<Rightarrow> string list list \<Rightarrow> exn + packet_record list" where
  "read_rows ps limit selected_fields packets [] = Inr packets"
| "read_rows ps limit selected_fields packets (r # rows) =
     (case packet_of_row ps (row_of selected_fields r) of
        None \<Rightarrow> read_rows ps limit selected_fields packets rows
      | Some p \<Rightarrow>
          if limit \<le> int (length packets)
          then Inl (TerminalAnalysisError ''capture_resource_limit'' ''Capture exceeds the configured parsed-record limit'')
          else read_rows ps limit selected_fields (packets @ [p]) rows)"

record tshark_output =
  to_version :: string
  to_supported_fields :: "string list"
  to_packets :: "packet_record list"

definition parse_failure :: "string \<Rightarrow> exn" where
  "parse_failure stderr =
     (let detail = (if is_blank stderr then [] else last (splitlines (strip stderr)))
      in TerminalAnalysisError
           (if contains ''not a capture file'' (lower detail) \<or> contains ''appears to have been cut short'' (lower detail)
            then ''invalid_capture'' else ''tshark_parse_failure'')
           ''TShark could not parse the capture'')"

definition read_packets :: "tshark_port \<Rightarrow> number_parsers \<Rightarrow> bytes option \<Rightarrow> (tshark_engine, tshark_output) act" where
  "read_packets ts ps file = act_bind (te_read_version ts) (\<lambda>version. act_bind (te_read_fields ts) (\<lambda>supported te.
     let selected_fields = filter (\<lambda>f. f \<in> set supported) FIELD_NAMES
     in case ts_capture ts (tshark_command (te_executable te) selected_fields) file of
          None \<Rightarrow> (Inl (runtime_error ''TShark executable was not found''), te)
        | Some run \<Rightarrow>
            (case read_rows ps (te_max_parsed_records te) selected_fields [] (ru_rows run) of
               Inl e \<Rightarrow> (Inl e, te)
             | Inr packets \<Rightarrow>
                 if ru_timed_out run then (Inl (TerminalAnalysisError ''tshark_timeout'' ''TShark analysis timed out''), te)
                 else if ru_return_code run \<noteq> 0 then (Inl (parse_failure (ru_stderr run)), te)
                 else (Inr \<lparr>to_version = version, to_supported_fields = supported, to_packets = packets\<rparr>, te))))"

section \<open>Analysis\<close>

record analysis_metrics =
  an_analyzed_at :: seconds
  an_analyzer_version :: string
  an_tshark_version :: string
  an_source_analyzer :: string
  an_verified_sha256 :: string
  an_metrics :: aggregated_metrics

definition ANALYZER_VERSION :: string where
  "ANALYZER_VERSION = ''1.0.0''"

definition analyze_capture ::
  "(bytes \<Rightarrow> string) \<Rightarrow> ('e, tshark_output) act \<Rightarrow> bytes option \<Rightarrow> string \<Rightarrow> int \<Rightarrow> string option \<Rightarrow> string option \<Rightarrow> seconds
     \<Rightarrow> ('e, analysis_metrics) act" where
  "analyze_capture digest read_output file scenario transfer_file_size_bytes declared_format expected_sha256 now te =
     (if transfer_file_size_bytes \<le> 0 then (Inl (value_error ''transfer_file_size_bytes must be positive''), te)
      else case file_format file of
        Inl e \<Rightarrow> (Inl e, te)
      | Inr actual_format \<Rightarrow>
          if declared_format \<noteq> None \<and> declared_format \<noteq> Some actual_format
          then (Inl (TerminalAnalysisError ''invalid_capture'' ''Capture header does not match the declared format''), te)
          else case sha256_file digest file of
            Inl e \<Rightarrow> (Inl e, te)
          | Inr verified \<Rightarrow>
              if expected_sha256 \<noteq> None \<and> expected_sha256 \<noteq> Some verified
              then (Inl (TerminalAnalysisError ''checksum_mismatch'' ''Capture SHA-256 does not match the registered hash''), te)
              else act_bind read_output (\<lambda>output te1.
                case aggregate_packets (to_packets output) actual_format (int (length (the file))) scenario transfer_file_size_bytes
                       (Some (to_supported_fields output)) of
                  Inl e \<Rightarrow> (Inl e, te1)
                | Inr m \<Rightarrow> (Inr \<lparr>an_analyzed_at = now, an_analyzer_version = ANALYZER_VERSION, an_tshark_version = to_version output,
                    an_source_analyzer = ''tshark'', an_verified_sha256 = verified, an_metrics = m\<rparr>, te1)) te)"

end
