(* ===== verification/Analyzer_Worker.thy ===== *)
theory Analyzer_Worker
  imports Capture_Service Capture_Analyzer Ingestion
begin

text \<open>
  The analyzer worker (\<open>network/worker.py\<close>): it takes capture-ready events from Kafka, claims the capture
  for one attempt, downloads and analyzes it, publishes the result and marks the capture.

  Every \<open>with session_factory.begin()\<close> block is one atomic transaction on the tables. Between the
  transactions of an attempt other processes may commit theirs: the argument \<open>others\<close> gives their effect
  in each gap. A transaction fails only for the reasons its body gives: a lost connection to the database,
  which ends the turn like any other error or is only logged while a claim is released, is not modelled, nor are
  log records. Clock readings are arguments.
\<close>

section \<open>Decoding\<close>

datatype ready_result = ReadyEvent "network_capture_ready envelope" | InvalidReady string | ReadyRaised exn

definition check_ready_key :: "raw_field option \<Rightarrow> network_capture_ready envelope \<Rightarrow> ready_result" where
  "check_ready_key key ev = (case key of
     Some (RawBytes k) \<Rightarrow>
       (case utf8_decode k of
          None \<Rightarrow> InvalidReady ''invalid_utf8_key''
        | Some decoded \<Rightarrow> if decoded \<noteq> to_text (nat_str (nr_application_id (ev_payload ev))) then InvalidReady ''application_key_mismatch''
                         else ReadyEvent ev)
   | _ \<Rightarrow> InvalidReady ''missing_or_invalid_key'')"

text \<open>Python's equality of a JSON value with an integer: \<open>True\<close> and \<open>1.0\<close> equal 1.\<close>

definition equals_number :: "json option \<Rightarrow> int \<Rightarrow> bool" where
  "equals_number v n = (case v of Some (JInt m) \<Rightarrow> m = n | Some (JFloat r) \<Rightarrow> r = of_int n
     | Some (JBool b) \<Rightarrow> n = (if b then 1 else 0) | _ \<Rightarrow> False)"

definition decode_capture_ready ::
  "(bytes \<Rightarrow> json option) \<Rightarrow> (bytes \<Rightarrow> exn + network_capture_ready envelope) \<Rightarrow> kafka_message \<Rightarrow> ready_result" where
  "decode_capture_ready loads parse m =
     (case km_value m of
        Some (RawBytes data) \<Rightarrow>
          (case loads data of
             None \<Rightarrow> InvalidReady ''invalid_json''
           | Some (JObj entries) \<Rightarrow>
               if set (map fst entries) \<noteq> ENVELOPE_FIELDS then InvalidReady ''invalid_envelope''
               else if map_of entries ''event_type'' \<noteq> Some (JStr NETWORK_CAPTURE_READY_EVENT_TYPE) then InvalidReady ''unsupported_event_type''
               else if \<not> equals_number (map_of entries ''schema_version'') NETWORK_SCHEMA_VERSION then InvalidReady ''unsupported_schema_version''
               else if km_topic m \<noteq> NETWORK_CAPTURE_READY_TOPIC then InvalidReady ''topic_event_mismatch''
               else (case deserialize_event parse data of
                       Inl e \<Rightarrow> if exn_name e = ''EventDeserializationError'' then InvalidReady ''invalid_envelope_or_payload'' else ReadyRaised e
                     | Inr ev \<Rightarrow> check_ready_key (km_key m) ev)
           | Some _ \<Rightarrow> InvalidReady ''invalid_envelope'')
      | _ \<Rightarrow> InvalidReady ''missing_or_invalid_value'')"

section \<open>The analyzer's transactions\<close>

definition AnalyzerConsistencyError :: "string \<Rightarrow> exn" where
  "AnalyzerConsistencyError m = mk_exn ''AnalyzerConsistencyError'' m False"

definition AnalysisClaimUnavailable :: "string \<Rightarrow> exn" where
  "AnalysisClaimUnavailable m = mk_exn ''AnalysisClaimUnavailable'' m False"

definition matches_event :: "network_capture \<Rightarrow> string \<Rightarrow> network_capture_ready envelope \<Rightarrow> bool" where
  "matches_event c package_name ev \<longleftrightarrow>
     (let p = ev_payload ev in nc_ready_event_id c = ev_event_id ev \<and> nc_analysis_id c = nr_analysis_id p
        \<and> nc_application_id c = nr_application_id p \<and> package_name = nr_package_name p \<and> nc_scenario c = nr_scenario p
        \<and> nc_object_key c = nr_object_key p \<and> nc_capture_format c = nr_capture_format p
        \<and> nc_capture_size_bytes c = nr_capture_size_bytes p \<and> nc_transfer_file_size_bytes c = nr_transfer_file_size_bytes p
        \<and> nc_expected_sha256 c = nr_expected_sha256 p)"

definition load_and_validate :: "network_capture_ready envelope \<Rightarrow> 'x net_state \<Rightarrow> exn + (network_capture \<times> string)" where
  "load_and_validate ev s =
     (case get_capture s (nr_capture_id (ev_payload ev)) of
        None \<Rightarrow> Inl (AnalyzerConsistencyError ''capture does not exist'')
      | Some c \<Rightarrow> (case application_package_name s (nc_application_id c) of
          None \<Rightarrow> Inl (AnalyzerConsistencyError ''capture does not exist'')
        | Some package_name \<Rightarrow>
            if matches_event c package_name ev then Inr (c, package_name)
            else Inl (AnalyzerConsistencyError ''capture-ready event does not match lifecycle state'')))"

definition claimable :: "seconds \<Rightarrow> network_capture \<Rightarrow> bool" where
  "claimable stale_before c \<longleftrightarrow> nc_status c = ''uploaded''
     \<or> nc_status c = ''analyzing'' \<and> (case nc_analysis_started_at c of None \<Rightarrow> True | Some t \<Rightarrow> t \<le> stale_before)"

definition claim_row :: "seconds \<Rightarrow> network_capture \<Rightarrow> network_capture" where
  "claim_row started c = c\<lparr>nc_status := ''analyzing'', nc_analysis_attempt_count := nc_analysis_attempt_count c + 1,
     nc_analysis_started_at := Some started, nc_analysis_finished_at := None, nc_error_code := None, nc_error_message := None\<rparr>"

text \<open>The attempt count is a \<open>SMALLINT\<close>.\<close>

definition claim_attempt :: "uuid \<Rightarrow> seconds \<Rightarrow> seconds \<Rightarrow> 'x net_state \<Rightarrow> exn + (bool \<times> 'x net_state)" where
  "claim_attempt i attempt_started_at stale_before s =
     (case get_capture s i of
        None \<Rightarrow> Inr (False, s)
      | Some c \<Rightarrow>
          if \<not> claimable stale_before c then Inr (False, s)
          else if 32767 \<le> nc_analysis_attempt_count c then Inl (data_error ''smallint out of range'')
          else Inr (True, put_capture i (claim_row attempt_started_at c) s))"

definition owned :: "seconds \<Rightarrow> network_capture \<Rightarrow> bool" where
  "owned t c \<longleftrightarrow> nc_status c = ''analyzing'' \<and> nc_analysis_started_at c = Some t"

definition update_owned :: "(network_capture \<Rightarrow> bool) \<Rightarrow> (network_capture \<Rightarrow> network_capture) \<Rightarrow> uuid \<Rightarrow> 'x net_state \<Rightarrow> exn + 'x net_state" where
  "update_owned cond change i s =
     (case get_capture s i of
        None \<Rightarrow> Inl (AnalyzerConsistencyError ''analyzer attempt no longer owns the capture'')
      | Some c \<Rightarrow> if cond c then Inr (put_capture i (change c) s)
                 else Inl (AnalyzerConsistencyError ''analyzer attempt no longer owns the capture''))"

definition release_attempt :: "uuid \<Rightarrow> seconds \<Rightarrow> 'x net_state \<Rightarrow> 'x net_state" where
  "release_attempt i t s = (case get_capture s i of
     None \<Rightarrow> s | Some c \<Rightarrow> if owned t c then put_capture i (c\<lparr>nc_status := ''uploaded''\<rparr>) s else s)"

definition mark_verified :: "uuid \<Rightarrow> string \<Rightarrow> seconds \<Rightarrow> 'x net_state \<Rightarrow> exn + 'x net_state" where
  "mark_verified i sha t = update_owned (\<lambda>c. owned t c \<and> nc_expected_sha256 c = sha) (\<lambda>c. c\<lparr>nc_verified_sha256 := Some sha\<rparr>) i"

definition mark_analyzed :: "uuid \<Rightarrow> string \<Rightarrow> seconds \<Rightarrow> seconds \<Rightarrow> 'x net_state \<Rightarrow> exn + 'x net_state" where
  "mark_analyzed i sha t now = update_owned (\<lambda>c. owned t c \<and> nc_expected_sha256 c = sha)
     (\<lambda>c. c\<lparr>nc_verified_sha256 := Some sha, nc_status := ''analyzed'', nc_analysis_finished_at := Some now,
            nc_error_code := None, nc_error_message := None\<rparr>) i"

definition error_code_of :: "exn \<Rightarrow> string" where
  "error_code_of e = (case e of Py p \<Rightarrow> (case attr_code p of Some (AStr c) \<Rightarrow> c | _ \<Rightarrow> []) | _ \<Rightarrow> [])"

definition error_text_of :: "exn \<Rightarrow> string" where
  "error_text_of e = (case e of Py p \<Rightarrow> exn_text p | _ \<Rightarrow> [])"

definition mark_failed :: "uuid \<Rightarrow> exn \<Rightarrow> seconds \<Rightarrow> seconds \<Rightarrow> 'x net_state \<Rightarrow> exn + 'x net_state" where
  "mark_failed i error t now = update_owned (owned t)
     (\<lambda>c. c\<lparr>nc_status := ''failed'', nc_analysis_finished_at := Some now, nc_error_code := Some (error_code_of error),
            nc_error_message := Some (take 1000 (error_text_of error))\<rparr>) i"

section \<open>The worker\<close>

record ('c, 'x, 'e) analyzer_worker =
  aw_consumer :: "'c kafka_consumer"
  aw_net :: "'x net_state"
  aw_engine :: 'e
  aw_stale_seconds :: seconds
  aw_closed :: bool

record ('x, 'e) worker_ports =
  wp_net :: "'x net_ports"
  wp_loads :: "bytes \<Rightarrow> json option"
  wp_parse_ready :: "bytes \<Rightarrow> exn + network_capture_ready envelope"
  wp_digest :: "bytes \<Rightarrow> string"
  wp_read :: "bytes option \<Rightarrow> ('e, tshark_output) act"

record attempt_times =
  at_started :: seconds
  at_analyzed :: seconds
  at_finished :: seconds

definition analysis_payload :: "network_capture_ready \<Rightarrow> string \<Rightarrow> analysis_metrics \<Rightarrow> network_analysis_collected" where
  "analysis_payload p package_name m =
     \<lparr>na_analysis_id = nr_analysis_id p, na_capture_id = nr_capture_id p, na_application_id = nr_application_id p,
      na_package_name = package_name, na_scenario = nr_scenario p, na_analyzed_at = an_analyzed_at m,
      na_analyzer_version = an_analyzer_version m, na_tshark_version = an_tshark_version m, na_source_analyzer = an_source_analyzer m,
      na_verified_sha256 = an_verified_sha256 m, na_capture = am_capture (an_metrics m), na_capabilities = am_capabilities (an_metrics m),
      na_traffic = am_traffic (an_metrics m), na_protocol_mix = am_protocol_mix (an_metrics m), na_ip = am_ip (an_metrics m),
      na_flow = am_flow (an_metrics m), na_transfer = am_transfer (an_metrics m), na_tcp = am_tcp (an_metrics m),
      na_quic = am_quic (an_metrics m), na_udp = am_udp (an_metrics m), na_dns = am_dns (an_metrics m)\<rparr>"

definition in_net :: "('x net_state, 'r) act \<Rightarrow> (('c, 'x, 'e) analyzer_worker, 'r) act" where
  "in_net f w = (case f (aw_net w) of (r, s) \<Rightarrow> (r, w\<lparr>aw_net := s\<rparr>))"

definition in_engine :: "('e, 'r) act \<Rightarrow> (('c, 'x, 'e) analyzer_worker, 'r) act" where
  "in_engine f w = (case f (aw_engine w) of (r, e) \<Rightarrow> (r, w\<lparr>aw_engine := e\<rparr>))"

text \<open>A transaction whose body may raise, which rolls it back.\<close>

definition net_transaction :: "('x net_state \<Rightarrow> exn + 'x net_state) \<Rightarrow> (('c, 'x, 'e) analyzer_worker, unit) act" where
  "net_transaction body w = (case body (aw_net w) of Inl e \<Rightarrow> (Inl e, w) | Inr s \<Rightarrow> (Inr (), w\<lparr>aw_net := s\<rparr>))"

definition interleave :: "('x net_state \<Rightarrow> 'x net_state) \<Rightarrow> (('c, 'x, 'e) analyzer_worker, unit) act" where
  "interleave f w = (Inr (), w\<lparr>aw_net := f (aw_net w)\<rparr>)"

text \<open>The body of the \<open>try\<close> statement: from the download to the final mark.\<close>

definition run_attempt ::
  "('x, 'e) worker_ports \<Rightarrow> (nat \<Rightarrow> 'x net_state \<Rightarrow> 'x net_state) \<Rightarrow> attempt_times \<Rightarrow> network_capture_ready \<Rightarrow> uuid \<Rightarrow> string
     \<Rightarrow> (('c, 'x, 'e) analyzer_worker, unit) act" where
  "run_attempt ports others clock p i package_name =
     act_bind (in_net (on_world (download_file (wp_net ports) (nr_object_key p)))) (\<lambda>file.
     act_bind (in_engine (analyze_capture (wp_digest ports) (wp_read ports (Some file)) (Some file) (nr_scenario p)
        (nr_transfer_file_size_bytes p) (Some (nr_capture_format p)) (Some (nr_expected_sha256 p)) (at_analyzed clock))) (\<lambda>metrics.
     act_bind (interleave (others 1)) (\<lambda>_.
     act_bind (net_transaction (mark_verified i (an_verified_sha256 metrics) (at_started clock))) (\<lambda>_.
     let payload = analysis_payload p package_name metrics in
     if \<not> valid_network_analysis payload then act_raise (ValidationError ''NetworkAnalysisCollectedV1'')
     else
     act_bind (interleave (others 2)) (\<lambda>_.
     act_bind (in_net (\<lambda>s. case get_capture s i of
          None \<Rightarrow> (Inl (AnalyzerConsistencyError ''capture disappeared before publication''), s)
        | Some c \<Rightarrow> on_world (publish_analysis (wp_net ports) c payload) s)) (\<lambda>_.
     act_bind (interleave (others 3)) (\<lambda>_.
     net_transaction (mark_analyzed i (an_verified_sha256 metrics) (at_started clock) (at_finished clock)))))))))"

definition is_terminal_error :: "exn \<Rightarrow> bool" where
  "is_terminal_error e = (case e of Py p \<Rightarrow> exn_type p \<in> {''TerminalAnalysisError'', ''CaptureObjectMissingError''} | _ \<Rightarrow> False)"

definition commit_message :: "'c consumer_lib \<Rightarrow> kafka_message \<Rightarrow> (('c, 'x, 'e) analyzer_worker, bool) act" where
  "commit_message lib m w = (case kc_commit lib m (aw_consumer w) of
     (Inl e, c) \<Rightarrow> (Inl e, w\<lparr>aw_consumer := c\<rparr>) | (Inr _, c) \<Rightarrow> (Inr True, w\<lparr>aw_consumer := c\<rparr>))"

definition attempt_failed ::
  "'c consumer_lib \<Rightarrow> (nat \<Rightarrow> 'x net_state \<Rightarrow> 'x net_state) \<Rightarrow> attempt_times \<Rightarrow> kafka_message \<Rightarrow> uuid \<Rightarrow> exn
     \<Rightarrow> (('c, 'x, 'e) analyzer_worker, bool) act" where
  "attempt_failed lib others clock m i error =
     act_bind (interleave (others 4)) (\<lambda>_.
       if is_terminal_error error
       then act_bind (net_transaction (mark_failed i error (at_started clock) (at_finished clock))) (\<lambda>_. commit_message lib m)
       else act_bind (net_transaction (\<lambda>s. Inr (release_attempt i (at_started clock) s))) (\<lambda>_. act_raise error))"

definition analyze_next ::
  "'c consumer_lib \<Rightarrow> ('x, 'e) worker_ports \<Rightarrow> (nat \<Rightarrow> 'x net_state \<Rightarrow> 'x net_state) \<Rightarrow> seconds \<Rightarrow> attempt_times
     \<Rightarrow> (('c, 'x, 'e) analyzer_worker, bool) act" where
  "analyze_next lib ports others timeout clock w =
     (case kc_poll lib timeout (aw_consumer w) of
        (Inl e, c) \<Rightarrow> (Inl e, w\<lparr>aw_consumer := c\<rparr>)
      | (Inr None, c) \<Rightarrow> (Inr False, w\<lparr>aw_consumer := c\<rparr>)
      | (Inr (Some m), c) \<Rightarrow>
          (let w1 = w\<lparr>aw_consumer := c\<rparr> in
           case decode_capture_ready (wp_loads ports) (wp_parse_ready ports) m of
             InvalidReady reason \<Rightarrow> commit_message lib m w1
           | ReadyRaised e \<Rightarrow> (Inl e, w1)
           | ReadyEvent ev \<Rightarrow>
               (case load_and_validate ev (aw_net w1) of
                  Inl e \<Rightarrow> (Inl e, w1)
                | Inr (capture, package_name) \<Rightarrow>
                    if nc_status capture \<in> {''analyzed'', ''failed'', ''expired''} then commit_message lib m w1
                    else
                      (let i = nr_capture_id (ev_payload ev) in
                       case claim_attempt i (at_started clock) (at_started clock - aw_stale_seconds w1) (aw_net w1) of
                         Inl e \<Rightarrow> (Inl e, w1)
                       | Inr (False, s) \<Rightarrow> (Inl (AnalysisClaimUnavailable ''capture is already owned by a fresh analyzer attempt''), w1)
                       | Inr (True, s) \<Rightarrow>
                           (case run_attempt ports others clock (ev_payload ev) i package_name (w1\<lparr>aw_net := others 0 s\<rparr>) of
                              (Inl e, w2) \<Rightarrow> attempt_failed lib others clock m i e w2
                            | (Inr _, w2) \<Rightarrow> commit_message lib m w2)))))"

definition aw_close :: "'c consumer_lib \<Rightarrow> ('c, 'x, 'e) analyzer_worker \<Rightarrow> ('c, 'x, 'e) analyzer_worker" where
  "aw_close lib w = (if aw_closed w then w else w\<lparr>aw_consumer := kc_close lib (aw_consumer w), aw_closed := True\<rparr>)"

fun analyze_forever ::
  "'c consumer_lib \<Rightarrow> ('x, 'e) worker_ports \<Rightarrow> seconds \<Rightarrow> (bool \<times> (nat \<Rightarrow> 'x net_state \<Rightarrow> 'x net_state) \<times> attempt_times) list
     \<Rightarrow> ('c, 'x, 'e) analyzer_worker \<Rightarrow> (exn + unit) option \<times> ('c, 'x, 'e) analyzer_worker" where
  "analyze_forever lib ports timeout [] w = (None, w)"
| "analyze_forever lib ports timeout ((stopping, others, clock) # turns) w =
     (if stopping then (Some (Inr ()), aw_close lib w)
      else case analyze_next lib ports others timeout clock w of
             (Inl e, w1) \<Rightarrow> (Some (Inl e), aw_close lib w1)
           | (Inr _, w1) \<Rightarrow> analyze_forever lib ports timeout turns w1)"

end
