(* ===== verification/Capture_Invariant.thy ===== *)
theory Capture_Invariant
  imports Analyzer_Worker
begin

text \<open>
  The life of network captures under every interleaving of the capture service, the maintenance
  operations and the analyzer workers: the invariant of the tables, and what never changes.
\<close>

section \<open>The invariant\<close>

definition row_ok :: "network_capture \<Rightarrow> bool" where
  "row_ok c \<longleftrightarrow> capture_checks c \<and> is_sha256 (nc_expected_sha256 c)
     \<and> nc_object_key c = object_key_for (nc_expected_sha256 c) (nc_capture_format c)
     \<and> (nc_status c \<in> {''uploaded'', ''analyzing'', ''analyzed'', ''failed''} \<longrightarrow> nc_uploaded_at c \<noteq> None)
     \<and> (dispatchable c \<longrightarrow> nc_object_deleted_at c = None)
     \<and> nc_verified_sha256 c \<in> {None, Some (nc_expected_sha256 c)}
     \<and> (nc_status c = ''analyzed'' \<longrightarrow> nc_verified_sha256 c = Some (nc_expected_sha256 c))"

definition net_ok :: "'x net_state \<Rightarrow> bool" where
  "net_ok s \<longleftrightarrow> distinct (map fst (ns_captures s)) \<and> (\<forall>x \<in> set (ns_captures s). row_ok (snd x))
     \<and> sorted_wrt (\<lambda>x y. \<not> clashes (snd x) (snd y)) (ns_captures s)
     \<and> (\<forall>x \<in> set (ns_captures s). map_of (ns_applications s) (nc_application_id (snd x)) \<noteq> None)
     \<and> (\<forall>x \<in> set (ns_keys s). map_of (ns_captures s) (ik_capture_id (snd x)) \<noteq> None)
     \<and> (\<forall>x \<in> set (ns_applications s). stripped (snd x))"

lemma net_okD:
  assumes "net_ok s"
  shows "distinct (map fst (ns_captures s))" and "x \<in> set (ns_captures s) \<Longrightarrow> row_ok (snd x)"
    and "sorted_wrt (\<lambda>x y. \<not> clashes (snd x) (snd y)) (ns_captures s)"
    and "x \<in> set (ns_captures s) \<Longrightarrow> map_of (ns_applications s) (nc_application_id (snd x)) \<noteq> None"
    and "y \<in> set (ns_keys s) \<Longrightarrow> map_of (ns_captures s) (ik_capture_id (snd y)) \<noteq> None"
    and "z \<in> set (ns_applications s) \<Longrightarrow> stripped (snd z)"
  using assms by (auto simp: net_ok_def)

text \<open>What an update of a row keeps: everything but status, times, digest, attempts and errors.\<close>

definition same_identity :: "network_capture \<Rightarrow> network_capture \<Rightarrow> bool" where
  "same_identity c d \<longleftrightarrow> same_logical c d \<and> nc_original_filename c = nc_original_filename d \<and> nc_capture_format c = nc_capture_format d
     \<and> nc_content_type c = nc_content_type d \<and> nc_object_key c = nc_object_key d \<and> nc_capture_size_bytes c = nc_capture_size_bytes d
     \<and> nc_transfer_file_size_bytes c = nc_transfer_file_size_bytes d \<and> nc_ready_event_id c = nc_ready_event_id d
     \<and> nc_analysis_id c = nc_analysis_id d \<and> nc_analysis_event_id c = nc_analysis_event_id d"

text \<open>Once a capture's digest was verified after its upload, it stays so.\<close>

definition verified_row :: "network_capture \<Rightarrow> bool" where
  "verified_row c \<longleftrightarrow> nc_verified_sha256 c = Some (nc_expected_sha256 c)
     \<and> nc_status c \<in> {''uploaded'', ''analyzing'', ''analyzed'', ''failed''}"

definition row_moves :: "network_capture \<Rightarrow> network_capture \<Rightarrow> bool" where
  "row_moves c d \<longleftrightarrow> same_identity c d \<and> (row_ok c \<longrightarrow> row_ok d) \<and> (verified_row c \<longrightarrow> verified_row d)"

lemma same_identity_refl [simp]: "same_identity c c"
  by (simp add: same_identity_def same_logical_def)

lemma row_moves_refl [simp]: "row_moves c c"
  by (simp add: row_moves_def)

lemma same_identity_trans: "same_identity c d \<Longrightarrow> same_identity d e \<Longrightarrow> same_identity c e"
  by (simp add: same_identity_def same_logical_def)

lemma row_moves_trans: "row_moves c d \<Longrightarrow> row_moves d e \<Longrightarrow> row_moves c e"
  unfolding row_moves_def using same_identity_trans by blast

lemma same_identity_clashes: "same_identity c c' \<Longrightarrow> same_identity d d' \<Longrightarrow> clashes c' d' = clashes c d"
  by (simp add: same_identity_def clashes_def same_logical_def)

text \<open>A step keeps the rows, up to the moves of a row, and the keys and the applications.\<close>

definition evolves :: "'x net_state \<Rightarrow> 'x net_state \<Rightarrow> bool" where
  "evolves s s' \<longleftrightarrow> (\<forall>i c. get_capture s i = Some c \<longrightarrow> (\<exists>c'. get_capture s' i = Some c' \<and> row_moves c c'))
     \<and> map_of (ns_keys s) \<subseteq>\<^sub>m map_of (ns_keys s')"

lemma evolves_refl [simp]: "evolves s s"
  by (auto simp: evolves_def)

lemma evolves_trans: "evolves s t \<Longrightarrow> evolves t u \<Longrightarrow> evolves s u"
  unfolding evolves_def by (meson row_moves_trans map_le_trans)

lemma evolvesD: "evolves s s' \<Longrightarrow> get_capture s i = Some c \<Longrightarrow> \<exists>c'. get_capture s' i = Some c' \<and> row_moves c c'"
  by (simp add: evolves_def)

text \<open>An operation is safe when it keeps the invariant and evolves the state.\<close>

definition safe :: "'x net_state \<Rightarrow> 'x net_state \<Rightarrow> bool" where
  "safe s s' \<longleftrightarrow> (net_ok s \<longrightarrow> net_ok s') \<and> (net_ok s \<longrightarrow> evolves s s')"

lemma safeD: "safe s s' \<Longrightarrow> net_ok s \<Longrightarrow> net_ok s'" "safe s s' \<Longrightarrow> net_ok s \<Longrightarrow> evolves s s'"
  by (simp_all add: safe_def)

lemma safe_refl [simp]: "safe s s"
  by (simp add: safe_def)

lemma safe_trans [trans]: "safe s t \<Longrightarrow> safe t u \<Longrightarrow> safe s u"
  unfolding safe_def using evolves_trans by blast

lemma world_same [simp]:
  "ns_captures (s\<lparr>ns_world := x\<rparr>) = ns_captures s" "ns_keys (s\<lparr>ns_world := x\<rparr>) = ns_keys s"
  "ns_applications (s\<lparr>ns_world := x\<rparr>) = ns_applications s"
  by simp_all

lemma net_ok_world [simp]: "net_ok (s\<lparr>ns_world := x\<rparr>) = net_ok s"
  by (simp only: net_ok_def world_same)

lemma safe_world [simp]: "safe s (s\<lparr>ns_world := x\<rparr>)"
  by (simp add: safe_def evolves_def get_capture_def)

lemma safe_on_world: "on_world f s = (r, s') \<Longrightarrow> safe s s'"
  by (auto simp: on_world_def split: prod.splits)

lemma on_world_same:
  assumes "on_world f s = (r, s')"
  shows "ns_captures s' = ns_captures s" and "ns_keys s' = ns_keys s" and "ns_applications s' = ns_applications s"
  using assms by (auto simp: on_world_def split: prod.splits)

section \<open>Updating and adding rows\<close>

lemma put_capture_captures: "ns_captures (put_capture i c s) = map (\<lambda>(j, d). if j = i then (j, c) else (j, d)) (ns_captures s)"
  by (simp add: put_capture_def)

lemma put_capture_other [simp]: "ns_keys (put_capture i c s) = ns_keys s" "ns_applications (put_capture i c s) = ns_applications s"
  "ns_world (put_capture i c s) = ns_world s"
  by (simp_all add: put_capture_def)

lemma map_of_put: "map_of (map (\<lambda>(j, d). if j = i then (j, c) else (j, d)) cs) k = (if k = i \<and> map_of cs i \<noteq> None then Some c else map_of cs k)"
  by (induction cs) auto

lemma get_put_capture: "get_capture (put_capture i c s) k = (if k = i \<and> get_capture s i \<noteq> None then Some c else get_capture s k)"
  by (simp add: get_capture_def put_capture_captures map_of_put)

lemma put_capture_fst: "map fst (ns_captures (put_capture i c s)) = map fst (ns_captures s)"
  by (auto simp: put_capture_captures)

lemma unique_row: "distinct (map fst cs) \<Longrightarrow> (i, d) \<in> set cs \<Longrightarrow> map_of cs i = Some c \<Longrightarrow> d = c"
  by (simp add: map_of_eq_Some_iff)

lemma safe_put_capture:
  assumes "get_capture s i = Some c" and "row_moves c c'"
  shows "safe s (put_capture i c' s)"
  unfolding safe_def
proof (intro conjI impI)
  assume ok: "net_ok s"
  let ?cs = "ns_captures s" and ?f = "\<lambda>(j, d). if j = i then (j, c') else (j, d)"
  have d: "distinct (map fst ?cs)" using ok by (rule net_okD)
  have row: "e = c" if "(i, e) \<in> set ?cs" for e using unique_row [OF d that] assms(1) by (simp add: get_capture_def)
  have mv: "row_moves (snd x) (snd (?f x)) \<and> fst (?f x) = fst x" if "x \<in> set ?cs" for x
    using row assms(2) that by (cases x) auto
  show "evolves s (put_capture i c' s)" using assms by (auto simp: evolves_def get_put_capture)
  have "sorted_wrt (\<lambda>x y. \<not> clashes (snd x) (snd y)) (map ?f ?cs)"
    unfolding sorted_wrt_map
  proof (rule sorted_wrt_mono_rel [rotated])
    show "sorted_wrt (\<lambda>x y. \<not> clashes (snd x) (snd y)) ?cs" using ok by (rule net_okD)
    fix x y assume "x \<in> set ?cs" "y \<in> set ?cs" "\<not> clashes (snd x) (snd y)"
    then show "\<not> clashes (snd (?f x)) (snd (?f y))"
      using mv same_identity_clashes [of "snd x" "snd (?f x)" "snd y" "snd (?f y)"] by (simp add: row_moves_def)
  qed
  moreover have "row_ok (snd (?f x)) \<and> map_of (ns_applications s) (nc_application_id (snd (?f x))) \<noteq> None" if "x \<in> set ?cs" for x
  proof -
    have "row_ok (snd x)" "map_of (ns_applications s) (nc_application_id (snd x)) \<noteq> None"
      using net_okD(2,4) [OF ok that] by auto
    then show ?thesis using mv [OF that] unfolding row_moves_def same_identity_def same_logical_def by metis
  qed
  moreover have "map_of (map ?f ?cs) k \<noteq> None" if "map_of ?cs k \<noteq> None" for k using that by (auto simp: map_of_put)
  moreover have "map fst (map ?f ?cs) = map fst ?cs" by auto
  ultimately show "net_ok (put_capture i c' s)"
    unfolding net_ok_def put_capture_captures put_capture_other using d net_okD(5,6) [OF ok] by (simp only: ball_simps) simp
qed

lemma clashes_sym: "clashes c d = clashes d c"
  by (auto simp: clashes_def same_logical_def)

lemma safe_add_capture:
  assumes "add_capture i c s = Inr s'" and "row_ok c"
  shows "safe s s'"
proof -
  have s': "s' = s\<lparr>ns_captures := ns_captures s @ [(i, c)]\<rparr>" and new: "map_of (ns_captures s) i = None"
    and nc: "\<forall>x \<in> set (ns_captures s). \<not> clashes c (snd x)" and app: "map_of (ns_applications s) (nc_application_id c) \<noteq> None"
    using assms(1) by (auto simp: add_capture_def list_ex_iff split: if_splits)
  have keep: "map_of (ns_captures s') j = (if j = i then Some c else map_of (ns_captures s) j)" for j
    using new by (auto simp: s' map_add_def split: option.split)
  have "evolves s s'" by (auto simp: evolves_def get_capture_def keep new) (simp add: s')
  moreover have "net_ok s'" if ok: "net_ok s"
  proof -
    have "map_of (ns_captures s') j \<noteq> None" if "map_of (ns_captures s) j \<noteq> None" for j using that by (simp add: keep)
    moreover have "i \<notin> fst ` set (ns_captures s)" using new by (simp add: map_of_eq_None_iff)
    moreover have "\<forall>x \<in> set (ns_captures s). \<not> clashes (snd x) c" using nc clashes_sym by blast
    ultimately show ?thesis
      using net_okD [OF ok] assms(2) app unfolding net_ok_def by (simp add: s' sorted_wrt_append del: map_of_append)
  qed
  ultimately show ?thesis by (simp add: safe_def)
qed

lemma safe_add_key:
  assumes "add_idempotency_key k r s = Inr s'"
  shows "safe s s'" and "get_idempotency_key s' k = Some r" and "ns_captures s' = ns_captures s"
proof -
  have s': "s' = s\<lparr>ns_keys := ns_keys s @ [(k, r)]\<rparr>" and new: "map_of (ns_keys s) k = None"
    and cap: "map_of (ns_captures s) (ik_capture_id r) \<noteq> None"
    using assms(1) by (auto simp: add_idempotency_key_def split: if_splits)
  have keep: "map_of (ns_keys s') j = (if j = k then Some r else map_of (ns_keys s) j)" for j
    using new by (auto simp: s' map_add_def split: option.split)
  have "map_of (ns_keys s) \<subseteq>\<^sub>m map_of (ns_keys s')" using new by (auto simp: map_le_def keep dom_def)
  then have "evolves s s'" by (simp add: evolves_def get_capture_def s')
  moreover have "net_ok s'" if "net_ok s" using net_okD [OF that] cap unfolding net_ok_def by (simp add: s')
  ultimately show "safe s s'" by (simp add: safe_def)
  show "get_idempotency_key s' k = Some r" by (simp add: get_idempotency_key_def keep)
  show "ns_captures s' = ns_captures s" by (simp add: s')
qed

section \<open>The moves of a row\<close>

lemmas row_defs = row_moves_def same_identity_def same_logical_def row_ok_def verified_row_def dispatchable_def capture_checks_def
  CAPTURE_STATUSES_def

lemma reopen_moves: "row_moves c (reopen_expired c)"
  by (simp add: reopen_expired_def row_defs)

lemma mark_uploaded_moves: "nc_status c = ''pending_upload'' \<Longrightarrow> row_moves c (mark_uploaded now c)"
  by (simp add: mark_uploaded_def row_defs)

lemma expire_moves: "nc_status c = ''pending_upload'' \<Longrightarrow> row_moves c (expire code message c)"
  by (simp add: expire_def row_defs)

lemma retry_moves:
  "nc_status c = ''failed'' \<Longrightarrow> nc_object_deleted_at c = None \<Longrightarrow>
     row_moves c (c\<lparr>nc_status := ''uploaded'', nc_error_code := None, nc_error_message := None, nc_analysis_finished_at := None\<rparr>)"
  by (simp add: row_defs)

lemma cleanup_moves: "terminal c \<Longrightarrow> row_moves c (c\<lparr>nc_object_deleted_at := Some now\<rparr>)"
  by (auto simp: terminal_def row_defs)

lemma claim_moves: "claimable t c \<Longrightarrow> row_moves c (claim_row now c)"
  by (auto simp: claimable_def claim_row_def row_defs)

lemma release_moves: "owned t c \<Longrightarrow> row_moves c (c\<lparr>nc_status := ''uploaded''\<rparr>)"
  by (simp add: owned_def row_defs)

lemma verified_moves: "owned t c \<Longrightarrow> row_moves c (c\<lparr>nc_verified_sha256 := Some (nc_expected_sha256 c)\<rparr>)"
  by (simp add: owned_def row_defs)

lemma analyzed_moves:
  "owned t c \<Longrightarrow> row_moves c (c\<lparr>nc_verified_sha256 := Some (nc_expected_sha256 c), nc_status := ''analyzed'',
     nc_analysis_finished_at := Some now, nc_error_code := None, nc_error_message := None\<rparr>)"
  by (simp add: owned_def row_defs)

lemma failed_moves:
  "owned t c \<Longrightarrow> row_moves c (c\<lparr>nc_status := ''failed'', nc_analysis_finished_at := Some now, nc_error_code := code,
     nc_error_message := message\<rparr>)"
  by (simp add: owned_def row_defs)

section \<open>The operations keep the invariant\<close>

definition same_tables :: "'x net_state \<Rightarrow> 'x net_state \<Rightarrow> bool" where
  "same_tables s s' \<longleftrightarrow> (\<exists>x. s' = s\<lparr>ns_world := x\<rparr>)"

lemma same_tables_refl [simp]: "same_tables s s"
  unfolding same_tables_def by (rule exI [of _ "ns_world s"]) simp

lemma same_tables_trans: "same_tables s t \<Longrightarrow> same_tables t u \<Longrightarrow> same_tables s u"
  by (auto simp: same_tables_def)

lemma same_tablesD: "same_tables s s' \<Longrightarrow> safe s s'" "same_tables s s' \<Longrightarrow> ns_captures s' = ns_captures s"
  "same_tables s s' \<Longrightarrow> ns_keys s' = ns_keys s" "same_tables s s' \<Longrightarrow> ns_applications s' = ns_applications s"
  "same_tables s s' \<Longrightarrow> get_capture s' i = get_capture s i" "same_tables s s' \<Longrightarrow> net_ok s' = net_ok s"
  by (auto simp: same_tables_def get_capture_def)

lemma on_world_tables: "on_world f s = (r, s') \<Longrightarrow> same_tables s s'"
  by (auto simp: on_world_def same_tables_def split: prod.splits)

lemma bind_tables:
  assumes "act_bind m k s = (r, s')" and "\<And>r1 s1. m s = (r1, s1) \<Longrightarrow> same_tables s s1"
    and "\<And>a s1 r1 s2. k a s1 = (r1, s2) \<Longrightarrow> same_tables s1 s2"
  shows "same_tables s s'"
  using assms by (auto simp: act_bind_def split: prod.splits sum.splits intro: same_tables_trans)

lemma publish_if_tables: "publish_ready_if_dispatchable ports i c p s = (r, s') \<Longrightarrow> same_tables s s'"
  by (auto simp: publish_ready_if_dispatchable_def split: if_splits sum.splits dest: on_world_tables)

lemma create_response_tables: "create_response ports conf i c s = (r, s') \<Longrightarrow> same_tables s s'"
  by (auto simp: create_response_def Let_def act_return_def split: if_splits
      elim!: bind_tables dest: on_world_tables)

lemma announce_tables: "announce ports conf i c p s = (r, s') \<Longrightarrow> same_tables s s'"
  unfolding announce_def by (erule bind_tables) (auto dest: publish_if_tables create_response_tables)

lemma create_response_ids:
  "create_response ports conf i c s = (Inr r, s') \<Longrightarrow> cr_capture_id r = i \<and> cr_analysis_id r = nc_analysis_id c
     \<and> cr_ready_event_id r = nc_ready_event_id c \<and> cr_status r = nc_status c"
  by (auto simp: create_response_def Let_def act_defs split: if_splits prod.splits sum.splits)

lemma announce_ids:
  "announce ports conf i c p s = (Inr r, s') \<Longrightarrow> cr_capture_id r = i \<and> cr_analysis_id r = nc_analysis_id c
     \<and> cr_ready_event_id r = nc_ready_event_id c \<and> cr_status r = nc_status c"
  by (auto simp: announce_def act_bind_def split: prod.splits sum.splits dest: create_response_ids)

lemma get_capture_member: "net_ok s \<Longrightarrow> (i, c) \<in> set (ns_captures s) \<Longrightarrow> get_capture s i = Some c"
  by (simp add: get_capture_def net_okD(1))

lemma get_capture_in: "get_capture s i = Some c \<Longrightarrow> (i, c) \<in> set (ns_captures s)"
  by (simp add: get_capture_def map_of_SomeD)

lemma get_logical_row:
  assumes "get_logical s a sc sha = Some (i, c)"
  shows "(i, c) \<in> set (ns_captures s)" and "nc_application_id c = a" and "nc_scenario c = sc" and "nc_expected_sha256 c = sha"
  using find_SomeD [OF assms [unfolded get_logical_def]] by auto

lemma create_replay_safe:
  assumes "create_replay ports conf fp mapping s = (r, s')"
  shows "safe s s'"
proof (cases "ik_request_fingerprint mapping \<noteq> fp \<or> get_capture s (ik_capture_id mapping) = None")
  case False
  then obtain c where c: "get_capture s (ik_capture_id mapping) = Some c" by auto
  have "safe s (put_capture (ik_capture_id mapping) (reopen_expired c) s)" by (rule safe_put_capture [OF c reopen_moves])
  moreover have "same_tables (put_capture (ik_capture_id mapping) (reopen_expired c) s) s'"
    using assms False c by (auto simp: create_replay_def dest: announce_tables)
  ultimately show ?thesis using same_tablesD(1) safe_trans by blast
qed (use assms in \<open>auto simp: create_replay_def split: if_splits\<close>)

lemma create_reuse_safe:
  assumes "create_reuse ports conf fp d key now (i, c) s = (r, s')" and "(i, c) \<in> set (ns_captures s)"
  shows "safe s s'"
proof -
  have "safe s s'" if ok: "net_ok s"
  proof (cases "validate_logical_metadata c d")
    case True
    have put: "safe s (put_capture i (reopen_expired c) s)"
      by (rule safe_put_capture [OF get_capture_member [OF ok assms(2)] reopen_moves])
    show ?thesis
    proof (cases "add_idempotency_key key \<lparr>ik_capture_id = i, ik_request_fingerprint = fp, ik_created_at = now\<rparr> (put_capture i (reopen_expired c) s)")
      case (Inr s1)
      then have "same_tables s1 s'" using assms(1) True by (auto simp: create_reuse_def dest: announce_tables)
      then show ?thesis using put safe_add_key(1) [OF Inr] same_tablesD(1) safe_trans by blast
    qed (use assms(1) True in \<open>auto simp: create_reuse_def\<close>)
  qed (use assms(1) in \<open>auto simp: create_reuse_def\<close>)
  then show ?thesis by (auto simp: safe_def)
qed

lemma object_key_inject:
  assumes "object_key_for a f = object_key_for b g" and "length a = 64" and "length b = 64"
  shows "a = b"
  using assms by (simp add: object_key_for_def)

lemma latest_finished_in: "latest_finished cs = Some x \<Longrightarrow> x \<in> set cs"
  by (induction cs arbitrary: x) (auto split: option.splits if_splits)

lemma get_verified_row:
  assumes "net_ok s" and "get_verified_object s (object_key_for sha f) = Some (j, v)" and "is_sha256 sha"
  shows "nc_verified_sha256 v = Some sha"
proof -
  have m: "(j, v) \<in> set (ns_captures s)" "nc_object_key v = object_key_for sha f" "nc_verified_sha256 v \<noteq> None"
    using latest_finished_in [OF assms(2) [unfolded get_verified_object_def]] by auto
  have ok: "row_ok v" using net_okD(2) [OF assms(1) m(1)] by simp
  then have "nc_expected_sha256 v = sha"
    using object_key_inject [of "nc_expected_sha256 v" "nc_capture_format v" sha f] m(2) assms(3) by (simp add: row_ok_def is_sha256_def)
  then show ?thesis using ok m(3) by (auto simp: row_ok_def)
qed

lemma shared_object_tables: "shared_object ports d s = (r, s') \<Longrightarrow> same_tables s s'"
  by (auto simp: shared_object_def Let_def act_defs split: option.splits prod.splits if_splits sum.splits dest: on_world_tables)

lemma shared_object_verified:
  assumes "net_ok s" and "shared_object ports d s = (Inr (Some v), s')" and "is_sha256 (cc_sha256 d)"
  shows "nc_verified_sha256 v = Some (cc_sha256 d)"
proof -
  obtain j w where w: "get_verified_object s (object_key_for (cc_sha256 d) (cc_capture_format d)) = Some (j, w)"
    using assms(2) by (auto simp: shared_object_def Let_def split: option.splits)
  then have "v = w" using assms(2)
    by (auto simp: shared_object_def Let_def act_defs split: prod.splits if_splits sum.splits option.splits)
  then show ?thesis using get_verified_row [OF assms(1) w assms(3)] by simp
qed

lemma new_capture_ok:
  assumes "valid_capture_create d" and "\<And>v. verified = Some v \<Longrightarrow> nc_verified_sha256 v = Some (cc_sha256 d)"
  shows "row_ok (new_capture d fresh now verified)"
  using assms by (cases verified)
    (auto simp: new_capture_def row_ok_def capture_checks_def valid_capture_create_def positive_def CAPTURE_STATUSES_def
      is_capture_format_def cc_capture_format_def dispatchable_def)

lemma insert_new_safe:
  assumes "insert_new d key fresh now fp verified s = Inr s'" and "row_ok (new_capture d fresh now verified)"
  shows "safe s s'"
  using assms by (auto simp: insert_new_def split: sum.splits intro: safe_trans [OF safe_add_capture safe_add_key(1)])

lemma create_tail_safe:
  assumes "valid_capture_create d" and "\<And>t. safe t (others t)" and "shared_object ports d s = (Inr verified, s1)" and "net_ok s"
    and "(case insert_new d key fresh now fp verified (others s1) of
            Inr s3 \<Rightarrow> announce ports conf (fr_capture fresh) (new_capture d fresh now verified) (Some package_name) s3
          | Inl e \<Rightarrow>
              if \<not> is_integrity_error e then (Inl e, others s1)
              else case get_idempotency_key (others s1) key of
                Some mapping \<Rightarrow> create_replay ports conf fp mapping (others s1)
              | None \<Rightarrow> (case get_logical (others s1) a sc sha of
                  Some l \<Rightarrow> create_reuse ports conf fp d key now l (others s1)
                | None \<Rightarrow> (Inl e, others s1))) = (r, s')"
  shows "safe s s'"
proof -
  have sha: "is_sha256 (cc_sha256 d)" using assms(1) by (simp add: valid_capture_create_def)
  have row: "row_ok (new_capture d fresh now verified)"
    by (rule new_capture_ok [OF assms(1)]) (use shared_object_verified [OF assms(4) _ sha] assms(3) in blast)
  have s2: "safe s (others s1)" using same_tablesD(1) [OF shared_object_tables [OF assms(3)]] assms(2) safe_trans by blast
  have "safe (others s1) s'"
  proof (cases "insert_new d key fresh now fp verified (others s1)")
    case (Inr s3)
    then have "same_tables s3 s'" using assms(5) by (auto dest: announce_tables)
    then show ?thesis using insert_new_safe [OF Inr row] same_tablesD(1) safe_trans by blast
  next
    case (Inl e)
    then show ?thesis using assms(5)
      by (auto split: if_splits option.splits dest: create_replay_safe create_reuse_safe get_logical_row(1))
  qed
  then show ?thesis using s2 safe_trans by blast
qed

lemma cs_create_safe:
  assumes "valid_capture_create d" and "\<And>t. safe t (others t)" and "cs_create ports conf digest others d key fresh now s = (r, s')"
  shows "safe s s'"
proof -
  have "safe s s'" if ok: "net_ok s"
  proof (cases "get_idempotency_key s key")
    case (Some mapping)
    then show ?thesis using assms(3) by (auto simp: cs_create_def Let_def dest: create_replay_safe)
  next
    case None
    note start = assms(3) [unfolded cs_create_def Let_def None option.case]
    show ?thesis
    proof (cases "set_max_capture_size_bytes conf < cc_capture_size_bytes d")
      case False
      note start = start [unfolded if_not_P [OF False]]
      show ?thesis
      proof (cases "get_logical s (cc_application_id d) (cc_scenario d) (cc_sha256 d)")
        case (Some l)
        then show ?thesis using start by (cases l) (auto dest: create_reuse_safe get_logical_row(1))
      next
        case nl: None
        note start = start [unfolded nl option.case]
        show ?thesis
        proof (cases "application_package_name s (cc_application_id d)")
          case (Some package_name)
          note start = start [unfolded Some option.case act_bind_def]
          show ?thesis
          proof (cases "shared_object ports d s")
            case (Pair v s1)
            show ?thesis
            proof (cases v)
              case (Inl e)
              then show ?thesis using start Pair by (auto dest: shared_object_tables same_tablesD(1))
            next
              case (Inr verified)
              show ?thesis
                by (rule create_tail_safe [OF assms(1,2) _ ok start [unfolded Pair Inr prod.case sum.case]]) (simp add: Pair Inr)
            qed
          qed
        qed (use start in auto)
      qed
    qed (use start in auto)
  qed
  then show ?thesis by (auto simp: safe_def)
qed

lemma cs_complete_safe:
  assumes "cs_complete ports i now s = (r, s')"
  shows "safe s s'"
proof (cases "get_capture s i")
  case (Some c)
  note start = assms [unfolded cs_complete_def cs_get_def Some option.case sum.case]
  show ?thesis
  proof (cases "nc_status c \<in> {''failed'', ''expired''}")
    case False
    note start = start [unfolded if_not_P [OF False] act_bind_def]
    obtain m s1 where h: "on_world (head_object ports (nc_object_key c)) s = (m, s1)" by fastforce
    note t1 = on_world_tables [OF h]
    have c1: "get_capture s1 i = Some c" using Some same_tablesD(5) [OF t1] by simp
    have put: "safe s (if nc_status c = ''pending_upload'' then put_capture i (if nc_status c = ''pending_upload'' then mark_uploaded now c else c) s1 else s1)"
      using safe_trans [OF same_tablesD(1) [OF t1] safe_put_capture [OF c1 mark_uploaded_moves]] same_tablesD(1) [OF t1] by auto
    let ?c1 = "if nc_status c = ''pending_upload'' then mark_uploaded now c else c"
    let ?s2 = "if nc_status c = ''pending_upload'' then put_capture i ?c1 s1 else s1"
    have tail: "same_tables ?s2 s'"
      if "(if dispatchable ?c1 then (case package_name_for_capture ?s2 ?c1 of Inl e \<Rightarrow> (Inl e, ?s2)
             | Inr p \<Rightarrow> act_bind (on_world (publish_ready ports i ?c1 p)) (\<lambda>_. act_return ?c1) ?s2) else (Inr ?c1, ?s2)) = (r, s')"
    proof (cases "dispatchable ?c1")
      case True
      show ?thesis
      proof (cases "package_name_for_capture ?s2 ?c1")
        case (Inr p)
        with that True have "act_bind (on_world (publish_ready ports i ?c1 p)) (\<lambda>_. act_return ?c1) ?s2 = (r, s')" by (simp only: if_True sum.case)
        then show ?thesis by (rule bind_tables) (auto simp: act_return_def dest: on_world_tables)
      qed (use that True in \<open>simp only: if_True sum.case prod.inject, simp\<close>)
    qed (use that in \<open>simp only: if_False prod.inject, simp\<close>)
    have "s' = s1 \<or> same_tables ?s2 s'"
    proof (cases m)
      case (Inr metadata)
      show ?thesis
      proof (cases metadata)
        case (Some md)
        show ?thesis
        proof (cases "om_size_bytes md = nc_capture_size_bytes c")
          case True
          have "same_tables ?s2 s'"
            by (rule tail) (use start True in \<open>simp only: h Inr Some prod.case sum.case option.case Let_def act_bind_def simp_thms if_False\<close>)
          then show ?thesis ..
        qed (use start in \<open>simp add: h Inr Some\<close>)
      qed (use start in \<open>simp add: h Inr\<close>)
    qed (use start in \<open>simp add: h\<close>)
    then show ?thesis
    proof
      assume "s' = s1"
      then show ?thesis using same_tablesD(1) [OF t1] by (simp only:)
    next
      assume "same_tables ?s2 s'"
      then show ?thesis by (rule safe_trans [OF put same_tablesD(1)])
    qed
  qed (use start in auto)
qed (use assms in \<open>auto simp: cs_complete_def cs_get_def\<close>)

lemma safe_put_captures:
  "distinct (map fst ch) \<Longrightarrow> \<forall>x \<in> set ch. \<exists>c. get_capture s (fst x) = Some c \<and> row_moves c (snd x) \<Longrightarrow> safe s (put_captures ch s)"
proof (induction ch arbitrary: s)
  case (Cons x ch)
  obtain i c' where x: "x = (i, c')" by fastforce
  obtain c where c: "get_capture s i = Some c" "row_moves c c'" using Cons.prems(2) x by auto
  let ?s = "put_capture i c' s"
  have "\<forall>y \<in> set ch. \<exists>d. get_capture ?s (fst y) = Some d \<and> row_moves d (snd y)"
  proof
    fix y assume y: "y \<in> set ch"
    then have "fst y \<noteq> i" using Cons.prems(1) x by force
    then show "\<exists>d. get_capture ?s (fst y) = Some d \<and> row_moves d (snd y)" using Cons.prems(2) y by (auto simp: get_put_capture)
  qed
  then have "safe ?s (put_captures ch ?s)" using Cons.prems(1) by (intro Cons.IH) auto
  then show ?case using safe_trans [OF safe_put_capture [OF c]] by (simp add: put_captures_def x)
qed (simp add: put_captures_def)

lemma reconcile_one_moves:
  assumes "reconcile_one ports now pc ac c x = (Inr r, x')"
  shows "case r of Expired d \<Rightarrow> row_moves c d | Uploaded d \<Rightarrow> row_moves c d | _ \<Rightarrow> True"
  using assms
  by (auto simp: reconcile_one_def act_return_def act_bind_def mark_uploaded_moves expire_moves split: if_splits prod.splits sum.splits option.splits)

lemma reconcile_rows_moves:
  "reconcile_rows ports now pc ac rows x = (Inr (ch, rest), x') \<Longrightarrow> distinct (map fst rows) \<Longrightarrow>
     distinct (map fst ch) \<and> fst ` set ch \<subseteq> fst ` set rows \<and> (\<forall>y \<in> set ch. \<exists>c p. (fst y, c, p) \<in> set rows \<and> row_moves c (snd y))"
proof (induction rows arbitrary: x ch rest)
  case (Cons row rows)
  obtain i c p where row: "row = (i, c, p)" by (cases row) auto
  obtain r x1 ch1 tp u e where one: "reconcile_one ports now pc ac c x = (Inr r, x1)"
    and rec: "reconcile_rows ports now pc ac rows x1 = (Inr (ch1, tp, u, e), x')"
    and ch: "ch = (case r of Expired d \<Rightarrow> (i, d) # ch1 | Uploaded d \<Rightarrow> (i, d) # ch1 | _ \<Rightarrow> ch1)"
    using Cons.prems(1) unfolding row
    by (auto simp: act_bind_def act_return_def split: prod.splits sum.splits reconciled.splits)
  have IH: "distinct (map fst ch1)" "fst ` set ch1 \<subseteq> fst ` set rows" "\<forall>y \<in> set ch1. \<exists>c p. (fst y, c, p) \<in> set rows \<and> row_moves c (snd y)"
    using Cons.IH [OF rec] Cons.prems(2) by simp_all
  have "i \<notin> fst ` set rows" using Cons.prems(2) row by auto
  moreover have "\<forall>y \<in> set ch1. \<exists>c p. (fst y, c, p) \<in> set (row # rows) \<and> row_moves c (snd y)" using IH(3) by (meson list.set_intros(2))
  moreover have "(i, c, p) \<in> set (row # rows)" by (simp add: row)
  ultimately show ?case
    using IH(1,2) reconcile_one_moves [OF one] unfolding ch row by (auto split: reconciled.splits)
qed (simp add: act_return_def)

lemma reconcile_select_rows:
  assumes "net_ok s"
  shows "distinct (map fst (reconcile_select s))" and "(i, c, p) \<in> set (reconcile_select s) \<Longrightarrow> get_capture s i = Some c"
proof -
  let ?l = "sort_key (\<lambda>(i, c). (nc_created_at c, i)) (filter (\<lambda>(i, c). nc_status c \<in> {''pending_upload'', ''uploaded'', ''analyzing''}) (ns_captures s))"
  let ?g = "\<lambda>(i, c). case map_of (ns_applications s) (nc_application_id c) of None \<Rightarrow> [] | Some p \<Rightarrow> [(i, c, p)]"
  have sub: "fst ` set (concat (map ?g l)) \<subseteq> fst ` set l" for l by (force split: option.splits)
  have d: "distinct (map fst (concat (map ?g l)))" if "distinct (map fst l)" for l
    using that
  proof (induction l)
    case (Cons a l)
    obtain i c where a: "a = (i, c)" by fastforce
    have "i \<notin> fst ` set l" using Cons.prems a by simp
    then have "i \<notin> fst ` set (concat (map ?g l))" using sub [of l] by blast
    then show ?case using Cons by (auto simp: a split: option.splits)
  qed simp
  have "distinct (map fst (filter (\<lambda>(i, c). nc_status c \<in> {''pending_upload'', ''uploaded'', ''analyzing''}) (ns_captures s)))"
    using net_okD(1) [OF assms] by (rule distinct_map_filter)
  then have "distinct (map fst ?l)" by (simp add: distinct_map)
  then show "distinct (map fst (reconcile_select s))" unfolding reconcile_select_def by (rule d)
  show "(i, c, p) \<in> set (reconcile_select s) \<Longrightarrow> get_capture s i = Some c"
    using get_capture_member [OF assms] by (auto simp: reconcile_select_def split: option.splits)
qed

lemma publish_rows_tables: "publish_rows ports rows s = (r, s') \<Longrightarrow> same_tables s s'"
proof (induction ports rows s arbitrary: r s' rule: publish_rows.induct)
  case (2 ports i p rows s)
  show ?case
  proof (cases "get_capture s i")
    case None
    then show ?thesis using 2 by simp
  next
    case (Some c)
    obtain r1 s1 where w: "on_world (publish_ready ports i c p) s = (r1, s1)" by fastforce
    note t = on_world_tables [OF w]
    show ?thesis
    proof (cases r1)
      case (Inr u)
      then have "publish_rows ports rows s1 = (r, s')" using 2(3) by (simp add: Some act_bind_def w)
      from "2.IH"(2) [OF Some this] show ?thesis by (rule same_tables_trans [OF t])
    qed (use 2(3) t in \<open>simp add: Some act_bind_def w\<close>)
  qed
qed simp

lemma reconcile_safe:
  assumes "reconcile_captures ports pe sa now s = (r, s')"
  shows "safe s s'"
proof -
  obtain o1 s1 where w: "on_world (reconcile_rows ports now (now - pe) (now - sa) (reconcile_select s)) s = (o1, s1)" by fastforce
  note t1 = on_world_tables [OF w]
  have "safe s s'" if ok: "net_ok s"
  proof (cases o1)
    case (Inl e)
    then show ?thesis using assms same_tablesD(1) [OF t1] by (simp add: reconcile_captures_def w)
  next
    case (Inr q)
    obtain ch tp u e where q: "q = (ch, tp, u, e)" by (cases q) auto
    have rows: "reconcile_rows ports now (now - pe) (now - sa) (reconcile_select s) (ns_world s) = (Inr (ch, tp, u, e), ns_world s1)"
      using w Inr q by (auto simp: on_world_def split: prod.splits)
    note mv = reconcile_rows_moves [OF rows reconcile_select_rows(1) [OF ok]]
    have "\<forall>y \<in> set ch. \<exists>c. get_capture s1 (fst y) = Some c \<and> row_moves c (snd y)"
      using mv reconcile_select_rows(2) [OF ok] same_tablesD(5) [OF t1] by metis
    then have "safe s1 (put_captures ch s1)" using mv by (intro safe_put_captures) auto
    moreover have "same_tables (put_captures ch s1) s'"
    proof -
      have "act_bind (publish_rows ports tp) (\<lambda>_. act_return \<lparr>rs_published = length tp, rs_uploaded = u, rs_expired = e\<rparr>)
          (put_captures ch s1) = (r, s')" using assms by (simp add: reconcile_captures_def w Inr q)
      then show ?thesis by (rule bind_tables) (auto simp: act_return_def dest: publish_rows_tables)
    qed
    ultimately show ?thesis using same_tablesD(1) t1 safe_trans by blast
  qed
  then show ?thesis by (auto simp: safe_def)
qed

lemma retry_safe:
  assumes "retry_capture ports i s = (r, s')"
  shows "safe s s'"
proof (cases "get_capture s i")
  case (Some c)
  let ?c = "c\<lparr>nc_status := ''uploaded'', nc_error_code := None, nc_error_message := None, nc_analysis_finished_at := None\<rparr>"
  show ?thesis
  proof (cases "s' = s")
    case False
    then obtain p where f: "nc_status c = ''failed''" "nc_object_deleted_at c = None"
      and b: "act_bind (on_world (publish_ready ports i ?c p)) (\<lambda>_. act_return ?c) (put_capture i ?c s) = (r, s')"
      using assms by (auto simp: retry_capture_def Some Let_def split: option.splits if_splits)
    from b have "same_tables (put_capture i ?c s) s'" by (rule bind_tables) (auto simp: act_return_def dest: on_world_tables)
    then show ?thesis by (rule safe_trans [OF safe_put_capture [OF Some retry_moves [OF f]] same_tablesD(1)])
  qed simp
qed (use assms in \<open>simp add: retry_capture_def\<close>)

lemma object_references_rows:
  "net_ok s \<Longrightarrow> distinct (map fst (object_references s k))"
  "net_ok s \<Longrightarrow> x \<in> set (object_references s k) \<Longrightarrow> get_capture s (fst x) = Some (snd x)"
  by (auto simp: object_references_def net_okD(1) distinct_map_filter intro: get_capture_member)

lemma cleanup_cases:
  assumes "cleanup_capture_object ports i now s = (r, s')" and "get_capture s i = Some c"
  shows "same_tables s s' \<and> (\<forall>n. r = Inr n \<longrightarrow> n = 0 \<and> object_references s (nc_object_key c) = [])
     \<or> (\<forall>x \<in> set (object_references s (nc_object_key c)). terminal (snd x)) \<and> r = Inr (length (object_references s (nc_object_key c)))
         \<and> (\<exists>s1. same_tables s s1
              \<and> s' = put_captures (map (\<lambda>(i, r). (i, r\<lparr>nc_object_deleted_at := Some now\<rparr>)) (object_references s (nc_object_key c))) s1)"
proof -
  let ?refs = "object_references s (nc_object_key c)"
  obtain m s1 where h: "on_world (head_object ports (nc_object_key c)) s = (m, s1)" by fastforce
  obtain u s2 where d: "on_world (delete_object ports (nc_object_key c)) s1 = (u, s2)" by fastforce
  note t = on_world_tables [OF h] on_world_tables [OF d]
  consider "list_ex (\<lambda>(i, r). \<not> terminal r) ?refs" | "?refs = []" | "\<not> list_ex (\<lambda>(i, r). \<not> terminal r) ?refs" "?refs \<noteq> []" by blast
  then show ?thesis
  proof cases
    case 3
    let ?marked = "put_captures (map (\<lambda>(i, r). (i, r\<lparr>nc_object_deleted_at := Some now\<rparr>)) ?refs)"
    have ended: "\<forall>x \<in> set ?refs. terminal (snd x)" using 3(1) by (auto simp: list_ex_iff)
    have e: "(case (m, s1) of (Inl e, s) \<Rightarrow> (Inl e, s)
        | (Inr md, s) \<Rightarrow> (case (if md = None then (Inr (), s) else on_world (delete_object ports (nc_object_key c)) s) of
            (Inl e, s) \<Rightarrow> (Inl e, s) | (Inr _, s) \<Rightarrow> (Inr (length ?refs), ?marked s))) = (r, s')"
      using assms(1) 3 unfolding cleanup_capture_object_def assms(2) Let_def act_bind_def act_return_def
      by (cases m; cases "projr m") (simp_all add: h)
    show ?thesis
    proof (cases m)
      case (Inl x)
      then show ?thesis using e t(1) by auto
    next
      case md: (Inr md)
      show ?thesis
      proof (cases "md = None")
        case True
        then show ?thesis using e t(1) ended md by auto
      next
        case False
        have "same_tables s s2" using t by (rule same_tables_trans)
        then show ?thesis using e ended md False d by (cases u) auto
      qed
    qed
  qed (use assms(1) in \<open>auto simp: cleanup_capture_object_def assms(2) Let_def\<close>)
qed

lemma cleanup_safe:
  assumes "cleanup_capture_object ports i now s = (r, s')"
  shows "safe s s'"
proof (cases "get_capture s i")
  case (Some c)
  have "safe s s'" if ok: "net_ok s"
  proof -
    from cleanup_cases [OF assms Some] show ?thesis
    proof (elim disjE conjE exE)
      fix s1 assume ended: "\<forall>x \<in> set (object_references s (nc_object_key c)). terminal (snd x)" and t: "same_tables s s1"
        and s': "s' = put_captures (map (\<lambda>(i, r). (i, r\<lparr>nc_object_deleted_at := Some now\<rparr>)) (object_references s (nc_object_key c))) s1"
      have "safe s1 s'" unfolding s'
      proof (rule safe_put_captures)
        have "map fst (map (\<lambda>(i, r). (i, r\<lparr>nc_object_deleted_at := Some now\<rparr>)) l) = map fst l" for l :: "(uuid \<times> network_capture) list" by auto
        then show "distinct (map fst (map (\<lambda>(i, r). (i, r\<lparr>nc_object_deleted_at := Some now\<rparr>)) (object_references s (nc_object_key c))))"
          using object_references_rows(1) [OF ok] by metis
        show "\<forall>x \<in> set (map (\<lambda>(i, r). (i, r\<lparr>nc_object_deleted_at := Some now\<rparr>)) (object_references s (nc_object_key c))).
            \<exists>d. get_capture s1 (fst x) = Some d \<and> row_moves d (snd x)"
          using object_references_rows(2) [OF ok] ended cleanup_moves same_tablesD(5) [OF t] by fastforce
      qed
      then show ?thesis by (rule safe_trans [OF same_tablesD(1) [OF t]])
    qed (rule same_tablesD)
  qed
  then show ?thesis by (auto simp: safe_def)
qed (use assms in \<open>simp add: cleanup_capture_object_def\<close>)

lemma claim_safe: "claim_attempt i t stale s = Inr (b, s') \<Longrightarrow> safe s s'"
  by (auto simp: claim_attempt_def split: option.splits if_splits intro: safe_put_capture claim_moves)

lemma release_safe: "safe s (release_attempt i t s)"
  by (auto simp: release_attempt_def split: option.splits intro: safe_put_capture release_moves)

lemma update_owned_Inr:
  "update_owned cond change i s = Inr s' \<Longrightarrow> \<exists>c. get_capture s i = Some c \<and> cond c \<and> s' = put_capture i (change c) s"
  by (auto simp: update_owned_def split: option.splits if_splits)

lemma mark_verified_safe: "mark_verified i sha t s = Inr s' \<Longrightarrow> safe s s'"
  by (auto simp: mark_verified_def dest!: update_owned_Inr intro: safe_put_capture verified_moves)

lemma mark_analyzed_safe: "mark_analyzed i sha t now s = Inr s' \<Longrightarrow> safe s s'"
  by (auto simp: mark_analyzed_def dest!: update_owned_Inr intro: safe_put_capture analyzed_moves)

lemma mark_failed_safe: "mark_failed i e t now s = Inr s' \<Longrightarrow> safe s s'"
  by (auto simp: mark_failed_def dest!: update_owned_Inr intro: safe_put_capture failed_moves)

section \<open>Histories\<close>

text \<open>
  Every history of the network tables: requests, maintenance and the transactions of any number of
  analyzer workers in any order, while the rest of the world (objects uploaded by clients, the broker)
  changes and the registry adds and renames applications. The concurrent effects in a creation are
  histories themselves.
\<close>

inductive net_reaches :: "'x net_ports \<Rightarrow> capture_settings \<Rightarrow> (bytes \<Rightarrow> string) \<Rightarrow> 'x net_state \<Rightarrow> 'x net_state \<Rightarrow> bool"
  for ports conf digest where
  start: "net_reaches ports conf digest s s"
| world: "net_reaches ports conf digest s0 s \<Longrightarrow> net_reaches ports conf digest s0 (s\<lparr>ns_world := x\<rparr>)"
| application: "net_reaches ports conf digest s0 s \<Longrightarrow> stripped p \<Longrightarrow>
    net_reaches ports conf digest s0 (s\<lparr>ns_applications := AList.update a p (ns_applications s)\<rparr>)"
| create: "net_reaches ports conf digest s0 s \<Longrightarrow> valid_capture_create d \<Longrightarrow> (\<And>t. net_reaches ports conf digest t (others t)) \<Longrightarrow>
    cs_create ports conf digest others d key fresh now s = (r, s') \<Longrightarrow> net_reaches ports conf digest s0 s'"
| complete: "net_reaches ports conf digest s0 s \<Longrightarrow> cs_complete ports i now s = (r1, s') \<Longrightarrow> net_reaches ports conf digest s0 s'"
| reconcile: "net_reaches ports conf digest s0 s \<Longrightarrow> reconcile_captures ports pe sa now s = (r2, s') \<Longrightarrow> net_reaches ports conf digest s0 s'"
| retry: "net_reaches ports conf digest s0 s \<Longrightarrow> retry_capture ports i s = (r1, s') \<Longrightarrow> net_reaches ports conf digest s0 s'"
| cleanup: "net_reaches ports conf digest s0 s \<Longrightarrow> cleanup_capture_object ports i now s = (r3, s') \<Longrightarrow> net_reaches ports conf digest s0 s'"
| claim: "net_reaches ports conf digest s0 s \<Longrightarrow> claim_attempt i t stale s = Inr (b, s') \<Longrightarrow> net_reaches ports conf digest s0 s'"
| release: "net_reaches ports conf digest s0 s \<Longrightarrow> net_reaches ports conf digest s0 (release_attempt i t s)"
| verified: "net_reaches ports conf digest s0 s \<Longrightarrow> mark_verified i sha t s = Inr s' \<Longrightarrow> net_reaches ports conf digest s0 s'"
| analyzed: "net_reaches ports conf digest s0 s \<Longrightarrow> mark_analyzed i sha t now s = Inr s' \<Longrightarrow> net_reaches ports conf digest s0 s'"
| failed: "net_reaches ports conf digest s0 s \<Longrightarrow> mark_failed i e t now s = Inr s' \<Longrightarrow> net_reaches ports conf digest s0 s'"

lemma safe_application:
  assumes "stripped p"
  shows "safe s (s\<lparr>ns_applications := AList.update a p (ns_applications s)\<rparr>)"
proof -
  let ?s = "s\<lparr>ns_applications := AList.update a p (ns_applications s)\<rparr>"
  have keep: "map_of (AList.update a p l) j \<noteq> None" if "map_of l j \<noteq> None" for j l using that by (auto simp: update_conv)
  have strip: "\<forall>x \<in> set (AList.update a p l). stripped (snd x)" if "\<forall>x \<in> set l. stripped (snd x)" for l
    using that assms by (induction l) auto
  have fs: "ns_captures ?s = ns_captures s" "ns_keys ?s = ns_keys s" "ns_applications ?s = AList.update a p (ns_applications s)" by simp_all
  have "net_ok ?s" if ok: "net_ok s"
    unfolding net_ok_def fs
    using net_okD(1-3,5) [OF ok] keep [OF net_okD(4) [OF ok]] strip [of "ns_applications s"] net_okD(6) [OF ok] by blast
  then show ?thesis by (simp add: safe_def evolves_def get_capture_def)
qed

lemma reaches_safe: "net_reaches ports conf digest s s' \<Longrightarrow> safe s s'"
proof (induction rule: net_reaches.induct)
  case (create s0 s d others key fresh now r s')
  then show ?case using cs_create_safe safe_trans by blast
qed (blast intro: safe_trans safe_refl safe_world safe_application cs_complete_safe reconcile_safe retry_safe cleanup_safe claim_safe
      release_safe mark_verified_safe mark_analyzed_safe mark_failed_safe)+

lemma reaches_ok: "net_reaches ports conf digest s s' \<Longrightarrow> net_ok s \<Longrightarrow> net_ok s'"
  using safeD(1) [OF reaches_safe] .

lemma reaches_evolves: "net_reaches ports conf digest s s' \<Longrightarrow> net_ok s \<Longrightarrow> evolves s s'"
  using safeD(2) [OF reaches_safe] .

end
