(* ===== verification/Capture_Histories.thy ===== *)
theory Capture_Histories
  imports Capture_Invariant
begin

text \<open>
  What the network components guarantee over whole histories: creation is idempotent, the events they
  publish are well formed and accepted downstream, and cleanup never takes an object that is needed.
\<close>

section \<open>Request fingerprints\<close>

lemma json_char_nonempty: "\<exists>a r. json_char c = a # r \<and> a \<noteq> CHR 0x22"
  by (simp add: json_char_def)

lemma hex_char_values: "map hex_char [0..<16] = ''0123456789abcdef''"
  by code_simp

lemma hex_char_nth: "a < 16 \<Longrightarrow> hex_char a = ''0123456789abcdef'' ! a"
  by (simp only: hex_char_values [symmetric] nth_map length_upt nth_upt) simp

lemma hex_char_inject: "a < 16 \<Longrightarrow> b < 16 \<Longrightarrow> hex_char a = hex_char b \<Longrightarrow> a = b"
  using nth_eq_iff_index_eq [of "''0123456789abcdef''" a b] by (simp add: hex_char_nth)

lemma control_char_inject:
  assumes "hex_char (of_char c div 16) = hex_char (of_char d div 16)" and "hex_char (of_char c mod 16) = hex_char (of_char d mod 16)"
    and "(of_char c :: nat) < 32" and "(of_char d :: nat) < 32"
  shows "c = d"
proof -
  have "(of_char c :: nat) div 16 = of_char d div 16" by (rule hex_char_inject [OF _ _ assms(1)]) (use assms(3,4) in auto)
  moreover have "(of_char c :: nat) mod 16 = of_char d mod 16" by (rule hex_char_inject [OF _ _ assms(2)]) auto
  ultimately have "(of_char c :: nat) = of_char d" by (metis div_mult_mod_eq)
  then show ?thesis by simp
qed

lemma json_char_prefix_free:
  assumes "json_char c @ x = json_char d @ y"
  shows "c = d \<and> x = y"
  using assms control_char_inject [of c d] unfolding json_char_def by (auto split: if_splits)

lemma json_body_inject: "concat (map json_char s) @ CHR 0x22 # x = concat (map json_char t) @ CHR 0x22 # y \<Longrightarrow> s = t \<and> x = y"
proof (induction s arbitrary: t)
  case Nil
  then show ?case
  proof (cases t)
    case (Cons d t')
    obtain a r where "json_char d = a # r" "a \<noteq> CHR 0x22" using json_char_nonempty by blast
    then show ?thesis using Nil Cons by simp
  qed simp
next
  case (Cons c s)
  show ?case
  proof (cases t)
    case Nil
    obtain a r where "json_char c = a # r" "a \<noteq> CHR 0x22" using json_char_nonempty by blast
    then show ?thesis using Cons.prems Nil by simp
  next
    case t: (Cons d t')
    then show ?thesis using Cons.prems Cons.IH [of t'] json_char_prefix_free [of c _ d] by auto
  qed
qed

lemma json_string_inject: "json_string s @ x = json_string t @ y \<longleftrightarrow> s = t \<and> x = y"
  using json_body_inject [of s x t y] by (auto simp: json_string_def)

lemma nat_str_no: "c \<in> set (nat_str n) \<Longrightarrow> 48 \<le> (of_char c :: nat) \<and> (of_char c :: nat) < 58"
  using nat_str_digits [of n] by (auto simp: list_all_iff)

lemma int_str_no: "c \<in> set (int_str n) \<Longrightarrow> c \<notin> {CHR '','', CHR ''}''}"
  by (auto simp: int_str_def split: if_splits dest: nat_str_no)

lemma int_str_inject: "int_str m = int_str n \<longleftrightarrow> m = n"
proof -
  have "CHR ''-'' # x \<noteq> nat_str k" for x k using nat_str_no [of "CHR ''-''" k] by (auto dest: sym)
  then show ?thesis by (auto simp: int_str_def dest: sym)
qed

lemma stop_inject: "c \<notin> set a \<Longrightarrow> c \<notin> set b \<Longrightarrow> a @ c # x = b @ c # y \<longleftrightarrow> a = b \<and> x = y"
proof (induction a arbitrary: b)
  case Nil
  then show ?case by (cases b) auto
next
  case (Cons d a)
  then show ?case by (cases b) auto
qed

lemma int_str_stop: "c \<in> {CHR '','', CHR ''}''} \<Longrightarrow> int_str m @ c # x = int_str n @ c # y \<longleftrightarrow> m = n \<and> x = y"
  using stop_inject [of c "int_str m" "int_str n" x y] int_str_no int_str_inject by blast

lemma canonical_request_inject: "canonical_request d = canonical_request e \<longleftrightarrow> d = e"
proof
  assume a: "canonical_request d = canonical_request e"
  have "cc_application_id d = cc_application_id e \<and> cc_capture_size_bytes d = cc_capture_size_bytes e \<and> cc_sha256 d = cc_sha256 e
    \<and> cc_filename d = cc_filename e \<and> cc_scenario d = cc_scenario e \<and> cc_transfer_file_size_bytes d = cc_transfer_file_size_bytes e"
    using a unfolding canonical_request_def json_member_def append.assoc append_Cons append_Nil list.inject simp_thms json_string_inject
    by (simp only: append.simps list.inject simp_thms json_string_inject int_str_stop insert_iff nat_str_inject)
  then show "d = e" by (cases d; cases e) simp
qed simp

lemma latin_encodes: "list_all (\<lambda>c. c < 2048) s \<Longrightarrow> \<exists>b. utf8_encode s = Some b"
  by (induction s) (auto simp: utf8_char_def)

lemma request_encoding_inject:
  assumes "the (utf8_encode (to_text s)) = the (utf8_encode (to_text t))"
  shows "s = t"
proof -
  have e: "\<exists>b. utf8_encode (to_text u) = Some b" for u
  proof (rule latin_encodes)
    have "(of_char c :: nat) < 2048" for c by (rule less_trans [OF nat_of_char_less_256]) simp
    then show "list_all (\<lambda>c. c < 2048) (to_text u)" by (simp add: to_text_def list_all_iff)
  qed
  obtain a b where ab: "utf8_encode (to_text s) = Some a" "utf8_encode (to_text t) = Some b" using e by blast
  then have "to_text s = to_text t" using assms utf8_round_trip by (metis option.inject option.sel)
  then show ?thesis by (metis to_text_def inj_map_eq_map inj_of_char)
qed

text \<open>Different requests have different fingerprints, unless the digest collides on their encodings.\<close>

definition request_bytes :: "capture_create \<Rightarrow> bytes" where
  "request_bytes d = the (utf8_encode (to_text (canonical_request d)))"

lemma request_bytes_inject: "request_bytes d = request_bytes e \<longleftrightarrow> d = e"
  using request_encoding_inject canonical_request_inject by (auto simp: request_bytes_def)

lemma request_fingerprint_bytes: "request_fingerprint digest d = digest (request_bytes d)"
  by (simp add: request_fingerprint_def request_bytes_def)

section \<open>Publication\<close>

lemma strip_ends: "x \<noteq> [] \<Longrightarrow> \<not> is_space (hd x) \<Longrightarrow> \<not> is_space (last x) \<Longrightarrow> strip x = x"
proof -
  have keep: "dropWhile is_space y = y" if "y \<noteq> []" "\<not> is_space (hd y)" for y using that by (cases y) auto
  assume "x \<noteq> []" "\<not> is_space (hd x)" "\<not> is_space (last x)"
  then show ?thesis using keep [of x] keep [of "rev x"] by (simp add: strip_def hd_rev)
qed

lemma object_key_stripped: "is_capture_format f \<Longrightarrow> stripped (object_key_for sha f)"
  unfolding stripped_def by (intro conjI strip_ends) (auto simp: object_key_for_def is_capture_format_def is_space_def)

lemma dispatch_outcome: "dispatch ports failure topic key event x = (r, x') \<Longrightarrow> r = Inr () \<or> r = Inl (CaptureDispatchError failure)"
  by (auto simp: dispatch_def act_defs split: prod.splits sum.splits)

lemma ready_payload_valid: "row_ok c \<Longrightarrow> stripped p \<Longrightarrow> valid_network_capture_ready (ready_payload i c p t)"
  using object_key_stripped [of "nc_capture_format c" "nc_expected_sha256 c"]
  by (simp add: valid_network_capture_ready_def ready_payload_def row_ok_def capture_checks_def positive_def)

lemma publish_ready_outcome:
  assumes "row_ok c" and "dispatchable c" and "stripped p" and "publish_ready ports i c p x = (r, x')"
  shows "r = Inr () \<or> r = Inl (CaptureDispatchError ''Could not publish the capture-ready event'')"
proof -
  obtain t where t: "nc_uploaded_at c = Some t" using assms(1,2) by (auto simp: row_ok_def dispatchable_def)
  show ?thesis using assms(4) ready_payload_valid [OF assms(1,3)] by (auto simp: publish_ready_def t Let_def dest: dispatch_outcome)
qed

lemma package_name_stripped: "net_ok s \<Longrightarrow> application_package_name s a = Some p \<Longrightarrow> stripped p"
  using net_okD(6) [of s "(a, p)"] by (simp add: application_package_name_def map_of_SomeD)

lemma put_raised: "create_response ports conf i c s = (Inl e, s') \<Longrightarrow> e = StorageUnavailableError ''Could not create an upload URL''"
  by (auto simp: create_response_def Let_def act_defs on_world_def generate_presigned_put_def split: if_splits prod.splits sum.splits)

lemma announce_outcome:
  assumes ok: "net_ok s" and c: "get_capture s i = Some c" and a: "announce ports conf i c None s = (Inl e, s')"
  shows "e \<in> {CaptureDispatchError ''Could not publish the capture-ready event'', StorageUnavailableError ''Could not create an upload URL''}"
proof -
  note m = get_capture_in [OF c]
  obtain p where p: "application_package_name s (nc_application_id c) = Some p"
    using net_okD(4) [OF ok m] by (auto simp: application_package_name_def)
  have row: "row_ok c" using net_okD(2) [OF ok m] by simp
  obtain r1 s1 where r1: "publish_ready_if_dispatchable ports i c None s = (r1, s1)" by fastforce
  have "r1 = Inr () \<or> r1 = Inl (CaptureDispatchError ''Could not publish the capture-ready event'')"
  proof (cases "dispatchable c")
    case True
    then obtain x where "publish_ready ports i c p (ns_world s) = (r1, x)"
      using r1 by (auto simp: publish_ready_if_dispatchable_def package_name_for_capture_def p on_world_def split: prod.splits)
    then show ?thesis by (rule publish_ready_outcome [OF row True package_name_stripped [OF ok p]])
  qed (use r1 in \<open>simp add: publish_ready_if_dispatchable_def\<close>)
  then show ?thesis using a by (auto simp: announce_def act_bind_def r1 dest: put_raised)
qed

section \<open>Idempotent creation\<close>

text \<open>The key of an answered request is bound to the capture of the answer.\<close>

definition key_bound :: "'x net_state \<Rightarrow> uuid \<Rightarrow> string \<Rightarrow> capture_create_response \<Rightarrow> bool" where
  "key_bound s key fp r \<longleftrightarrow> (\<exists>row c. get_idempotency_key s key = Some row \<and> ik_request_fingerprint row = fp
     \<and> ik_capture_id row = cr_capture_id r \<and> get_capture s (cr_capture_id r) = Some c
     \<and> nc_analysis_id c = cr_analysis_id r \<and> nc_ready_event_id c = cr_ready_event_id r)"

lemma key_bound_intro:
  assumes "announce ports conf i c p s = (Inr r, s')" and "get_capture s i = Some c" and "get_idempotency_key s key = Some row"
    and "ik_request_fingerprint row = fp" and "ik_capture_id row = i"
  shows "key_bound s' key fp r"
proof -
  note t = announce_tables [OF assms(1)] and ids = announce_ids [OF assms(1)]
  have "get_capture s' i = Some c" "get_idempotency_key s' key = Some row"
    using same_tablesD(3,5) [OF t] assms(2,3) by (simp_all add: get_idempotency_key_def)
  then show ?thesis using ids assms(4,5) by (auto simp: key_bound_def)
qed

lemma replay_bound:
  assumes "create_replay ports conf fp mapping s = (Inr r, s')" and "get_idempotency_key s key = Some mapping"
  shows "key_bound s' key fp r"
proof -
  obtain c where c: "get_capture s (ik_capture_id mapping) = Some c" and fp: "ik_request_fingerprint mapping = fp"
    and a: "announce ports conf (ik_capture_id mapping) (reopen_expired c) None (put_capture (ik_capture_id mapping) (reopen_expired c) s) = (Inr r, s')"
    using assms(1) by (auto simp: create_replay_def split: if_splits option.splits)
  show ?thesis by (rule key_bound_intro [OF a]) (use assms(2) c fp in \<open>simp_all add: get_put_capture get_idempotency_key_def\<close>)
qed

lemma reuse_bound:
  assumes "create_reuse ports conf fp d key now (i, c) s = (Inr r, s')" and "get_capture s i = Some c"
  shows "key_bound s' key fp r"
proof -
  let ?row = "\<lparr>ik_capture_id = i, ik_request_fingerprint = fp, ik_created_at = now\<rparr>"
  obtain s1 where k: "add_idempotency_key key ?row (put_capture i (reopen_expired c) s) = Inr s1"
    and a: "announce ports conf i (reopen_expired c) None s1 = (Inr r, s')"
    using assms(1) by (auto simp: create_reuse_def split: if_splits sum.splits)
  note s1 = safe_add_key [OF k]
  have "get_capture s1 i = Some (reopen_expired c)"
    using s1(3) get_put_capture [of i "reopen_expired c" s i] assms(2) by (simp add: get_capture_def)
  then show ?thesis by (rule key_bound_intro [OF a _ s1(2)]) simp_all
qed

lemma insert_bound:
  assumes "insert_new d key fresh now fp verified s = Inr s1" and "announce ports conf (fr_capture fresh) (new_capture d fresh now verified) p s1 = (Inr r, s')"
  shows "key_bound s' key fp r"
proof -
  let ?i = "fr_capture fresh" and ?c = "new_capture d fresh now verified"
  let ?row = "\<lparr>ik_capture_id = ?i, ik_request_fingerprint = fp, ik_created_at = now\<rparr>"
  obtain s0 where add: "add_capture ?i ?c s = Inr s0" and k: "add_idempotency_key key ?row s0 = Inr s1"
    using assms(1) by (auto simp: insert_new_def split: sum.splits)
  note s1 = safe_add_key [OF k]
  have "map_of (ns_captures s) ?i = None" "ns_captures s0 = ns_captures s @ [(?i, ?c)]"
    using add by (auto simp: add_capture_def split: if_splits)
  then have "get_capture s1 ?i = Some ?c" using s1(3) by (simp add: get_capture_def map_add_def)
  then show ?thesis by (rule key_bound_intro [OF assms(2) _ s1(2)]) simp_all
qed

lemma create_bound:
  assumes "net_ok s" and "\<And>t. safe t (others t)" and "cs_create ports conf digest others d key fresh now s = (Inr r, s')"
  shows "key_bound s' key (request_fingerprint digest d) r"
proof (cases "get_idempotency_key s key")
  case (Some mapping)
  then show ?thesis using assms(3) by (auto simp: cs_create_def Let_def dest: replay_bound)
next
  case None
  note start = assms(3) [unfolded cs_create_def Let_def None option.case]
  show ?thesis
  proof (cases "get_logical s (cc_application_id d) (cc_scenario d) (cc_sha256 d)")
    case (Some l)
    have "get_capture s (fst l) = Some (snd l)" 
      using Some by (cases l) (auto intro: get_capture_member [OF assms(1)] dest: get_logical_row(1))
    then show ?thesis using start Some by (cases l) (auto split: if_splits dest: reuse_bound)
  next
    case nl: None
    then obtain p verified s1 where sh: "shared_object ports d s = (Inr verified, s1)"
      and tail: "(case insert_new d key fresh now (request_fingerprint digest d) verified (others s1) of
            Inr s3 \<Rightarrow> announce ports conf (fr_capture fresh) (new_capture d fresh now verified) (Some p) s3
          | Inl e \<Rightarrow>
              if \<not> is_integrity_error e then (Inl e, others s1)
              else case get_idempotency_key (others s1) key of
                Some mapping \<Rightarrow> create_replay ports conf (request_fingerprint digest d) mapping (others s1)
              | None \<Rightarrow> (case get_logical (others s1) (cc_application_id d) (cc_scenario d) (cc_sha256 d) of
                  Some l \<Rightarrow> create_reuse ports conf (request_fingerprint digest d) d key now l (others s1)
                | None \<Rightarrow> (Inl e, others s1))) = (Inr r, s')"
      using start by (simp add: act_bind_def split: if_splits option.splits prod.splits sum.splits)
    have "net_ok (others s1)" using assms(1,2) safeD(1) same_tablesD(6) [OF shared_object_tables [OF sh]] by blast
    then have row: "get_logical (others s1) a sc sha = Some (i, c) \<Longrightarrow> get_capture (others s1) i = Some c" for a sc sha i c
      using get_capture_member get_logical_row(1) by blast
    show ?thesis
    proof (cases "insert_new d key fresh now (request_fingerprint digest d) verified (others s1)")
      case (Inr s3)
      then show ?thesis using tail insert_bound [OF Inr] by simp
    next
      case (Inl e)
      then show ?thesis using tail by (auto split: if_splits option.splits dest: replay_bound reuse_bound row)
    qed
  qed
qed

lemma key_bound_evolves:
  assumes "key_bound s key fp r" and "evolves s s'"
  shows "key_bound s' key fp r"
proof -
  obtain row c where b: "get_idempotency_key s key = Some row" "ik_request_fingerprint row = fp" "ik_capture_id row = cr_capture_id r"
    "get_capture s (cr_capture_id r) = Some c" "nc_analysis_id c = cr_analysis_id r" "nc_ready_event_id c = cr_ready_event_id r"
    using assms(1) by (auto simp: key_bound_def)
  obtain c' where c': "get_capture s' (cr_capture_id r) = Some c'" "row_moves c c'" using evolvesD [OF assms(2) b(4)] by blast
  have "get_idempotency_key s' key = Some row"
    using assms(2) b(1) by (auto simp: evolves_def get_idempotency_key_def map_le_def dom_def)
  then show ?thesis using b c' by (auto simp: key_bound_def row_moves_def same_identity_def)
qed

lemma put_reopened_ok: "net_ok s \<Longrightarrow> get_capture s i = Some c \<Longrightarrow> net_ok (put_capture i (reopen_expired c) s)"
  using safeD(1) [OF safe_put_capture [OF _ reopen_moves]] .

lemma replay_of_bound:
  assumes "net_ok s" and "key_bound s key fp r" and "cs_create ports conf digest others d key fresh now s = (r', s')"
    and "request_fingerprint digest d = fp"
  shows "map fst (ns_captures s') = map fst (ns_captures s)" and "ns_keys s' = ns_keys s"
    and "case r' of Inr a \<Rightarrow> cr_capture_id a = cr_capture_id r \<and> cr_analysis_id a = cr_analysis_id r \<and> cr_ready_event_id a = cr_ready_event_id r
       | Inl e \<Rightarrow> e \<in> {CaptureDispatchError ''Could not publish the capture-ready event'', StorageUnavailableError ''Could not create an upload URL''}"
proof -
  obtain row c where b: "get_idempotency_key s key = Some row" "ik_request_fingerprint row = fp" "ik_capture_id row = cr_capture_id r"
    "get_capture s (cr_capture_id r) = Some c" "nc_analysis_id c = cr_analysis_id r" "nc_ready_event_id c = cr_ready_event_id r"
    using assms(2) by (auto simp: key_bound_def)
  let ?s = "put_capture (cr_capture_id r) (reopen_expired c) s"
  have a: "announce ports conf (cr_capture_id r) (reopen_expired c) None ?s = (r', s')"
    using assms(3,4) b by (simp add: cs_create_def Let_def create_replay_def)
  note t = announce_tables [OF a]
  show "map fst (ns_captures s') = map fst (ns_captures s)" "ns_keys s' = ns_keys s"
    using same_tablesD(2,3) [OF t] put_capture_fst [of "cr_capture_id r" "reopen_expired c" s] by simp_all
  have ids: "nc_analysis_id (reopen_expired c) = nc_analysis_id c" "nc_ready_event_id (reopen_expired c) = nc_ready_event_id c"
    by (simp_all add: reopen_expired_def)
  show "case r' of Inr a \<Rightarrow> cr_capture_id a = cr_capture_id r \<and> cr_analysis_id a = cr_analysis_id r \<and> cr_ready_event_id a = cr_ready_event_id r
       | Inl e \<Rightarrow> e \<in> {CaptureDispatchError ''Could not publish the capture-ready event'', StorageUnavailableError ''Could not create an upload URL''}"
  proof (cases r')
    case (Inl e)
    have "get_capture ?s (cr_capture_id r) = Some (reopen_expired c)" using b(4) by (simp add: get_put_capture)
    then show ?thesis using announce_outcome [OF put_reopened_ok [OF assms(1) b(4)]] a Inl by simp
  next
    case (Inr q)
    then show ?thesis using announce_ids [of ports conf "cr_capture_id r" "reopen_expired c"] a b(5,6) ids by simp
  qed
qed

lemma conflict_of_bound:
  assumes "key_bound s key fp r" and "request_fingerprint digest d \<noteq> fp"
  shows "cs_create ports conf digest others d key fresh now s = (Inl IdempotencyConflictError, s)"
  using assms by (auto simp: key_bound_def cs_create_def Let_def create_replay_def)

text \<open>
  C9: creating a capture is idempotent. Once a request with an idempotency key was answered, then at any later
  time, whatever other requests, maintenance and analyzer workers did meanwhile, the same request with
  the same key adds no capture and no key and answers with the identifiers of the same capture, or
  fails only because the broker or the object storage fails; any other request with that key is
  refused and changes nothing, provided the digest does not collide on the two requests.
\<close>

theorem create_is_idempotent:
  assumes "net_ok s" and "valid_capture_create d" and "\<And>t. net_reaches ports conf digest t (others t)"
    and "cs_create ports conf digest others d key fresh now s = (Inr r, s1)"
    and "net_reaches ports conf digest s1 s2"
    and "cs_create ports conf digest others2 d2 key fresh2 now2 s2 = (r2, s3)"
    and "inj_on digest (request_bytes ` {d, d2})"
  shows "if d2 = d
    then map fst (ns_captures s3) = map fst (ns_captures s2) \<and> ns_keys s3 = ns_keys s2
      \<and> (case r2 of
            Inr a \<Rightarrow> cr_capture_id a = cr_capture_id r \<and> cr_analysis_id a = cr_analysis_id r \<and> cr_ready_event_id a = cr_ready_event_id r
          | Inl e \<Rightarrow> e \<in> {CaptureDispatchError ''Could not publish the capture-ready event'',
                            StorageUnavailableError ''Could not create an upload URL''})
    else r2 = Inl IdempotencyConflictError \<and> s3 = s2"
proof -
  have sf: "safe t (others t)" for t using assms(3) by (rule reaches_safe)
  have ok1: "net_ok s1" using safeD(1) [OF cs_create_safe [OF assms(2) sf assms(4)] assms(1)] .
  have "key_bound s2 key (request_fingerprint digest d) r"
    using key_bound_evolves [OF create_bound [OF assms(1) sf assms(4)] reaches_evolves [OF assms(5) ok1]] .
  note bound = this
  show ?thesis
  proof (cases "d2 = d")
    case True
    then show ?thesis using replay_of_bound [OF reaches_ok [OF assms(5) ok1] bound assms(6)] by simp
  next
    case False
    then have "request_bytes d2 \<noteq> request_bytes d" by (simp add: request_bytes_inject)
    then have "request_fingerprint digest d2 \<noteq> request_fingerprint digest d"
      using assms(7) by (auto simp: request_fingerprint_bytes inj_on_def)
    then show ?thesis using conflict_of_bound [OF bound, of digest d2 ports conf others2 fresh2 now2] assms(6) False by simp
  qed
qed

text \<open>A concrete world for the witnesses: a storage that holds what it was given, a broker that accepts everything.\<close>

definition calm_ports :: "unit net_ports" where
  "calm_ports = \<lparr>s3_put_url = (\<lambda>k t x. (Inr k, x)), s3_get_url = (\<lambda>k x. (Inr k, x)),
     s3_head = (\<lambda>k x. (Inr \<lparr>om_size_bytes = 100, om_content_type = None\<rparr>, x)), s3_download = (\<lambda>k x. (Inr [], x)),
     s3_delete = (\<lambda>k x. (Inr (), x)), s3_head_bucket = (\<lambda>x. (Inr (), x)), s3_create_bucket = (\<lambda>r x. (Inr (), x)),
     kp_publish = (\<lambda>t k e x. (Inr (), x)), kp_flush = (\<lambda>x. (Inr (), x)), kp_close = (\<lambda>x. (Inr (), x))\<rparr>"

definition sample_settings :: capture_settings where
  "sample_settings = \<lparr>set_max_capture_size_bytes = 1000, set_presign_expiry_seconds = 900\<rparr>"

definition sample_request :: capture_create where
  "sample_request = \<lparr>cc_application_id = 1, cc_scenario = ''upload'', cc_filename = ''a.pcap'', cc_capture_size_bytes = 100,
     cc_transfer_file_size_bytes = 50, cc_sha256 = replicate 64 (CHR ''a'')\<rparr>"

definition sample_ids :: fresh_ids where
  "sample_ids = \<lparr>fr_capture = 10, fr_ready_event = 11, fr_analysis = 12, fr_analysis_event = 13\<rparr>"

definition empty_net :: "unit net_state" where
  "empty_net = \<lparr>ns_captures = [], ns_keys = [], ns_applications = [(1, ''org.app'')], ns_world = ()\<rparr>"

definition sample_digest :: "bytes \<Rightarrow> string" where
  "sample_digest b = (if b = request_bytes sample_request then ''a'' else ''b'')"

lemma sample_request_valid: "valid_capture_create sample_request"
  by code_simp

lemma empty_net_ok: "net_ok empty_net"
  by code_simp

definition sample_row :: network_capture where
  "sample_row = new_capture sample_request sample_ids 1000 None"

definition sample_key :: idempotency_row where
  "sample_key = \<lparr>ik_capture_id = 10, ik_request_fingerprint = request_fingerprint sample_digest sample_request, ik_created_at = 1000\<rparr>"

definition sample_net :: "unit net_state" where
  "sample_net = \<lparr>ns_captures = [(10, sample_row)], ns_keys = [(9, sample_key)], ns_applications = [(1, ''org.app'')], ns_world = ()\<rparr>"

definition sample_answer :: capture_create_response where
  "sample_answer = \<lparr>cr_capture_id = 10, cr_analysis_id = 12, cr_ready_event_id = 11, cr_status = ''pending_upload'', cr_upload_required = True,
     cr_upload_url = Some (object_key_for (replicate 64 (CHR ''a'')) ''pcap''), cr_expires_in = Some 900\<rparr>"

lemma sample_format: "cc_capture_format sample_request = ''pcap''"
  by code_simp

lemma sample_row_checks: "capture_checks sample_row" "fits_bigint (nc_capture_size_bytes sample_row)"
  "fits_bigint (nc_transfer_file_size_bytes sample_row)" "fits_text (nc_original_filename sample_row)"
  by code_simp+

lemma sample_added: "insert_new sample_request 9 sample_ids 1000 (request_fingerprint sample_digest sample_request) None empty_net = Inr sample_net"
proof -
  have "nc_application_id sample_row = 1" by (simp add: sample_row_def new_capture_def sample_request_def)
  then have "add_capture 10 sample_row empty_net = Inr (empty_net\<lparr>ns_captures := [(10, sample_row)]\<rparr>)"
    using sample_row_checks by (simp add: add_capture_def empty_net_def)
  then show ?thesis
    by (simp add: insert_new_def add_idempotency_key_def sample_ids_def sample_row_def [symmetric] sample_net_def sample_key_def empty_net_def
        sample_row_def [unfolded sample_ids_def, symmetric])
qed

lemma sample_row_facts:
  "nc_status sample_row = ''pending_upload''" "nc_analysis_id sample_row = 12" "nc_ready_event_id sample_row = 11" "nc_application_id sample_row = 1"
  "nc_object_key sample_row = object_key_for (replicate 64 (CHR ''a'')) ''pcap''" "nc_capture_size_bytes sample_row = 100"
  by (simp_all add: sample_row_def new_capture_def sample_ids_def sample_format) (simp_all add: sample_request_def)

lemma sample_announced: "announce calm_ports sample_settings 10 sample_row p sample_net = (Inr sample_answer, sample_net)"
  by (simp add: announce_def publish_ready_if_dispatchable_def dispatchable_def create_response_def on_world_def generate_presigned_put_def
      calm_ports_def act_defs sample_row_facts sample_answer_def sample_settings_def sample_net_def)

lemma sample_created:
  "cs_create calm_ports sample_settings sample_digest (\<lambda>s. s) sample_request 9 sample_ids 1000 empty_net = (Inr sample_answer, sample_net)"
proof -
  have a: "set_max_capture_size_bytes sample_settings = 1000" "cc_capture_size_bytes sample_request = 100" "cc_application_id sample_request = 1"
    "fr_capture sample_ids = 10"
    by (simp_all add: sample_settings_def sample_request_def sample_ids_def)
  have "shared_object calm_ports sample_request empty_net = (Inr None, empty_net)"
    by (simp add: shared_object_def Let_def get_verified_object_def empty_net_def)
  moreover have "application_package_name empty_net 1 = Some ''org.app''" "get_logical empty_net x y z = None" "get_idempotency_key empty_net 9 = None" for x y z
    by (simp_all add: application_package_name_def get_logical_def get_idempotency_key_def empty_net_def)
  ultimately show ?thesis
    by (simp add: cs_create_def Let_def a act_bind_def sample_added sample_announced sample_row_def [symmetric])
qed

theorem create_is_idempotent_witness:
  "cs_create calm_ports sample_settings sample_digest (\<lambda>s. s) sample_request 9 sample_ids 1000 empty_net = (Inr sample_answer, sample_net)
     \<and> cs_create calm_ports sample_settings sample_digest (\<lambda>s. s) (sample_request\<lparr>cc_scenario := ''download''\<rparr>) 9 sample_ids 2000 sample_net
        = (Inl IdempotencyConflictError, sample_net)"
proof -
  let ?d = "sample_request\<lparr>cc_scenario := ''download''\<rparr>"
  have start: "net_reaches calm_ports sample_settings sample_digest t t" for t by (rule net_reaches.start)
  obtain r3 s3 where c: "cs_create calm_ports sample_settings sample_digest (\<lambda>s. s) ?d 9 sample_ids 2000 sample_net = (r3, s3)" by fastforce
  have ne: "?d \<noteq> sample_request" by (simp add: sample_request_def)
  then have inj: "sample_digest (request_bytes ?d) \<noteq> sample_digest (request_bytes sample_request)"
    by (simp add: sample_digest_def request_bytes_inject)
  then have "inj_on sample_digest (request_bytes ` {sample_request, ?d})" by (auto simp: inj_on_def)
  from create_is_idempotent [OF empty_net_ok sample_request_valid start sample_created start c this]
  show ?thesis using c ne sample_created by simp
qed

lemma get_capture_other_row:
  assumes "net_ok s" and "get_capture s i = Some c" and "get_capture s j = Some d" and "clashes c d"
  shows "j = i"
proof (rule ccontr)
  assume ne: "j \<noteq> i"
  have sorted: "sorted_wrt (\<lambda>x y. \<not> clashes (snd x) (snd y)) (ns_captures s)" using assms(1) by (rule net_okD)
  obtain a b where a: "a < length (ns_captures s)" "ns_captures s ! a = (i, c)" and b: "b < length (ns_captures s)" "ns_captures s ! b = (j, d)"
    using get_capture_in [OF assms(2)] get_capture_in [OF assms(3)] by (auto simp: in_set_conv_nth)
  have "a \<noteq> b" using a(2) b(2) ne by auto
  then show False
    using sorted_wrt_nth_less [OF sorted, of a b] sorted_wrt_nth_less [OF sorted, of b a] a b assms(4) clashes_sym [of c d]
    by (cases a b rule: linorder_cases) auto
qed


section \<open>From the analyzer to ingestion\<close>

lemma verified_stays:
  assumes "net_ok s" and "mark_verified i sha t s = Inr s1" and "net_reaches ports conf digest s1 s2"
  shows "\<exists>c c2. get_capture s i = Some c \<and> get_capture s2 i = Some c2 \<and> same_identity c c2 \<and> nc_verified_sha256 c2 = Some sha"
proof -
  obtain c where c: "get_capture s i = Some c" "owned t c" "nc_expected_sha256 c = sha"
    and s1: "s1 = put_capture i (c\<lparr>nc_verified_sha256 := Some sha\<rparr>) s"
    using assms(2) by (auto simp: mark_verified_def dest!: update_owned_Inr)
  let ?c = "c\<lparr>nc_verified_sha256 := Some sha\<rparr>"
  have v: "verified_row ?c" "same_identity c ?c" using c(2,3) by (simp_all add: verified_row_def owned_def same_identity_def same_logical_def)
  have "get_capture s1 i = Some ?c" using c(1) by (simp add: s1 get_put_capture)
  moreover have "net_ok s1" using safeD(1) [OF mark_verified_safe [OF assms(2)] assms(1)] .
  ultimately obtain c2 where c2: "get_capture s2 i = Some c2" "row_moves ?c c2" using reaches_evolves [OF assms(3)] evolvesD by blast
  have "verified_row c2" "same_identity ?c c2" using c2(2) v(1) by (simp_all add: row_moves_def)
  then have "nc_verified_sha256 c2 = Some sha" "same_identity c c2"
    using c(3) same_identity_trans [OF v(2)] by (auto simp: verified_row_def same_identity_def same_logical_def)
  then show ?thesis using c(1) c2(1) by blast
qed

text \<open>
  C14: an analysis the worker publishes is accepted by ingestion. The worker matched the
  capture-ready event against the tables, and later, after any steps of other processes, marked the
  capture verified. Then in every state reached after that, as long as the application keeps its
  package name, the ingestion of the published analysis finds it consistent with the capture and the
  application, whatever the metrics.
\<close>

theorem verified_analysis_accepted:
  assumes "net_ok s0" and "load_and_validate ev s0 = Inr (c, package_name)" and "net_reaches ports conf digest s0 s"
    and "mark_verified (nr_capture_id (ev_payload ev)) (an_verified_sha256 metrics) t s = Inr s1"
    and "net_reaches ports conf digest s1 s2"
    and "application_package_name s2 (nc_application_id c) = Some package_name"
    and "ig_captures db = ns_captures s2" and "ig_applications db = ns_applications s2"
  shows "validate_network_analysis (analysis_payload (ev_payload ev) package_name metrics) db = Inr ((), db)"
proof -
  let ?i = "nr_capture_id (ev_payload ev)"
  have c: "get_capture s0 ?i = Some c" and m: "matches_event c package_name ev"
    using assms(2) by (auto simp: load_and_validate_def split: option.splits if_splits)
  note ok = reaches_ok [OF assms(3,1)]
  obtain d d2 where d: "get_capture s ?i = Some d" "get_capture s2 ?i = Some d2" "same_identity d d2"
    "nc_verified_sha256 d2 = Some (an_verified_sha256 metrics)"
    using verified_stays [OF ok assms(4,5)] by blast
  have "same_identity c d" using evolvesD [OF reaches_evolves [OF assms(3,1)] c] d(1) by (auto simp: row_moves_def)
  then have "same_identity c d2" using d(3) by (rule same_identity_trans)
  then have ids: "nc_analysis_id d2 = nc_analysis_id c" "nc_application_id d2 = nc_application_id c" "nc_scenario d2 = nc_scenario c"
    by (simp_all add: same_identity_def same_logical_def)
  have "map_of (ns_captures s2) ?i = Some d2" "map_of (ns_applications s2) (nc_application_id c) = Some package_name"
    using d(2) assms(6) by (simp_all add: get_capture_def application_package_name_def)
  then show ?thesis
    using m ids d(4) by (simp add: validate_network_analysis_def analysis_payload_def assms(7,8) matches_event_def Let_def)
qed

section \<open>Cleanup\<close>

lemma map_of_marked:
  "distinct (map fst refs) \<Longrightarrow> get_capture (put_captures (map (\<lambda>(i, r). (i, f r)) refs) s) j
     = (case get_capture s j of None \<Rightarrow> None | Some d \<Rightarrow> Some (case map_of refs j of None \<Rightarrow> d | Some r \<Rightarrow> f r))"
proof (induction refs arbitrary: s)
  case Nil
  then show ?case by (simp add: put_captures_def split: option.split)
next
  case (Cons x refs)
  obtain i r where x: "x = (i, r)" by fastforce
  have step: "put_captures (map (\<lambda>(i, r). (i, f r)) (x # refs)) s = put_captures (map (\<lambda>(i, r). (i, f r)) refs) (put_capture i (f r) s)"
    by (simp add: put_captures_def x)
  have "map_of refs i = None" using Cons.prems by (simp add: x map_of_eq_None_iff)
  then show ?case unfolding step using Cons by (auto simp: x get_put_capture split: option.splits)
qed

lemma references_of:
  assumes "net_ok s" and "get_capture s j = Some d"
  shows "map_of (object_references s k) j = (if nc_object_key d = k \<and> nc_object_deleted_at d = None then Some d else None)"
proof -
  note dist = object_references_rows(1) [OF assms(1)]
  have "(j, e) \<in> set (object_references s k) \<longleftrightarrow> e = d \<and> nc_object_key d = k \<and> nc_object_deleted_at d = None" for e
    using get_capture_in [OF assms(2)] get_capture_member [OF assms(1), of j e] assms(2) by (auto simp: object_references_def)
  then have iff: "map_of (object_references s k) j = Some e \<longleftrightarrow> e = d \<and> nc_object_key d = k \<and> nc_object_deleted_at d = None" for e
    by (simp only: map_of_eq_Some_iff [OF dist])
  show ?thesis
  proof (cases "map_of (object_references s k) j")
    case None
    then show ?thesis using iff [of d] by auto
  next
    case (Some e)
    then show ?thesis using iff [of e] by simp
  qed
qed

text \<open>The capture \<open>d\<close> of the object no longer needs it after cleanup; captures of other objects are as before.\<close>

definition cleaned :: "string \<Rightarrow> network_capture \<Rightarrow> network_capture \<Rightarrow> bool" where
  "cleaned k d d' \<longleftrightarrow> (if nc_object_key d = k then nc_object_deleted_at d' \<noteq> None \<and> \<not> dispatchable d' else d' = d)"

lemma deleted_cleaned:
  assumes "net_ok s" and "get_capture s j = Some d" and "nc_object_key d = k \<Longrightarrow> nc_object_deleted_at d \<noteq> None"
  shows "cleaned k d d"
  using net_okD(2) [OF assms(1) get_capture_in [OF assms(2)]] assms(3) by (auto simp: row_ok_def cleaned_def)

lemma marked_cleaned:
  assumes ok: "net_ok s" and d: "get_capture s j = Some d" and t: "same_tables s s1"
    and ended: "\<forall>x \<in> set (object_references s k). terminal (snd x)"
    and s': "s' = put_captures (map (\<lambda>(i, r). (i, r\<lparr>nc_object_deleted_at := Some now\<rparr>)) (object_references s k)) s1"
  shows "\<exists>d'. get_capture s' j = Some d' \<and> cleaned k d d'"
proof -
  let ?refs = "object_references s k"
  have g: "get_capture s' j = Some (case map_of ?refs j of None \<Rightarrow> d | Some r \<Rightarrow> r\<lparr>nc_object_deleted_at := Some now\<rparr>)"
    unfolding s' map_of_marked [OF object_references_rows(1) [OF ok]] same_tablesD(5) [OF t] d by simp
  show ?thesis
  proof (cases "nc_object_key d = k \<and> nc_object_deleted_at d = None")
    case True
    have m: "map_of ?refs j = Some d" using references_of [OF ok d, of k] True by simp
    have "terminal d" using ended map_of_SomeD [OF m] by auto
    then have "\<not> dispatchable (d\<lparr>nc_object_deleted_at := Some now\<rparr>)" by (auto simp: terminal_def dispatchable_def)
    then show ?thesis using g m True by (simp add: cleaned_def)
  next
    case False
    have "map_of ?refs j = None" using references_of [OF ok d, of k] False by auto
    then have "get_capture s' j = Some d" using g by simp
    then show ?thesis using deleted_cleaned [OF ok d] False by blast
  qed
qed

lemma cleanup_returned:
  assumes ok: "net_ok s" and c: "get_capture s i = Some c" and run: "cleanup_capture_object ports i now s = (r, s')"
  shows "case r of Inr n \<Rightarrow> n = count_object_references s (nc_object_key c)
        \<and> (\<forall>j d. get_capture s j = Some d \<longrightarrow> (\<exists>d'. get_capture s' j = Some d' \<and> cleaned (nc_object_key c) d d'))
    | Inl e \<Rightarrow> ns_captures s' = ns_captures s"
  using cleanup_cases [OF run c]
proof (elim disjE conjE exE)
  let ?refs = "object_references s (nc_object_key c)"
  assume t: "same_tables s s'" and e: "\<forall>n. r = Inr n \<longrightarrow> n = 0 \<and> ?refs = []"
  show ?thesis
  proof (cases r)
    case (Inr n)
    then have n: "n = 0" "?refs = []" using e by auto
    have "cleaned (nc_object_key c) d d" if "get_capture s j = Some d" for j d
      by (rule deleted_cleaned [OF ok that]) (use references_of [OF ok that, of "nc_object_key c"] n(2) in \<open>simp split: if_splits\<close>)
    then show ?thesis
      using n Inr same_tablesD(5) [OF t] by (auto simp: count_object_references_def object_references_def)
  qed (simp add: same_tablesD(2) [OF t])
next
  let ?refs = "object_references s (nc_object_key c)"
  fix s1 assume "\<forall>x \<in> set ?refs. terminal (snd x)" and r: "r = Inr (length ?refs)" and "same_tables s s1"
    and "s' = put_captures (map (\<lambda>(i, r). (i, r\<lparr>nc_object_deleted_at := Some now\<rparr>)) ?refs) s1"
  then show ?thesis using marked_cleaned [OF ok] by (auto simp: r count_object_references_def object_references_def)
qed

lemma cleanup_refused:
  assumes "get_capture s i = Some c" and "get_capture s j = Some d" and "nc_object_key d = nc_object_key c"
    and "nc_object_deleted_at d = None" and "\<not> terminal d"
  shows "cleanup_capture_object ports i now s
     = (Inl (CleanupConflictError ''Raw object is still required by a non-terminal logical capture''), s)"
proof -
  have "(j, d) \<in> set (object_references s (nc_object_key c))" using get_capture_in [OF assms(2)] assms(3,4) by (simp add: object_references_def)
  then have "list_ex (\<lambda>(i, r). \<not> terminal r) (object_references s (nc_object_key c))" using assms(5) by (auto simp: list_ex_iff)
  then show ?thesis using assms(1) by (simp add: cleanup_capture_object_def Let_def)
qed


section \<open>Witnesses\<close>

text \<open>The sample capture after its upload was completed.\<close>

definition uploaded_row :: network_capture where
  "uploaded_row = mark_uploaded 1500 sample_row"

definition uploaded_net :: "unit net_state" where
  "uploaded_net = put_capture 10 uploaded_row sample_net"

lemma sample_get: "get_capture sample_net 10 = Some sample_row" "application_package_name sample_net 1 = Some ''org.app''"
  by (simp_all add: sample_net_def get_capture_def application_package_name_def)

lemma uploaded_get: "get_capture uploaded_net 10 = Some uploaded_row" "dispatchable uploaded_row" "nc_application_id uploaded_row = 1"
  "application_package_name uploaded_net 1 = Some ''org.app''"
  using sample_get sample_row_facts
  by (simp_all add: uploaded_net_def get_put_capture application_package_name_def) (simp_all add: uploaded_row_def mark_uploaded_def dispatchable_def)

lemma org_app_stripped: "stripped ''org.app''"
  by (simp add: stripped_def strip_def is_space_def)

lemma uploaded_row_ok: "row_ok uploaded_row"
proof -
  have "row_ok sample_row" unfolding sample_row_def by (rule new_capture_ok [OF sample_request_valid]) simp
  then show ?thesis using mark_uploaded_moves [OF sample_row_facts(1)] by (simp add: row_moves_def uploaded_row_def)
qed

lemma uploaded_published: "on_world (publish_ready calm_ports 10 uploaded_row ''org.app'') uploaded_net = (Inr (), uploaded_net)"
proof -
  have "nc_uploaded_at uploaded_row = Some 1500" by (simp add: uploaded_row_def mark_uploaded_def)
  then have "publish_ready calm_ports 10 uploaded_row ''org.app'' () = (Inr (), ())"
    using ready_payload_valid [OF uploaded_row_ok org_app_stripped]
    by (simp add: publish_ready_def Let_def dispatch_def act_defs calm_ports_def)
  then show ?thesis by (simp add: on_world_def)
qed

lemma sample_completed: "cs_complete calm_ports 10 1500 sample_net = (Inr uploaded_row, uploaded_net)"
proof -
  have head: "on_world (head_object calm_ports k) sample_net = (Inr (Some \<lparr>om_size_bytes = 100, om_content_type = None\<rparr>), sample_net)" for k
    by (simp add: on_world_def head_object_def calm_ports_def)
  show ?thesis
    using uploaded_published uploaded_get sample_get sample_row_facts
    by (simp add: cs_complete_def cs_get_def act_bind_def head Let_def uploaded_row_def [symmetric] uploaded_net_def [symmetric]
        package_name_for_capture_def act_return_def)
qed

lemma uploaded_reached: "net_reaches calm_ports sample_settings sample_digest empty_net uploaded_net"
  by (rule net_reaches.complete [OF net_reaches.create [OF net_reaches.start sample_request_valid net_reaches.start sample_created] sample_completed])


lemma uploaded_ok: "net_ok uploaded_net"
  by (rule reaches_ok [OF uploaded_reached empty_net_ok])

definition sample_ready :: "network_capture_ready envelope" where
  "sample_ready = \<lparr>ev_event_id = 11, ev_event_type = NETWORK_CAPTURE_READY_EVENT_TYPE, ev_schema_version = NETWORK_SCHEMA_VERSION,
     ev_occurred_at = 1500, ev_payload = ready_payload 10 uploaded_row ''org.app'' 1500\<rparr>"

lemma sample_loaded: "load_and_validate sample_ready uploaded_net = Inr (uploaded_row, ''org.app'')"
proof -
  have "nc_ready_event_id uploaded_row = 11" by (simp add: uploaded_row_def mark_uploaded_def sample_row_def new_capture_def sample_ids_def)
  then show ?thesis
    using uploaded_get by (simp add: load_and_validate_def matches_event_def sample_ready_def ready_payload_def)
qed

definition claimed_net :: "unit net_state" where
  "claimed_net = put_capture 10 (claim_row 1600 uploaded_row) uploaded_net"

lemma claimed_get: "get_capture claimed_net 10 = Some (claim_row 1600 uploaded_row)"
  by (simp add: claimed_net_def get_put_capture uploaded_get)

lemma sample_claimed: "claim_attempt 10 1600 0 uploaded_net = Inr (True, claimed_net)"
  using uploaded_get(1)
  by (simp add: claim_attempt_def claimed_net_def) (simp add: claimable_def uploaded_row_def mark_uploaded_def sample_row_def new_capture_def)

definition sample_analysis :: "aggregated_metrics \<Rightarrow> analysis_metrics" where
  "sample_analysis m = \<lparr>an_analyzed_at = 1700, an_analyzer_version = ANALYZER_VERSION, an_tshark_version = ''4'', an_source_analyzer = ''tshark'',
     an_verified_sha256 = replicate 64 (CHR ''a''), an_metrics = m\<rparr>"

definition verified_net :: "unit net_state" where
  "verified_net = put_capture 10 ((claim_row 1600 uploaded_row)\<lparr>nc_verified_sha256 := Some (replicate 64 (CHR ''a''))\<rparr>) claimed_net"

lemma sample_verified: "mark_verified 10 (replicate 64 (CHR ''a'')) 1600 claimed_net = Inr verified_net"
proof -
  have "owned 1600 (claim_row 1600 uploaded_row)" "nc_expected_sha256 (claim_row 1600 uploaded_row) = replicate 64 (CHR ''a'')"
    by (simp_all add: owned_def claim_row_def uploaded_row_def mark_uploaded_def sample_row_def new_capture_def sample_request_def)
  then show ?thesis by (simp add: mark_verified_def update_owned_def claimed_get verified_net_def)
qed

lemma verified_application: "application_package_name verified_net 1 = Some ''org.app''"
  using uploaded_get(4) by (simp add: application_package_name_def verified_net_def claimed_net_def)

theorem verified_analysis_accepted_witness:
  "\<forall>m. \<exists>db. ig_captures db = ns_captures verified_net
     \<and> validate_network_analysis (analysis_payload (ev_payload sample_ready) ''org.app'' (sample_analysis m)) db = Inr ((), db)"
proof
  fix m
  let ?db = "demo_db\<lparr>ig_captures := ns_captures verified_net, ig_applications := ns_applications verified_net\<rparr>"
  have id: "nr_capture_id (ev_payload sample_ready) = 10" by (simp add: sample_ready_def ready_payload_def)
  have "validate_network_analysis (analysis_payload (ev_payload sample_ready) ''org.app'' (sample_analysis m)) ?db = Inr ((), ?db)"
  proof (rule verified_analysis_accepted [OF uploaded_ok sample_loaded])
    show "net_reaches calm_ports sample_settings sample_digest uploaded_net claimed_net"
      by (rule net_reaches.claim [OF net_reaches.start sample_claimed])
    show "mark_verified (nr_capture_id (ev_payload sample_ready)) (an_verified_sha256 (sample_analysis m)) 1600 claimed_net = Inr verified_net"
      using sample_verified by (simp add: id sample_analysis_def)
    show "application_package_name verified_net (nc_application_id uploaded_row) = Some ''org.app''"
      using verified_application uploaded_get(3) by simp
  qed (simp_all add: net_reaches.start)
  moreover have "ig_captures ?db = ns_captures verified_net" by simp
  ultimately show "\<exists>db. ig_captures db = ns_captures verified_net
     \<and> validate_network_analysis (analysis_payload (ev_payload sample_ready) ''org.app'' (sample_analysis m)) db = Inr ((), db)" by blast
qed

text \<open>The attempt failed for good.\<close>

definition failed_row :: network_capture where
  "failed_row = (claim_row 1600 uploaded_row)\<lparr>nc_status := ''failed'', nc_analysis_finished_at := Some 1800,
     nc_error_code := Some ''invalid_capture'', nc_error_message := Some ''m''\<rparr>"

definition failed_net :: "unit net_state" where
  "failed_net = put_capture 10 failed_row claimed_net"

lemma sample_failed: "mark_failed 10 (TerminalAnalysisError ''invalid_capture'' ''m'') 1600 1800 claimed_net = Inr failed_net"
  by (simp add: mark_failed_def update_owned_def claimed_get owned_def failed_net_def failed_row_def error_code_of_def error_text_of_def
      TerminalAnalysisError_def net_error_def claim_row_def)

lemma failed_ok: "net_ok failed_net"
  by (rule reaches_ok [OF net_reaches.failed [OF net_reaches.claim [OF uploaded_reached sample_claimed] sample_failed] empty_net_ok])

lemma failed_rows: "ns_captures failed_net = [(10, failed_row)]" "get_capture failed_net 10 = Some failed_row"
  by (simp_all add: failed_net_def claimed_net_def uploaded_net_def put_capture_captures sample_net_def get_capture_def)

lemma failed_row_free: "nc_object_deleted_at failed_row = None" "terminal failed_row"
  by (simp_all add: failed_row_def claim_row_def uploaded_row_def mark_uploaded_def terminal_def)


end
