(* ===== verification/Analyzer_Attempts.thy ===== *)
theory Analyzer_Attempts
  imports Capture_Histories
begin

text \<open>
  One turn of the analyzer worker seen as a whole: an attempt that was claimed ends with the capture
  analyzed, failed or handed back, and the message is committed exactly in the first two cases. The
  transactions of the worker itself are taken to commit, as in the model of the worker.
\<close>

section \<open>An attempt settles its capture\<close>

text \<open>The capture is the worker's, with the identity and the attempts it was claimed with.\<close>

definition holds_claim :: "uuid \<Rightarrow> seconds \<Rightarrow> network_capture \<Rightarrow> ('c, 'x, 'e) analyzer_worker \<Rightarrow> bool" where
  "holds_claim i t c w \<longleftrightarrow> (\<exists>d. get_capture (aw_net w) i = Some d \<and> owned t d \<and> same_identity c d
     \<and> nc_analysis_attempt_count d = nc_analysis_attempt_count c + 1)"

text \<open>Partial correctness with one condition for a result and one for an exception.\<close>

definition triple :: "('s \<Rightarrow> bool) \<Rightarrow> ('s, 'a) act \<Rightarrow> ('a \<Rightarrow> 's \<Rightarrow> bool) \<Rightarrow> ('s \<Rightarrow> bool) \<Rightarrow> bool" where
  "triple P m Q E \<longleftrightarrow> (\<forall>s. P s \<longrightarrow> (case m s of (Inl e, s') \<Rightarrow> E s' | (Inr a, s') \<Rightarrow> Q a s'))"

lemma tripleI:
  assumes "\<And>s r s'. P s \<Longrightarrow> m s = (r, s') \<Longrightarrow> (case r of Inl e \<Rightarrow> E s' | Inr a \<Rightarrow> Q a s')"
  shows "triple P m Q E"
  using assms by (fastforce simp: triple_def split: prod.splits sum.splits)

lemma triple_bind: "triple P m R E \<Longrightarrow> (\<And>a. triple (R a) (k a) Q E) \<Longrightarrow> triple P (act_bind m k) Q E"
  by (fastforce simp: triple_def act_bind_def split: prod.splits sum.splits)

lemma triple_raise: "(\<And>s. P s \<Longrightarrow> E s) \<Longrightarrow> triple P (act_raise e) Q E"
  by (simp add: triple_def act_raise_def)

lemma triple_weaken: "triple P m Q E \<Longrightarrow> (\<And>s. P' s \<Longrightarrow> P s) \<Longrightarrow> triple P' m Q E"
  by (simp add: triple_def)

lemma tripleD: "triple P m Q E \<Longrightarrow> P s \<Longrightarrow> m s = (r, s') \<Longrightarrow> (case r of Inl e \<Rightarrow> E s' | Inr a \<Rightarrow> Q a s')"
  by (cases r) (fastforce simp: triple_def)+

lemma in_net_world:
  assumes "in_net (on_world f) w = (r, w')"
  shows "get_capture (aw_net w') i = get_capture (aw_net w) i" and "aw_consumer w' = aw_consumer w"
  using assms by (auto simp: in_net_def on_world_def get_capture_def split: prod.splits)

lemma in_engine_rest:
  assumes "in_engine f w = (r, w')"
  shows "aw_net w' = aw_net w" and "aw_consumer w' = aw_consumer w"
  using assms by (auto simp: in_engine_def split: prod.splits)

lemma in_engine_result: "in_engine f w = (Inr a, w') \<Longrightarrow> \<exists>e. f (aw_engine w) = (Inr a, e)"
  by (cases "f (aw_engine w)") (simp add: in_engine_def)

lemma holds_claim_cong:
  "get_capture (aw_net w') i = get_capture (aw_net w) i \<Longrightarrow> holds_claim i t c w' = holds_claim i t c w"
  by (simp add: holds_claim_def)

lemma analyze_capture_sha:
  "analyze_capture digest read_output file scenario n fmt (Some sha) now te = (Inr m, te') \<Longrightarrow> an_verified_sha256 m = sha"
  by (auto simp: analyze_capture_def act_bind_def split: if_splits sum.splits prod.splits)

lemma net_transaction_consumer: "net_transaction body w = (r, w') \<Longrightarrow> aw_consumer w' = aw_consumer w"
  by (auto simp: net_transaction_def split: sum.splits)

lemma claimed_update:
  assumes "holds_claim i t c w" and "cond = (\<lambda>d. owned t d \<and> nc_expected_sha256 d = sha)" and "sha = nc_expected_sha256 c"
  obtains d where "get_capture (aw_net w) i = Some d" and "owned t d" and "same_identity c d" and "nc_expected_sha256 d = sha"
    and "nc_analysis_attempt_count d = nc_analysis_attempt_count c + 1"
    and "net_transaction (update_owned cond change i) w = (Inr (), w\<lparr>aw_net := put_capture i (change d) (aw_net w)\<rparr>)"
proof -
  obtain d where d: "get_capture (aw_net w) i = Some d" "owned t d" "same_identity c d"
    "nc_analysis_attempt_count d = nc_analysis_attempt_count c + 1"
    using assms(1) by (auto simp: holds_claim_def)
  have e: "nc_expected_sha256 d = sha" using d(3) assms(3) by (simp add: same_identity_def same_logical_def)
  show ?thesis by (rule that [OF d(1-3) e d(4)]) (simp add: net_transaction_def update_owned_def d(1,2) e assms(2))
qed

lemma mark_verified_keeps_claim:
  assumes "holds_claim i t c w" and "net_transaction (mark_verified i (nc_expected_sha256 c) t) w = (r, w')"
  shows "r = Inr () \<and> holds_claim i t c w' \<and> aw_consumer w' = aw_consumer w"
proof -
  let ?sha = "nc_expected_sha256 c"
  obtain d where d: "get_capture (aw_net w) i = Some d" "owned t d" "same_identity c d" "nc_analysis_attempt_count d = nc_analysis_attempt_count c + 1"
    and tr: "net_transaction (mark_verified i ?sha t) w = (Inr (), w\<lparr>aw_net := put_capture i (d\<lparr>nc_verified_sha256 := Some ?sha\<rparr>) (aw_net w)\<rparr>)"
    unfolding mark_verified_def by (rule claimed_update [OF assms(1) refl refl, of "\<lambda>c. c\<lparr>nc_verified_sha256 := Some ?sha\<rparr>"]) blast
  have "same_identity d (d\<lparr>nc_verified_sha256 := Some ?sha\<rparr>)" by (simp add: same_identity_def same_logical_def)
  then have "same_identity c (d\<lparr>nc_verified_sha256 := Some ?sha\<rparr>)" by (rule same_identity_trans [OF d(3)])
  then show ?thesis
    using assms(2) tr d by (auto simp: holds_claim_def get_put_capture owned_def)
qed

definition attempt_left :: "uuid \<Rightarrow> string \<Rightarrow> network_capture \<Rightarrow> ('c, 'x, 'e) analyzer_worker \<Rightarrow> bool" where
  "attempt_left i status c w \<longleftrightarrow> (\<exists>d. get_capture (aw_net w) i = Some d \<and> nc_status d = status \<and> same_identity c d
     \<and> nc_analysis_attempt_count d = nc_analysis_attempt_count c + 1
     \<and> (status = ''analyzed'' \<longrightarrow> nc_verified_sha256 d = Some (nc_expected_sha256 c)))"

lemma mark_analyzed_settles:
  assumes "holds_claim i t c w" and "net_transaction (mark_analyzed i (nc_expected_sha256 c) t now) w = (r, w')"
  shows "r = Inr () \<and> attempt_left i ''analyzed'' c w' \<and> aw_consumer w' = aw_consumer w"
proof -
  let ?f = "\<lambda>d. d\<lparr>nc_verified_sha256 := Some (nc_expected_sha256 c), nc_status := ''analyzed'', nc_analysis_finished_at := Some now,
            nc_error_code := None, nc_error_message := None\<rparr>"
  obtain d where d: "get_capture (aw_net w) i = Some d" "same_identity c d" "nc_analysis_attempt_count d = nc_analysis_attempt_count c + 1"
    and tr: "net_transaction (mark_analyzed i (nc_expected_sha256 c) t now) w = (Inr (), w\<lparr>aw_net := put_capture i (?f d) (aw_net w)\<rparr>)"
    unfolding mark_analyzed_def by (rule claimed_update [OF assms(1) refl refl, of ?f]) blast
  have "same_identity d (?f d)" by (simp add: same_identity_def same_logical_def)
  then have "same_identity c (?f d)" by (rule same_identity_trans [OF d(2)])
  then show ?thesis
    using assms(2) tr d by (auto simp: attempt_left_def get_put_capture)
qed

lemma run_attempt_settles:
  fixes w0 :: "('c, 'x, 'e) analyzer_worker" and clock :: attempt_times
  assumes sha: "nr_expected_sha256 p = nc_expected_sha256 c" and others: "\<And>n s. get_capture (others n s) i = get_capture s i"
  defines "K \<equiv> \<lambda>w :: ('c, 'x, 'e) analyzer_worker. holds_claim i (at_started clock) c w \<and> aw_consumer w = aw_consumer w0"
  shows "triple K (run_attempt ports others clock p i package_name) (\<lambda>_ w. attempt_left i ''analyzed'' c w \<and> aw_consumer w = aw_consumer w0) K"
proof -
  let ?sha = "nc_expected_sha256 c"
  have K_unfold: "K w \<Longrightarrow> holds_claim i (at_started clock) c w \<and> aw_consumer w = aw_consumer w0" for w by (simp add: K_def)
  have between: "triple K (interleave (others n)) (\<lambda>_. K) K" for n
    by (simp add: triple_def interleave_def K_def holds_claim_def others)
  have download: "triple K (in_net (on_world f)) (\<lambda>_. K) K" for f :: "('x, bytes) act"
    by (rule tripleI) (auto simp: K_def in_net_world holds_claim_cong [OF in_net_world(1)] split: sum.splits)
  have analyze: "triple K (in_engine (analyze_capture dg rd fl sc n fmt (Some ?sha) now)) (\<lambda>m w. K w \<and> an_verified_sha256 m = ?sha) K"
    for dg rd fl sc n fmt now
  proof (rule tripleI)
    fix w r w' assume w: "K w" "in_engine (analyze_capture dg rd fl sc n fmt (Some ?sha) now) w = (r, w')"
    have "K w'" using w(1) in_engine_rest [OF w(2)] by (simp add: K_def holds_claim_def)
    moreover have "an_verified_sha256 m = ?sha" if "r = Inr m" for m
      using w(2) unfolding that by (auto dest!: in_engine_result analyze_capture_sha)
    ultimately show "case r of Inl e \<Rightarrow> K w' | Inr m \<Rightarrow> K w' \<and> an_verified_sha256 m = ?sha" by (cases r) simp_all
  qed
  have verify: "triple K (net_transaction (mark_verified i ?sha (at_started clock))) (\<lambda>_. K) K"
    by (rule tripleI) (frule (1) mark_verified_keeps_claim [OF conjunct1 [OF K_unfold]], simp add: K_def)
  have publish: "triple K (in_net (\<lambda>s. case get_capture s i of
          None \<Rightarrow> (Inl (AnalyzerConsistencyError ''capture disappeared before publication''), s)
        | Some c \<Rightarrow> on_world (publish_analysis (wp_net ports) c payload) s)) (\<lambda>_. K) K" for payload
    by (rule tripleI) (auto simp: K_def holds_claim_def in_net_def on_world_def get_capture_def split: sum.splits prod.splits option.splits)
  have finish: "triple K (net_transaction (mark_analyzed i ?sha (at_started clock) (at_finished clock)))
      (\<lambda>_ w. attempt_left i ''analyzed'' c w \<and> aw_consumer w = aw_consumer w0) K"
    by (rule tripleI) (frule (1) mark_analyzed_settles [OF conjunct1 [OF K_unfold]], simp add: K_def)
  show ?thesis
    unfolding run_attempt_def sha
  proof (rule triple_bind [OF download], rule triple_bind [OF analyze], goal_cases)
    case (1 fl m)
    show ?case
    proof (cases "an_verified_sha256 m = ?sha")
      case True
      show ?thesis
        unfolding True Let_def
        by (rule triple_weaken, rule triple_bind [OF between], rule triple_bind [OF verify], cases "valid_network_analysis (analysis_payload p package_name m)")
          (auto intro: triple_raise triple_bind [OF between triple_bind [OF publish triple_bind [OF between finish]]])
    qed (simp add: triple_def)
  qed
qed

text \<open>The outcome of committing the message, as the worker returns it.\<close>

definition commit_outcome :: "'c consumer_lib \<Rightarrow> kafka_message \<Rightarrow> 'c kafka_consumer \<Rightarrow> (exn + bool) \<times> 'c kafka_consumer" where
  "commit_outcome lib m c = (case kc_commit lib m c of (Inl e, c') \<Rightarrow> (Inl e, c') | (Inr _, c') \<Rightarrow> (Inr True, c'))"

lemma commit_message_outcome:
  assumes "commit_message lib m w = (r, w')"
  shows "(r, aw_consumer w') = commit_outcome lib m (aw_consumer w)" and "aw_net w' = aw_net w"
  using assms by (auto simp: commit_message_def commit_outcome_def split: prod.splits sum.splits)

lemma attempt_left_cong: "aw_net w' = aw_net w \<Longrightarrow> attempt_left i status c w' = attempt_left i status c w"
  by (simp add: attempt_left_def)

lemma attempt_failed_settles:
  assumes "holds_claim i (at_started clock) c w" and others: "\<And>n s. get_capture (others n s) i = get_capture s i"
    and "attempt_failed lib others clock m i e w = (r, w')"
  shows "if is_terminal_error e
    then attempt_left i ''failed'' c w' \<and> (r, aw_consumer w') = commit_outcome lib m (aw_consumer w)
    else attempt_left i ''uploaded'' c w' \<and> r = Inl e \<and> aw_consumer w' = aw_consumer w"
proof -
  let ?t = "at_started clock" and ?s = "others 4 (aw_net w)"
  obtain d where d: "get_capture ?s i = Some d" "owned ?t d" "same_identity c d" "nc_analysis_attempt_count d = nc_analysis_attempt_count c + 1"
    using assms(1) by (auto simp: holds_claim_def others)
  show ?thesis
  proof (cases "is_terminal_error e")
    case True
    let ?d = "d\<lparr>nc_status := ''failed'', nc_analysis_finished_at := Some (at_finished clock), nc_error_code := Some (error_code_of e),
            nc_error_message := Some (take 1000 (error_text_of e))\<rparr>"
    have mark: "mark_failed i e ?t (at_finished clock) ?s = Inr (put_capture i ?d ?s)"
      using d(1,2) by (simp add: mark_failed_def update_owned_def)
    have "same_identity d ?d" by (simp add: same_identity_def same_logical_def)
    with d(3) have id: "same_identity c ?d" by (rule same_identity_trans)
    have "commit_message lib m (w\<lparr>aw_net := put_capture i ?d ?s\<rparr>) = (r, w')"
      using assms(3) True by (simp add: attempt_failed_def act_bind_def interleave_def net_transaction_def mark)
    note out = commit_message_outcome [OF this]
    have "attempt_left i ''failed'' c w'" using d(1,4) id by (simp add: attempt_left_def out(2) get_put_capture)
    then show ?thesis using True out(1) by simp
  next
    case False
    have "same_identity d (d\<lparr>nc_status := ''uploaded''\<rparr>)" by (simp add: same_identity_def same_logical_def)
    with d(3) have id: "same_identity c (d\<lparr>nc_status := ''uploaded''\<rparr>)" by (rule same_identity_trans)
    have "release_attempt i ?t ?s = put_capture i (d\<lparr>nc_status := ''uploaded''\<rparr>) ?s" using d(1,2) by (simp add: release_attempt_def)
    then have w': "w' = w\<lparr>aw_net := put_capture i (d\<lparr>nc_status := ''uploaded''\<rparr>) ?s\<rparr>" "r = Inl e"
      using assms(3) False by (auto simp: attempt_failed_def act_bind_def interleave_def net_transaction_def act_raise_def)
    then show ?thesis using False d(1,4) id by (simp add: attempt_left_def get_put_capture)
  qed
qed

lemma claim_holds:
  assumes "claim_attempt i t stale s = Inr (True, s')" and "get_capture s i = Some c"
    and "get_capture (aw_net w) i = get_capture s' i"
  shows "holds_claim i t c w"
proof -
  have s': "s' = put_capture i (claim_row t c) s" using assms(1,2) by (auto simp: claim_attempt_def split: if_splits)
  have "same_identity c (claim_row t c)" by (simp add: same_identity_def same_logical_def claim_row_def)
  then show ?thesis using assms(2,3) by (simp add: holds_claim_def s' get_put_capture owned_def) (simp add: claim_row_def)
qed


text \<open>A partition with one record of the sample capture, and a worker without TShark.\<close>

definition sample_record :: kafka_message where
  "sample_record = \<lparr>km_error = None, km_topic = NETWORK_CAPTURE_READY_TOPIC, km_partition = 0, km_offset = 0,
     km_key = Some (RawBytes (to_text (nat_str 1))), km_value = Some (RawBytes [1])\<rparr>"

definition sample_partition :: "unit consumer_lib" where
  "sample_partition = \<lparr>cl_subscribe = (\<lambda>_ c. c), cl_poll = (\<lambda>t c. (Inr (Some sample_record), c)), cl_commit = (\<lambda>m c. (Inr (Some []), c)),
     cl_assignment = (\<lambda>c. (Inr [], c)), cl_close = (\<lambda>c. c)\<rparr>"

definition sample_ports :: "(unit, unit) worker_ports" where
  "sample_ports = \<lparr>wp_net = calm_ports, wp_loads = (\<lambda>_. Some (JObj [(''event_id'', JStr ''11''), (''event_type'', JStr NETWORK_CAPTURE_READY_EVENT_TYPE),
       (''schema_version'', JInt NETWORK_SCHEMA_VERSION), (''occurred_at'', JStr ''t''), (''payload'', JObj [])])),
     wp_parse_ready = (\<lambda>_. Inr sample_ready), wp_digest = (\<lambda>_. replicate 64 (CHR ''a'')),
     wp_read = (\<lambda>_ e. (Inl (runtime_error ''TShark executable was not found''), e))\<rparr>"

definition sample_worker :: "(unit, unit, unit) analyzer_worker" where
  "sample_worker = \<lparr>aw_consumer = \<lparr>kc_closed = False, kc_client = ()\<rparr>, aw_net = uploaded_net, aw_engine = (), aw_stale_seconds = 60, aw_closed = False\<rparr>"

lemma sample_polled: "kc_poll sample_partition 1 (aw_consumer sample_worker) = (Inr (Some sample_record), aw_consumer sample_worker)"
  by (simp add: kc_poll_def kc_ensure_open_def act_defs sample_partition_def sample_worker_def sample_record_def)

lemma sample_decoded: "decode_capture_ready (wp_loads sample_ports) (wp_parse_ready sample_ports) sample_record = ReadyEvent sample_ready"
proof -
  have "nr_application_id (ev_payload sample_ready) = 1" by (simp add: sample_ready_def ready_payload_def uploaded_get(3))
  then show ?thesis
    using id_key_decodes [of 1]
    by (auto simp: decode_capture_ready_def sample_ports_def sample_record_def ENVELOPE_FIELDS_def equals_number_def deserialize_event_def check_ready_key_def)
qed


end
