(* ===== verification/App_Registry.thy ===== *)
theory App_Registry
  imports Ingestion "HOL-Library.List_Lexorder" "HOL-Library.Char_ord" "HOL-Library.Product_Lexorder"
begin

text \<open>
  The application registry (\<open>app_registry/\<close>): its tables (\<open>models.py\<close>), request schemas (\<open>schemas.py\<close>),
  repository (\<open>repository.py\<close>) and service (\<open>service.py\<close>), what its routes return (\<open>ApplicationRead\<close>), and the
  client through which the crawler reads it (\<open>crawler/infrastructure/registry/http.py\<close>).

  A service call is one transaction: when it raises, the tables are as before. A flush checks the
  constraints of the models; the session flushes pending changes before it queries. Codes are ordered as
  Python orders strings, which is the order of the database under its C collation.
\<close>

section \<open>Tables\<close>

record category =
  ca_code :: string
  ca_name :: string
  ca_created_at :: seconds

record application_category =
  ac_category_id :: nat
  ac_is_primary :: bool
  ac_created_at :: seconds

record application =
  ap_name :: string
  ap_package_name :: string
  ap_language_code :: "string option"
  ap_country_code :: "string option"
  ap_is_active :: bool
  ap_deactivated_at :: "seconds option"
  ap_created_at :: seconds
  ap_updated_at :: seconds
  ap_category_assignments :: "application_category list"

record registry_db =
  rg_categories :: "(nat \<times> category) list"
  rg_applications :: "(uuid \<times> application) list"

definition PACKAGE_NAME_CONSTRAINT :: string where
  "PACKAGE_NAME_CONSTRAINT = ''uq_applications_package_name''"

definition opt_fits_text :: "string option \<Rightarrow> bool" where
  "opt_fits_text v = (case v of None \<Rightarrow> True | Some s \<Rightarrow> fits_text s)"

definition application_checks :: "application \<Rightarrow> bool" where
  "application_checks a \<longleftrightarrow> (ap_is_active a \<and> ap_deactivated_at a = None \<or> \<not> ap_is_active a \<and> ap_deactivated_at a \<noteq> None)
     \<and> (ap_language_code a = None \<longleftrightarrow> ap_country_code a = None)"

text \<open>The primary key and the partial unique index of the assignments, and their foreign key.\<close>

definition assignment_checks :: "(nat \<times> category) list \<Rightarrow> application_category list \<Rightarrow> bool" where
  "assignment_checks categories acs \<longleftrightarrow> distinct (map ac_category_id acs) \<and> length (filter ac_is_primary acs) \<le> 1
     \<and> list_all (\<lambda>ac. map_of categories (ac_category_id ac) \<noteq> None) acs"

definition flush_checks :: "uuid \<Rightarrow> application \<Rightarrow> registry_db \<Rightarrow> exn + unit" where
  "flush_checks i a db =
     (if \<not> fits_text (ap_name a) \<or> \<not> fits_text (ap_package_name a) \<or> \<not> opt_fits_text (ap_language_code a) \<or> \<not> opt_fits_text (ap_country_code a)
      then Inl (data_error ''applications'')
      else if \<not> application_checks a then Inl (integrity_error ''applications'')
      else if list_ex (\<lambda>(j, b). j \<noteq> i \<and> ap_package_name b = ap_package_name a) (rg_applications db)
        then Inl (integrity_error PACKAGE_NAME_CONSTRAINT)
      else if \<not> assignment_checks (rg_categories db) (ap_category_assignments a) then Inl (integrity_error ''application_categories'')
      else Inr ())"

definition insert_application :: "uuid \<Rightarrow> application \<Rightarrow> registry_db \<Rightarrow> exn + registry_db" where
  "insert_application i a db = (case flush_checks i a db of
     Inl e \<Rightarrow> Inl e
   | Inr _ \<Rightarrow> if map_of (rg_applications db) i \<noteq> None then Inl (integrity_error ''applications_pkey'')
             else Inr (db\<lparr>rg_applications := rg_applications db @ [(i, a)]\<rparr>))"

definition flush_application :: "uuid \<Rightarrow> application \<Rightarrow> registry_db \<Rightarrow> exn + registry_db" where
  "flush_application i a db = (case flush_checks i a db of
     Inl e \<Rightarrow> Inl e
   | Inr _ \<Rightarrow> Inr (db\<lparr>rg_applications := map (\<lambda>(j, b). (j, if j = i then a else b)) (rg_applications db)\<rparr>))"

section \<open>Requests\<close>

record application_create =
  cr_name :: string
  cr_package_name :: string
  cr_language_code :: "string option"
  cr_country_code :: "string option"
  cr_category_codes :: "string list"
  cr_primary_category_code :: string

definition valid_language_code :: "string \<Rightarrow> bool" where
  "valid_language_code s \<longleftrightarrow> list_all is_lower s \<and> length s \<in> {2, 3}"

definition valid_country_code :: "string \<Rightarrow> bool" where
  "valid_country_code s \<longleftrightarrow> list_all is_lower s \<and> length s = 2"

definition opt_holds :: "('a \<Rightarrow> bool) \<Rightarrow> 'a option \<Rightarrow> bool" where
  "opt_holds P v = (case v of None \<Rightarrow> True | Some x \<Rightarrow> P x)"

definition valid_assignment :: "string list \<Rightarrow> string \<Rightarrow> bool" where
  "valid_assignment category_codes primary_category_code \<longleftrightarrow> distinct category_codes \<and> primary_category_code \<in> set category_codes"

definition valid_application_create :: "application_create \<Rightarrow> bool" where
  "valid_application_create d \<longleftrightarrow> stripped (cr_name d) \<and> stripped (cr_package_name d)
     \<and> opt_holds valid_language_code (cr_language_code d) \<and> opt_holds valid_country_code (cr_country_code d)
     \<and> cr_category_codes d \<noteq> [] \<and> list_all stripped (cr_category_codes d) \<and> stripped (cr_primary_category_code d)
     \<and> (cr_language_code d = None \<longleftrightarrow> cr_country_code d = None) \<and> valid_assignment (cr_category_codes d) (cr_primary_category_code d)"

text \<open>A field of the patch is absent, null or a value.\<close>

record application_update =
  up_name :: "string option option"
  up_package_name :: "string option option"
  up_language_code :: "string option option"
  up_country_code :: "string option option"
  up_category_codes :: "string list option option"
  up_primary_category_code :: "string option option"

definition field_value :: "'a option option \<Rightarrow> 'a option" where
  "field_value v = (case v of None \<Rightarrow> None | Some x \<Rightarrow> x)"

definition valid_application_update :: "application_update \<Rightarrow> bool" where
  "valid_application_update d \<longleftrightarrow> opt_holds stripped (field_value (up_name d)) \<and> opt_holds stripped (field_value (up_package_name d))
     \<and> opt_holds valid_language_code (field_value (up_language_code d)) \<and> opt_holds valid_country_code (field_value (up_country_code d))
     \<and> opt_holds (\<lambda>cs. cs \<noteq> [] \<and> list_all stripped cs) (field_value (up_category_codes d))
     \<and> opt_holds stripped (field_value (up_primary_category_code d))
     \<and> up_name d \<noteq> Some None \<and> up_package_name d \<noteq> Some None \<and> up_category_codes d \<noteq> Some None \<and> up_primary_category_code d \<noteq> Some None
     \<and> (up_category_codes d = None \<longleftrightarrow> up_primary_category_code d = None)
     \<and> (case (field_value (up_category_codes d), field_value (up_primary_category_code d)) of
          (Some cs, Some p) \<Rightarrow> valid_assignment cs p | _ \<Rightarrow> True)
     \<and> (up_language_code d = None \<longleftrightarrow> up_country_code d = None)
     \<and> (up_language_code d \<noteq> None \<longrightarrow> (field_value (up_language_code d) = None \<longleftrightarrow> field_value (up_country_code d) = None))"

definition has_changes :: "application_update \<Rightarrow> bool" where
  "has_changes d \<longleftrightarrow> up_name d \<noteq> None \<or> up_package_name d \<noteq> None \<or> up_language_code d \<noteq> None \<or> up_country_code d \<noteq> None
     \<or> up_category_codes d \<noteq> None \<or> up_primary_category_code d \<noteq> None"

section \<open>Repository\<close>

definition list_categories :: "registry_db \<Rightarrow> (nat \<times> category) list" where
  "list_categories db = sort_key (\<lambda>(i, c). ca_code c) (rg_categories db)"

definition get_categories_by_codes :: "string list \<Rightarrow> registry_db \<Rightarrow> (nat \<times> category) list" where
  "get_categories_by_codes codes db = sort_key (\<lambda>(i, c). ca_code c) (filter (\<lambda>(i, c). ca_code c \<in> set codes) (rg_categories db))"

definition list_applications :: "bool option \<Rightarrow> registry_db \<Rightarrow> (uuid \<times> application) list" where
  "list_applications active db = sort_key (\<lambda>(i, a). (ap_created_at a, i))
     (filter (\<lambda>(i, a). active = None \<or> active = Some (ap_is_active a)) (rg_applications db))"

definition category_assignments :: "seconds \<Rightarrow> (nat \<times> category) list \<Rightarrow> string \<Rightarrow> application_category list" where
  "category_assignments now categories primary_category_code =
     map (\<lambda>(i, c). \<lparr>ac_category_id = i, ac_is_primary = (ca_code c = primary_category_code), ac_created_at = now\<rparr>)
       (sort_key (\<lambda>(i, c). ca_code c) categories)"

section \<open>Service\<close>

definition ApplicationNotFoundError :: "uuid \<Rightarrow> exn" where
  "ApplicationNotFoundError i = mk_exn ''ApplicationNotFoundError'' (''Application '' @ nat_str i @ '' was not found'') False"

definition DuplicatePackageNameError :: "string \<Rightarrow> exn" where
  "DuplicatePackageNameError p = mk_exn ''DuplicatePackageNameError'' (''An application with package_name '' @ [CHR 0x27] @ p @ [CHR 0x27] @ '' already exists'') False"

definition InvalidCategoryAssignmentError :: "string \<Rightarrow> exn" where
  "InvalidCategoryAssignmentError m = mk_exn ''InvalidCategoryAssignmentError'' m False"

definition validate_category_assignment :: "string list \<Rightarrow> string \<Rightarrow> exn + unit" where
  "validate_category_assignment category_codes primary_category_code =
     (if category_codes = [] then Inl (InvalidCategoryAssignmentError ''category_codes must contain at least one category'')
      else if \<not> distinct category_codes then Inl (InvalidCategoryAssignmentError ''category_codes must not contain duplicates'')
      else if primary_category_code \<notin> set category_codes
        then Inl (InvalidCategoryAssignmentError ''primary_category_code must be included in category_codes'')
      else Inr ())"

definition is_package_name_conflict :: "exn \<Rightarrow> bool" where
  "is_package_name_conflict e \<longleftrightarrow> e = integrity_error PACKAGE_NAME_CONSTRAINT"

definition resolve_categories :: "string list \<Rightarrow> registry_db \<Rightarrow> exn + (nat \<times> category) list" where
  "resolve_categories category_codes db =
     (let categories = get_categories_by_codes category_codes db;
          missing_codes = sort (remdups (filter (\<lambda>code. code \<notin> (ca_code \<circ> snd) ` set categories) category_codes))
      in if missing_codes \<noteq> [] then Inl (InvalidCategoryAssignmentError (''Unknown category codes: '' @ join_with '', '' missing_codes))
         else Inr categories)"

text \<open>The exception handler around both writing transactions.\<close>

definition translate_conflict :: "string option \<Rightarrow> exn + 'a \<Rightarrow> exn + 'a" where
  "translate_conflict package_name r = (case r of
     Inl e \<Rightarrow> if is_package_name_conflict e
       then Inl (case package_name of None \<Rightarrow> mk_exn ''AssertionError'' '''' False | Some p \<Rightarrow> DuplicatePackageNameError p) else Inl e
   | Inr x \<Rightarrow> Inr x)"

definition new_application :: "seconds \<Rightarrow> application_create \<Rightarrow> application_category list \<Rightarrow> application" where
  "new_application now d acs = \<lparr>ap_name = cr_name d, ap_package_name = cr_package_name d, ap_language_code = cr_language_code d,
     ap_country_code = cr_country_code d, ap_is_active = True, ap_deactivated_at = None, ap_created_at = now, ap_updated_at = now,
     ap_category_assignments = acs\<rparr>"

definition create_application :: "uuid \<Rightarrow> seconds \<Rightarrow> application_create \<Rightarrow> registry_db \<Rightarrow> exn + (application \<times> registry_db)" where
  "create_application fresh now d db =
     (case validate_category_assignment (cr_category_codes d) (cr_primary_category_code d) of
        Inl e \<Rightarrow> Inl e
      | Inr _ \<Rightarrow> translate_conflict (Some (cr_package_name d))
          (case resolve_categories (cr_category_codes d) db of
             Inl e \<Rightarrow> Inl e
           | Inr categories \<Rightarrow>
               (let a = new_application now d (category_assignments now categories (cr_primary_category_code d))
                in map_sum id (Pair a) (insert_application fresh a db))))"

definition get_application :: "uuid \<Rightarrow> registry_db \<Rightarrow> exn + application" where
  "get_application i db = (case map_of (rg_applications db) i of None \<Rightarrow> Inl (ApplicationNotFoundError i) | Some a \<Rightarrow> Inr a)"

definition changed_fields :: "application_update \<Rightarrow> application \<Rightarrow> exn + application" where
  "changed_fields d a =
     (if up_name d = Some None \<or> up_package_name d = Some None then Inl (mk_exn ''AssertionError'' '''' False)
      else let a1 = (case field_value (up_name d) of None \<Rightarrow> a | Some n \<Rightarrow> a\<lparr>ap_name := n\<rparr>);
               a2 = (case field_value (up_package_name d) of None \<Rightarrow> a1 | Some p \<Rightarrow> a1\<lparr>ap_package_name := p\<rparr>)
           in Inr (if up_language_code d = None then a2
                   else a2\<lparr>ap_language_code := field_value (up_language_code d), ap_country_code := field_value (up_country_code d)\<rparr>))"

text \<open>The query for the categories flushes the changed fields first.\<close>

definition changed_categories :: "uuid \<Rightarrow> seconds \<Rightarrow> application_update \<Rightarrow> application \<Rightarrow> registry_db \<Rightarrow> exn + (application \<times> registry_db)" where
  "changed_categories i now d a db =
     (if up_category_codes d = None then Inr (a, db)
      else case (field_value (up_category_codes d), field_value (up_primary_category_code d)) of
        (Some category_codes, Some primary_category_code) \<Rightarrow>
          (case validate_category_assignment category_codes primary_category_code of
             Inl e \<Rightarrow> Inl e
           | Inr _ \<Rightarrow> (case flush_application i a db of
               Inl e \<Rightarrow> Inl e
             | Inr db1 \<Rightarrow> (case resolve_categories category_codes db1 of
                 Inl e \<Rightarrow> Inl e
               | Inr categories \<Rightarrow>
                   Inr (a\<lparr>ap_category_assignments := category_assignments now categories primary_category_code\<rparr>, db1))))
      | _ \<Rightarrow> Inl (InvalidCategoryAssignmentError ''category_codes and primary_category_code must be provided together''))"

definition update_application :: "uuid \<Rightarrow> seconds \<Rightarrow> application_update \<Rightarrow> registry_db \<Rightarrow> exn + (application \<times> registry_db)" where
  "update_application i now d db =
     translate_conflict (field_value (up_package_name d))
       (case get_application i db of
          Inl e \<Rightarrow> Inl e
        | Inr a \<Rightarrow> (case changed_fields d a of
            Inl e \<Rightarrow> Inl e
          | Inr a1 \<Rightarrow> (case changed_categories i now d a1 db of
              Inl e \<Rightarrow> Inl e
            | Inr (a2, db1) \<Rightarrow>
                if \<not> has_changes d then Inr (a2, db1)
                else (let a3 = a2\<lparr>ap_updated_at := now\<rparr> in map_sum id (Pair a3) (flush_application i a3 db1)))))"

definition deactivate_application :: "uuid \<Rightarrow> seconds \<Rightarrow> registry_db \<Rightarrow> exn + (unit \<times> registry_db)" where
  "deactivate_application i now db =
     (case get_application i db of
        Inl e \<Rightarrow> Inl e
      | Inr a \<Rightarrow>
          if \<not> ap_is_active a then Inr ((), db)
          else map_sum id (Pair ()) (flush_application i
                 (a\<lparr>ap_is_active := False, ap_deactivated_at := Some now, ap_updated_at := now\<rparr>) db))"

section \<open>The response of the routes\<close>

text \<open>Times are printed by pydantic: the parameter \<open>print_time\<close>.\<close>

definition json_opt :: "('a \<Rightarrow> json) \<Rightarrow> 'a option \<Rightarrow> json" where
  "json_opt f v = (case v of None \<Rightarrow> JNull | Some x \<Rightarrow> f x)"

definition application_read :: "(seconds \<Rightarrow> string) \<Rightarrow> registry_db \<Rightarrow> uuid \<times> application \<Rightarrow> json" where
  "application_read print_time db ia = (case ia of (i, a) \<Rightarrow>
     (let category = (\<lambda>ac. the (map_of (rg_categories db) (ac_category_id ac)));
          assignments = sort_key (\<lambda>ac. ca_code (category ac)) (ap_category_assignments a)
      in JObj [(''id'', JStr (nat_str i)), (''name'', JStr (ap_name a)), (''package_name'', JStr (ap_package_name a)),
           (''language_code'', json_opt JStr (ap_language_code a)), (''country_code'', json_opt JStr (ap_country_code a)),
           (''is_active'', JBool (ap_is_active a)), (''deactivated_at'', json_opt (JStr \<circ> print_time) (ap_deactivated_at a)),
           (''created_at'', JStr (print_time (ap_created_at a))), (''updated_at'', JStr (print_time (ap_updated_at a))),
           (''categories'', JArr (map (\<lambda>ac. JObj [(''code'', JStr (ca_code (category ac))), (''name'', JStr (ca_name (category ac))),
              (''is_primary'', JBool (ac_is_primary ac))]) assignments))]))"

definition list_applications_body :: "(seconds \<Rightarrow> string) \<Rightarrow> bool option \<Rightarrow> registry_db \<Rightarrow> json" where
  "list_applications_body print_time active db = JArr (map (application_read print_time db) (list_applications active db))"

section \<open>The crawler's client\<close>

text \<open>
  The HTTP library is the function \<open>get\<close>, the call of \<open>/applications\<close> with \<open>active=true\<close>; \<open>UUID(...)\<close>, and
  \<open>str(...)\<close> of JSON values other than strings, are parameters.
\<close>

record http_response =
  hr_status_code :: int
  hr_json :: "exn + json"

record ref_parsers =
  parse_uuid :: "string \<Rightarrow> uuid option"
  show_json :: "json \<Rightarrow> string"

definition registry_unavailable :: "string \<Rightarrow> exn" where
  "registry_unavailable m = Crawler (mk_err RegistryUnavailable m)"

definition json_text :: "ref_parsers \<Rightarrow> json \<Rightarrow> string" where
  "json_text ps v = (case v of JStr s \<Rightarrow> s | _ \<Rightarrow> show_json ps v)"

definition optional_text :: "ref_parsers \<Rightarrow> json option \<Rightarrow> string option" where
  "optional_text ps v = (case v of None \<Rightarrow> None | Some x \<Rightarrow> if x = JNull then None else Some (json_text ps x))"

definition application_ref_of :: "ref_parsers \<Rightarrow> json \<Rightarrow> exn + application_ref" where
  "application_ref_of ps item = (case item of
     JObj entries \<Rightarrow>
       (case (map_of entries ''id'', map_of entries ''name'', map_of entries ''package_name'') of
          (Some i, Some n, Some p) \<Rightarrow>
            (case parse_uuid ps (json_text ps i) of
               None \<Rightarrow> Inl (registry_unavailable ''Registry application item is invalid'')
             | Some u \<Rightarrow> (case new_application_ref u (json_text ps n) (json_text ps p) (optional_text ps (map_of entries ''language_code''))
                    (optional_text ps (map_of entries ''country_code'')) of
                 Inl e \<Rightarrow> Inl (registry_unavailable ''Registry application item is invalid'')
               | Inr r \<Rightarrow> Inr r))
        | _ \<Rightarrow> Inl (registry_unavailable ''Registry application item is invalid''))
   | _ \<Rightarrow> Inl (registry_unavailable ''Registry application item is not an object''))"

fun refs_of_items :: "ref_parsers \<Rightarrow> json list \<Rightarrow> exn + application_ref list" where
  "refs_of_items ps [] = Inr []"
| "refs_of_items ps (item # items) = (case application_ref_of ps item of
     Inl e \<Rightarrow> Inl e | Inr r \<Rightarrow> map_sum id (Cons r) (refs_of_items ps items))"

definition applications_of_response :: "ref_parsers \<Rightarrow> http_response \<Rightarrow> exn + application_ref list" where
  "applications_of_response ps r =
     (if 500 \<le> hr_status_code r then Inl (registry_unavailable (''Registry returned HTTP '' @ int_str (hr_status_code r)))
      else if hr_status_code r \<noteq> 200
        then Inl (registry_unavailable (''Registry rejected active application query with HTTP '' @ int_str (hr_status_code r)))
      else case hr_json r of
        Inl e \<Rightarrow> Inl e
      | Inr (JArr items) \<Rightarrow> refs_of_items ps items
      | Inr _ \<Rightarrow> Inl (registry_unavailable ''Registry returned a non-list response''))"

text \<open>The attempts that are left, and the number of the next one.\<close>

fun list_active_loop ::
  "('s, http_response) act \<Rightarrow> (seconds \<Rightarrow> 's \<Rightarrow> 's) \<Rightarrow> ref_parsers \<Rightarrow> nat \<Rightarrow> nat \<Rightarrow> ('s, application_ref list) act" where
  "list_active_loop get sleep ps 0 attempt s = (Inl (registry_unavailable ''active applications could not be fetched''), s)"
| "list_active_loop get sleep ps (Suc left) attempt s =
     (case (case get s of (Inl e, s1) \<Rightarrow> (Inl e, s1) | (Inr r, s1) \<Rightarrow> (applications_of_response ps r, s1)) of
        (Inr refs, s1) \<Rightarrow> (Inr refs, s1)
      | (Inl e, s1) \<Rightarrow> list_active_loop get sleep ps left (Suc attempt) (if left = 0 then s1 else sleep (min (2 ^ (attempt - 1)) 4) s1))"

record registry_client =
  rc_attempts :: nat

definition new_registry_client :: "int \<Rightarrow> exn + registry_client" where
  "new_registry_client max_attempts = (if max_attempts < 1 then Inl (value_error ''registry retry attempts must be at least one'')
     else Inr \<lparr>rc_attempts = nat max_attempts\<rparr>)"

definition list_active_applications ::
  "('s, http_response) act \<Rightarrow> (seconds \<Rightarrow> 's \<Rightarrow> 's) \<Rightarrow> ref_parsers \<Rightarrow> registry_client \<Rightarrow> ('s, application_ref list) act" where
  "list_active_applications get sleep ps c = list_active_loop get sleep ps (rc_attempts c) 1"

end
