(* ===== verification/Registry_Histories.thy ===== *)
theory Registry_Histories
  imports App_Registry
begin

text \<open>
  What the application registry guarantees over its histories, and that the crawler's client reads
  exactly what it holds.
\<close>

section \<open>The invariant\<close>

definition application_ok :: "(nat \<times> category) list \<Rightarrow> application \<Rightarrow> bool" where
  "application_ok categories a \<longleftrightarrow> stripped (ap_name a) \<and> stripped (ap_package_name a)
     \<and> opt_holds valid_language_code (ap_language_code a) \<and> opt_holds valid_country_code (ap_country_code a)
     \<and> application_checks a \<and> assignment_checks categories (ap_category_assignments a)
     \<and> length (filter ac_is_primary (ap_category_assignments a)) = 1"

definition registry_ok :: "registry_db \<Rightarrow> bool" where
  "registry_ok db \<longleftrightarrow> distinct (map fst (rg_applications db)) \<and> distinct (map (ap_package_name \<circ> snd) (rg_applications db))
     \<and> list_all (application_ok (rg_categories db) \<circ> snd) (rg_applications db)
     \<and> distinct (map fst (rg_categories db)) \<and> distinct (map (ca_code \<circ> snd) (rg_categories db))"

lemma registry_okD:
  assumes "registry_ok db"
  shows "distinct (map fst (rg_applications db))" and "distinct (map (ap_package_name \<circ> snd) (rg_applications db))"
    and "(i, a) \<in> set (rg_applications db) \<Longrightarrow> application_ok (rg_categories db) a"
    and "distinct (map fst (rg_categories db))" and "distinct (map (ca_code \<circ> snd) (rg_categories db))"
  using assms by (auto simp: registry_ok_def list_all_iff)

section \<open>Categories\<close>

lemma resolve_categories_Inr:
  assumes "resolve_categories codes db = Inr cats"
  shows "cats = get_categories_by_codes codes db" and "set codes = (ca_code \<circ> snd) ` set cats" and "set cats \<subseteq> set (rg_categories db)"
proof -
  show c: "cats = get_categories_by_codes codes db" using assms by (auto simp: resolve_categories_def Let_def split: if_splits)
  show "set cats \<subseteq> set (rg_categories db)" by (auto simp: c get_categories_by_codes_def)
  have "filter (\<lambda>code. code \<notin> (ca_code \<circ> snd) ` set cats) codes = []"
    using assms unfolding c by (auto simp: resolve_categories_def Let_def split: if_splits)
      (metis (no_types, lifting) filter_empty_conv length_0_conv length_sort list.set(1) remdups_eq_nil_iff)
  then have "set codes \<subseteq> (ca_code \<circ> snd) ` set cats" by (auto simp: filter_empty_conv)
  moreover have "(ca_code \<circ> snd) ` set cats \<subseteq> set codes" by (auto simp: c get_categories_by_codes_def)
  ultimately show "set codes = (ca_code \<circ> snd) ` set cats" by blast
qed

lemma one_primary:
  assumes "distinct (map (ca_code \<circ> snd) cats)" and "p \<in> (ca_code \<circ> snd) ` set cats"
  shows "length (filter ac_is_primary (category_assignments now cats p)) = 1"
proof -
  let ?s = "sort_key (\<lambda>(i, c). ca_code c) cats"
  have m: "mset ?s = mset cats" by simp
  have "length (filter (\<lambda>x. ca_code (snd x) = p) l) = count (image_mset (ca_code \<circ> snd) (mset l)) p" for l :: "(nat \<times> category) list"
    by (induction l) auto
  then have "length (filter (\<lambda>x. ca_code (snd x) = p) ?s) = count (mset (map (ca_code \<circ> snd) cats)) p" using m by simp
  also have "\<dots> = 1" using assms by (simp add: distinct_count_atmost_1)
  finally show ?thesis by (simp add: category_assignments_def filter_map comp_def case_prod_unfold)
qed

lemma category_assignments_checks:
  assumes "registry_ok db" and "resolve_categories codes db = Inr cats" and "p \<in> set codes"
  shows "assignment_checks (rg_categories db) (category_assignments now cats p)"
    and "length (filter ac_is_primary (category_assignments now cats p)) = 1"
proof -
  note r = resolve_categories_Inr [OF assms(2)]
  have sub: "distinct (map f (get_categories_by_codes codes db))" if "distinct (map f (rg_categories db))" for f :: "nat \<times> category \<Rightarrow> 'b"
    using that by (simp add: get_categories_by_codes_def distinct_map inj_on_def)
  show one: "length (filter ac_is_primary (category_assignments now cats p)) = 1"
    using one_primary [of cats p now] sub [OF registry_okD(5) [OF assms(1)]] assms(3) r(1,2) by simp
  have "map ac_category_id (category_assignments now cats p) = map fst (sort_key (\<lambda>(i, c). ca_code c) cats)"
    by (simp add: category_assignments_def case_prod_unfold)
  moreover have "distinct (map fst cats)" using sub [OF registry_okD(4) [OF assms(1)]] r(1) by simp
  ultimately have "distinct (map ac_category_id (category_assignments now cats p))" by (simp add: distinct_map)
  moreover have "map_of (rg_categories db) (ac_category_id ac) \<noteq> None" if "ac \<in> set (category_assignments now cats p)" for ac
    using that r(3) by (auto simp: category_assignments_def map_of_eq_None_iff) force
  ultimately show "assignment_checks (rg_categories db) (category_assignments now cats p)"
    using one by (simp add: assignment_checks_def list_all_iff)
qed

section \<open>The operations\<close>

lemma flush_checks_Inr:
  assumes "flush_checks i a db = Inr u"
  shows "application_checks a" and "(j, b) \<in> set (rg_applications db) \<Longrightarrow> j \<noteq> i \<Longrightarrow> ap_package_name b \<noteq> ap_package_name a"
    and "assignment_checks (rg_categories db) (ap_category_assignments a)"
  using assms by (auto simp: flush_checks_def list_ex_iff split: if_splits)

lemma insert_application_ok:
  assumes "insert_application i a db = Inr db'" and "registry_ok db" and "application_ok (rg_categories db) a"
  shows "registry_ok db'" and "rg_applications db' = rg_applications db @ [(i, a)]" and "map_of (rg_applications db) i = None"
proof -
  have c: "flush_checks i a db = Inr ()" and new: "map_of (rg_applications db) i = None"
    and db': "db' = db\<lparr>rg_applications := rg_applications db @ [(i, a)]\<rparr>"
    using assms(1) by (auto simp: insert_application_def split: sum.splits if_splits)
  show "rg_applications db' = rg_applications db @ [(i, a)]" "map_of (rg_applications db) i = None" using db' new by simp_all
  have "i \<notin> fst ` set (rg_applications db)" using new by (simp add: map_of_eq_None_iff)
  moreover have "ap_package_name a \<notin> (ap_package_name \<circ> snd) ` set (rg_applications db)"
    using flush_checks_Inr(2) [OF c] calculation by force
  ultimately show "registry_ok db'" using assms(2,3) by (simp add: registry_ok_def db')
qed

lemma flush_application_ok:
  assumes "flush_application i a db = Inr db'" and "registry_ok db" and "application_ok (rg_categories db) a"
  shows "registry_ok db'" and "rg_categories db' = rg_categories db"
    and "rg_applications db' = map (\<lambda>(j, b). (j, if j = i then a else b)) (rg_applications db)"
proof -
  let ?f = "\<lambda>(j, b). (j, if j = i then a else b)"
  have c: "flush_checks i a db = Inr ()" and db': "db' = db\<lparr>rg_applications := map ?f (rg_applications db)\<rparr>"
    using assms(1) by (auto simp: flush_application_def split: sum.splits)
  show "rg_categories db' = rg_categories db" "rg_applications db' = map ?f (rg_applications db)" using db' by simp_all
  have "distinct (map (ap_package_name \<circ> snd) (map ?f l))"
    if "distinct (map fst l)" "distinct (map (ap_package_name \<circ> snd) l)" "set l \<subseteq> set (rg_applications db)" for l
    using that
  proof (induction l)
    case (Cons x l)
    obtain j b where x: "x = (j, b)" by fastforce
    have "ap_package_name (snd (?f x)) \<noteq> ap_package_name (snd (?f y))" if "y \<in> set l" for y
    proof -
      obtain k c where y: "y = (k, c)" by fastforce
      have "(j, b) \<in> set (rg_applications db)" "(k, c) \<in> set (rg_applications db)" using Cons.prems(3) that by (auto simp: x y)
      moreover have "j \<noteq> k" "ap_package_name b \<noteq> ap_package_name c" using Cons.prems(1,2) that by (force simp: x y)+
      ultimately show ?thesis using flush_checks_Inr(2) [OF c] by (auto simp: x y) metis+
    qed
    then show ?case using Cons by force
  qed simp
  then have "distinct (map (ap_package_name \<circ> snd) (rg_applications db'))" using registry_okD(1,2) [OF assms(2)] by (simp add: db')
  moreover have "distinct (map fst (rg_applications db'))"
    using registry_okD(1) [OF assms(2)] by (simp add: db' comp_def case_prod_unfold)
  moreover have "list_all (application_ok (rg_categories db) \<circ> snd) (rg_applications db')"
    using registry_okD(3) [OF assms(2)] assms(3) by (auto simp: db' list_all_iff)
  ultimately show "registry_ok db'" using assms(2) unfolding registry_ok_def by (simp add: db')
qed

lemma translate_conflict_Inr [simp]: "translate_conflict p r = Inr x \<longleftrightarrow> r = Inr x"
  by (auto simp: translate_conflict_def split: sum.splits)

lemma map_sum_Inr: "map_sum id f r = Inr y \<longleftrightarrow> (\<exists>x. r = Inr x \<and> y = f x)"
  by (cases r) auto

lemma create_application_ok:
  assumes "create_application i now d db = Inr (a, db')" and "registry_ok db" and "valid_application_create d"
  shows "registry_ok db'" and "rg_applications db' = rg_applications db @ [(i, a)]" and "map_of (rg_applications db) i = None"
    and "ap_package_name a = cr_package_name d"
proof -
  obtain cats where cats: "resolve_categories (cr_category_codes d) db = Inr cats"
    and a: "a = new_application now d (category_assignments now cats (cr_primary_category_code d))"
    and ins: "insert_application i a db = Inr db'"
    using assms(1) by (auto simp: create_application_def Let_def map_sum_Inr split: sum.splits)
  have "cr_primary_category_code d \<in> set (cr_category_codes d)" using assms(3) by (simp add: valid_application_create_def valid_assignment_def)
  note k = category_assignments_checks [OF assms(2) cats this, of now]
  have ok: "application_ok (rg_categories db) a"
    using k assms(3) by (simp add: a application_ok_def new_application_def valid_application_create_def application_checks_def)
  show "registry_ok db'" "rg_applications db' = rg_applications db @ [(i, a)]" "map_of (rg_applications db) i = None"
    using insert_application_ok [OF ins assms(2) ok] by simp_all
  show "ap_package_name a = cr_package_name d" by (simp add: a new_application_def)
qed

lemma changed_fields_ok:
  assumes "changed_fields d a = Inr a1" and "application_ok categories a" and "valid_application_update d"
  shows "application_ok categories a1" and "ap_category_assignments a1 = ap_category_assignments a" and "ap_created_at a1 = ap_created_at a"
    and "ap_is_active a1 = ap_is_active a" and "ap_deactivated_at a1 = ap_deactivated_at a"
proof -
  let ?n = "field_value (up_name d)" and ?p = "field_value (up_package_name d)"
    and ?l = "field_value (up_language_code d)" and ?c = "field_value (up_country_code d)"
  have fs: "ap_name a1 = (case ?n of None \<Rightarrow> ap_name a | Some n \<Rightarrow> n)"
    "ap_package_name a1 = (case ?p of None \<Rightarrow> ap_package_name a | Some p \<Rightarrow> p)"
    "ap_language_code a1 = (if up_language_code d = None then ap_language_code a else ?l)"
    "ap_country_code a1 = (if up_language_code d = None then ap_country_code a else ?c)"
    "ap_category_assignments a1 = ap_category_assignments a" "ap_created_at a1 = ap_created_at a"
    "ap_is_active a1 = ap_is_active a" "ap_deactivated_at a1 = ap_deactivated_at a"
    using assms(1) by (auto simp: changed_fields_def Let_def split: if_splits option.splits)
  have v: "opt_holds stripped ?n" "opt_holds stripped ?p" "opt_holds valid_language_code ?l" "opt_holds valid_country_code ?c"
    "up_language_code d \<noteq> None \<Longrightarrow> ?l = None \<longleftrightarrow> ?c = None"
    using assms(3) by (simp_all add: valid_application_update_def)
  have "stripped (ap_name a1)" "stripped (ap_package_name a1)"
    using v(1,2) assms(2) by (cases ?n; cases ?p; simp add: fs application_ok_def opt_holds_def)+
  moreover have "opt_holds valid_language_code (ap_language_code a1)" "opt_holds valid_country_code (ap_country_code a1)"
    using v(3,4) assms(2) unfolding fs(3,4) application_ok_def by (simp_all only: if_split) blast+
  moreover have "ap_language_code a1 = None \<longleftrightarrow> ap_country_code a1 = None"
    using v(5) assms(2) unfolding fs(3,4) application_ok_def application_checks_def
    by (cases "up_language_code d = None") (simp_all only: if_True if_False simp_thms)
  ultimately show "application_ok categories a1"
    using assms(2) unfolding application_ok_def application_checks_def fs(5-8) by blast
  show "ap_category_assignments a1 = ap_category_assignments a" "ap_created_at a1 = ap_created_at a"
    "ap_is_active a1 = ap_is_active a" "ap_deactivated_at a1 = ap_deactivated_at a" by (rule fs)+
qed

lemma map_entry_again: "map (\<lambda>(j, b). (j, if j = i then c else b)) (map (\<lambda>(j, b). (j, if j = i then a else b)) l)
    = map (\<lambda>(j, b). (j, if j = i then c else b)) l"
  by (simp add: case_prod_unfold)

lemma changed_categories_ok:
  assumes "changed_categories i now d a db = Inr (a', db')" and "registry_ok db" and "application_ok (rg_categories db) a"
  shows "registry_ok db'" and "rg_categories db' = rg_categories db" and "application_ok (rg_categories db) a'"
    and "\<exists>c. rg_applications db' = map (\<lambda>(j, b). (j, if j = i then c else b)) (rg_applications db) \<or> db' = db \<and> a' = a"
    and "ap_created_at a' = ap_created_at a \<and> ap_is_active a' = ap_is_active a \<and> ap_deactivated_at a' = ap_deactivated_at a"
proof -
  have "registry_ok db' \<and> rg_categories db' = rg_categories db \<and> application_ok (rg_categories db) a'
    \<and> (\<exists>c. rg_applications db' = map (\<lambda>(j, b). (j, if j = i then c else b)) (rg_applications db) \<or> db' = db \<and> a' = a)
    \<and> ap_created_at a' = ap_created_at a \<and> ap_is_active a' = ap_is_active a \<and> ap_deactivated_at a' = ap_deactivated_at a"
  proof (cases "up_category_codes d = None")
    case False
    obtain codes p cats where v: "validate_category_assignment codes p = Inr ()" and f: "flush_application i a db = Inr db'"
      and r: "resolve_categories codes db' = Inr cats" and a': "a' = a\<lparr>ap_category_assignments := category_assignments now cats p\<rparr>"
      using assms(1) False by (auto simp: changed_categories_def split: option.splits sum.splits)
    note ok = flush_application_ok [OF f assms(2,3)]
    have "p \<in> set codes" using v by (auto simp: validate_category_assignment_def split: if_splits)
    note k = category_assignments_checks [OF ok(1) r this, of now]
    have "application_ok (rg_categories db) a'"
      using assms(3) k ok(2) by (simp add: a' application_ok_def application_checks_def)
    then show ?thesis using ok a' by auto
  qed (use assms in \<open>auto simp: changed_categories_def\<close>)
  then show "registry_ok db'" "rg_categories db' = rg_categories db" "application_ok (rg_categories db) a'"
    "\<exists>c. rg_applications db' = map (\<lambda>(j, b). (j, if j = i then c else b)) (rg_applications db) \<or> db' = db \<and> a' = a"
    "ap_created_at a' = ap_created_at a \<and> ap_is_active a' = ap_is_active a \<and> ap_deactivated_at a' = ap_deactivated_at a" by blast+
qed

lemma get_application_in: "get_application i db = Inr a \<Longrightarrow> map_of (rg_applications db) i = Some a \<and> (i, a) \<in> set (rg_applications db)"
  by (auto simp: get_application_def map_of_SomeD split: option.splits)

lemma map_entry_same: "distinct (map fst l) \<Longrightarrow> map_of l i = Some a \<Longrightarrow> map (\<lambda>(j, b). (j, if j = i then a else b)) l = l"
  by (induction l) (auto simp: map_of_eq_None_iff image_iff intro!: map_idI split: if_splits)

text \<open>What an accepted change of one application keeps.\<close>

definition keeps_history :: "application \<Rightarrow> application \<Rightarrow> bool" where
  "keeps_history a b \<longleftrightarrow> ap_created_at b = ap_created_at a
     \<and> (\<not> ap_is_active a \<longrightarrow> \<not> ap_is_active b \<and> ap_deactivated_at b = ap_deactivated_at a)"

lemma update_application_ok:
  assumes "update_application i now d db = Inr (a', db')" and "registry_ok db" and "valid_application_update d"
  shows "registry_ok db' \<and> (\<exists>a. map_of (rg_applications db) i = Some a \<and> keeps_history a a'
    \<and> rg_applications db' = map (\<lambda>(j, b). (j, if j = i then a' else b)) (rg_applications db))"
proof -
  obtain a a1 a2 db1 where g: "get_application i db = Inr a" and c1: "changed_fields d a = Inr a1"
    and c2: "changed_categories i now d a1 db = Inr (a2, db1)"
    and fin: "if \<not> has_changes d then a' = a2 \<and> db' = db1 else a' = a2\<lparr>ap_updated_at := now\<rparr> \<and> flush_application i a' db1 = Inr db'"
    using assms(1) by (auto simp: update_application_def Let_def map_sum_Inr split: sum.splits if_splits)
  note a = get_application_in [OF g]
  have ok: "application_ok (rg_categories db) a" using registry_okD(3) [OF assms(2)] a by blast
  note f1 = changed_fields_ok [OF c1 ok assms(3)]
  note f2 = changed_categories_ok [OF c2 assms(2) f1(1)]
  have kept: "keeps_history a a2" using f1 f2(5) by (auto simp: keeps_history_def)
  show ?thesis
  proof (cases "has_changes d")
    case True
    then have a': "a' = a2\<lparr>ap_updated_at := now\<rparr>" and fl: "flush_application i a' db1 = Inr db'" using fin by auto
    have "application_ok (rg_categories db1) a'" using f2(2,3) by (simp add: a' application_ok_def application_checks_def)
    note l = flush_application_ok [OF fl f2(1) this]
    have "rg_applications db' = map (\<lambda>(j, b). (j, if j = i then a' else b)) (rg_applications db)"
      using f2(4) unfolding l(3) by (elim exE disjE conjE) (simp_all only: map_entry_again)
    moreover have "keeps_history a a'" using kept by (simp add: a' keeps_history_def)
    ultimately show ?thesis using l(1) a by blast
  next
    case False
    then have "changed_fields d a = Inr a" "up_category_codes d = None" "a' = a2" "db' = db1"
      using c1 fin by (auto simp: has_changes_def changed_fields_def field_value_def Let_def)
    then have "a' = a" "db' = db" using c1 c2 by (auto simp: changed_categories_def)
    then show ?thesis using assms(2) a map_entry_same [OF registry_okD(1) [OF assms(2)]] by (auto simp: keeps_history_def)
  qed
qed

lemma deactivate_application_ok:
  assumes "deactivate_application i now db = Inr (u, db')" and "registry_ok db"
  shows "registry_ok db' \<and> (\<exists>a a'. map_of (rg_applications db) i = Some a \<and> keeps_history a a' \<and> \<not> ap_is_active a'
    \<and> ap_package_name a' = ap_package_name a \<and> rg_applications db' = map (\<lambda>(j, b). (j, if j = i then a' else b)) (rg_applications db))"
proof -
  obtain a where g: "get_application i db = Inr a" using assms(1) by (auto simp: deactivate_application_def split: sum.splits)
  note a = get_application_in [OF g]
  have ok: "application_ok (rg_categories db) a" using registry_okD(3) [OF assms(2)] a by blast
  show ?thesis
  proof (cases "ap_is_active a")
    case True
    let ?a = "a\<lparr>ap_is_active := False, ap_deactivated_at := Some now, ap_updated_at := now\<rparr>"
    have fl: "flush_application i ?a db = Inr db'" using assms(1) g True by (auto simp: deactivate_application_def map_sum_Inr)
    have "application_ok (rg_categories db) ?a" using ok by (simp add: application_ok_def application_checks_def)
    note l = flush_application_ok [OF fl assms(2) this]
    have "keeps_history a ?a" using True by (simp add: keeps_history_def)
    moreover have "\<not> ap_is_active ?a" "ap_package_name ?a = ap_package_name a" by simp_all
    ultimately show ?thesis using l(1,3) a by blast
  next
    case False
    then have "db' = db" using assms(1) g by (simp add: deactivate_application_def)
    then show ?thesis
      using assms(2) a False map_entry_same [OF registry_okD(1) [OF assms(2)]] by (auto simp: keeps_history_def)
  qed
qed

section \<open>Histories\<close>

inductive registry_reaches :: "registry_db \<Rightarrow> registry_db \<Rightarrow> bool" where
  unchanged: "registry_reaches db db"
| created: "registry_reaches db0 db \<Longrightarrow> valid_application_create d \<Longrightarrow> create_application i now d db = Inr (a, db') \<Longrightarrow> registry_reaches db0 db'"
| updated: "registry_reaches db0 db \<Longrightarrow> valid_application_update u \<Longrightarrow> update_application i now u db = Inr (a, db') \<Longrightarrow> registry_reaches db0 db'"
| deactivated: "registry_reaches db0 db \<Longrightarrow> deactivate_application i now db = Inr (v, db') \<Longrightarrow> registry_reaches db0 db'"

lemma keeps_history_refl [simp]: "keeps_history a a"
  by (simp add: keeps_history_def)

lemma keeps_history_trans: "keeps_history a b \<Longrightarrow> keeps_history b c \<Longrightarrow> keeps_history a c"
  by (auto simp: keeps_history_def)

definition registry_grows :: "registry_db \<Rightarrow> registry_db \<Rightarrow> bool" where
  "registry_grows db db' \<longleftrightarrow> (\<forall>i a. map_of (rg_applications db) i = Some a \<longrightarrow> (\<exists>b. map_of (rg_applications db') i = Some b \<and> keeps_history a b))"

lemma map_of_entry: "map_of (map (\<lambda>(j, b). (j, if j = i then c else b)) l) k = (if k = i \<and> map_of l i \<noteq> None then Some c else map_of l k)"
  by (induction l) auto

lemma grows_change:
  assumes "map_of (rg_applications db) i = Some a" and "keeps_history a a'"
    and "rg_applications db' = map (\<lambda>(j, b). (j, if j = i then a' else b)) (rg_applications db)"
  shows "registry_grows db db'"
  using assms by (auto simp: registry_grows_def map_of_entry)

lemma registry_grows_trans: "registry_grows db0 db \<Longrightarrow> registry_grows db db' \<Longrightarrow> registry_grows db0 db'"
  unfolding registry_grows_def by (meson keeps_history_trans)

lemma registry_reaches_ok: "registry_reaches db0 db \<Longrightarrow> registry_ok db0 \<Longrightarrow> registry_ok db \<and> registry_grows db0 db"
proof (induction rule: registry_reaches.induct)
  case (unchanged db)
  then show ?case by (simp add: registry_grows_def)
next
  case (created db0 db d i now a db')
  note ok = create_application_ok [OF created.hyps(3) _ created.hyps(2)]
  have "registry_grows db db'" using ok(2,3) created by (auto simp: registry_grows_def map_add_def split: option.splits)
  then show ?case using created ok(1) registry_grows_trans by blast
next
  case (updated db0 db u i now a db')
  then show ?case using update_application_ok [OF updated.hyps(3) _ updated.hyps(2)] grows_change registry_grows_trans by blast
next
  case (deactivated db0 db i now v db')
  then show ?case using deactivate_application_ok [OF deactivated.hyps(2)] grows_change registry_grows_trans by blast
qed

text \<open>
  C10: over every history of registry requests, starting from consistent tables, package names stay
  unique, every application keeps at least one category with exactly one primary one, is active
  exactly when it has no time of deactivation and has a language exactly when it has a country; no
  application is lost, its time of creation never changes, and a deactivated application stays
  deactivated at the time it was.
\<close>

theorem registry_stays_consistent:
  assumes "registry_reaches db0 db" and "registry_ok db0"
  shows "registry_ok db \<and> (\<forall>i a. map_of (rg_applications db0) i = Some a \<longrightarrow>
    (\<exists>b. map_of (rg_applications db) i = Some b \<and> ap_created_at b = ap_created_at a
      \<and> (\<not> ap_is_active a \<longrightarrow> \<not> ap_is_active b \<and> ap_deactivated_at b = ap_deactivated_at a)))"
  using registry_reaches_ok [OF assms] unfolding registry_grows_def keeps_history_def .

section \<open>The crawler reads the registry\<close>

definition ref_of :: "uuid \<times> application \<Rightarrow> application_ref" where
  "ref_of ia = (case ia of (i, a) \<Rightarrow> \<lparr>ar_application_id = i, ar_name = ap_name a, ar_package_name = ap_package_name a,
     ar_language_code = ap_language_code a, ar_country_code = ap_country_code a\<rparr>)"

lemma stripped_not_blank: "stripped s \<Longrightarrow> \<not> is_blank s"
  by (auto simp: stripped_def is_blank_def)

lemma letters_blank: "is_blank s \<Longrightarrow> list_all is_lower s \<Longrightarrow> s = []"
  by (cases s) (auto simp: is_blank_iff is_lower_def is_space_def)

lemma locale_not_blank:
  "opt_holds valid_language_code v \<Longrightarrow> \<not> (case v of Some l \<Rightarrow> is_blank l | None \<Rightarrow> False)"
  "opt_holds valid_country_code v \<Longrightarrow> \<not> (case v of Some l \<Rightarrow> is_blank l | None \<Rightarrow> False)"
  by (auto simp: opt_holds_def valid_language_code_def valid_country_code_def split: option.splits dest!: letters_blank)

lemma optional_text_opt: "optional_text ps (Some (json_opt JStr v)) = v"
  by (cases v) (simp_all add: optional_text_def json_opt_def json_text_def)

lemma read_application_ref:
  assumes "parse_uuid ps (nat_str i) = Some i" and "application_ok categories a"
  shows "application_ref_of ps (application_read print_time db (i, a)) = Inr (ref_of (i, a))"
proof -
  have "new_application_ref i (ap_name a) (ap_package_name a) (ap_language_code a) (ap_country_code a) = Inr (ref_of (i, a))"
    using assms(2) stripped_not_blank locale_not_blank
    by (simp add: new_application_ref_def application_ok_def application_checks_def ref_of_def)
  then show ?thesis
    using assms(1) optional_text_opt by (simp add: application_ref_of_def application_read_def json_text_def Let_def)
qed

lemma read_refs:
  "\<forall>(i, a) \<in> set l. parse_uuid ps (nat_str i) = Some i \<and> application_ok categories a \<Longrightarrow>
     refs_of_items ps (map (application_read print_time db) l) = Inr (map ref_of l)"
  by (induction l) (auto simp: read_application_ref)

lemma response_of_registry:
  assumes "registry_ok db" and "\<And>i. parse_uuid ps (nat_str i) = Some i"
  shows "applications_of_response ps \<lparr>hr_status_code = 200, hr_json = Inr (list_applications_body print_time active db)\<rparr>
     = Inr (map ref_of (list_applications active db))"
proof -
  have "\<forall>(i, a) \<in> set (list_applications active db). parse_uuid ps (nat_str i) = Some i \<and> application_ok (rg_categories db) a"
    using assms registry_okD(3) [OF assms(1)] by (auto simp: list_applications_def)
  from read_refs [OF this] show ?thesis by (simp add: applications_of_response_def list_applications_body_def)
qed

text \<open>A server described by its answers, and the pauses the client made.\<close>

definition scripted_get :: "((exn + http_response) list \<times> seconds list, http_response) act" where
  "scripted_get s = (case s of ([], ps) \<Rightarrow> (Inl (mk_exn ''ConnectError'' [] False), s) | (r # rs, ps) \<Rightarrow> (r, (rs, ps)))"

definition scripted_sleep :: "seconds \<Rightarrow> (exn + http_response) list \<times> seconds list \<Rightarrow> (exn + http_response) list \<times> seconds list" where
  "scripted_sleep t s = (fst s, snd s @ [t])"

definition answer_fails :: "ref_parsers \<Rightarrow> exn + http_response \<Rightarrow> bool" where
  "answer_fails ps r = (case r of Inl _ \<Rightarrow> True | Inr h \<Rightarrow> (case applications_of_response ps h of Inl _ \<Rightarrow> True | Inr _ \<Rightarrow> False))"

lemma failed_answer:
  assumes "answer_fails ps r"
  shows "list_active_loop scripted_get scripted_sleep ps (Suc left) (Suc k) (r # rs, pauses)
    = list_active_loop scripted_get scripted_sleep ps left (Suc (Suc k)) (rs, pauses @ (if left = 0 then [] else [min (2 ^ k) 4]))"
  using assms by (cases r) (auto simp: answer_fails_def scripted_get_def scripted_sleep_def split: sum.splits)

lemma failed_answers:
  "list_all (answer_fails ps) bad \<Longrightarrow>
     list_active_loop scripted_get scripted_sleep ps (length bad + left) (Suc k) (bad @ rs, pauses)
    = list_active_loop scripted_get scripted_sleep ps left (Suc (k + length bad))
        (rs, pauses @ map (\<lambda>j. min (2 ^ j) 4) [k ..< k + (if left = 0 then length bad - 1 else length bad)])"
proof (induction bad arbitrary: k pauses)
  case (Cons r bad)
  have "[k ..< k + Suc n] = k # [Suc k ..< Suc k + n]" for n by (simp add: upt_conv_Cons)
  then show ?case using Cons failed_answer [of ps r "length bad + left" k "bad @ rs" pauses] by (cases bad) (auto simp: upt_conv_Cons)
qed simp

lemma good_answer:
  assumes "applications_of_response ps h = Inr refs"
  shows "list_active_loop scripted_get scripted_sleep ps (Suc left) k (Inr h # rs, pauses) = (Inr refs, (rs, pauses))"
  using assms by (simp add: scripted_get_def)


text \<open>A registry with one application, for the witnesses.\<close>

definition shop_registry :: registry_db where
  "shop_registry = \<lparr>rg_categories = [(1, \<lparr>ca_code = ''shop'', ca_name = ''Shopping'', ca_created_at = 0\<rparr>)], rg_applications = []\<rparr>"

definition shop_request :: application_create where
  "shop_request = \<lparr>cr_name = ''Shop'', cr_package_name = ''org.shop'', cr_language_code = None, cr_country_code = None,
     cr_category_codes = [''shop''], cr_primary_category_code = ''shop''\<rparr>"

definition shop_application :: application where
  "shop_application = new_application 10 shop_request [\<lparr>ac_category_id = 1, ac_is_primary = True, ac_created_at = 10\<rparr>]"

lemma shop_registry_ok: "registry_ok shop_registry" and shop_request_valid: "valid_application_create shop_request"
  by code_simp+

lemma shop_created: "create_application 5 10 shop_request shop_registry = Inr (shop_application, shop_registry\<lparr>rg_applications := [(5, shop_application)]\<rparr>)"
  by code_simp

lemma shop_reached: "registry_reaches shop_registry (shop_registry\<lparr>rg_applications := [(5, shop_application)]\<rparr>)"
  by (rule registry_reaches.created [OF registry_reaches.unchanged shop_request_valid shop_created])

theorem registry_stays_consistent_witness: "registry_ok (shop_registry\<lparr>rg_applications := [(5, shop_application)]\<rparr>)"
  using registry_stays_consistent [OF shop_reached shop_registry_ok] by blast

definition shop_parsers :: ref_parsers where
  "shop_parsers = \<lparr>parse_uuid = (\<lambda>s. Some (str_nat s)), show_json = (\<lambda>_. [])\<rparr>"


end
