(* ===== verification/Sentiment_Inference.thy ===== *)
theory Sentiment_Inference
  imports Crawl_Policies
begin

text \<open>
  The inference of review sentiment: results (\<open>sentiment/contracts.py\<close>), language detection, and the batched
  analysis with VADER for English and a BERT model for Persian (\<open>sentiment/inference.py\<close>).

  The libraries are parameters: the detector, \<open>str.isalpha\<close> on a character, VADER's compound score, and the
  probabilities the pinned model gives for a list of texts. A call that may raise is a sum.
\<close>

section \<open>Results\<close>

record analysis_result =
  sr_language :: "string option"
  sr_label :: "string option"
  sr_status :: string

definition new_analysis_result :: "string option \<Rightarrow> string option \<Rightarrow> string \<Rightarrow> exn + analysis_result" where
  "new_analysis_result language label status =
     (if language \<notin> {None, Some ''fa'', Some ''en''} then Inl (value_error ''sentiment language must be fa, en, or null'')
      else if label \<notin> {None, Some ''positive'', Some ''neutral'', Some ''negative''} then Inl (value_error ''sentiment label is invalid'')
      else if status = ''done'' \<and> (language = None \<or> label = None)
        then Inl (value_error ''done sentiment results require a supported language and label'')
      else if status = ''skipped'' \<and> label \<noteq> None then Inl (value_error ''skipped sentiment results cannot have a label'')
      else Inr \<lparr>sr_language = language, sr_label = label, sr_status = status\<rparr>)"

section \<open>Language\<close>

record lang_candidate =
  lc_lang :: string
  lc_prob :: rat

text \<open>\<open>max(items, key=...)\<close>: the first of the largest.\<close>

fun max_by :: "('a \<Rightarrow> 'k :: linorder) \<Rightarrow> 'a \<Rightarrow> 'a list \<Rightarrow> 'a" where
  "max_by f best [] = best"
| "max_by f best (x # xs) = max_by f (if f best < f x then x else best) xs"

definition detect_supported_language ::
  "(char \<Rightarrow> bool) \<Rightarrow> (string \<Rightarrow> exn + lang_candidate list) \<Rightarrow> rat \<Rightarrow> string option \<Rightarrow> string option" where
  "detect_supported_language is_alpha detector minimum_confidence content = (case content of
     None \<Rightarrow> None
   | Some s \<Rightarrow>
       (let body = strip s in
        if length (filter is_alpha body) < 3 then None
        else case detector body of
          Inl _ \<Rightarrow> None
        | Inr [] \<Rightarrow> None
        | Inr (c # cs) \<Rightarrow>
            (let candidate = max_by lc_prob c cs
             in if lc_lang candidate \<notin> {''fa'', ''en''} \<or> lc_prob candidate < minimum_confidence then None else Some (lc_lang candidate))))"

section \<open>The Persian model\<close>

definition ModelUnavailableError :: "string \<Rightarrow> exn" where
  "ModelUnavailableError m = mk_exn ''ModelUnavailableError'' m False"

text \<open>The classes of the three labels, in the order of the dictionary.\<close>

record persian_model =
  pm_negative :: "nat list"
  pm_neutral :: "nat list"
  pm_positive :: "nat list"

definition new_persian_model :: "int \<Rightarrow> (nat \<times> string) list \<Rightarrow> exn + persian_model" where
  "new_persian_model num_labels id2label =
     (let id_to_label = map (\<lambda>(i, l). (i, lower (strip l))) id2label;
          ids = (\<lambda>labels. map fst (filter (\<lambda>(i, l). l \<in> labels) id_to_label))
      in if num_labels \<noteq> 5 then Inl (ModelUnavailableError ''pinned Persian model does not expose five sentiment labels'')
         else if set (map snd id_to_label) \<noteq> {''furious'', ''angry'', ''neutral'', ''happy'', ''delighted''}
           then Inl (ModelUnavailableError ''pinned Persian model sentiment label mapping is unexpected'')
         else Inr \<lparr>pm_negative = ids {''furious'', ''angry''}, pm_neutral = ids {''neutral''}, pm_positive = ids {''happy'', ''delighted''}\<rparr>)"

definition class_score :: "rat list \<Rightarrow> nat list \<Rightarrow> exn + rat" where
  "class_score scores ids = (if list_all (\<lambda>i. i < length scores) ids then Inr (sum_list (map (\<lambda>i. scores ! i) ids))
     else Inl (mk_exn ''IndexError'' ''list index out of range'' False))"

definition label_of_scores :: "persian_model \<Rightarrow> rat list \<Rightarrow> exn + string" where
  "label_of_scores m scores = (case class_score scores (pm_negative m) of
     Inl e \<Rightarrow> Inl e
   | Inr n \<Rightarrow> (case class_score scores (pm_neutral m) of
       Inl e \<Rightarrow> Inl e
     | Inr u \<Rightarrow> (case class_score scores (pm_positive m) of
         Inl e \<Rightarrow> Inl e
       | Inr p \<Rightarrow> Inr (fst (max_by snd (''negative'', n) [(''neutral'', u), (''positive'', p)])))))"

definition predict_batch :: "(string list \<Rightarrow> exn + rat list list) \<Rightarrow> persian_model \<Rightarrow> string list \<Rightarrow> exn + string list" where
  "predict_batch probabilities m texts = (if texts = [] then Inr []
     else case probabilities texts of Inl e \<Rightarrow> Inl e | Inr rows \<Rightarrow> sum_map (label_of_scores m) rows)"

section \<open>The batch\<close>

type_synonym inference_outcome = "exn + analysis_result"

record sentiment_inference =
  si_model_batch_size :: nat
  si_minimum_confidence :: rat

record inference_ports =
  ip_is_alpha :: "char \<Rightarrow> bool"
  ip_detector :: "string \<Rightarrow> exn + lang_candidate list"
  ip_compound :: "string \<Rightarrow> exn + rat"
  ip_predict :: "string list \<Rightarrow> exn + string list"

definition new_sentiment_inference :: "int \<Rightarrow> rat \<Rightarrow> exn + sentiment_inference" where
  "new_sentiment_inference model_batch_size minimum_language_confidence =
     (if model_batch_size < 1 then Inl (value_error ''model_batch_size must be positive'')
      else if \<not> (0 \<le> minimum_language_confidence \<and> minimum_language_confidence \<le> 1)
        then Inl (value_error ''minimum_language_confidence must be between zero and one'')
      else Inr \<lparr>si_model_batch_size = nat model_batch_size, si_minimum_confidence = minimum_language_confidence\<rparr>)"

definition english_outcome :: "inference_ports \<Rightarrow> string \<Rightarrow> inference_outcome" where
  "english_outcome ip content = (case ip_compound ip content of
     Inl e \<Rightarrow> Inl e
   | Inr compound \<Rightarrow> new_analysis_result (Some ''en'')
       (Some (if 1 / 20 \<le> compound then ''positive'' else if compound \<le> - 1 / 20 then ''negative'' else ''neutral'')) ''done'')"

definition skipped_outcome :: inference_outcome where
  "skipped_outcome = new_analysis_result None None ''skipped''"

text \<open>The first loop: the outcomes of the other contents, and the Persian contents with their index.\<close>

fun first_pass ::
  "inference_ports \<Rightarrow> rat \<Rightarrow> nat \<Rightarrow> string option list \<Rightarrow> inference_outcome option list \<times> (nat \<times> string) list" where
  "first_pass ip conf i [] = ([], [])"
| "first_pass ip conf i (content # contents) =
     (case first_pass ip conf (Suc i) contents of (outcomes, persian_items) \<Rightarrow>
        (case (detect_supported_language (ip_is_alpha ip) (ip_detector ip) conf content, content) of
           (Some language, Some s) \<Rightarrow>
             if language = ''en'' then (Some (english_outcome ip s) # outcomes, persian_items)
             else (None # outcomes, (i, s) # persian_items)
         | _ \<Rightarrow> (Some skipped_outcome # outcomes, persian_items)))"

definition persian_result :: "string \<Rightarrow> inference_outcome" where
  "persian_result raw_label = new_analysis_result (Some ''fa'') (Some raw_label) ''done''"

definition size_error :: exn where
  "size_error = mk_exn ''RuntimeError'' ''Persian model returned an unexpected batch size'' False"

definition persian_alone :: "inference_ports \<Rightarrow> string \<Rightarrow> inference_outcome" where
  "persian_alone ip content = (case ip_predict ip [content] of
     Inl e \<Rightarrow> Inl e
   | Inr labels \<Rightarrow> if length labels \<noteq> 1 then Inl size_error else persian_result (labels ! 0))"

definition store_outcomes :: "(nat \<times> inference_outcome) list \<Rightarrow> inference_outcome option list \<Rightarrow> inference_outcome option list" where
  "store_outcomes rs outcomes = fold (\<lambda>(i, r) os. os[i := Some r]) rs outcomes"

text \<open>
  One chunk: all at once, and when anything raises, one by one; results stored before the exception
  are overwritten.
\<close>

definition persian_chunk :: "inference_ports \<Rightarrow> (nat \<times> string) list \<Rightarrow> (nat \<times> inference_outcome) list" where
  "persian_chunk ip chunk =
     (case (case ip_predict ip (map snd chunk) of
              Inl e \<Rightarrow> Inl e
            | Inr labels \<Rightarrow> if length labels \<noteq> length chunk then Inl size_error else sum_map persian_result labels) of
        Inr results \<Rightarrow> zip (map fst chunk) (map Inr results)
      | Inl _ \<Rightarrow> map (\<lambda>(i, content). (i, persian_alone ip content)) chunk)"

function chunks_of :: "nat \<Rightarrow> 'a list \<Rightarrow> 'a list list" where
  "chunks_of n xs = (if n = 0 \<or> xs = [] then [] else take n xs # chunks_of n (drop n xs))"
  by pat_completeness auto
termination by (relation "measure (\<lambda>(n, xs). length xs)") auto

declare chunks_of.simps [simp del]

definition analyze_batch :: "inference_ports \<Rightarrow> sentiment_inference \<Rightarrow> string option list \<Rightarrow> inference_outcome list" where
  "analyze_batch ip si contents =
     (case first_pass ip (si_minimum_confidence si) 0 contents of (outcomes, persian_items) \<Rightarrow>
        map (\<lambda>outcome. case outcome of Some r \<Rightarrow> r | None \<Rightarrow> Inl (mk_exn ''RuntimeError'' ''missing inference outcome'' False))
          (fold (\<lambda>chunk. store_outcomes (persian_chunk ip chunk)) (chunks_of (si_model_batch_size si) persian_items) outcomes))"

section \<open>The batch is the contents one by one\<close>

text \<open>The reference: one content on its own.\<close>

definition analyze_one :: "inference_ports \<Rightarrow> rat \<Rightarrow> string option \<Rightarrow> inference_outcome" where
  "analyze_one ip conf content =
     (case (detect_supported_language (ip_is_alpha ip) (ip_detector ip) conf content, content) of
        (Some language, Some s) \<Rightarrow> if language = ''en'' then english_outcome ip s else persian_alone ip s
      | _ \<Rightarrow> skipped_outcome)"

text \<open>What is assumed of the model: a batch it accepts gives each text the label the text gets alone.\<close>

definition predicts_pointwise :: "(string list \<Rightarrow> exn + string list) \<Rightarrow> bool" where
  "predicts_pointwise predict \<longleftrightarrow> (\<forall>texts labels. predict texts = Inr labels \<and> length labels = length texts \<longrightarrow>
     (\<forall>k < length texts. predict [texts ! k] = Inr [labels ! k]))"

lemma persian_chunk_alone:
  assumes "predicts_pointwise (ip_predict ip)"
  shows "persian_chunk ip chunk = map (\<lambda>(i, content). (i, persian_alone ip content)) chunk"
proof (cases "ip_predict ip (map snd chunk)")
  case (Inr labels)
  show ?thesis
  proof (cases "length labels = length chunk")
    case len: True
    show ?thesis
    proof (cases "sum_map persian_result labels")
      case r: (Inr results)
      note s = sum_map_Inr [OF r]
      have "persian_alone ip (map snd chunk ! k) = Inr (results ! k)" if "k < length chunk" for k
      proof -
        have "ip_predict ip [map snd chunk ! k] = Inr [labels ! k]"
          using assms Inr len that unfolding predicts_pointwise_def by (metis length_map)
        then show ?thesis using s len that by (simp add: persian_alone_def)
      qed
      then show ?thesis
        using Inr len r s by (intro nth_equalityI) (auto simp: persian_chunk_def case_prod_unfold)
    qed (simp add: persian_chunk_def Inr len)
  qed (simp add: persian_chunk_def Inr)
qed (simp add: persian_chunk_def)

lemma concat_chunks: "0 < n \<Longrightarrow> concat (chunks_of n xs) = xs"
proof (induction n xs rule: chunks_of.induct)
  case (1 n xs)
  show ?case
  proof (cases "xs = []")
    case True
    then show ?thesis by (subst chunks_of.simps) simp
  next
    case False
    then show ?thesis using 1 by (subst chunks_of.simps) simp
  qed
qed

lemma fold_store: "fold (\<lambda>chunk. store_outcomes (f chunk)) cs os = store_outcomes (concat (map f cs)) os"
  by (induction cs arbitrary: os) (auto simp: store_outcomes_def)

lemma first_pass_stored:
  "first_pass ip conf (length pre) contents = (os, items) \<Longrightarrow>
     store_outcomes (map (\<lambda>(i, content). (i, persian_alone ip content)) items) (pre @ os) = pre @ map (Some \<circ> analyze_one ip conf) contents"
proof (induction contents arbitrary: pre os items)
  case Nil
  then show ?case by (simp add: store_outcomes_def)
next
  case (Cons content contents)
  let ?lang = "detect_supported_language (ip_is_alpha ip) (ip_detector ip) conf content"
  obtain os1 items1 where rest: "first_pass ip conf (length (pre @ [x])) contents = (os1, items1)" for x :: "inference_outcome option"
    by (cases "first_pass ip conf (Suc (length pre)) contents") auto
  note IH = Cons.IH [OF rest]
  consider s where "content = Some s" "?lang \<noteq> None" "?lang \<noteq> Some ''en''" | s where "content = Some s" "?lang = Some ''en''"
    | "content = None \<or> ?lang = None" by (cases content) blast+
  then show ?case
  proof cases
    case 1
    then have "os = None # os1" "items = (length pre, s) # items1" "analyze_one ip conf content = persian_alone ip s"
      using Cons.prems rest by (auto simp: analyze_one_def)
    then show ?thesis using IH [of "Some (persian_alone ip s)"] by (simp add: store_outcomes_def)
  next
    case 2
    then have "os = Some (english_outcome ip s) # os1" "items = items1" "analyze_one ip conf content = english_outcome ip s"
      using Cons.prems rest by (auto simp: analyze_one_def)
    then show ?thesis using IH [of "Some (english_outcome ip s)"] by simp
  next
    case 3
    then have "os = Some skipped_outcome # os1" "items = items1" "analyze_one ip conf content = skipped_outcome"
      using Cons.prems rest by (auto simp: analyze_one_def split: option.splits)
    then show ?thesis using IH [of "Some skipped_outcome"] by simp
  qed
qed

lemma batch_pointwise:
  assumes "predicts_pointwise (ip_predict ip)" and "0 < si_model_batch_size si"
  shows "analyze_batch ip si contents = map (analyze_one ip (si_minimum_confidence si)) contents"
proof -
  obtain os items where f: "first_pass ip (si_minimum_confidence si) 0 contents = (os, items)" by fastforce
  have "fold (\<lambda>chunk. store_outcomes (persian_chunk ip chunk)) (chunks_of (si_model_batch_size si) items) os
    = store_outcomes (map (\<lambda>(i, content). (i, persian_alone ip content)) (concat (chunks_of (si_model_batch_size si) items))) os"
    by (simp add: fold_store persian_chunk_alone [OF assms(1)] map_concat comp_def)
  also have "\<dots> = map (Some \<circ> analyze_one ip (si_minimum_confidence si)) contents"
    using first_pass_stored [of ip "si_minimum_confidence si" "[]" contents os items] f by (simp add: concat_chunks [OF assms(2)])
  finally show ?thesis by (simp add: analyze_batch_def f)
qed

text \<open>The pinned model: what it is assumed to give is a row of probabilities for each text that does not depend on the batch.\<close>

definition scores_pointwise :: "(string list \<Rightarrow> exn + rat list list) \<Rightarrow> bool" where
  "scores_pointwise probabilities \<longleftrightarrow> (\<forall>texts rows. texts \<noteq> [] \<and> probabilities texts = Inr rows \<longrightarrow>
     length rows = length texts \<and> (\<forall>k < length texts. probabilities [texts ! k] = Inr [rows ! k]))"

lemma predict_batch_pointwise:
  assumes "scores_pointwise probabilities"
  shows "predicts_pointwise (predict_batch probabilities m)"
  unfolding predicts_pointwise_def
proof (intro allI impI, elim conjE)
  fix texts labels k
  assume p: "predict_batch probabilities m texts = Inr labels" and k: "k < length texts"
  then obtain rows where rows: "probabilities texts = Inr rows" "sum_map (label_of_scores m) rows = Inr labels"
    by (auto simp: predict_batch_def split: sum.splits if_splits)
  have "length rows = length texts" "probabilities [texts ! k] = Inr [rows ! k]"
    using assms rows(1) k unfolding scores_pointwise_def by (metis list.size(3) not_less_zero)+
  moreover have "label_of_scores m (rows ! k) = Inr (labels ! k)" using sum_map_Inr [OF rows(2)] k calculation(1) by simp
  ultimately show "predict_batch probabilities m [texts ! k] = Inr [labels ! k]" by (simp add: predict_batch_def)
qed

text \<open>
  C22: batching changes nothing. The outcomes of a batch are the outcomes of its contents analyzed one by one, in
  their order and one for each, whatever the size of the model's batches and whichever texts make
  the detector, VADER or the model raise: an error of one text never affects another.
\<close>

theorem batch_is_pointwise:
  assumes "scores_pointwise probabilities" and "ip_predict ip = predict_batch probabilities model" and "new_sentiment_inference k conf = Inr si"
  shows "analyze_batch ip si contents = map (analyze_one ip conf) contents"
proof -
  have "0 < si_model_batch_size si" "si_minimum_confidence si = conf" using assms(3) by (auto simp: new_sentiment_inference_def split: if_splits)
  then show ?thesis using batch_pointwise [of ip si] predict_batch_pointwise [OF assms(1)] assms(2) by simp
qed

text \<open>Every result has a status the table allows, and a label exactly when it is done.\<close>

definition valid_result :: "analysis_result \<Rightarrow> bool" where
  "valid_result r \<longleftrightarrow> (sr_status r = ''done'' \<and> sr_language r \<in> {Some ''fa'', Some ''en''} \<and> sr_label r \<in> {Some ''positive'', Some ''neutral'', Some ''negative''})
     \<or> (sr_status r = ''skipped'' \<and> sr_language r \<in> {None, Some ''fa'', Some ''en''} \<and> sr_label r = None)"

lemma new_analysis_result_done: "new_analysis_result l b ''done'' = Inr r \<Longrightarrow> valid_result r"
  unfolding new_analysis_result_def valid_result_def by (simp split: if_splits) fastforce

lemma new_analysis_result_skipped: "new_analysis_result l b ''skipped'' = Inr r \<Longrightarrow> valid_result r"
  unfolding new_analysis_result_def valid_result_def by (simp split: if_splits) fastforce

lemma english_outcome_valid: "english_outcome ip content = Inr r \<Longrightarrow> valid_result r"
  unfolding english_outcome_def by (cases "ip_compound ip content") (simp_all only: sum.case new_analysis_result_done sum.simps)

lemma persian_alone_valid: "persian_alone ip content = Inr r \<Longrightarrow> valid_result r"
  unfolding persian_alone_def persian_result_def
  by (cases "ip_predict ip [content]") (auto split: if_splits intro: new_analysis_result_done)

lemma skipped_outcome_valid: "skipped_outcome = Inr r \<Longrightarrow> valid_result r"
  by (auto simp: skipped_outcome_def new_analysis_result_def valid_result_def)

lemma analyze_one_valid: "analyze_one ip conf content = Inr r \<Longrightarrow> valid_result r"
  unfolding analyze_one_def
  by (auto split: option.splits if_splits intro: english_outcome_valid persian_alone_valid skipped_outcome_valid)

definition demo_scores :: "string list \<Rightarrow> exn + rat list list" where
  "demo_scores texts = (if list_ex (\<lambda>s. length s = 4) texts then Inl (value_error ''bad'') else Inr (map (\<lambda>_. [0, 0, 0, 1, 0]) texts))"

definition demo_model :: persian_model where
  "demo_model = \<lparr>pm_negative = [0, 1], pm_neutral = [2], pm_positive = [3, 4]\<rparr>"

definition demo_inference :: inference_ports where
  "demo_inference = \<lparr>ip_is_alpha = (\<lambda>_. True), ip_detector = (\<lambda>s. Inr [\<lparr>lc_lang = ''fa'', lc_prob = 1\<rparr>]), ip_compound = (\<lambda>_. Inr 0),
     ip_predict = predict_batch demo_scores demo_model\<rparr>"

lemma demo_scores_pointwise: "scores_pointwise demo_scores"
  by (auto simp: scores_pointwise_def demo_scores_def list_ex_iff split: if_splits)

theorem batch_is_pointwise_witness:
  "analyze_batch demo_inference \<lparr>si_model_batch_size = 2, si_minimum_confidence = 1 / 2\<rparr> [Some ''good'', Some ''great'', None]
     = [Inl (value_error ''bad''), persian_result ''positive'', skipped_outcome]"
proof -
  have "ip_predict demo_inference = predict_batch demo_scores demo_model" by (simp add: demo_inference_def)
  moreover have "new_sentiment_inference 2 (1 / 2) = Inr \<lparr>si_model_batch_size = 2, si_minimum_confidence = 1 / 2\<rparr>"
    by (simp add: new_sentiment_inference_def)
  ultimately have "analyze_batch demo_inference \<lparr>si_model_batch_size = 2, si_minimum_confidence = 1 / 2\<rparr> [Some ''good'', Some ''great'', None]
    = map (analyze_one demo_inference (1 / 2)) [Some ''good'', Some ''great'', None]"
    by (rule batch_is_pointwise [OF demo_scores_pointwise])
  then show ?thesis
    by (simp add: analyze_one_def detect_supported_language_def demo_inference_def strip_def is_space_def persian_alone_def
        predict_batch_def demo_scores_def demo_model_def label_of_scores_def class_score_def)
qed

end
