(* ===== verification/Sentiment_Worker.thy ===== *)
theory Sentiment_Worker
  imports Ingestion_Store Sentiment_Inference "HOL-Library.Product_Lexorder"
begin

text \<open>
  The sentiment worker (\<open>sentiment/worker.py\<close>) against its store protocol: \<open>SentimentWorker.drain\<close>,
  \<open>run_locked\<close> and \<open>main\<close> over a record of store operations, the contract of a store as a locale, and the
  lemmas about a drain proved once inside it.

  An operation of the store takes the state and gives a value or an exception, and the state after it; a state
  changes on the error path too, since every statement commits on its own. The table is not written by others
  during a drain.
\<close>

section \<open>Rows of the table\<close>

type_synonym identity = "nat \<times> string option"
type_synonym cursor = "nat \<times> uuid"
type_synonym ('s, 'a) effect = "'s \<Rightarrow> (exn + 'a) \<times> 's"

record pending_observation =
  po_review_id :: nat
  po_crawl_task_id :: uuid
  po_content :: "string option"

definition po_identity :: "pending_observation \<Rightarrow> identity" where
  "po_identity p = (po_review_id p, po_content p)"

definition po_cursor :: "pending_observation \<Rightarrow> cursor" where
  "po_cursor p = (po_review_id p, po_crawl_task_id p)"

definition row_identity :: "review_observation \<Rightarrow> identity" where
  "row_identity w = (ob_review_id w, ob_content w)"

definition row_key :: "review_observation \<Rightarrow> cursor" where
  "row_key w = (ob_review_id w, ob_crawl_task_id w)"

definition is_pending :: "review_observation \<Rightarrow> bool" where
  "is_pending w \<longleftrightarrow> ob_sentiment_status w = ''pending''"

definition past :: "cursor option \<Rightarrow> review_observation \<Rightarrow> bool" where
  "past c w \<longleftrightarrow> (case c of None \<Rightarrow> True | Some k \<Rightarrow> k < row_key w)"

definition observation_of :: "review_observation \<Rightarrow> pending_observation" where
  "observation_of w = \<lparr>po_review_id = ob_review_id w, po_crawl_task_id = ob_crawl_task_id w, po_content = ob_content w\<rparr>"

text \<open>The assignments of the two \<open>UPDATE\<close> statements.\<close>

definition applied :: "seconds \<Rightarrow> analysis_result \<Rightarrow> review_observation \<Rightarrow> review_observation" where
  "applied t r w = w\<lparr>ob_sentiment_language := sr_language r, ob_sentiment_label := sr_label r, ob_sentiment_status := sr_status r,
     ob_sentiment_processed_at := Some t\<rparr>"

definition failed_once :: "int \<Rightarrow> seconds \<Rightarrow> review_observation \<Rightarrow> review_observation" where
  "failed_once max_attempts t w =
     (let exhausted = max_attempts \<le> ob_sentiment_attempt_count w + 1
      in w\<lparr>ob_sentiment_language := None, ob_sentiment_label := None, ob_sentiment_status := (if exhausted then ''failed'' else ''pending''),
           ob_sentiment_processed_at := (if exhausted then Some t else None),
           ob_sentiment_attempt_count := ob_sentiment_attempt_count w + 1\<rparr>)"

text \<open>The rows \<open>find_reusable\<close> selects, and the order it takes them in.\<close>

definition reusable :: "identity \<Rightarrow> review_observation \<Rightarrow> bool" where
  "reusable i w \<longleftrightarrow> row_identity w = i \<and>
     ((ob_sentiment_status w = ''done'' \<and> ob_sentiment_language w \<in> {Some ''fa'', Some ''en''}
         \<and> ob_sentiment_label w \<in> {Some ''positive'', Some ''neutral'', Some ''negative''})
      \<or> (ob_sentiment_status w = ''skipped'' \<and> ob_sentiment_label w = None))"

definition reuse_rank :: "review_observation \<Rightarrow> nat \<times> nat \<times> seconds" where
  "reuse_rank w = (if ob_sentiment_status w = ''done'' then 0 else 1,
     case ob_sentiment_processed_at w of Some t \<Rightarrow> (0, - t) | None \<Rightarrow> (1, 0))"

definition row_result :: "review_observation \<Rightarrow> exn + analysis_result" where
  "row_result w = new_analysis_result (ob_sentiment_language w) (ob_sentiment_label w) (ob_sentiment_status w)"

section \<open>The worker\<close>

record 's sentiment_store_ops =
  try_lock :: "('s, bool) effect"
  unlock :: "('s, unit) effect"
  count_pending :: "('s, nat) effect"
  fetch_pending_after :: "cursor option \<Rightarrow> nat \<Rightarrow> ('s, pending_observation list) effect"
  find_reusable :: "identity \<Rightarrow> ('s, analysis_result option) effect"
  apply_result :: "identity \<Rightarrow> analysis_result \<Rightarrow> ('s, nat) effect"
  record_failure :: "identity \<Rightarrow> int \<Rightarrow> ('s, nat \<times> nat) effect"

type_synonym analyzer = "string option list \<Rightarrow> exn + inference_outcome list"

record run_stats =
  pending_observations :: nat
  reused_results :: nat
  newly_analyzed_texts :: nat
  done_observations :: nat
  skipped_observations :: nat
  failed_observations :: nat
  retry_pending_observations :: nat
  duration_seconds :: rat

definition new_stats :: "nat \<Rightarrow> run_stats" where
  "new_stats n = \<lparr>pending_observations = n, reused_results = 0, newly_analyzed_texts = 0, done_observations = 0,
     skipped_observations = 0, failed_observations = 0, retry_pending_observations = 0, duration_seconds = 0\<rparr>"

record sentiment_worker =
  sw_batch_size :: nat
  sw_max_attempts :: int

definition new_sentiment_worker :: "int \<Rightarrow> int \<Rightarrow> exn + sentiment_worker" where
  "new_sentiment_worker batch_size max_attempts =
     (if batch_size < 1 then Inl (value_error ''batch_size must be positive'')
      else if max_attempts < 1 then Inl (value_error ''max_attempts must be positive'')
      else Inr \<lparr>sw_batch_size = nat batch_size, sw_max_attempts = max_attempts\<rparr>)"

lemma new_sentiment_worker_Inr:
  "new_sentiment_worker b m = Inr sw \<Longrightarrow> 0 < sw_batch_size sw" "new_sentiment_worker b m = Inr sw \<Longrightarrow> sw_max_attempts sw = m"
  by (auto simp: new_sentiment_worker_def split: if_splits)

definition bind_effect :: "('s, 'a) effect \<Rightarrow> ('a \<Rightarrow> ('s, 'b) effect) \<Rightarrow> ('s, 'b) effect" where
  "bind_effect m k s = (case m s of (Inl e, s') \<Rightarrow> (Inl e, s') | (Inr x, s') \<Rightarrow> k x s')"

text \<open>The identities of a page that were not attempted yet, in order.\<close>

fun new_identities :: "identity list \<Rightarrow> pending_observation list \<Rightarrow> identity list" where
  "new_identities attempted [] = []"
| "new_identities attempted (row # rows) =
     (if po_identity row \<in> set attempted then new_identities attempted rows
      else po_identity row # new_identities (po_identity row # attempted) rows)"

definition count_applied :: "analysis_result \<Rightarrow> nat \<Rightarrow> run_stats \<Rightarrow> run_stats" where
  "count_applied r updated stats =
     (if sr_status r = ''done'' then stats\<lparr>done_observations := done_observations stats + updated\<rparr>
      else stats\<lparr>skipped_observations := skipped_observations stats + updated\<rparr>)"

fun reuse_pass :: "'s sentiment_store_ops \<Rightarrow> identity list \<Rightarrow> run_stats \<Rightarrow> ('s, identity list \<times> run_stats) effect" where
  "reuse_pass st [] stats = (\<lambda>s. (Inr ([], stats), s))"
| "reuse_pass st (i # is) stats = bind_effect (find_reusable st i) (\<lambda>found. case found of
     None \<Rightarrow> bind_effect (reuse_pass st is stats) (\<lambda>(needs, stats') s. (Inr (i # needs, stats'), s))
   | Some r \<Rightarrow> bind_effect (apply_result st i r) (\<lambda>updated.
       reuse_pass st is (count_applied r updated (stats\<lparr>reused_results := reused_results stats + updated\<rparr>))))"

definition batch_outcomes :: "analyzer \<Rightarrow> string option list \<Rightarrow> inference_outcome list" where
  "batch_outcomes analyze contents = (case analyze contents of
     Inl e \<Rightarrow> replicate (length contents) (Inl e)
   | Inr outcomes \<Rightarrow> if length outcomes \<noteq> length contents
       then replicate (length contents) (Inl (mk_exn ''RuntimeError'' ''inference returned an unexpected batch size'' False))
       else outcomes)"

fun settle_pass :: "'s sentiment_store_ops \<Rightarrow> int \<Rightarrow> (identity \<times> inference_outcome) list \<Rightarrow> run_stats \<Rightarrow> ('s, run_stats) effect" where
  "settle_pass st max_attempts [] stats = (\<lambda>s. (Inr stats, s))"
| "settle_pass st max_attempts ((i, Inr r) # rest) stats = bind_effect (apply_result st i r) (\<lambda>updated.
     settle_pass st max_attempts rest (count_applied r updated stats))"
| "settle_pass st max_attempts ((i, Inl e) # rest) stats = bind_effect (record_failure st i max_attempts) (\<lambda>(pending, failed).
     settle_pass st max_attempts rest (stats\<lparr>retry_pending_observations := retry_pending_observations stats + pending,
       failed_observations := failed_observations stats + failed\<rparr>))"

definition drain_batch :: "'s sentiment_store_ops \<Rightarrow> analyzer \<Rightarrow> int \<Rightarrow> identity list \<Rightarrow> run_stats \<Rightarrow> ('s, run_stats) effect" where
  "drain_batch st analyze max_attempts groups stats = bind_effect (reuse_pass st groups stats) (\<lambda>(needs, stats').
     if needs = [] then (\<lambda>s. (Inr stats', s))
     else settle_pass st max_attempts (zip needs (batch_outcomes analyze (map snd needs)))
            (stats'\<lparr>newly_analyzed_texts := newly_analyzed_texts stats' + length needs\<rparr>))"

partial_function (option) drain_loop ::
  "'s sentiment_store_ops \<Rightarrow> analyzer \<Rightarrow> sentiment_worker \<Rightarrow> cursor option \<Rightarrow> identity list \<Rightarrow> run_stats \<Rightarrow> 's
     \<Rightarrow> ((exn + run_stats) \<times> 's) option" where
  "drain_loop st analyze sw cursor attempted stats s =
     (case fetch_pending_after st cursor (sw_batch_size sw) s of
        (Inl e, s') \<Rightarrow> Some (Inl e, s')
      | (Inr rows, s') \<Rightarrow>
          if rows = [] then Some (Inr stats, s')
          else (case drain_batch st analyze (sw_max_attempts sw) (new_identities attempted rows) stats s' of
            (Inl e, s'') \<Rightarrow> Some (Inl e, s'')
          | (Inr stats', s'') \<Rightarrow>
              drain_loop st analyze sw (Some (po_cursor (last rows))) (new_identities attempted rows @ attempted) stats' s''))"

text \<open>The time the drain takes, rounded, is an argument.\<close>

definition drain :: "'s sentiment_store_ops \<Rightarrow> analyzer \<Rightarrow> rat \<Rightarrow> sentiment_worker \<Rightarrow> 's \<Rightarrow> ((exn + run_stats) \<times> 's) option" where
  "drain st analyze duration sw s = (case count_pending st s of
     (Inl e, s') \<Rightarrow> Some (Inl e, s')
   | (Inr n, s') \<Rightarrow> map_option (\<lambda>(x, s''). (map_sum id (\<lambda>stats. stats\<lparr>duration_seconds := duration\<rparr>) x, s''))
       (drain_loop st analyze sw None [] (new_stats n) s'))"

section \<open>Runs under the lock\<close>

definition WorkerAlreadyRunning :: exn where
  "WorkerAlreadyRunning = mk_exn ''WorkerAlreadyRunning'' ''another sentiment worker holds the PostgreSQL advisory lock'' False"

text \<open>
  The rounds of the loop: the duration of each drain, and what the sleep after it raises. \<open>None\<close> is a worker that is
  still running when the rounds are used up.
\<close>

type_synonym rounds = "(rat \<times> exn option) list"

fun run_rounds :: "'s sentiment_store_ops \<Rightarrow> analyzer \<Rightarrow> bool \<Rightarrow> int \<Rightarrow> int \<Rightarrow> rounds \<Rightarrow> run_stats list \<Rightarrow> 's
    \<Rightarrow> ((exn + run_stats list) \<times> 's) option" where
  "run_rounds st analyze watch batch_size max_attempts [] runs s = None"
| "run_rounds st analyze watch batch_size max_attempts ((duration, sleep) # rounds) runs s =
     (case new_sentiment_worker batch_size max_attempts of
        Inl e \<Rightarrow> Some (Inl e, s)
      | Inr sw \<Rightarrow> (case drain st analyze duration sw s of
          None \<Rightarrow> None
        | Some (Inl e, s') \<Rightarrow> Some (Inl e, s')
        | Some (Inr stats, s') \<Rightarrow>
            if \<not> watch then Some (Inr (runs @ [stats]), s')
            else (case sleep of
                Some e \<Rightarrow> Some (Inl e, s')
              | None \<Rightarrow> run_rounds st analyze watch batch_size max_attempts rounds (runs @ [stats]) s')))"

text \<open>\<open>finally: store.unlock()\<close>: an exception of the release replaces the outcome.\<close>

definition finally_unlock :: "'s sentiment_store_ops \<Rightarrow> (exn + 'a) \<times> 's \<Rightarrow> (exn + 'a) \<times> 's" where
  "finally_unlock st p = (case unlock st (snd p) of (Inl e, s') \<Rightarrow> (Inl e, s') | (Inr _, s') \<Rightarrow> (fst p, s'))"

definition run_locked :: "'s sentiment_store_ops \<Rightarrow> analyzer \<Rightarrow> bool \<Rightarrow> int \<Rightarrow> int \<Rightarrow> rounds \<Rightarrow> 's
    \<Rightarrow> ((exn + run_stats list) \<times> 's) option" where
  "run_locked st analyze watch batch_size max_attempts rounds s = (case try_lock st s of
     (Inl e, s') \<Rightarrow> Some (Inl e, s')
   | (Inr got, s') \<Rightarrow>
       if \<not> got then Some (Inl WorkerAlreadyRunning, s')
       else map_option (finally_unlock st) (run_rounds st analyze watch batch_size max_attempts rounds [] s'))"

definition exit_code :: "exn + 'a \<Rightarrow> int" where
  "exit_code x = (case x of Inr _ \<Rightarrow> 0 | Inl e \<Rightarrow> if e = WorkerAlreadyRunning then 2 else 1)"

text \<open>\<open>main\<close>: the model is built under the lock, and every exception becomes an exit code.\<close>

definition sentiment_main :: "'s sentiment_store_ops \<Rightarrow> exn option \<Rightarrow> (exn + analyzer) \<Rightarrow> bool \<Rightarrow> int \<Rightarrow> int \<Rightarrow> rounds \<Rightarrow> 's \<Rightarrow> (int \<times> 's) option" where
  "sentiment_main st connect build watch batch_size max_attempts rounds s = (case connect of
     Some e \<Rightarrow> Some (exit_code (Inl e), s)
   | None \<Rightarrow> (case try_lock st s of
       (Inl e, s') \<Rightarrow> Some (exit_code (Inl e), s')
     | (Inr got, s') \<Rightarrow>
         if \<not> got then Some (exit_code (Inl WorkerAlreadyRunning), s')
         else map_option (\<lambda>p. let q = finally_unlock st p in (exit_code (fst q), snd q))
           (case build of Inl e \<Rightarrow> Some (Inl e, s') | Inr analyze \<Rightarrow> run_rounds st analyze watch batch_size max_attempts rounds [] s')))"

section \<open>What a drain does to the rows\<close>

text \<open>
  The specification: a drain settles identities, each with one outcome at one time, and every pending row gets
  what its identity got. An outcome is a result of the identity that was already stored or, when there is none, what
  the analyzer said of the content.
\<close>

type_synonym settlement = "identity \<Rightarrow> (seconds \<times> inference_outcome) option"

definition settle_with :: "int \<Rightarrow> seconds \<times> inference_outcome \<Rightarrow> review_observation \<Rightarrow> review_observation" where
  "settle_with m a w = (case snd a of Inr r \<Rightarrow> applied (fst a) r w | Inl _ \<Rightarrow> failed_once m (fst a) w)"

definition settle_row :: "int \<Rightarrow> settlement \<Rightarrow> review_observation \<Rightarrow> review_observation" where
  "settle_row m act w = (case act (row_identity w) of Some a \<Rightarrow> if is_pending w then settle_with m a w else w | None \<Rightarrow> w)"

definition settle_identity :: "int \<Rightarrow> identity \<Rightarrow> seconds \<times> inference_outcome \<Rightarrow> review_observation list \<Rightarrow> review_observation list" where
  "settle_identity m i a = map (\<lambda>w. if is_pending w \<and> row_identity w = i then settle_with m a w else w)"

definition best_reusable :: "review_observation list \<Rightarrow> identity \<Rightarrow> analysis_result \<Rightarrow> bool" where
  "best_reusable ws i r \<longleftrightarrow> (\<exists>w \<in> set ws. reusable i w \<and> row_result w = Inr r \<and> (\<forall>v \<in> set ws. reusable i v \<longrightarrow> reuse_rank w \<le> reuse_rank v))"

definition outcome_allowed :: "(string option \<Rightarrow> inference_outcome \<Rightarrow> bool) \<Rightarrow> review_observation list \<Rightarrow> identity \<Rightarrow> inference_outcome \<Rightarrow> bool" where
  "outcome_allowed q ws i oc = (if list_ex (reusable i) ws then \<exists>r. oc = Inr r \<and> best_reusable ws i r else q (snd i) oc)"

definition settled_as :: "int \<Rightarrow> string \<Rightarrow> settlement \<Rightarrow> review_observation list \<Rightarrow> nat" where
  "settled_as m status act ws =
     length (filter (\<lambda>w. is_pending w \<and> act (row_identity w) \<noteq> None \<and> ob_sentiment_status (settle_row m act w) = status) ws)"

definition tallied :: "int \<Rightarrow> settlement \<Rightarrow> review_observation list \<Rightarrow> run_stats \<Rightarrow> bool" where
  "tallied m act ws stats \<longleftrightarrow> pending_observations stats = length (filter is_pending ws) \<and> done_observations stats = settled_as m ''done'' act ws \<and> skipped_observations stats = settled_as m ''skipped'' act ws
     \<and> failed_observations stats = settled_as m ''failed'' act ws \<and> retry_pending_observations stats = settled_as m ''pending'' act ws"

lemma settle_with_same [simp]: "row_identity (settle_with m a w) = row_identity w" "row_key (settle_with m a w) = row_key w"
  by (auto simp: settle_with_def applied_def failed_once_def row_identity_def row_key_def Let_def split: sum.splits)

lemma settle_row_same [simp]: "row_identity (settle_row m act w) = row_identity w" "row_key (settle_row m act w) = row_key w"
  by (auto simp: settle_row_def split: option.splits)

lemma past_settle_row [simp]: "past c (settle_row m act w) = past c w"
  by (cases c) (simp_all add: past_def)

lemma past_Some [simp]: "past (Some k) w \<longleftrightarrow> k < row_key w"
  by (simp add: past_def)

lemma settle_row_None [simp]: "act (row_identity w) = None \<Longrightarrow> settle_row m act w = w"
  by (simp add: settle_row_def)

lemma settle_row_settled: "\<not> is_pending w \<Longrightarrow> settle_row m act w = w"
  by (simp add: settle_row_def split: option.splits)

lemma settle_row_empty [simp]: "settle_row m Map.empty = (\<lambda>w. w)"
  by (simp add: fun_eq_iff)

lemma settle_identity_extends:
  assumes "act i = None"
  shows "settle_identity m i a (map (settle_row m act) ws) = map (settle_row m (act(i \<mapsto> a))) ws"
proof -
  have "(if is_pending (settle_row m act w) \<and> row_identity w = i then settle_with m a (settle_row m act w) else settle_row m act w)
    = settle_row m (act(i \<mapsto> a)) w" for w
    using assms by (cases "row_identity w = i") (auto simp: settle_row_def)
  then show ?thesis by (simp add: settle_identity_def)
qed

lemma length_filter_settled:
  "act i = None \<Longrightarrow> length (filter (\<lambda>w. is_pending w \<and> row_identity w = i \<and> P w) (map (settle_row m act) ws))
     = length (filter (\<lambda>w. is_pending w \<and> row_identity w = i \<and> P w) ws)"
proof (induction ws)
  case (Cons w ws)
  then show ?case by (cases "row_identity w = i") auto
qed simp

lemma settled_as_extends:
  assumes "act i = None"
  shows "settled_as m status (act(i \<mapsto> a)) ws = settled_as m status act ws
    + length (filter (\<lambda>w. is_pending w \<and> row_identity w = i \<and> ob_sentiment_status (settle_with m a w) = status) ws)"
proof (induction ws)
  case (Cons w ws)
  then show ?case using assms by (cases "row_identity w = i") (auto simp: settled_as_def settle_row_def)
qed (simp add: settled_as_def)

lemma reusable_settled:
  assumes "act i = None" "w \<in> set (map (settle_row m act) ws)" "reusable i w"
  shows "w \<in> set ws"
proof -
  obtain v where v: "v \<in> set ws" "w = settle_row m act v" using assms(2) by auto
  have "row_identity v = i" using assms(3) v(2) by (simp add: reusable_def)
  then show ?thesis using v assms(1) by simp
qed

lemma reusable_kept:
  assumes "act i = None" "w \<in> set ws" "reusable i w"
  shows "w \<in> set (map (settle_row m act) ws)"
proof -
  have "settle_row m act w = w" using assms(1,3) by (simp add: reusable_def)
  then show ?thesis using assms(2) by force
qed

lemma reusable_view:
  assumes "act i = None"
  shows "w \<in> set (map (settle_row m act) ws) \<and> reusable i w \<longleftrightarrow> w \<in> set ws \<and> reusable i w"
  using reusable_settled [of act i w m ws] reusable_kept [of act i w ws m] assms by blast

lemma best_reusable_view: "act i = None \<Longrightarrow> best_reusable (map (settle_row m act) ws) i r = best_reusable ws i r"
  unfolding best_reusable_def using reusable_view [of act i _ m ws] by blast

lemma list_ex_reusable_view: "act i = None \<Longrightarrow> list_ex (reusable i) (map (settle_row m act) ws) = list_ex (reusable i) ws"
  unfolding list_ex_iff using reusable_view [of act i _ m ws] by blast

lemma best_reusable_valid: "best_reusable ws i r \<Longrightarrow> valid_result r"
  unfolding best_reusable_def reusable_def row_result_def
  by (auto intro: new_analysis_result_done new_analysis_result_skipped)

lemma best_reusable_exists: "best_reusable ws i r \<Longrightarrow> list_ex (reusable i) ws"
  by (auto simp: best_reusable_def list_ex_iff)

lemma tallied_applied:
  assumes "tallied m act ws stats" "act i = None" "valid_result r" "n = length (filter (\<lambda>w. is_pending w \<and> row_identity w = i) ws)"
  shows "tallied m (act(i \<mapsto> (t, Inr r))) ws (count_applied r n stats)"
proof -
  have "ob_sentiment_status (settle_with m (t, Inr r) w) = sr_status r" for w
    by (simp add: settle_with_def applied_def)
  moreover have "sr_status r = ''done'' \<or> sr_status r = ''skipped''" using assms(3) by (auto simp: valid_result_def)
  ultimately show ?thesis
    using assms(1,4) by (auto simp: tallied_def count_applied_def settled_as_extends [of act i, OF assms(2)])
qed

lemma tallied_failed:
  assumes "tallied m act ws stats" "act i = None"
    and "p = length (filter (\<lambda>w. is_pending w \<and> row_identity w = i \<and> ob_sentiment_status (failed_once m t w) = ''pending'') ws)"
    and "f = length (filter (\<lambda>w. is_pending w \<and> row_identity w = i \<and> ob_sentiment_status (failed_once m t w) = ''failed'') ws)"
  shows "tallied m (act(i \<mapsto> (t, Inl e))) ws (stats\<lparr>retry_pending_observations := retry_pending_observations stats + p,
    failed_observations := failed_observations stats + f\<rparr>)"
proof -
  have "ob_sentiment_status (failed_once m t w) \<noteq> ''done'' \<and> ob_sentiment_status (failed_once m t w) \<noteq> ''skipped''" for w
    by (simp add: failed_once_def Let_def)
  then show ?thesis
    using assms(1) by (simp add: tallied_def settled_as_extends [of act i, OF assms(2)] settle_with_def assms(3,4))
qed

text \<open>When every pending row is settled, the four counts add up to the pending rows.\<close>

lemma settled_as_total:
  assumes "\<forall>w \<in> set ws. is_pending w \<longrightarrow> (\<exists>a. act (row_identity w) = Some a \<and> (\<forall>r. snd a = Inr r \<longrightarrow> valid_result r))"
  shows "settled_as m ''done'' act ws + settled_as m ''skipped'' act ws + settled_as m ''failed'' act ws + settled_as m ''pending'' act ws
    = length (filter is_pending ws)"
  using assms
proof (induction ws)
  case (Cons w ws)
  show ?case
  proof (cases "is_pending w")
    case True
    then obtain a where a: "act (row_identity w) = Some a" "\<And>r. snd a = Inr r \<Longrightarrow> valid_result r" using Cons.prems by auto
    then have "ob_sentiment_status (settle_row m act w) \<in> {''done'', ''skipped'', ''failed'', ''pending''}"
      using True by (cases "snd a") (auto simp: settle_row_def settle_with_def applied_def failed_once_def valid_result_def Let_def)
    then show ?thesis using Cons True a(1) by (auto simp: settled_as_def)
  qed (use Cons in \<open>auto simp: settled_as_def\<close>)
qed (simp add: settled_as_def)

lemma new_identities_set: "set (new_identities attempted ps) = po_identity ` set ps - set attempted"
  by (induction attempted ps rule: new_identities.induct) auto

lemma new_identities_distinct: "distinct (new_identities attempted ps)"
  by (induction attempted ps rule: new_identities.induct) (auto simp: new_identities_set)

lemma batch_outcomes_length [simp]: "length (batch_outcomes analyze contents) = length contents"
  by (auto simp: batch_outcomes_def split: sum.splits)

text \<open>What is known of an analyzer: its outcomes, a raise of the whole batch included, and that its results are valid.\<close>

definition answers :: "(string option \<Rightarrow> inference_outcome \<Rightarrow> bool) \<Rightarrow> analyzer \<Rightarrow> bool" where
  "answers q analyze \<longleftrightarrow> (\<forall>cs. list_all2 q cs (batch_outcomes analyze cs)) \<and> (\<forall>c r. q c (Inr r) \<longrightarrow> valid_result r)"

lemma length_filter_strict:
  "(\<And>x. P x \<Longrightarrow> Q x) \<Longrightarrow> w \<in> set xs \<Longrightarrow> Q w \<Longrightarrow> \<not> P w \<Longrightarrow> length (filter P xs) < length (filter Q xs)"
proof (induction xs)
  case (Cons x xs)
  have "length (filter P xs) \<le> length (filter Q xs)" using Cons.prems(1) by (induction xs) auto
  then show ?case using Cons by (cases "x = w") (auto simp: less_Suc_eq_le)
qed simp

lemma take_upto:
  assumes "sorted (map f xs)" "distinct (map f xs)" "x \<in> set xs" "take b xs \<noteq> []" "f x \<le> f (last (take b xs))"
  shows "x \<in> set (take b xs)"
proof (rule ccontr)
  assume out: "x \<notin> set (take b xs)"
  have strict: "sorted_wrt (<) (map f xs)" using assms(1,2) by (simp add: strict_sorted_iff)
  have "x \<in> set (drop b xs)" using out assms(3) append_take_drop_id [of b xs] by (metis Un_iff set_append)
  moreover have "last (take b xs) \<in> set (take b xs)" using assms(4) by (rule last_in_set)
  moreover have "sorted_wrt (<) (map f (take b xs) @ map f (drop b xs))" using strict by (simp flip: map_append)
  ultimately have "f (last (take b xs)) < f x" by (simp only: sorted_wrt_append) auto
  then show False using assms(5) by simp
qed

section \<open>The contract of a store\<close>

text \<open>
  Every operation gives its value or raises. The table is changed by the two updates only; an update that
  raises may have been committed or not.
\<close>

locale sentiment_store =
  fixes st :: "'s sentiment_store_ops" and table :: "'s \<Rightarrow> review_observation list" and ok :: "'s \<Rightarrow> bool"
  assumes keys: "ok s \<Longrightarrow> distinct (map row_key (table s))"
    and counted: "ok s \<Longrightarrow> count_pending st s = (x, s') \<Longrightarrow> ok s' \<and> table s' = table s
      \<and> (\<forall>n. x = Inr n \<longrightarrow> n = length (filter is_pending (table s)))"
    and fetched: "ok s \<Longrightarrow> fetch_pending_after st c b s = (v, s') \<Longrightarrow> ok s' \<and> table s' = table s
      \<and> (\<forall>ps. v = Inr ps \<longrightarrow> ps = map observation_of (take b (sort_key row_key (filter (\<lambda>w. is_pending w \<and> past c w) (table s)))))"
    and found: "ok s \<Longrightarrow> find_reusable st i s = (y, s') \<Longrightarrow> ok s' \<and> table s' = table s
      \<and> (y = Inr None \<longrightarrow> \<not> list_ex (reusable i) (table s)) \<and> (\<forall>r. y = Inr (Some r) \<longrightarrow> best_reusable (table s) i r)"
    and updated: "ok s \<Longrightarrow> valid_result r \<Longrightarrow> apply_result st i r s = (z, s') \<Longrightarrow> ok s'
      \<and> (table s' = table s \<and> isl z
         \<or> (\<exists>t. table s' = settle_identity m i (t, Inr r) (table s)
              \<and> (\<forall>n. z = Inr n \<longrightarrow> n = length (filter (\<lambda>w. is_pending w \<and> row_identity w = i) (table s)))))"
    and failed: "ok s \<Longrightarrow> record_failure st i m s = (u, s') \<Longrightarrow> ok s'
      \<and> (table s' = table s \<and> isl u
         \<or> (\<exists>t. table s' = settle_identity m i (t, Inl e) (table s)
              \<and> (\<forall>p f. u = Inr (p, f) \<longrightarrow>
                   p = length (filter (\<lambda>w. is_pending w \<and> row_identity w = i \<and> ob_sentiment_status (failed_once m t w) = ''pending'') (table s))
                 \<and> f = length (filter (\<lambda>w. is_pending w \<and> row_identity w = i \<and> ob_sentiment_status (failed_once m t w) = ''failed'') (table s)))))"
begin

text \<open>How far a drain has come: the identities of the settlement are settled, the other rows as at the start.\<close>

definition progress :: "(string option \<Rightarrow> inference_outcome \<Rightarrow> bool) \<Rightarrow> int \<Rightarrow> review_observation list \<Rightarrow> settlement \<Rightarrow> 's \<Rightarrow> bool" where
  "progress q m ws act s \<longleftrightarrow> ok s \<and> table s = map (settle_row m act) ws \<and> (\<forall>i a. act i = Some a \<longrightarrow> outcome_allowed q ws i (snd a))"

lemma progress_same: "progress q m ws act s \<Longrightarrow> ok s' \<Longrightarrow> table s' = table s \<Longrightarrow> progress q m ws act s'"
  by (simp add: progress_def)

lemma progress_settled:
  assumes "progress q m ws act s" "act i = None" "ok s'" "table s' = settle_identity m i a (table s)" "outcome_allowed q ws i (snd a)"
  shows "progress q m ws (act(i \<mapsto> a)) s'"
  using assms by (auto simp: progress_def settle_identity_extends)

lemma apply_progress:
  assumes "progress q m ws act s" "act i = None" "outcome_allowed q ws i (Inr r)" "valid_result r" "apply_result st i r s = (z, s')"
  obtains t where "progress q m ws (act(i \<mapsto> (t, Inr r))) s'" "\<And>n. z = Inr n \<Longrightarrow> n = length (filter (\<lambda>w. is_pending w \<and> row_identity w = i) ws)"
    | e where "z = Inl e" "progress q m ws act s'"
proof -
  have tab: "ok s" "table s = map (settle_row m act) ws" using assms(1) by (simp_all add: progress_def)
  have n: "length (filter (\<lambda>w. is_pending w \<and> row_identity w = i) (table s)) = length (filter (\<lambda>w. is_pending w \<and> row_identity w = i) ws)"
    using length_filter_settled [of act i "\<lambda>_. True" m ws, OF assms(2)] tab by simp
  note u = updated [OF tab(1) assms(4,5), of m]
  then consider "ok s'" "table s' = table s" "isl z"
    | t where "ok s'" "table s' = settle_identity m i (t, Inr r) (table s)"
        "\<And>n. z = Inr n \<Longrightarrow> n = length (filter (\<lambda>w. is_pending w \<and> row_identity w = i) (table s))" by blast
  then show thesis
  proof cases
    case 1
    then obtain e where "z = Inl e" by (cases z) auto
    then show thesis using that(2) progress_same [OF assms(1) 1(1,2)] by blast
  next
    case (2 t)
    have "progress q m ws (act(i \<mapsto> (t, Inr r))) s'"
      using progress_settled [OF assms(1,2) 2(1,2)] assms(3) by simp
    then show thesis using that(1) 2(3) n by simp
  qed
qed

lemma failure_progress:
  assumes "progress q m ws act s" "act i = None" "outcome_allowed q ws i (Inl e)" "record_failure st i m s = (u, s')"
  obtains t where "progress q m ws (act(i \<mapsto> (t, Inl e))) s'"
      "\<And>p f. u = Inr (p, f) \<Longrightarrow> p = length (filter (\<lambda>w. is_pending w \<and> row_identity w = i \<and> ob_sentiment_status (failed_once m t w) = ''pending'') ws)
         \<and> f = length (filter (\<lambda>w. is_pending w \<and> row_identity w = i \<and> ob_sentiment_status (failed_once m t w) = ''failed'') ws)"
    | e' where "u = Inl e'" "progress q m ws act s'"
proof -
  have tab: "ok s" "table s = map (settle_row m act) ws" using assms(1) by (simp_all add: progress_def)
  note n = length_filter_settled [of act i _ m ws, OF assms(2)]
  from failed [OF tab(1) assms(4), of e] consider "ok s'" "table s' = table s" "isl u"
    | t where "ok s'" "table s' = settle_identity m i (t, Inl e) (table s)"
        "\<And>p f. u = Inr (p, f) \<Longrightarrow> p = length (filter (\<lambda>w. is_pending w \<and> row_identity w = i \<and> ob_sentiment_status (failed_once m t w) = ''pending'') (table s))
         \<and> f = length (filter (\<lambda>w. is_pending w \<and> row_identity w = i \<and> ob_sentiment_status (failed_once m t w) = ''failed'') (table s))"
    by blast
  then show thesis
  proof cases
    case 1
    then obtain e' where "u = Inl e'" by (cases u) auto
    then show thesis using that(2) progress_same [OF assms(1) 1(1,2)] by blast
  next
    case (2 t)
    have "progress q m ws (act(i \<mapsto> (t, Inl e))) s'"
      using progress_settled [OF assms(1,2) 2(1,2)] assms(3) by simp
    then show thesis using that(1) 2(3) unfolding tab(2) n by blast
  qed
qed

lemma find_progress:
  assumes p: "progress q m ws act s" and none: "act i = None" and y: "find_reusable st i s = (y, s1)"
  obtains e where "y = Inl e" "progress q m ws act s1"
    | "y = Inr None" "progress q m ws act s1" "\<not> list_ex (reusable i) ws"
    | r where "y = Inr (Some r)" "progress q m ws act s1" "outcome_allowed q ws i (Inr r)" "valid_result r"
proof -
  have tab: "ok s" "table s = map (settle_row m act) ws" using p by (simp_all add: progress_def)
  note f = found [OF tab(1) y]
  then have p1: "progress q m ws act s1" using progress_same [OF p] by blast
  consider e where "y = Inl e" | "y = Inr None" | r where "y = Inr (Some r)" by (metis option.exhaust sum.exhaust)
  then show thesis
  proof cases
    case 2
    then show thesis using that(2) p1 f list_ex_reusable_view [of act i m ws, OF none] tab by simp
  next
    case (3 r)
    then have "best_reusable ws i r" using f tab best_reusable_view [of act i m ws r, OF none] by simp
    then show thesis using that(3) 3 p1 best_reusable_valid by (auto simp: outcome_allowed_def best_reusable_exists)
  qed (use that(1) p1 in blast)
qed

text \<open>What is known after the first pass over the identities of a page.\<close>

definition reused :: "(string option \<Rightarrow> inference_outcome \<Rightarrow> bool) \<Rightarrow> int \<Rightarrow> review_observation list \<Rightarrow> settlement \<Rightarrow> identity list
    \<Rightarrow> exn + identity list \<times> run_stats \<Rightarrow> 's \<Rightarrow> bool" where
  "reused q m ws act is x s' \<longleftrightarrow> (\<exists>act'. progress q m ws act' s' \<and> (\<forall>needs stats'. x = Inr (needs, stats') \<longrightarrow>
     tallied m act' ws stats' \<and> distinct needs \<and> set needs \<subseteq> set is \<and> dom act' = dom act \<union> (set is - set needs)
     \<and> (\<forall>i \<in> set needs. \<not> list_ex (reusable i) ws)))"

lemma reused_Inl: "progress q m ws act s' \<Longrightarrow> reused q m ws act' is (Inl e) s'"
  by (auto simp: reused_def)

lemma reused_needed:
  assumes "reused q m ws act is x2 s2" "i \<notin> set is" "act i = None" "\<not> list_ex (reusable i) ws"
  shows "reused q m ws act (i # is) (map_sum id (\<lambda>(needs, stats'). (i # needs, stats')) x2) s2"
proof (cases x2)
  case (Inr ns)
  then show ?thesis using assms unfolding reused_def by (cases ns) (simp, fastforce)
qed (use assms(1) in \<open>auto simp: reused_def\<close>)

lemma reused_settled:
  assumes "reused q m ws (act(i \<mapsto> a)) is x s'" "i \<notin> set is"
  shows "reused q m ws act (i # is) x s'"
  using assms unfolding reused_def by (elim exE conjE, intro exI conjI) (assumption, auto)

lemma reuse_pass_progress:
  "progress q m ws act s \<Longrightarrow> distinct is \<Longrightarrow> \<forall>i \<in> set is. act i = None \<Longrightarrow> tallied m act ws stats \<Longrightarrow> reuse_pass st is stats s = (x, s')
     \<Longrightarrow> reused q m ws act is x s'"
proof (induction "is" arbitrary: act s stats x s')
  case Nil
  then show ?case by (auto simp: reused_def)
next
  case (Cons i "is")
  obtain y s1 where y: "find_reusable st i s = (y, s1)" by fastforce
  have none: "act i = None" and i: "i \<notin> set is" and d: "distinct is" and free: "\<forall>j \<in> set is. act j = None" using Cons.prems(2,3) by auto
  from find_progress [OF Cons.prems(1) none y] show ?case
  proof cases
    case (1 e)
    then show ?thesis using Cons.prems(5) y by (auto simp: bind_effect_def intro: reused_Inl)
  next
    case 2
    obtain x2 s2 where rest: "reuse_pass st is stats s1 = (x2, s2)" by fastforce
    have "x = map_sum id (\<lambda>(needs, stats'). (i # needs, stats')) x2" "s' = s2"
      using Cons.prems(5) y 2(1) rest by (auto simp: bind_effect_def split: sum.splits)
    then show ?thesis using reused_needed [OF Cons.IH [OF 2(2) d free Cons.prems(4) rest] i none 2(3)] by simp
  next
    case (3 r)
    obtain z s2 where z: "apply_result st i r s1 = (z, s2)" by fastforce
    from apply_progress [OF 3(2) none 3(3,4) z] show ?thesis
    proof cases
      case (1 t)
      show ?thesis
      proof (cases z)
        case (Inl e)
        then show ?thesis using Cons.prems(5) y 3(1) z 1(1) by (auto simp: bind_effect_def intro: reused_Inl)
      next
        case (Inr n)
        have "tallied m (act(i \<mapsto> (t, Inr r))) ws (count_applied r n (stats\<lparr>reused_results := reused_results stats + n\<rparr>))"
          using tallied_applied [of m act ws _ i r n t, OF _ none 3(4) 1(2) [OF Inr]] Cons.prems(4) by (simp add: tallied_def)
        moreover have "\<forall>j \<in> set is. (act(i \<mapsto> (t, Inr r))) j = None" using i free by auto
        moreover have "reuse_pass st is (count_applied r n (stats\<lparr>reused_results := reused_results stats + n\<rparr>)) s2 = (x, s')"
          using Cons.prems(5) y 3(1) z Inr by (simp add: bind_effect_def)
        ultimately show ?thesis using reused_settled [OF Cons.IH [OF 1(1) d] i] by blast
      qed
    next
      case (2 e)
      then show ?thesis using Cons.prems(5) y 3(1) z by (auto simp: bind_effect_def intro: reused_Inl)
    qed
  qed
qed

lemma settle_pass_progress:
  assumes "\<And>c r. q c (Inr r) \<Longrightarrow> valid_result r"
  shows "progress q m ws act s \<Longrightarrow> distinct (map fst ps) \<Longrightarrow> \<forall>p \<in> set ps. act (fst p) = None \<and> \<not> list_ex (reusable (fst p)) ws \<and> q (snd (fst p)) (snd p)
     \<Longrightarrow> tallied m act ws stats \<Longrightarrow> settle_pass st m ps stats s = (x, s')
     \<Longrightarrow> \<exists>act'. progress q m ws act' s' \<and> (\<forall>stats'. x = Inr stats' \<longrightarrow> tallied m act' ws stats' \<and> dom act' = dom act \<union> fst ` set ps)"
proof (induction ps arbitrary: act s stats x s')
  case Nil
  then show ?case by auto
next
  case (Cons p ps)
  obtain i oc where p: "p = (i, oc)" by fastforce
  have none: "act i = None" and allowed: "outcome_allowed q ws i oc" and q: "q (snd i) oc"
    and rest: "distinct (map fst ps)" "\<And>a. \<forall>p \<in> set ps. (act(i \<mapsto> a)) (fst p) = None \<and> \<not> list_ex (reusable (fst p)) ws \<and> q (snd (fst p)) (snd p)"
    using Cons.prems(2,3) by (auto simp: p outcome_allowed_def image_iff)
  have step: ?case if "progress q m ws (act(i \<mapsto> a)) s1" "tallied m (act(i \<mapsto> a)) ws stats1" "settle_pass st m ps stats1 s1 = (x, s')" for a s1 stats1
  proof -
    have eq: "dom (act(i \<mapsto> a)) \<union> fst ` set ps = dom act \<union> fst ` set (p # ps)" by (auto simp: p)
    show ?thesis using Cons.IH [OF that(1) rest(1) rest(2) that(2,3)] unfolding eq .
  qed
  show ?case
  proof (cases oc)
    case (Inr r)
    obtain z s1 where z: "apply_result st i r s = (z, s1)" by fastforce
    have v: "valid_result r" using assms q Inr by blast
    show ?thesis
    proof (rule apply_progress [OF Cons.prems(1) none _ v z])
      show "outcome_allowed q ws i (Inr r)" using allowed Inr by simp
      fix t assume t: "progress q m ws (act(i \<mapsto> (t, Inr r))) s1" "\<And>n. z = Inr n \<Longrightarrow> n = length (filter (\<lambda>w. is_pending w \<and> row_identity w = i) ws)"
      show ?thesis
      proof (cases z)
        case (Inr n)
        then show ?thesis using step [OF t(1) tallied_applied [of m act ws stats i r n t, OF Cons.prems(4) none v t(2) [OF Inr]]] Cons.prems(5) z
          by (simp add: p \<open>oc = Inr r\<close> bind_effect_def)
      qed (use t(1) Cons.prems(5) z Inr in \<open>auto simp: p bind_effect_def\<close>)
    qed (use Cons.prems(5) z Inr in \<open>auto simp: p bind_effect_def\<close>)
  next
    case (Inl e)
    obtain u s1 where u: "record_failure st i m s = (u, s1)" by fastforce
    show ?thesis
    proof (rule failure_progress [OF Cons.prems(1) none _ u])
      show "outcome_allowed q ws i (Inl e)" using allowed Inl by simp
      fix t assume t: "progress q m ws (act(i \<mapsto> (t, Inl e))) s1"
        "\<And>p f. u = Inr (p, f) \<Longrightarrow> p = length (filter (\<lambda>w. is_pending w \<and> row_identity w = i \<and> ob_sentiment_status (failed_once m t w) = ''pending'') ws)
         \<and> f = length (filter (\<lambda>w. is_pending w \<and> row_identity w = i \<and> ob_sentiment_status (failed_once m t w) = ''failed'') ws)"
      show ?thesis
      proof (cases u)
        case (Inr pf)
        then obtain n k where nk: "u = Inr (n, k)" by (cases pf) simp
        show ?thesis using step [OF t(1) tallied_failed [of m act ws stats i n t k e, OF Cons.prems(4) none]] t(2) [OF nk] Cons.prems(5) u nk
          by (simp add: p \<open>oc = Inl e\<close> bind_effect_def)
      qed (use t(1) Cons.prems(5) u Inl in \<open>auto simp: p bind_effect_def\<close>)
    qed (use Cons.prems(5) u Inl in \<open>auto simp: p bind_effect_def\<close>)
  qed
qed

lemma drain_batch_progress:
  assumes "answers q analyze" "progress q m ws act s" "distinct groups" "\<forall>i \<in> set groups. act i = None" "tallied m act ws stats"
    and "drain_batch st analyze m groups stats s = (x, s')"
  shows "\<exists>act'. progress q m ws act' s' \<and> (\<forall>stats'. x = Inr stats' \<longrightarrow> tallied m act' ws stats' \<and> dom act' = dom act \<union> set groups)"
proof -
  obtain y s1 where y: "reuse_pass st groups stats s = (y, s1)" by fastforce
  from reuse_pass_progress [OF assms(2-5) y] obtain act1 where a: "progress q m ws act1 s1"
    "\<And>needs stats1. y = Inr (needs, stats1) \<Longrightarrow> tallied m act1 ws stats1 \<and> distinct needs \<and> set needs \<subseteq> set groups
       \<and> dom act1 = dom act \<union> (set groups - set needs) \<and> (\<forall>i \<in> set needs. \<not> list_ex (reusable i) ws)"
    unfolding reused_def by blast
  show ?thesis
  proof (cases y)
    case (Inl e)
    then show ?thesis using assms(6) y a(1) by (auto simp: drain_batch_def bind_effect_def)
  next
    case (Inr ns)
    obtain needs stats1 where ns: "ns = (needs, stats1)" by fastforce
    note a2 = a(2) [OF Inr [unfolded ns]]
    let ?outs = "batch_outcomes analyze (map snd needs)" and ?stats = "stats1\<lparr>newly_analyzed_texts := newly_analyzed_texts stats1 + length needs\<rparr>"
    show ?thesis
    proof (cases "needs = []")
      case True
      then show ?thesis using assms(6) y a(1) a2 Inr ns by (auto simp: drain_batch_def bind_effect_def)
    next
      case False
      have run: "settle_pass st m (zip needs ?outs) ?stats s1 = (x, s')" using assms(6) y Inr ns False by (simp add: drain_batch_def bind_effect_def)
      have "q (snd (fst p)) (snd p)" if "p \<in> set (zip needs ?outs)" for p
        using assms(1) that by (auto simp: answers_def list_all2_conv_all_nth set_zip) (metis length_map nth_map)
      moreover have "act1 i = None" if "i \<in> set needs" for i
      proof -
        have "i \<notin> dom act" using that a2 assms(4) by auto
        then have "i \<notin> dom act1" using that a2 by simp
        then show ?thesis unfolding domIff by blast
      qed
      ultimately have each: "\<forall>p \<in> set (zip needs ?outs). act1 (fst p) = None \<and> \<not> list_ex (reusable (fst p)) ws \<and> q (snd (fst p)) (snd p)"
        using a2 by (auto dest: set_zip_leftD)
      have firsts: "map fst (zip needs ?outs) = needs" by simp
      have dist: "distinct (map fst (zip needs ?outs))" unfolding firsts using a2 by simp
      have "fst ` set (zip needs ?outs) = set needs" using firsts by (metis list.set_map)
      then have eq: "dom act1 \<union> fst ` set (zip needs ?outs) = dom act \<union> set groups" using a2 by auto
      have t: "tallied m act1 ws ?stats" using a2 by (simp add: tallied_def)
      have valid: "\<And>c r. q c (Inr r) \<Longrightarrow> valid_result r" using assms(1) by (simp add: answers_def)
      show ?thesis using settle_pass_progress [OF valid a(1) dist each t run] unfolding eq .
    qed
  qed
qed

text \<open>The page after the cursor: what it holds of the rows at the start.\<close>

lemma page_of_progress:
  assumes "progress q m ws act s" "0 < b" "pg = take b (sort_key row_key (filter (\<lambda>w. is_pending w \<and> past c w) (table s)))"
  shows "\<forall>v \<in> set pg. \<exists>w \<in> set ws. is_pending w \<and> past c w \<and> row_key w = row_key v"
    and "\<forall>w \<in> set ws. is_pending w \<and> past c w \<and> act (row_identity w) = None \<and> (pg = [] \<or> row_key w \<le> row_key (last pg)) \<longrightarrow> w \<in> set pg"
proof -
  let ?all = "sort_key row_key (filter (\<lambda>w. is_pending w \<and> past c w) (table s))"
  have tab: "table s = map (settle_row m act) ws" and ok: "ok s" using assms(1) by (simp_all add: progress_def)
  show "\<forall>v \<in> set pg. \<exists>w \<in> set ws. is_pending w \<and> past c w \<and> row_key w = row_key v"
  proof
    fix v assume "v \<in> set pg"
    then have "v \<in> set ?all" unfolding assms(3) by (rule in_set_takeD)
    then obtain w where w: "w \<in> set ws" "v = settle_row m act w" "is_pending v" "past c v" by (auto simp: tab)
    then have "is_pending w" using settle_row_settled by metis
    then show "\<exists>w \<in> set ws. is_pending w \<and> past c w \<and> row_key w = row_key v" using w by (intro bexI [of _ w]) simp_all
  qed
  have sorted: "sorted (map row_key ?all)" by simp
  have "distinct (map row_key (filter (\<lambda>w. is_pending w \<and> past c w) (table s)))" using keys [OF ok] by (rule distinct_map_filter)
  then have dist: "distinct (map row_key ?all)" by (simp add: distinct_map)
  show "\<forall>w \<in> set ws. is_pending w \<and> past c w \<and> act (row_identity w) = None \<and> (pg = [] \<or> row_key w \<le> row_key (last pg)) \<longrightarrow> w \<in> set pg"
  proof (intro ballI impI)
    fix w assume w: "w \<in> set ws" "is_pending w \<and> past c w \<and> act (row_identity w) = None \<and> (pg = [] \<or> row_key w \<le> row_key (last pg))"
    then have "settle_row m act w = w" by simp
    then have "w \<in> set (table s)" using w(1) unfolding tab by force
    then have all: "w \<in> set ?all" using w(2) by simp
    then have "pg \<noteq> []" using assms(2,3) by (metis empty_iff empty_set neq0_conv take_eq_Nil)
    then show "w \<in> set pg" using take_upto [OF sorted dist all] w(2) unfolding assms(3) by blast
  qed
qed

definition drained :: "(string option \<Rightarrow> inference_outcome \<Rightarrow> bool) \<Rightarrow> int \<Rightarrow> review_observation list \<Rightarrow> exn + run_stats \<Rightarrow> 's \<Rightarrow> bool" where
  "drained q m ws x s \<longleftrightarrow> (\<exists>act. progress q m ws act s \<and> (\<forall>stats. x = Inr stats \<longrightarrow>
     tallied m act ws stats \<and> (\<forall>w \<in> set ws. is_pending w \<longrightarrow> act (row_identity w) \<noteq> None)))"

text \<open>After a page whose identities are settled: fewer rows are ahead, and every row behind the new cursor was attempted.\<close>

lemma page_step:
  assumes "progress q m ws act s" "0 < b" "pg = take b (sort_key row_key (filter (\<lambda>w. is_pending w \<and> past c w) (table s)))" "pg \<noteq> []"
    and "dom act = set attempted" "\<forall>w \<in> set ws. is_pending w \<and> \<not> past c w \<longrightarrow> row_identity w \<in> set attempted"
  defines "rows \<equiv> map observation_of pg"
  defines "c' \<equiv> Some (po_cursor (last rows))" and "new \<equiv> new_identities attempted rows"
  shows "length (filter (\<lambda>u. is_pending u \<and> past c' u) ws) < length (filter (\<lambda>u. is_pending u \<and> past c u) ws)"
    and "\<forall>u \<in> set ws. is_pending u \<and> \<not> past c' u \<longrightarrow> row_identity u \<in> set (new @ attempted)"
proof -
  note page = page_of_progress [OF assms(1-3)]
  have cur: "c' = Some (row_key (last pg))"
    using assms(4) by (simp add: c'_def rows_def last_map po_cursor_def observation_of_def row_key_def)
  have ids: "po_identity ` set rows = row_identity ` set pg"
    by (auto simp: rows_def po_identity_def observation_of_def row_identity_def image_iff)
  obtain w where w: "w \<in> set ws" "is_pending w" "past c w" "row_key w = row_key (last pg)" using page(1) assms(4) last_in_set by blast
  have later: "past c' u \<Longrightarrow> past c u" for u using w(3,4) by (auto simp: past_def cur split: option.splits)
  show "length (filter (\<lambda>u. is_pending u \<and> past c' u) ws) < length (filter (\<lambda>u. is_pending u \<and> past c u) ws)"
    using later w by (intro length_filter_strict [where w = w]) (auto simp: cur)
  have "row_identity u \<in> set (new @ attempted)" if "u \<in> set ws" "is_pending u \<and> \<not> past c' u" for u
  proof (cases "row_identity u \<in> set attempted")
    case False
    then have "act (row_identity u) = None" using assms(5) by (auto simp: domIff)
    then have "u \<in> set pg" using that page(2) False assms(6) by (auto simp: cur)
    then have "row_identity u \<in> po_identity ` set rows" unfolding ids by simp
    then show ?thesis using False by (simp only: new_def new_identities_set set_append) simp
  qed simp
  then show "\<forall>u \<in> set ws. is_pending u \<and> \<not> past c' u \<longrightarrow> row_identity u \<in> set (new @ attempted)" by blast
qed

lemma drain_loop_progress:
  assumes "answers q analyze" "0 < sw_batch_size sw"
  shows "progress q (sw_max_attempts sw) ws act s \<Longrightarrow> tallied (sw_max_attempts sw) act ws stats \<Longrightarrow> dom act = set attempted \<Longrightarrow>
    \<forall>w \<in> set ws. is_pending w \<and> \<not> past c w \<longrightarrow> row_identity w \<in> set attempted \<Longrightarrow>
    \<exists>x s'. drain_loop st analyze sw c attempted stats s = Some (x, s') \<and> drained q (sw_max_attempts sw) ws x s'"
proof (induction "length (filter (\<lambda>w. is_pending w \<and> past c w) ws)" arbitrary: act s stats attempted c rule: less_induct)
  case less
  obtain v s1 where v: "fetch_pending_after st c (sw_batch_size sw) s = (v, s1)" by fastforce
  have ok: "ok s" using less.prems(1) by (simp add: progress_def)
  note f = fetched [OF ok v] and unfold = drain_loop.simps [of st analyze sw c]
  have p1: "progress q (sw_max_attempts sw) ws act s1" using progress_same [OF less.prems(1)] f by blast
  define pg where "pg = take (sw_batch_size sw) (sort_key row_key (filter (\<lambda>w. is_pending w \<and> past c w) (table s)))"
  consider e where "v = Inl e" | "v = Inr []" "pg = []" | "v = Inr (map observation_of pg)" "pg \<noteq> []"
    using f by (cases v) (auto simp flip: pg_def)
  then show ?case
  proof cases
    case (1 e)
    then show ?thesis using v p1 by (auto simp: unfold drained_def)
  next
    case 2
    have "act (row_identity w) \<noteq> None" if "w \<in> set ws" "is_pending w" for w
      using that page_of_progress(2) [OF less.prems(1) assms(2) pg_def] 2(2) less.prems(3,4) by (cases "past c w") (fastforce, blast)
    then show ?thesis using v 2(1) p1 less.prems(2) by (auto simp: unfold drained_def)
  next
    case 3
    let ?new = "new_identities attempted (map observation_of pg)"
    note step = page_step [OF less.prems(1) assms(2) pg_def 3(2) less.prems(3,4)]
    obtain y s2 where y: "drain_batch st analyze (sw_max_attempts sw) ?new stats s1 = (y, s2)" by fastforce
    have "\<forall>i \<in> set ?new. act i = None" using less.prems(3) by (auto simp: new_identities_set)
    from drain_batch_progress [OF assms(1) p1 new_identities_distinct this less.prems(2) y] obtain act1 where
      a: "progress q (sw_max_attempts sw) ws act1 s2" "\<And>stats'. y = Inr stats' \<Longrightarrow> tallied (sw_max_attempts sw) act1 ws stats' \<and> dom act1 = dom act \<union> set ?new" by blast
    show ?thesis
    proof (cases y)
      case (Inl e)
      then show ?thesis using v 3 y a(1) by (auto simp: unfold drained_def)
    next
      case (Inr stats1)
      have "dom act1 = set (?new @ attempted)" using a(2) [OF Inr] less.prems(3) by auto
      then show ?thesis using less.hyps [OF step(1) a(1) _ _ step(2)] a(2) [OF Inr] v 3 y Inr by (simp add: unfold)
    qed
  qed
qed

text \<open>A drain returns, and what it leaves is a settlement of the rows it found, of all of them unless it raises.\<close>

lemma drain_progress:
  assumes "answers q analyze" "0 < sw_batch_size sw" "ok s"
  obtains x s' where "drain st analyze duration sw s = Some (x, s')" "drained q (sw_max_attempts sw) (table s) x s'"
proof -
  let ?m = "sw_max_attempts sw"
  obtain y s1 where y: "count_pending st s = (y, s1)" by fastforce
  note c = counted [OF assms(3) y]
  then have p1: "progress q ?m (table s) Map.empty s1" by (simp add: progress_def)
  show thesis
  proof (cases y)
    case (Inl e)
    then show thesis using that [of "Inl e" s1] y p1 by (auto simp: drain_def drained_def)
  next
    case (Inr n)
    then have "tallied ?m Map.empty (table s) (new_stats n)" using c by (simp add: tallied_def settled_as_def new_stats_def)
    from drain_loop_progress [OF assms(1,2) p1 this, of "[]" None] obtain x s' where x: "drain_loop st analyze sw None [] (new_stats n) s1 = Some (x, s')"
      "drained q ?m (table s) x s'" by (auto simp: past_def)
    have "drained q ?m (table s) (map_sum id (\<lambda>stats. stats\<lparr>duration_seconds := duration\<rparr>) x) s'"
      using x(2) by (cases x) (auto simp: drained_def tallied_def)
    then show thesis using that y Inr x(1) by (simp add: drain_def)
  qed
qed

lemma drained_accounts:
  assumes "answers q analyze" "drained q m ws (Inr stats) s"
  shows "done_observations stats + skipped_observations stats + failed_observations stats + retry_pending_observations stats
      = pending_observations stats"
proof -
  obtain act where a: "\<And>i a. act i = Some a \<Longrightarrow> outcome_allowed q ws i (snd a)" "tallied m act ws stats"
    "\<And>w. w \<in> set ws \<Longrightarrow> is_pending w \<Longrightarrow> act (row_identity w) \<noteq> None"
    using assms(2) unfolding drained_def progress_def by blast
  have "valid_result r" if "outcome_allowed q ws i (Inr r)" for i r
    using that assms(1) by (auto simp: outcome_allowed_def answers_def best_reusable_valid split: if_splits)
  then have "\<forall>w \<in> set ws. is_pending w \<longrightarrow> (\<exists>a. act (row_identity w) = Some a \<and> (\<forall>r. snd a = Inr r \<longrightarrow> valid_result r))"
    using a(1,3) by (metis not_None_eq)
  then show ?thesis using settled_as_total [of ws act m] a(2) by (simp add: tallied_def)
qed

end

text \<open>A store that answers: while it is calm, no operation raises.\<close>

definition smallint_max :: int where
  "smallint_max = 32767"

locale calm_store = sentiment_store st table ok
  for st :: "'s sentiment_store_ops" and table :: "'s \<Rightarrow> review_observation list" and ok :: "'s \<Rightarrow> bool" +
  fixes calm :: "'s \<Rightarrow> bool"
  assumes calm_count: "ok s \<Longrightarrow> calm s \<Longrightarrow> count_pending st s = (x, s') \<Longrightarrow> \<not> isl x \<and> calm s'"
    and calm_fetch: "ok s \<Longrightarrow> calm s \<Longrightarrow> fetch_pending_after st c b s = (v, s') \<Longrightarrow> \<not> isl v \<and> calm s'"
    and calm_find: "ok s \<Longrightarrow> calm s \<Longrightarrow> find_reusable st i s = (y, s') \<Longrightarrow> \<not> isl y \<and> calm s'"
    and calm_apply: "ok s \<Longrightarrow> calm s \<Longrightarrow> valid_result r \<Longrightarrow> apply_result st i r s = (z, s') \<Longrightarrow> \<not> isl z \<and> calm s'"
    and calm_failure: "ok s \<Longrightarrow> calm s \<Longrightarrow> m \<le> smallint_max \<Longrightarrow> record_failure st i m s = (u, s') \<Longrightarrow> \<not> isl u \<and> calm s'"
begin

lemma reuse_pass_calm:
  "ok s \<Longrightarrow> calm s \<Longrightarrow> reuse_pass st is stats s = (x, s') \<Longrightarrow> \<not> isl x \<and> ok s' \<and> calm s'"
proof (induction "is" arbitrary: s stats x s')
  case (Cons i "is")
  obtain y s1 where y: "find_reusable st i s = (y, s1)" by fastforce
  have s1: "ok s1" "calm s1" "\<not> isl y" and best: "\<And>r. y = Inr (Some r) \<Longrightarrow> valid_result r"
    using found [OF Cons.prems(1) y] calm_find [OF Cons.prems(1,2) y] best_reusable_valid by blast+
  consider "y = Inr None" | r where "y = Inr (Some r)" using s1(3) by (metis isl_def option.exhaust sum.exhaust)
  then show ?case
  proof cases
    case 1
    obtain x2 s2 where rest: "reuse_pass st is stats s1 = (x2, s2)" by fastforce
    show ?thesis using Cons.IH [OF s1(1,2) rest] Cons.prems(3) y 1 rest by (cases x2) (auto simp: bind_effect_def)
  next
    case (2 r)
    obtain z s2 where z: "apply_result st i r s1 = (z, s2)" by fastforce
    have "ok s2" "calm s2" "\<not> isl z" using updated [OF s1(1) best [OF 2] z] calm_apply [OF s1(1,2) best [OF 2] z] by blast+
    then show ?thesis
    proof (cases z)
      case (Inr n)
      have "reuse_pass st is (count_applied r n (stats\<lparr>reused_results := reused_results stats + n\<rparr>)) s2 = (x, s')"
        using Cons.prems(3) y 2 z Inr by (simp add: bind_effect_def)
      then show ?thesis by (rule Cons.IH [OF \<open>ok s2\<close> \<open>calm s2\<close>])
    qed simp
  qed
qed auto

lemma settle_pass_calm:
  assumes "m \<le> smallint_max"
  shows "ok s \<Longrightarrow> calm s \<Longrightarrow> \<forall>p \<in> set ps. \<forall>r. snd p = Inr r \<longrightarrow> valid_result r \<Longrightarrow> settle_pass st m ps stats s = (x, s')
     \<Longrightarrow> \<not> isl x \<and> ok s' \<and> calm s'"
proof (induction ps arbitrary: s stats x s')
  case (Cons p ps)
  obtain i oc where p: "p = (i, oc)" by fastforce
  have later: "\<forall>p \<in> set ps. \<forall>r. snd p = Inr r \<longrightarrow> valid_result r" using Cons.prems(3) by simp
  show ?case
  proof (cases oc)
    case (Inr r)
    then have v: "valid_result r" using Cons.prems(3) p by simp
    obtain z s1 where z: "apply_result st i r s = (z, s1)" by fastforce
    have s1: "ok s1" "calm s1" "\<not> isl z" using updated [OF Cons.prems(1) v z] calm_apply [OF Cons.prems(1,2) v z] by blast+
    then obtain n where "z = Inr n" by (cases z) simp_all
    then have "settle_pass st m ps (count_applied r n stats) s1 = (x, s')" using Cons.prems(4) z p Inr by (simp add: bind_effect_def)
    then show ?thesis by (rule Cons.IH [OF s1(1,2) later])
  next
    case (Inl e)
    obtain u s1 where u: "record_failure st i m s = (u, s1)" by fastforce
    have s1: "ok s1" "calm s1" "\<not> isl u" using failed [OF Cons.prems(1) u] calm_failure [OF Cons.prems(1,2) assms u] by blast+
    then obtain n k where "u = Inr (n, k)" by (cases u) auto
    then have "settle_pass st m ps (stats\<lparr>retry_pending_observations := retry_pending_observations stats + n,
        failed_observations := failed_observations stats + k\<rparr>) s1 = (x, s')" using Cons.prems(4) u p Inl by (simp add: bind_effect_def)
    then show ?thesis by (rule Cons.IH [OF s1(1,2) later])
  qed
qed auto

lemma drain_batch_calm:
  assumes "answers q analyze" "m \<le> smallint_max" "ok s" "calm s" "drain_batch st analyze m groups stats s = (x, s')"
  shows "\<not> isl x \<and> ok s' \<and> calm s'"
proof -
  obtain y s1 where y: "reuse_pass st groups stats s = (y, s1)" by fastforce
  note c = reuse_pass_calm [OF assms(3,4) y]
  then obtain needs stats1 where ns: "y = Inr (needs, stats1)" by (cases y) auto
  have "valid_result r" if "Inr r \<in> set (batch_outcomes analyze cs)" for cs r
  proof -
    obtain k where "k < length cs" "batch_outcomes analyze cs ! k = Inr r" using \<open>Inr r \<in> _\<close> by (metis batch_outcomes_length in_set_conv_nth)
    then show ?thesis using assms(1) unfolding answers_def list_all2_conv_all_nth by metis
  qed
  then have v: "\<forall>p \<in> set (zip needs (batch_outcomes analyze (map snd needs))). \<forall>r. snd p = Inr r \<longrightarrow> valid_result r"
    by (metis prod.collapse set_zip_rightD)
  show ?thesis
  proof (cases "needs = []")
    case False
    have "settle_pass st m (zip needs (batch_outcomes analyze (map snd needs)))
        (stats1\<lparr>newly_analyzed_texts := newly_analyzed_texts stats1 + length needs\<rparr>) s1 = (x, s')"
      using assms(5) y ns False by (simp add: drain_batch_def bind_effect_def)
    then show ?thesis using settle_pass_calm [OF assms(2) _ _ v] c by blast
  qed (use assms(5) y ns c in \<open>auto simp: drain_batch_def bind_effect_def\<close>)
qed

lemma drain_loop_calm:
  assumes "answers q analyze" "sw_max_attempts sw \<le> smallint_max"
    and "drain_loop st analyze sw c attempted stats s = Some y" "ok s" "calm s"
  shows "\<not> isl (fst y)"
proof -
  let ?P = "\<lambda>st' analyze' sw' c attempted stats s y. st' = st \<and> analyze' = analyze \<and> sw' = sw \<and> ok s \<and> calm s \<longrightarrow> \<not> isl (fst y)"
  have "?P st analyze sw c attempted stats s y"
  proof (rule drain_loop.raw_induct [where P = ?P, OF _ assms(3)], goal_cases)
    case (1 loop st' analyze' sw' c attempted stats s y)
    show ?case
    proof (intro impI, elim conjE)
      assume eqs: "st' = st" "analyze' = analyze" "sw' = sw" and s: "ok s" "calm s"
      obtain v s1 where v: "fetch_pending_after st c (sw_batch_size sw) s = (v, s1)" by fastforce
      have s1: "\<not> isl v" "ok s1" "calm s1" using fetched [OF s(1) v] calm_fetch [OF s v] by blast+
      then obtain rows where rows: "v = Inr rows" by (cases v) auto
      show "\<not> isl (fst y)"
      proof (cases "rows = []")
        case True
        then show ?thesis using 1(2) v rows by (auto simp: eqs)
      next
        case False
        obtain z s2 where z: "drain_batch st analyze (sw_max_attempts sw) (new_identities attempted rows) stats s1 = (z, s2)" by fastforce
        have s2: "\<not> isl z" "ok s2" "calm s2" using drain_batch_calm [OF assms(1,2) s1(2,3) z] by blast+
        then obtain stats' where "z = Inr stats'" by (cases z) auto
        then have "loop st analyze sw (Some (po_cursor (last rows))) (new_identities attempted rows @ attempted) stats' s2 = Some y"
          using 1(2) v rows False z by (simp add: eqs)
        from 1(1) [OF this] show ?thesis using s2 by blast
      qed
    qed
  qed
  then show ?thesis using assms(4,5) by blast
qed

lemma drain_calm:
  assumes "answers q analyze" "sw_max_attempts sw \<le> smallint_max" "ok s" "calm s" "drain st analyze duration sw s = Some (x, s')"
  shows "\<not> isl x"
proof -
  obtain y s1 where y: "count_pending st s = (y, s1)" by fastforce
  have s1: "\<not> isl y" "ok s1" "calm s1" using counted [OF assms(3) y] calm_count [OF assms(3,4) y] by blast+
  then obtain n where n: "y = Inr n" by (cases y) auto
  then obtain x2 s2 where x2: "drain_loop st analyze sw None [] (new_stats n) s1 = Some (x2, s2)"
    "x = map_sum id (\<lambda>stats. stats\<lparr>duration_seconds := duration\<rparr>) x2" using assms(5) y by (auto simp: drain_def)
  then show ?thesis using drain_loop_calm [OF assms(1,2) x2(1) s1(2,3)] by (cases x2) auto
qed

end

end
