(* ===== verification/Sentiment_Postgres.thy ===== *)
theory Sentiment_Postgres
  imports Sentiment_Worker
begin

text \<open>
  \<open>PostgresStore\<close> of \<open>sentiment/worker.py\<close>: the statements on \<open>review_observations\<close> and the advisory lock, the
  interpretation of the store's contract on them, and the properties of a drain of that table.

  The connection commits every statement on its own. It may be lost at any statement, before the statement takes
  effect or after, as an arbitrary function of the statement's number says; \<open>now()\<close> is an arbitrary function of it too.
\<close>

section \<open>The store\<close>

datatype fault = Lost_before exn | Lost_after exn

record pg_state =
  pg_rows :: "review_observation list"
  pg_lock :: "(nat \<times> nat) option"
  pg_session :: nat
  pg_locked :: bool
  pg_clock :: "nat \<Rightarrow> seconds"
  pg_faults :: "nat \<Rightarrow> fault option"
  pg_tick :: nat

definition statement :: "(seconds \<Rightarrow> (pg_state, 'a) effect) \<Rightarrow> (pg_state, 'a) effect" where
  "statement run s =
     (let s1 = s\<lparr>pg_tick := Suc (pg_tick s)\<rparr>; after = run (pg_clock s (pg_tick s)) s1
      in case pg_faults s (pg_tick s) of
           None \<Rightarrow> after
         | Some (Lost_before e) \<Rightarrow> (Inl e, s1)
         | Some (Lost_after e) \<Rightarrow> (Inl e, snd after))"

text \<open>The session-level advisory lock is counted within the session that holds it.\<close>

definition pg_try_advisory_lock :: "(pg_state, bool) effect" where
  "pg_try_advisory_lock s = (case pg_lock s of
     None \<Rightarrow> (Inr True, s\<lparr>pg_lock := Some (pg_session s, 1)\<rparr>)
   | Some (holder, n) \<Rightarrow> if holder = pg_session s then (Inr True, s\<lparr>pg_lock := Some (holder, Suc n)\<rparr>) else (Inr False, s))"

definition pg_advisory_unlock :: "(pg_state, unit) effect" where
  "pg_advisory_unlock s = (Inr (), case pg_lock s of
     Some (holder, Suc n) \<Rightarrow> if holder = pg_session s then s\<lparr>pg_lock := (if n = 0 then None else Some (holder, n))\<rparr> else s
   | _ \<Rightarrow> s)"

definition pg_do_try_lock :: "(pg_state, bool) effect" where
  "pg_do_try_lock = bind_effect (statement (\<lambda>_. pg_try_advisory_lock)) (\<lambda>got s. (Inr got, s\<lparr>pg_locked := got\<rparr>))"

definition pg_do_unlock :: "(pg_state, unit) effect" where
  "pg_do_unlock s = (if pg_locked s
     then bind_effect (statement (\<lambda>_. pg_advisory_unlock)) (\<lambda>_ s'. (Inr (), s'\<lparr>pg_locked := False\<rparr>)) s
     else (Inr (), s))"

definition pg_count_pending :: "(pg_state, nat) effect" where
  "pg_count_pending = statement (\<lambda>_ s. (Inr (length (filter is_pending (pg_rows s))), s))"

definition pg_fetch_pending_after :: "cursor option \<Rightarrow> nat \<Rightarrow> (pg_state, pending_observation list) effect" where
  "pg_fetch_pending_after c limit = statement (\<lambda>_ s.
     (Inr (map observation_of (take limit (sort_key row_key (filter (\<lambda>w. is_pending w \<and> past c w) (pg_rows s))))), s))"

definition pg_find_reusable :: "identity \<Rightarrow> (pg_state, analysis_result option) effect" where
  "pg_find_reusable i = statement (\<lambda>_ s. (case sort_key reuse_rank (filter (reusable i) (pg_rows s)) of
     [] \<Rightarrow> Inr None | w # _ \<Rightarrow> map_sum id Some (row_result w), s))"

definition selected :: "identity \<Rightarrow> review_observation \<Rightarrow> bool" where
  "selected i w \<longleftrightarrow> is_pending w \<and> row_identity w = i"

text \<open>The check constraints of the table on an updated row.\<close>

definition sentiment_row_ok :: "review_observation \<Rightarrow> bool" where
  "sentiment_row_ok w \<longleftrightarrow> ob_sentiment_status w \<in> {''pending'', ''done'', ''skipped'', ''failed''}
     \<and> ob_sentiment_label w \<in> {None, Some ''positive'', Some ''neutral'', Some ''negative''}"

definition update_selected :: "identity \<Rightarrow> (review_observation \<Rightarrow> review_observation) \<Rightarrow> pg_state \<Rightarrow> pg_state" where
  "update_selected i f s = s\<lparr>pg_rows := map (\<lambda>w. if selected i w then f w else w) (pg_rows s)\<rparr>"

definition pg_apply_result :: "identity \<Rightarrow> analysis_result \<Rightarrow> (pg_state, nat) effect" where
  "pg_apply_result i r = statement (\<lambda>t s.
     let ws = filter (selected i) (pg_rows s)
     in if list_ex (\<lambda>w. \<not> sentiment_row_ok (applied t r w)) ws then (Inl (integrity_error ''review_observations''), s)
        else (Inr (length ws), update_selected i (applied t r) s))"

definition pg_record_failure :: "identity \<Rightarrow> int \<Rightarrow> (pg_state, nat \<times> nat) effect" where
  "pg_record_failure i max_attempts = statement (\<lambda>t s.
     let ws = filter (selected i) (pg_rows s); statuses = map (\<lambda>w. ob_sentiment_status (failed_once max_attempts t w)) ws
     in if list_ex (\<lambda>w. smallint_max < ob_sentiment_attempt_count w + 1) ws then (Inl (data_error ''sentiment_attempt_count''), s)
        else (Inr (length (filter (\<lambda>x. x = ''pending'') statuses), length (filter (\<lambda>x. x = ''failed'') statuses)),
              update_selected i (failed_once max_attempts t) s))"

definition postgres_store :: "pg_state sentiment_store_ops" where
  "postgres_store = \<lparr>try_lock = pg_do_try_lock, unlock = pg_do_unlock, count_pending = pg_count_pending,
     fetch_pending_after = pg_fetch_pending_after, find_reusable = pg_find_reusable, apply_result = pg_apply_result,
     record_failure = pg_record_failure\<rparr>"

lemmas postgres_ops = postgres_store_def sentiment_store_ops.simps pg_count_pending_def pg_fetch_pending_after_def pg_find_reusable_def
  pg_apply_result_def pg_record_failure_def

section \<open>The contract\<close>

text \<open>The primary key of the table.\<close>

definition pg_ok :: "pg_state \<Rightarrow> bool" where
  "pg_ok s \<longleftrightarrow> distinct (map row_key (pg_rows s))"

text \<open>No statement is lost, no attempt counter overflows, and what would be reused can be read.\<close>

definition pg_calm :: "pg_state \<Rightarrow> bool" where
  "pg_calm s \<longleftrightarrow> (\<forall>n. pg_faults s n = None) \<and> (\<forall>w \<in> set (pg_rows s). is_pending w \<longrightarrow> ob_sentiment_attempt_count w < smallint_max)
     \<and> (\<forall>w \<in> set (pg_rows s). \<forall>i. reusable i w \<longrightarrow> \<not> isl (row_result w))"

lemma statement_cases:
  assumes "statement run s = (x, s')" "s1 = s\<lparr>pg_tick := Suc (pg_tick s)\<rparr>"
  obtains "run (pg_clock s (pg_tick s)) s1 = (x, s')"
    | e where "x = Inl e" "s' = s1" "pg_faults s (pg_tick s) \<noteq> None"
    | e y where "x = Inl e" "run (pg_clock s (pg_tick s)) s1 = (y, s')" "pg_faults s (pg_tick s) \<noteq> None"
  using assms by (auto simp: statement_def Let_def split: option.splits fault.splits) (metis prod.collapse)

lemma settle_identity_selected:
  "settle_identity m i (t, Inr r) (pg_rows s) = pg_rows (update_selected i (applied t r) s)"
  "settle_identity m i (t, Inl e) (pg_rows s) = pg_rows (update_selected i (failed_once m t) s)"
  by (simp_all add: settle_identity_def update_selected_def selected_def settle_with_def cong: if_cong)

lemma settle_identity_keys: "map row_key (settle_identity m i a ws) = map row_key ws"
  by (simp add: settle_identity_def)

lemma find_reusable_spec:
  assumes "x = (case sort_key reuse_rank (filter (reusable i) ws) of [] \<Rightarrow> Inr None | w # _ \<Rightarrow> map_sum id Some (row_result w))"
  shows "(x = Inr None \<longrightarrow> \<not> list_ex (reusable i) ws) \<and> (\<forall>r. x = Inr (Some r) \<longrightarrow> best_reusable ws i r)"
proof (cases "sort_key reuse_rank (filter (reusable i) ws)")
  case Nil
  then have "set (filter (reusable i) ws) = {}" by (metis set_empty set_sort)
  then show ?thesis using assms Nil by (auto simp: list_ex_iff filter_empty_conv)
next
  case (Cons w rest)
  have "set (w # rest) = set (filter (reusable i) ws)" by (metis Cons set_sort)
  moreover have "sorted (map reuse_rank (w # rest))" by (metis Cons sorted_sort_key)
  ultimately have "w \<in> set ws" "reusable i w" "\<forall>v \<in> set ws. reusable i v \<longrightarrow> reuse_rank w \<le> reuse_rank v" by auto
  then show ?thesis using assms Cons by (cases "row_result w") (auto simp: best_reusable_def)
qed

lemma read_statement:
  assumes "statement (\<lambda>_ s. (g (pg_rows s), s)) s = (x, s')"
  shows "pg_rows s' = pg_rows s" and "\<forall>v. x = Inr v \<longrightarrow> g (pg_rows s) = Inr v"
    and "(\<forall>n. pg_faults s n = None) \<Longrightarrow> x = g (pg_rows s) \<and> (\<forall>n. pg_faults s' n = None)"
  using assms by (auto elim!: statement_cases [OF _ refl])

lemma filter_selected: "filter (selected i) ws = filter (\<lambda>w. is_pending w \<and> row_identity w = i) ws"
  by (simp add: selected_def [abs_def])

lemma apply_result_spec:
  assumes "pg_ok s" "pg_apply_result i r s = (z, s')"
  shows "pg_ok s'
      \<and> (pg_rows s' = pg_rows s \<and> isl z
         \<or> (\<exists>t. pg_rows s' = settle_identity m i (t, Inr r) (pg_rows s)
              \<and> (\<forall>n. z = Inr n \<longrightarrow> n = length (filter (\<lambda>w. is_pending w \<and> row_identity w = i) (pg_rows s)))))"
proof -
  let ?s1 = "s\<lparr>pg_tick := Suc (pg_tick s)\<rparr>" and ?t = "pg_clock s (pg_tick s)"
  have rows: "pg_rows (update_selected i (applied ?t r) ?s1) = settle_identity m i (?t, Inr r) (pg_rows s)"
    using settle_identity_selected(1) [of m i ?t r ?s1] by simp
  have ok: "pg_ok s2" if "pg_rows s2 = pg_rows s \<or> pg_rows s2 = settle_identity m i (?t, Inr r) (pg_rows s)" for s2
    using assms(1) that by (auto simp: pg_ok_def settle_identity_keys)
  from assms(2) [unfolded pg_apply_result_def] show ?thesis
    by (rule statement_cases [OF _ refl]) (use rows ok in \<open>auto simp: Let_def filter_selected split: if_splits\<close>)
qed

lemma record_failure_spec:
  assumes "pg_ok s" "pg_record_failure i m s = (u, s')"
  shows "pg_ok s'
      \<and> (pg_rows s' = pg_rows s \<and> isl u
         \<or> (\<exists>t. pg_rows s' = settle_identity m i (t, Inl e) (pg_rows s)
              \<and> (\<forall>p f. u = Inr (p, f) \<longrightarrow>
                   p = length (filter (\<lambda>w. is_pending w \<and> row_identity w = i \<and> ob_sentiment_status (failed_once m t w) = ''pending'') (pg_rows s))
                 \<and> f = length (filter (\<lambda>w. is_pending w \<and> row_identity w = i \<and> ob_sentiment_status (failed_once m t w) = ''failed'') (pg_rows s)))))"
proof -
  let ?s1 = "s\<lparr>pg_tick := Suc (pg_tick s)\<rparr>" and ?t = "pg_clock s (pg_tick s)"
  have rows: "pg_rows (update_selected i (failed_once m ?t) ?s1) = settle_identity m i (?t, Inl e) (pg_rows s)"
    using settle_identity_selected(2) [of m i ?t e ?s1] by simp
  have ok: "pg_ok s2" if "pg_rows s2 = pg_rows s \<or> pg_rows s2 = settle_identity m i (?t, Inl e) (pg_rows s)" for s2
    using assms(1) that by (auto simp: pg_ok_def settle_identity_keys)
  have count: "length (filter (\<lambda>x. x = st) (map f (filter (selected i) ws))) = length (filter (\<lambda>w. is_pending w \<and> row_identity w = i \<and> f w = st) ws)"
    for st :: string and f ws by (induction ws) (auto simp: selected_def)
  from assms(2) [unfolded pg_record_failure_def] show ?thesis
    by (rule statement_cases [OF _ refl]) (use rows ok count in \<open>auto simp: Let_def split: if_splits\<close>)
qed

interpretation pg: sentiment_store postgres_store pg_rows pg_ok
proof
  fix s s' x
  assume "pg_ok s" "count_pending postgres_store s = (x, s')"
  then show "pg_ok s' \<and> pg_rows s' = pg_rows s \<and> (\<forall>n. x = Inr n \<longrightarrow> n = length (filter is_pending (pg_rows s)))"
    using read_statement [of "\<lambda>ws. Inr (length (filter is_pending ws))" s x s'] by (auto simp: postgres_ops pg_ok_def)
next
  fix s s' c b v
  assume "pg_ok s" "fetch_pending_after postgres_store c b s = (v, s')"
  then show "pg_ok s' \<and> pg_rows s' = pg_rows s \<and> (\<forall>ps. v = Inr ps \<longrightarrow>
      ps = map observation_of (take b (sort_key row_key (filter (\<lambda>w. is_pending w \<and> past c w) (pg_rows s)))))"
    using read_statement [of "\<lambda>ws. Inr (map observation_of (take b (sort_key row_key (filter (\<lambda>w. is_pending w \<and> past c w) ws))))" s v s']
    by (auto simp: postgres_ops pg_ok_def)
next
  fix s s' i y
  let ?g = "\<lambda>ws. case sort_key reuse_rank (filter (reusable i) ws) of [] \<Rightarrow> Inr None | w # _ \<Rightarrow> map_sum id Some (row_result w)"
  assume "pg_ok s" "find_reusable postgres_store i s = (y, s')"
  then have "pg_ok s" "pg_rows s' = pg_rows s" "\<forall>v. y = Inr v \<longrightarrow> ?g (pg_rows s) = Inr v"
    using read_statement(1,2) [of ?g s y s'] by (simp_all add: postgres_ops)
  then show "pg_ok s' \<and> pg_rows s' = pg_rows s \<and> (y = Inr None \<longrightarrow> \<not> list_ex (reusable i) (pg_rows s)) \<and> (\<forall>r. y = Inr (Some r) \<longrightarrow> best_reusable (pg_rows s) i r)"
    using find_reusable_spec [OF refl, of i "pg_rows s"] unfolding pg_ok_def by metis
qed (simp add: pg_ok_def, unfold postgres_store_def sentiment_store_ops.simps, rule apply_result_spec, assumption+, rule record_failure_spec, assumption+)

text \<open>The rows a calm table can hold.\<close>

definition calm_row :: "review_observation \<Rightarrow> bool" where
  "calm_row w \<longleftrightarrow> (is_pending w \<longrightarrow> ob_sentiment_attempt_count w < smallint_max) \<and> (\<forall>i. reusable i w \<longrightarrow> \<not> isl (row_result w))"

lemma pg_calm_rows: "pg_calm s \<longleftrightarrow> (\<forall>n. pg_faults s n = None) \<and> (\<forall>w \<in> set (pg_rows s). calm_row w)"
  by (auto simp: pg_calm_def calm_row_def)

lemma valid_result_accepted: "valid_result r \<Longrightarrow> new_analysis_result (sr_language r) (sr_label r) (sr_status r) = Inr r"
  by (cases r) (auto simp: valid_result_def new_analysis_result_def)

lemma calm_applied: "valid_result r \<Longrightarrow> calm_row (applied t r w)"
  using valid_result_accepted [of r] by (auto simp: calm_row_def applied_def row_result_def is_pending_def valid_result_def)

lemma calm_failed: "m \<le> smallint_max \<Longrightarrow> calm_row w \<Longrightarrow> is_pending w \<Longrightarrow> calm_row (failed_once m t w)"
  by (auto simp: calm_row_def failed_once_def is_pending_def reusable_def Let_def)

lemma calm_updated:
  assumes "pg_calm s" "\<And>w. w \<in> set (pg_rows s) \<Longrightarrow> selected i w \<Longrightarrow> calm_row (f w)"
  shows "pg_calm (update_selected i f (s\<lparr>pg_tick := n\<rparr>))"
  using assms by (auto simp: pg_calm_rows update_selected_def)

lemma calm_statement: "pg_calm s \<Longrightarrow> statement run s = run (pg_clock s (pg_tick s)) (s\<lparr>pg_tick := Suc (pg_tick s)\<rparr>)"
  by (simp add: statement_def pg_calm_rows Let_def)

lemma calm_ticked: "pg_calm (s\<lparr>pg_tick := n\<rparr>) = pg_calm s"
  by (simp add: pg_calm_rows)

interpretation pg: calm_store postgres_store pg_rows pg_ok pg_calm
proof
  fix s s' i y
  assume "pg_calm s" "find_reusable postgres_store i s = (y, s')"
  moreover have "\<not> isl (row_result w)" if "sort_key reuse_rank (filter (reusable i) (pg_rows s)) = w # rest" for w rest
  proof -
    have "w \<in> set (filter (reusable i) (pg_rows s))" using that by (metis list.set_intros(1) set_sort)
    then show ?thesis using \<open>pg_calm s\<close> unfolding pg_calm_rows calm_row_def set_filter by blast
  qed
  ultimately show "\<not> isl y \<and> pg_calm s'" by (auto simp: postgres_ops calm_statement calm_ticked isl_map_sum split: list.splits)
next
  fix s s' r i z
  assume a: "pg_calm s" "valid_result r" "apply_result postgres_store i r s = (z, s')"
  have "sentiment_row_ok (applied t r w)" for t w using a(2) by (auto simp: sentiment_row_ok_def applied_def valid_result_def)
  moreover have "pg_calm (update_selected i (applied t r) (s\<lparr>pg_tick := n\<rparr>))" for t n
    using a(1,2) by (intro calm_updated calm_applied)
  ultimately show "\<not> isl z \<and> pg_calm s'" using a
    by (auto simp: postgres_ops calm_statement Let_def list_ex_iff)
next
  fix s s' m i u
  assume a: "pg_calm s" "m \<le> smallint_max" "record_failure postgres_store i m s = (u, s')"
  have "\<not> smallint_max < ob_sentiment_attempt_count w + 1" if "w \<in> set (pg_rows s)" "selected i w" for w
    using a(1) that by (auto simp: pg_calm_rows calm_row_def selected_def)
  moreover have "pg_calm (update_selected i (failed_once m t) (s\<lparr>pg_tick := n\<rparr>))" for t n
    using a(1,2) by (intro calm_updated calm_failed) (auto simp: pg_calm_rows selected_def)
  ultimately show "\<not> isl u \<and> pg_calm s'" using a by (fastforce simp: postgres_ops calm_statement Let_def list_ex_iff split: if_splits)
qed (auto simp: postgres_ops calm_statement calm_ticked)

section \<open>Properties\<close>

text \<open>Two pending observations of a text of one review, and one of another that was analyzed.\<close>

definition demo_observation :: "uuid \<Rightarrow> string \<Rightarrow> string \<Rightarrow> review_observation" where
  "demo_observation task content status = \<lparr>ob_crawl_task_id = task, ob_review_id = 1, ob_observed_at = 0, ob_position = 1, ob_score = 5,
     ob_thumbs_up_count = 0, ob_source_adapter = ''gplay'', ob_content = Some content, ob_source_at = None,
     ob_sentiment_language = None, ob_sentiment_label = None, ob_sentiment_status = status,
     ob_sentiment_processed_at = None, ob_sentiment_attempt_count = 0\<rparr>"

definition demo_pg :: pg_state where
  "demo_pg = \<lparr>pg_rows = [demo_observation 1 ''great'' ''pending'', demo_observation 2 ''good'' ''pending'', demo_observation 3 ''great'' ''pending''],
     pg_lock = None, pg_session = 1, pg_locked = False, pg_clock = (\<lambda>n. of_nat n), pg_faults = (\<lambda>_. None), pg_tick = 0\<rparr>"

lemma demo_pg_ok: "pg_ok demo_pg"
  by (simp add: pg_ok_def demo_pg_def demo_observation_def row_key_def)

lemma demo_pg_calm: "pg_calm demo_pg"
  by (simp add: pg_calm_def demo_pg_def demo_observation_def smallint_max_def reusable_def)

lemma demo_worker: "new_sentiment_worker 1 3 = Inr \<lparr>sw_batch_size = 1, sw_max_attempts = 3\<rparr>"
  by (simp add: new_sentiment_worker_def)

text \<open>
  C5: a crash is safe. Whatever statement of a drain the connection is lost at, and whatever the analyzer
  returns or raises, the drain ends and leaves the table with each text of a review either as it was or settled as a
  whole: its pending rows all got the one outcome, and no other row was touched. When the drain
  returns its statistics, they are the numbers of rows that ended in each state and add up to the rows that were pending.
\<close>

theorem drain_is_crash_safe:
  assumes "new_sentiment_worker b m = Inr sw" "pg_ok s" "answers (\<lambda>c oc. \<forall>r. oc = Inr r \<longrightarrow> valid_result r) analyze"
  shows "\<exists>x s' act. drain postgres_store analyze duration sw s = Some (x, s') \<and> pg_rows s' = map (settle_row m act) (pg_rows s) \<and> pg_ok s'
    \<and> (\<forall>stats. x = Inr stats \<longrightarrow> (\<forall>w \<in> set (pg_rows s). is_pending w \<longrightarrow> act (row_identity w) \<noteq> None) \<and> tallied m act (pg_rows s) stats
        \<and> done_observations stats + skipped_observations stats + failed_observations stats + retry_pending_observations stats = length (filter is_pending (pg_rows s)))"
proof -
  note sw = new_sentiment_worker_Inr [OF assms(1)]
  obtain x s' where x: "drain postgres_store analyze duration sw s = Some (x, s')"
    and d: "pg.drained (\<lambda>c oc. \<forall>r. oc = Inr r \<longrightarrow> valid_result r) m (pg_rows s) x s'"
    by (rule pg.drain_progress [OF assms(3) sw(1) assms(2), where duration = duration, unfolded sw(2)])
  have "done_observations stats + skipped_observations stats + failed_observations stats + retry_pending_observations stats = length (filter is_pending (pg_rows s))"
    if "x = Inr stats" for stats
  proof -
    have d': "pg.drained (\<lambda>c oc. \<forall>r. oc = Inr r \<longrightarrow> valid_result r) m (pg_rows s) (Inr stats) s'" using d that by simp
    then obtain act where "tallied m act (pg_rows s) stats" unfolding pg.drained_def by blast
    then show ?thesis using pg.drained_accounts [OF assms(3) d'] by (simp add: tallied_def)
  qed
  then show ?thesis using x d unfolding pg.drained_def pg.progress_def by blast
qed

theorem drain_is_crash_safe_witness:
  "\<exists>x s' act. drain postgres_store (\<lambda>_. Inl (value_error ''down'')) 0 \<lparr>sw_batch_size = 1, sw_max_attempts = 3\<rparr>
      (demo_pg\<lparr>pg_faults := (\<lambda>n. if n = 4 then Some (Lost_after (value_error ''lost'')) else None)\<rparr>) = Some (x, s')
     \<and> pg_rows s' = map (settle_row 3 act) (pg_rows demo_pg)"
proof -
  let ?s = "demo_pg\<lparr>pg_faults := (\<lambda>n. if n = 4 then Some (Lost_after (value_error ''lost'')) else None)\<rparr>"
  have "pg_ok ?s" using demo_pg_ok by (simp add: pg_ok_def)
  moreover have "answers (\<lambda>c oc. \<forall>r. oc = Inr r \<longrightarrow> valid_result r) (\<lambda>_. Inl (value_error ''down''))"
    by (simp add: answers_def batch_outcomes_def list_all2_conv_all_nth)
  ultimately show ?thesis using drain_is_crash_safe [OF demo_worker, of ?s "\<lambda>_. Inl (value_error ''down'')" 0] by auto
qed

text \<open>
  C6: progress. While the store answers, a drain returns, and every row that was pending has the stored result
  of its text when there is one (a done one before a skipped one, the latest first), and what the model says of the content otherwise: the
  result, or one more failed attempt and the final state after the last.
\<close>

theorem drain_settles_every_row:
  assumes "new_sentiment_worker b m = Inr sw" "m \<le> smallint_max" "pg_ok s" "pg_calm s"
    and "predicts_pointwise (ip_predict ip)" "new_sentiment_inference k conf = Inr si"
  shows "\<exists>stats s' act. drain postgres_store (\<lambda>cs. Inr (analyze_batch ip si cs)) duration sw s = Some (Inr stats, s')
    \<and> pg_rows s' = map (settle_row m act) (pg_rows s)
    \<and> (\<forall>w \<in> set (pg_rows s). is_pending w \<longrightarrow> (\<exists>t oc. act (row_identity w) = Some (t, oc)
         \<and> (if list_ex (reusable (row_identity w)) (pg_rows s) then \<exists>r. oc = Inr r \<and> best_reusable (pg_rows s) (row_identity w) r
            else oc = analyze_one ip conf (ob_content w))))"
proof -
  let ?q = "\<lambda>c oc. oc = analyze_one ip conf c" and ?an = "\<lambda>cs. Inr (analyze_batch ip si cs)"
  note sw = new_sentiment_worker_Inr [OF assms(1)]
  have "0 < si_model_batch_size si" "si_minimum_confidence si = conf" using assms(6) by (auto simp: new_sentiment_inference_def split: if_splits)
  then have "analyze_batch ip si cs = map (analyze_one ip conf) cs" for cs using batch_pointwise [OF assms(5)] by simp
  then have an: "answers ?q ?an" by (auto simp: answers_def batch_outcomes_def list_all2_conv_all_nth analyze_one_valid)
  obtain x s' where x: "drain postgres_store ?an duration sw s = Some (x, s')" and d: "pg.drained ?q m (pg_rows s) x s'"
    by (rule pg.drain_progress [OF an sw(1) assms(3), where duration = duration, unfolded sw(2)])
  then obtain stats where stats: "x = Inr stats" using pg.drain_calm [OF an _ assms(3,4) x] assms(2) sw(2) by (cases x) auto
  from d obtain act where a: "pg_rows s' = map (settle_row m act) (pg_rows s)" "\<And>i a. act i = Some a \<Longrightarrow> outcome_allowed ?q (pg_rows s) i (snd a)"
    "\<And>w. w \<in> set (pg_rows s) \<Longrightarrow> is_pending w \<Longrightarrow> act (row_identity w) \<noteq> None"
    unfolding pg.drained_def pg.progress_def stats by blast
  have "\<exists>t oc. act (row_identity w) = Some (t, oc) \<and> (if list_ex (reusable (row_identity w)) (pg_rows s)
      then \<exists>r. oc = Inr r \<and> best_reusable (pg_rows s) (row_identity w) r else oc = analyze_one ip conf (ob_content w))"
    if "w \<in> set (pg_rows s)" "is_pending w" for w
  proof -
    note w = that
    obtain t oc where t: "act (row_identity w) = Some (t, oc)" using a(3) [OF w] by auto
    moreover have "snd (row_identity w) = ob_content w" by (simp add: row_identity_def)
    ultimately show ?thesis using a(2) [OF t] by (simp add: outcome_allowed_def)
  qed
  then show ?thesis using x stats a(1) by blast
qed

theorem drain_settles_every_row_witness:
  "\<exists>stats s' act. drain postgres_store (\<lambda>cs. Inr (analyze_batch demo_inference \<lparr>si_model_batch_size = 2, si_minimum_confidence = 1 / 2\<rparr> cs)) 0
      \<lparr>sw_batch_size = 1, sw_max_attempts = 3\<rparr> demo_pg = Some (Inr stats, s') \<and> pg_rows s' = map (settle_row 3 act) (pg_rows demo_pg)
    \<and> (\<exists>t. act (1, Some ''great'') = Some (t, persian_result ''positive'')) \<and> (\<exists>t. act (1, Some ''good'') = Some (t, Inl (value_error ''bad'')))"
proof -
  let ?P = "\<lambda>act w. \<exists>t oc. act (row_identity w) = Some (t, oc)
    \<and> (if list_ex (reusable (row_identity w)) (pg_rows demo_pg) then \<exists>r. oc = Inr r \<and> best_reusable (pg_rows demo_pg) (row_identity w) r
       else oc = analyze_one demo_inference (1 / 2) (ob_content w))"
  have "(3 :: int) \<le> smallint_max" by (simp add: smallint_max_def)
  moreover have "predicts_pointwise (ip_predict demo_inference)"
    using predict_batch_pointwise [OF demo_scores_pointwise] by (simp add: demo_inference_def)
  moreover have "new_sentiment_inference 2 (1 / 2) = Inr \<lparr>si_model_batch_size = 2, si_minimum_confidence = 1 / 2\<rparr>"
    by (simp add: new_sentiment_inference_def)
  ultimately obtain stats s' act where run: "drain postgres_store (\<lambda>cs. Inr (analyze_batch demo_inference \<lparr>si_model_batch_size = 2, si_minimum_confidence = 1 / 2\<rparr> cs)) 0
      \<lparr>sw_batch_size = 1, sw_max_attempts = 3\<rparr> demo_pg = Some (Inr stats, s')" "pg_rows s' = map (settle_row 3 act) (pg_rows demo_pg)"
    and each: "\<And>w. w \<in> set (pg_rows demo_pg) \<Longrightarrow> is_pending w \<Longrightarrow> ?P act w"
    using drain_settles_every_row [OF demo_worker _ demo_pg_ok demo_pg_calm, of demo_inference 2 "1 / 2" _ 0] by blast
  have rows: "set (pg_rows demo_pg) = {demo_observation 1 ''great'' ''pending'', demo_observation 2 ''good'' ''pending'', demo_observation 3 ''great'' ''pending''}"
    by (simp add: demo_pg_def)
  have none: "\<not> list_ex (reusable i) (pg_rows demo_pg)" for i by (auto simp: demo_pg_def demo_observation_def reusable_def)
  have outcome: "\<exists>t. act (1, Some c) = Some (t, analyze_one demo_inference (1 / 2) (Some c))"
    if "demo_observation k c ''pending'' \<in> set (pg_rows demo_pg)" for k c
    using each [OF that] none by (simp add: is_pending_def row_identity_def demo_observation_def)
  have "analyze_one demo_inference (1 / 2) (Some ''great'') = persian_result ''positive''" "analyze_one demo_inference (1 / 2) (Some ''good'') = Inl (value_error ''bad'')"
    by (simp_all add: analyze_one_def detect_supported_language_def demo_inference_def strip_def is_space_def persian_alone_def
        predict_batch_def demo_scores_def demo_model_def label_of_scores_def class_score_def)
  then show ?thesis using run outcome [of 1 "''great''"] outcome [of 2 "''good''"] rows by auto
qed

end
