(* ===== verification/Sentiment_Histories.thy ===== *)
theory Sentiment_Histories
  imports Sentiment_Postgres
begin

text \<open>
  The observations under every interleaving of ingestion and sentiment runs: deliveries of events, accepted or
  refused, and drains with any batch size, attempt limit, analyzer and loss of connection, one after another.
\<close>

section \<open>What the table promises\<close>

definition is_result :: "review_observation \<Rightarrow> bool" where
  "is_result w \<longleftrightarrow> ob_sentiment_status w = ''done'' \<or> ob_sentiment_status w = ''skipped''"

definition row_sound :: "review_observation \<Rightarrow> bool" where
  "row_sound w \<longleftrightarrow> 0 \<le> ob_sentiment_attempt_count w
     \<and> (if is_result w then (\<exists>r. valid_result r \<and> row_result w = Inr r) \<and> ob_sentiment_processed_at w \<noteq> None
        else ob_sentiment_language w = None \<and> ob_sentiment_label w = None
          \<and> (if is_pending w then ob_sentiment_processed_at w = None
             else ob_sentiment_status w = ''failed'' \<and> 1 \<le> ob_sentiment_attempt_count w \<and> ob_sentiment_processed_at w \<noteq> None))"

text \<open>One text of a review has one sentiment.\<close>

definition coherent :: "review_observation list \<Rightarrow> bool" where
  "coherent ws \<longleftrightarrow> (\<forall>w \<in> set ws. \<forall>v \<in> set ws. is_result w \<and> is_result v \<and> row_identity w = row_identity v \<longrightarrow> row_result w = row_result v)"

lemma coherentD:
  "coherent ws \<Longrightarrow> w \<in> set ws \<Longrightarrow> v \<in> set ws \<Longrightarrow> is_result w \<Longrightarrow> is_result v \<Longrightarrow> row_identity w = row_identity v \<Longrightarrow> row_result w = row_result v"
  unfolding coherent_def by blast

definition observations_ok :: "review_observation list \<Rightarrow> bool" where
  "observations_ok ws \<longleftrightarrow> distinct (map row_key ws) \<and> (\<forall>w \<in> set ws. row_sound w) \<and> coherent ws"

lemma sound_result_reusable:
  assumes "row_sound w" "is_result w"
  shows "reusable (row_identity w) w"
proof -
  obtain r where r: "valid_result r" "row_result w = Inr r" using assms by (auto simp: row_sound_def)
  then have "r = \<lparr>sr_language = ob_sentiment_language w, sr_label = ob_sentiment_label w, sr_status = ob_sentiment_status w\<rparr>"
    by (simp add: row_result_def new_analysis_result_def split: if_splits)
  then show ?thesis using r(1) by (simp add: valid_result_def reusable_def) auto
qed

lemma reusable_is_result: "reusable i w \<Longrightarrow> is_result w \<and> row_identity w = i \<and> \<not> is_pending w"
  by (auto simp: reusable_def is_result_def is_pending_def)

lemma applied_result: "valid_result r \<Longrightarrow> row_result (applied t r w) = Inr r \<and> is_result (applied t r w) \<and> \<not> is_pending (applied t r w)"
  using valid_result_accepted [of r] by (auto simp: row_result_def applied_def is_result_def is_pending_def valid_result_def)

lemma applied_sound: "valid_result r \<Longrightarrow> row_sound w \<Longrightarrow> row_sound (applied t r w)"
  using applied_result [of r t w] by (auto simp: row_sound_def) (auto simp: applied_def)

lemma failed_not_result: "\<not> is_result (failed_once m t w)"
  by (simp add: failed_once_def is_result_def Let_def)

lemma failed_sound: "row_sound w \<Longrightarrow> row_sound (failed_once m t w)"
  by (auto simp: row_sound_def failed_once_def is_result_def is_pending_def Let_def)

section \<open>A settlement keeps it\<close>

definition settlement_allowed :: "review_observation list \<Rightarrow> settlement \<Rightarrow> bool" where
  "settlement_allowed ws act \<longleftrightarrow> (\<forall>i a. act i = Some a \<longrightarrow> outcome_allowed (\<lambda>c oc. \<forall>r. oc = Inr r \<longrightarrow> valid_result r) ws i (snd a))"

lemma settlement_valid:
  assumes "settlement_allowed ws act" "act i = Some (t, Inr r)"
  shows "valid_result r"
proof -
  have "outcome_allowed (\<lambda>c oc. \<forall>r. oc = Inr r \<longrightarrow> valid_result r) ws i (snd (t, Inr r))"
    using assms unfolding settlement_allowed_def by blast
  then show ?thesis by (cases "list_ex (reusable i) ws") (simp_all add: outcome_allowed_def best_reusable_valid)
qed

lemma settle_row_sound:
  assumes "settlement_allowed ws act" "row_sound w"
  shows "row_sound (settle_row m act w)"
proof (cases "act (row_identity w)")
  case (Some a)
  obtain t oc where a: "a = (t, oc)" by fastforce
  show ?thesis
  proof (cases oc)
    case (Inr r)
    then show ?thesis using assms(2) Some a applied_sound [OF settlement_valid [OF assms(1)]] by (simp add: settle_row_def settle_with_def)
  qed (use assms(2) Some a failed_sound in \<open>simp add: settle_row_def settle_with_def\<close>)
qed (use assms(2) in simp)

lemma settled_result:
  assumes "settlement_allowed ws act" "is_pending w" "is_result (settle_row m act w)"
  obtains t r where "act (row_identity w) = Some (t, Inr r)" "row_result (settle_row m act w) = Inr r"
proof -
  have "\<not> is_result w" using assms(2) by (simp add: is_result_def is_pending_def)
  then obtain t oc where a: "act (row_identity w) = Some (t, oc)" using assms(3) by (cases "act (row_identity w)") auto
  then obtain r where oc: "oc = Inr r" using assms(2,3) failed_not_result by (cases oc) (auto simp: settle_row_def settle_with_def)
  have "valid_result r" using settlement_valid [OF assms(1)] a oc by blast
  then show thesis using that a oc assms(2) applied_result by (simp add: settle_row_def settle_with_def)
qed

lemma reused_is_stored:
  assumes "settlement_allowed ws act" "coherent ws" "act (row_identity v) = Some (t, Inr r)" "v \<in> set ws" "row_sound v" "is_result v"
  shows "row_result v = Inr r"
proof -
  have "reusable (row_identity v) v" using sound_result_reusable assms(5,6) by blast
  then have "list_ex (reusable (row_identity v)) ws" using assms(4) by (auto simp: list_ex_iff)
  moreover have "outcome_allowed (\<lambda>c oc. \<forall>r. oc = Inr r \<longrightarrow> valid_result r) ws (row_identity v) (snd (t, Inr r))"
    using assms(1,3) unfolding settlement_allowed_def by blast
  ultimately have "best_reusable ws (row_identity v) r" by (simp add: outcome_allowed_def)
  then obtain u where "u \<in> set ws" "reusable (row_identity v) u" "row_result u = Inr r" by (auto simp: best_reusable_def)
  then show ?thesis using assms(2,4,6) reusable_is_result unfolding coherent_def by metis
qed

lemma settlement_keeps_ok:
  assumes "observations_ok ws" "settlement_allowed ws act"
  shows "observations_ok (map (settle_row m act) ws)"
proof -
  have sound: "\<And>w. w \<in> set ws \<Longrightarrow> row_sound w" and coh: "coherent ws" using assms(1) by (auto simp: observations_ok_def)
  have half: "row_result (settle_row m act w) = row_result (settle_row m act v)"
    if "w \<in> set ws" "v \<in> set ws" "is_result (settle_row m act w)" "is_result (settle_row m act v)" "row_identity w = row_identity v" "is_pending w" for w v
  proof -
    note h = that
    obtain t r where w: "act (row_identity w) = Some (t, Inr r)" "row_result (settle_row m act w) = Inr r"
      by (rule settled_result [OF assms(2) h(6,3)])
    show ?thesis
    proof (cases "is_pending v")
      case True
      obtain t' r' where "act (row_identity v) = Some (t', Inr r')" "row_result (settle_row m act v) = Inr r'"
        by (rule settled_result [OF assms(2) True h(4)])
      then show ?thesis using w that(5) by simp
    next
      case False
      then have "settle_row m act v = v" by (rule settle_row_settled)
      then show ?thesis using w reused_is_stored [OF assms(2) coh, of v t r] that(2,4,5) sound by simp
    qed
  qed
  have "coherent (map (settle_row m act) ws)"
    unfolding coherent_def set_map ball_simps
  proof (intro ballI impI, elim conjE)
    fix w v
    assume a: "w \<in> set ws" "v \<in> set ws" "is_result (settle_row m act w)" "is_result (settle_row m act v)"
      "row_identity (settle_row m act w) = row_identity (settle_row m act v)"
    then have i: "row_identity w = row_identity v" by simp
    consider "is_pending w" | "is_pending v" | "\<not> is_pending w" "\<not> is_pending v" by blast
    then show "row_result (settle_row m act w) = row_result (settle_row m act v)"
    proof cases
      case 1
      then show ?thesis by (rule half [OF a(1-4) i])
    next
      case 2
      then show ?thesis by (rule half [OF a(2,1,4,3) i [symmetric], symmetric])
    next
      case 3
      then have "settle_row m act w = w" "settle_row m act v = v" by (auto intro: settle_row_settled)
      then show ?thesis using coherentD [OF coh a(1,2) _ _ i] a(3,4) by simp
    qed
  qed
  moreover have "map row_key (map (settle_row m act) ws) = map row_key ws" by simp
  moreover have "\<forall>w \<in> set (map (settle_row m act) ws). row_sound w" using sound settle_row_sound [OF assms(2)] by simp
  ultimately show ?thesis using assms(1) by (simp only: observations_ok_def)
qed

section \<open>Ingestion keeps it\<close>

definition grows_pending :: "ingest_db \<Rightarrow> ingest_db \<Rightarrow> bool" where
  "grows_pending db db' \<longleftrightarrow> ig_observations db' = ig_observations db \<or> (\<exists>w. ig_observations db' = ig_observations db @ [w]
     \<and> row_key w \<notin> row_key ` set (ig_observations db) \<and> is_pending w \<and> row_sound w)"

lemma repository_observations:
  "validate_crawl_task i a ty db = Inr (u, db') \<Longrightarrow> ig_observations db' = ig_observations db"
  "insert_app_snapshot now p db = Inr (u, db') \<Longrightarrow> ig_observations db' = ig_observations db"
  "upsert_review now q db = Inr (n, db') \<Longrightarrow> ig_observations db' = ig_observations db"
  "validate_network_analysis x db = Inr (u, db') \<Longrightarrow> ig_observations db' = ig_observations db"
  "insert_network_analysis x db = Inr (u, db') \<Longrightarrow> ig_observations db' = ig_observations db"
  "claim_event now e en sv tp pt off db = Inr (b, db') \<Longrightarrow> ig_observations db' = ig_observations db"
  by (auto simp: validate_crawl_task_def insert_app_snapshot_def upsert_review_def claim_event_def
      validate_network_analysis_def insert_network_analysis_def Let_def split: if_splits option.splits)

lemma insert_review_observation_grows:
  assumes "insert_review_observation q m db = Inr (u, db')"
  shows "grows_pending db db'"
proof (cases "list_ex (\<lambda>o1. ob_crawl_task_id o1 = ro_crawl_task_id q \<and> ob_review_id o1 = m) (ig_observations db)")
  case True
  then show ?thesis using assms by (simp add: insert_review_observation_def grows_pending_def split: if_splits)
next
  case False
  let ?w = "\<lparr>ob_crawl_task_id = ro_crawl_task_id q, ob_review_id = m, ob_observed_at = ro_observed_at q, ob_position = ro_position q,
    ob_score = ro_score q, ob_thumbs_up_count = ro_thumbs_up_count q, ob_source_adapter = ro_source_adapter q,
    ob_content = Some (ro_content q), ob_source_at = Some (ro_source_at q), ob_sentiment_language = None, ob_sentiment_label = None,
    ob_sentiment_status = ''pending'', ob_sentiment_processed_at = None, ob_sentiment_attempt_count = 0\<rparr>"
  have "ig_observations db' = ig_observations db @ [?w]" using assms False by (auto simp: insert_review_observation_def split: if_splits)
  moreover have "row_key ?w \<notin> row_key ` set (ig_observations db)" using False by (auto simp: row_key_def list_ex_iff)
  moreover have "is_pending ?w" "row_sound ?w" by (simp_all add: is_pending_def row_sound_def is_result_def)
  ultimately show ?thesis unfolding grows_pending_def by blast
qed

lemma handle_review_observed_grows:
  assumes "handle_review_observed now p db = Inr (u, db')"
  shows "grows_pending db db'"
proof -
  obtain v db1 n db2 where steps: "validate_crawl_task (ro_crawl_task_id p) (ro_application_id p) REVIEWS db = Inr (v, db1)"
    "upsert_review now p db1 = Inr (n, db2)" "insert_review_observation p n db2 = Inr (u, db')"
    using assms by (auto simp: handle_review_observed_def db_bind_Inr)
  then have "ig_observations db2 = ig_observations db" using repository_observations(1,3) by metis
  then show ?thesis using insert_review_observation_grows [OF steps(3)] by (simp add: grows_pending_def)
qed

lemma handle_event_grows:
  assumes "handle_event now ev db = Inr (u, db')"
  shows "grows_pending db db'"
proof (cases ev)
  case (AppStatsEvent e)
  then have "handle_app_stats now (ev_payload e) db = Inr (u, db')" using assms by (simp add: handle_event_def Let_def split: if_splits)
  then obtain v db1 where "validate_crawl_task (as_crawl_task_id (ev_payload e)) (as_application_id (ev_payload e)) APP_DETAILS db = Inr (v, db1)"
    "insert_app_snapshot now (ev_payload e) db1 = Inr (u, db')" by (auto simp: handle_app_stats_def db_bind_Inr)
  then show ?thesis using repository_observations(1,2) unfolding grows_pending_def by metis
next
  case (ReviewObservedEvent e)
  then have "handle_review_observed now (ev_payload e) db = Inr (u, db')" using assms by (simp add: handle_event_def Let_def split: if_splits)
  then show ?thesis by (rule handle_review_observed_grows)
next
  case (NetworkAnalysisEvent e)
  then have "handle_network_analysis (ev_payload e) db = Inr (u, db')" using assms by (simp add: handle_event_def Let_def split: if_splits)
  then obtain v db1 where "validate_network_analysis (ev_payload e) db = Inr (v, db1)" "insert_network_analysis (ev_payload e) db1 = Inr (u, db')"
    by (auto simp: handle_network_analysis_def db_bind_Inr)
  then show ?thesis using repository_observations(4,5) unfolding grows_pending_def by metis
qed

lemma deliver_grows: "grows_pending db (deliver d db)"
proof (cases "outcome_of d db")
  case (Inr p)
  obtain b db' where p: "p = (b, db')" by fastforce
  then obtain c db1 where c: "claim_event (de_now d) (event_id_of (de_event d)) (event_type_of (de_event d)) (schema_version_of (de_event d))
      (de_topic d) (de_partition d) (de_offset d) db = Inr (c, db1)" "db' = db1 \<or> handle_event (de_now d) (de_event d) db1 = Inr ((), db')"
    using Inr by (auto simp: outcome_of_def ingest_event_def db_bind_Inr split: if_splits)
  have "ig_observations db1 = ig_observations db" by (rule repository_observations(6) [OF c(1)])
  then show ?thesis using c(2) handle_event_grows Inr p by (fastforce simp: deliver_def grows_pending_def)
qed (simp add: deliver_def grows_pending_def)

lemma grows_keeps_ok:
  assumes "grows_pending db db'" "observations_ok (ig_observations db)"
  shows "observations_ok (ig_observations db')"
proof -
  have "\<not> is_result w" if "is_pending w" for w using that by (simp add: is_pending_def is_result_def)
  with assms(1) consider "ig_observations db' = ig_observations db"
    | w where "ig_observations db' = ig_observations db @ [w]" "row_key w \<notin> row_key ` set (ig_observations db)" "\<not> is_result w" "row_sound w"
    unfolding grows_pending_def by blast
  then show ?thesis
  proof cases
    case (2 w)
    have "coherent (ig_observations db)" using assms(2) by (simp add: observations_ok_def)
    have "coherent (ig_observations db @ [w])" unfolding coherent_def
    proof (intro ballI impI, elim conjE)
      fix u v assume uv: "u \<in> set (ig_observations db @ [w])" "v \<in> set (ig_observations db @ [w])" "is_result u" "is_result v" "row_identity u = row_identity v"
      then have "u \<in> set (ig_observations db)" "v \<in> set (ig_observations db)" using 2(3) by auto
      then show "row_result u = row_result v" using coherentD [OF \<open>coherent (ig_observations db)\<close>] uv(3-5) by blast
    qed
    moreover have "distinct (map row_key (ig_observations db @ [w]))" "\<forall>v \<in> set (ig_observations db @ [w]). row_sound v"
      using assms(2) 2(2,4) by (simp_all add: observations_ok_def)
    ultimately show ?thesis unfolding 2(1) observations_ok_def by blast
  qed (use assms(2) in simp)
qed

section \<open>Histories\<close>

inductive sentiment_reaches :: "ingest_db \<Rightarrow> bool" where
  reaches_start: "ig_observations db = [] \<Longrightarrow> sentiment_reaches db"
| reaches_delivery: "sentiment_reaches db \<Longrightarrow> sentiment_reaches (deliver d db)"
| reaches_drain: "sentiment_reaches db \<Longrightarrow> new_sentiment_worker b m = Inr sw \<Longrightarrow> pg_rows s = ig_observations db
    \<Longrightarrow> answers (\<lambda>c oc. \<forall>r. oc = Inr r \<longrightarrow> valid_result r) analyze \<Longrightarrow> drain postgres_store analyze duration sw s = Some (x, s')
    \<Longrightarrow> sentiment_reaches (db\<lparr>ig_observations := pg_rows s'\<rparr>)"

lemma drain_settlement:
  assumes "new_sentiment_worker b m = Inr sw" "pg_ok s" "answers (\<lambda>c oc. \<forall>r. oc = Inr r \<longrightarrow> valid_result r) analyze"
    and "drain postgres_store analyze duration sw s = Some (x, s')"
  obtains act where "settlement_allowed (pg_rows s) act" "pg_rows s' = map (settle_row m act) (pg_rows s)"
proof -
  note sw = new_sentiment_worker_Inr [OF assms(1)]
  have "\<exists>y s2. drain postgres_store analyze duration sw s = Some (y, s2) \<and> pg.drained (\<lambda>c oc. \<forall>r. oc = Inr r \<longrightarrow> valid_result r) m (pg_rows s) y s2"
    by (rule pg.drain_progress [OF assms(3) sw(1) assms(2), where duration = duration, unfolded sw(2)]) blast
  then have "pg.drained (\<lambda>c oc. \<forall>r. oc = Inr r \<longrightarrow> valid_result r) m (pg_rows s) x s'" using assms(4) by simp
  then obtain act where "pg.progress (\<lambda>c oc. \<forall>r. oc = Inr r \<longrightarrow> valid_result r) m (pg_rows s) act s'" unfolding pg.drained_def by blast
  then have "settlement_allowed (pg_rows s) act" "pg_rows s' = map (settle_row m act) (pg_rows s)"
    unfolding pg.progress_def settlement_allowed_def by blast+
  then show thesis by (rule that)
qed

text \<open>
  C4: one text, one sentiment. However ingestion and sentiment runs interleave, whatever deliveries are refused or repeated, and wherever
  runs crash, the observations keep their key, every row is in a state the table means (a valid result with its time,
  a failure after an attempt, or pending with nothing stored), and all observations of one text of a review that have a
  result have the same one.
\<close>

theorem sentiment_stays_coherent: "sentiment_reaches db \<Longrightarrow> observations_ok (ig_observations db)"
proof (induction rule: sentiment_reaches.induct)
  case (reaches_start db)
  then show ?case by (simp add: observations_ok_def coherent_def)
next
  case (reaches_delivery db d)
  then show ?case using grows_keeps_ok deliver_grows by blast
next
  case (reaches_drain db b m sw s analyze duration x s')
  have ok: "pg_ok s" using reaches_drain.hyps(3) reaches_drain.IH by (simp add: pg_ok_def observations_ok_def)
  obtain act where "settlement_allowed (pg_rows s) act" "pg_rows s' = map (settle_row m act) (pg_rows s)"
    by (rule drain_settlement [OF reaches_drain.hyps(2) ok reaches_drain.hyps(4,5)])
  then show ?case using settlement_keeps_ok reaches_drain.IH reaches_drain.hyps(3) by simp
qed

theorem sentiment_stays_coherent_witness:
  "length (ig_observations (deliver (demo_delivery 1 (demo_review 20 5)) demo_db)) = 1
   \<and> (\<exists>x s'. drain postgres_store (\<lambda>_. Inl (value_error ''down'')) 0 \<lparr>sw_batch_size = 1, sw_max_attempts = 3\<rparr>
        (demo_pg\<lparr>pg_rows := ig_observations (deliver (demo_delivery 1 (demo_review 20 5)) demo_db)\<rparr>) = Some (x, s')
      \<and> observations_ok (pg_rows s'))"
proof
  let ?db = "deliver (demo_delivery 1 (demo_review 20 5)) demo_db" and ?an = "\<lambda>_. Inl (value_error ''down'')"
  let ?s = "demo_pg\<lparr>pg_rows := ig_observations ?db\<rparr>"
  show "length (ig_observations ?db) = 1" by code_simp
  have db: "sentiment_reaches ?db" by (intro sentiment_reaches.intros) (simp add: demo_db_def)
  have an: "answers (\<lambda>c oc. \<forall>r. oc = Inr r \<longrightarrow> valid_result r) ?an" by (simp add: answers_def batch_outcomes_def list_all2_conv_all_nth)
  have ok: "pg_ok ?s" using sentiment_stays_coherent [OF db] by (simp add: pg_ok_def observations_ok_def)
  have pos: "0 < sw_batch_size \<lparr>sw_batch_size = 1, sw_max_attempts = 3\<rparr>" by simp
  obtain x s' where run: "drain postgres_store ?an 0 \<lparr>sw_batch_size = 1, sw_max_attempts = 3\<rparr> ?s = Some (x, s')"
    by (rule pg.drain_progress [OF an pos ok, where duration = 0])
  have "sentiment_reaches (?db\<lparr>ig_observations := pg_rows s'\<rparr>)" by (rule reaches_drain [OF db demo_worker _ an run]) simp
  from sentiment_stays_coherent [OF this] show "\<exists>x s'. drain postgres_store ?an 0 \<lparr>sw_batch_size = 1, sw_max_attempts = 3\<rparr> ?s = Some (x, s') \<and> observations_ok (pg_rows s')"
    using run by auto
qed

end
