(* ===== verification/Review_Adapters.thy ===== *)
theory Review_Adapters
  imports Ingestion "HOL-Library.List_Lexorder" "HOL-Library.Char_ord"
begin

text \<open>
  The Play Store adapters (\<open>crawler/infrastructure/adapters/\<close>): what they make of the values the scraping
  libraries return, \<open>common.py\<close>, \<open>gplay.py\<close> and \<open>google_play.py\<close>, the data they hand on (\<open>crawler/domain/dto.py\<close>), and the
  publisher that sends it (\<open>crawler/infrastructure/messaging/kafka.py\<close>).

  Parameters are the libraries: the scrapers, the element specifications, \<open>json.loads\<close>, the conversions
  of \<open>datetime\<close>, pydantic's conversions to \<open>int\<close>, \<open>float\<close> and \<open>str\<close>, and the details of its errors.
\<close>

section \<open>Values of the libraries\<close>

datatype raw_value = RNull | RText string | RNumber rat | RBool bool | RDatetime py_datetime | RDate int | ROther bool

type_synonym raw_dict = "(string \<times> raw_value) list"

record adapter_libs =
  al_timestamp :: "rat \<Rightarrow> exn + seconds"
  al_iso :: "string \<Rightarrow> exn + py_datetime"
  al_strptime :: "string \<Rightarrow> string \<Rightarrow> int option"
  al_date :: "seconds \<Rightarrow> int"
  al_int :: "raw_value \<Rightarrow> int option"
  al_float :: "raw_value \<Rightarrow> rat option"
  al_str :: "raw_value \<Rightarrow> string option"
  al_details :: "exn \<Rightarrow> (string option \<times> string) list"

definition raw_get :: "raw_dict \<Rightarrow> string \<Rightarrow> raw_value" where
  "raw_get d k = (case map_of d k of None \<Rightarrow> RNull | Some v \<Rightarrow> v)"

text \<open>\<open>bool(value)\<close>\<close>

definition raw_truthy :: "raw_value \<Rightarrow> bool" where
  "raw_truthy v = (case v of RNull \<Rightarrow> False | RText s \<Rightarrow> s \<noteq> [] | RNumber n \<Rightarrow> n \<noteq> 0 | RBool b \<Rightarrow> b | RDatetime _ \<Rightarrow> True | RDate _ \<Rightarrow> True | ROther b \<Rightarrow> b)"

definition schema_failure :: "string \<Rightarrow> exn" where
  "schema_failure m = Crawler (mk_err SchemaFailure m)"

definition parse_failure :: "string \<Rightarrow> exn" where
  "parse_failure m = Crawler (mk_err ParseFailure m)"

text \<open>\<open>except (ValueError, <names>)\<close>\<close>

definition raised_as :: "string list \<Rightarrow> exn \<Rightarrow> bool" where
  "raised_as names e \<longleftrightarrow> is_value_error e \<or> (case e of Py p \<Rightarrow> exn_type p \<in> set names | _ \<Rightarrow> False)"

section \<open>Package names\<close>

fun split_dots :: "string \<Rightarrow> string list" where
  "split_dots [] = [[]]"
| "split_dots (c # cs) = (if c = CHR ''.'' then [] # split_dots cs else (case split_dots cs of w # ws \<Rightarrow> (c # w) # ws | [] \<Rightarrow> [[c]]))"

definition package_pattern :: "string \<Rightarrow> bool" where
  "package_pattern s \<longleftrightarrow> (let ws = split_dots s in 2 \<le> length ws \<and> list_all (\<lambda>w. w \<noteq> [] \<and> list_all is_word_char w) ws \<and> is_letter (hd (hd ws)))"

definition validate_package :: "string \<Rightarrow> exn + unit" where
  "validate_package package_name = (if package_pattern package_name then Inr () else Inl (Crawler (mk_err InvalidPackage ''package name is invalid'')))"

section \<open>Application details\<close>

definition normalize_updated_on :: "adapter_libs \<Rightarrow> raw_value \<Rightarrow> exn + int option" where
  "normalize_updated_on al v = (case v of
     RNull \<Rightarrow> Inr None
   | RText s \<Rightarrow> if s = ''Never updated'' then Inr None
       else (case al_strptime al ''%b %d, %Y'' s of
           Some d \<Rightarrow> Inr (Some d)
         | None \<Rightarrow> Inr (al_strptime al ''%Y-%m-%d'' s))
   | RDatetime d \<Rightarrow> if dt_offset d = None then Inl (schema_failure ''naive app update datetime is ambiguous'') else Inr (Some (al_date al (dt_instant d)))
   | RDate d \<Rightarrow> Inr (Some d)
   | RNumber n \<Rightarrow> map_sum id (Some \<circ> al_date al) (al_timestamp al n)
   | RBool b \<Rightarrow> map_sum id (Some \<circ> al_date al) (al_timestamp al (if b then 1 else 0))
   | ROther _ \<Rightarrow> Inr None)"

record app_details_dto =
  ad_min_installs :: int
  ad_score :: rat
  ad_ratings_count :: int
  ad_reviews_count :: int
  ad_store_updated_on :: "int option"
  ad_version :: "string option"
  ad_ad_supported :: bool
  ad_collected_at :: seconds
  ad_source_adapter :: string

definition valid_app_details :: "app_details_dto \<Rightarrow> bool" where
  "valid_app_details d \<longleftrightarrow> 0 \<le> ad_min_installs d \<and> 0 \<le> ad_score d \<and> ad_score d \<le> 5 \<and> 0 \<le> ad_ratings_count d \<and> 0 \<le> ad_reviews_count d
     \<and> ad_source_adapter d \<noteq> []"

definition optional_str :: "adapter_libs \<Rightarrow> raw_value \<Rightarrow> string option option" where
  "optional_str al v = (if v = RNull then Some None else map_option Some (al_str al v))"

definition app_details_of :: "adapter_libs \<Rightarrow> raw_dict \<Rightarrow> raw_value \<Rightarrow> seconds \<Rightarrow> string \<Rightarrow> exn + app_details_dto" where
  "app_details_of al raw updated now adapter = (case normalize_updated_on al updated of
     Inl e \<Rightarrow> Inl e
   | Inr day \<Rightarrow>
       (case (al_int al (raw_get raw ''minInstalls''), al_float al (raw_get raw ''score''), al_int al (raw_get raw ''ratings''),
              al_int al (raw_get raw ''reviews''), optional_str al (raw_get raw ''version'')) of
          (Some installs, Some score, Some ratings, Some reviews, Some version) \<Rightarrow>
            (let d = \<lparr>ad_min_installs = installs, ad_score = score, ad_ratings_count = ratings, ad_reviews_count = reviews, ad_store_updated_on = day,
                   ad_version = version, ad_ad_supported = raw_truthy (raw_get raw ''adSupported''), ad_collected_at = now, ad_source_adapter = adapter\<rparr>
             in if valid_app_details d then Inr d else Inl (ValidationError ''AppDetailsDTO''))
        | _ \<Rightarrow> Inl (ValidationError ''AppDetailsDTO'')))"

text \<open>What the parser of \<open>gplay-scraper\<close> returns is a dictionary or something else.\<close>

definition gplay_get_app :: "adapter_libs \<Rightarrow> seconds \<Rightarrow> exn + raw_dict option \<Rightarrow> string \<Rightarrow> exn + app_details_dto" where
  "gplay_get_app al now details package_name = (case validate_package package_name of
     Inl e \<Rightarrow> Inl e
   | Inr _ \<Rightarrow> (case details of
       Inl e \<Rightarrow> Inl e
     | Inr None \<Rightarrow> Inl (parse_failure ''gplay app parser returned no details'')
     | Inr (Some raw) \<Rightarrow> app_details_of al raw (raw_get raw ''updated'') now ''gplay-scraper''))"

definition google_get_app :: "adapter_libs \<Rightarrow> seconds \<Rightarrow> exn + raw_dict \<Rightarrow> string \<Rightarrow> exn + app_details_dto" where
  "google_get_app al now fetched package_name = (case validate_package package_name of
     Inl e \<Rightarrow> Inl e
   | Inr _ \<Rightarrow> (case fetched of
       Inl e \<Rightarrow> Inl e
     | Inr raw \<Rightarrow> app_details_of al raw (case map_of raw ''updated'' of Some v \<Rightarrow> v | None \<Rightarrow> raw_get raw ''lastUpdatedOn'') now ''google-play-scraper''))"

section \<open>Items of a page\<close>

text \<open>\<open>len(v)\<close>, \<open>v[i]\<close> and the truth of a decoded JSON value.\<close>

definition type_error :: "string \<Rightarrow> exn" where
  "type_error m = mk_exn ''TypeError'' m False"

definition py_len :: "json \<Rightarrow> exn + nat" where
  "py_len v = (case v of JArr xs \<Rightarrow> Inr (length xs) | JStr s \<Rightarrow> Inr (length s) | JObj es \<Rightarrow> Inr (length es) | _ \<Rightarrow> Inl (type_error ''object has no len()''))"

definition py_index :: "json \<Rightarrow> nat \<Rightarrow> exn + json" where
  "py_index v i = (case v of
     JArr xs \<Rightarrow> if i < length xs then Inr (xs ! i) else Inl (mk_exn ''IndexError'' ''list index out of range'' False)
   | JStr s \<Rightarrow> if i < length s then Inr (JStr [s ! i]) else Inl (mk_exn ''IndexError'' ''string index out of range'' False)
   | JObj _ \<Rightarrow> Inl (mk_exn ''KeyError'' (nat_str i) False)
   | _ \<Rightarrow> Inl (type_error ''object is not subscriptable''))"

definition json_truthy :: "json \<Rightarrow> bool" where
  "json_truthy v = (case v of JNull \<Rightarrow> False | JBool b \<Rightarrow> b | JInt i \<Rightarrow> i \<noteq> 0 | JFloat x \<Rightarrow> x \<noteq> 0 | JStr s \<Rightarrow> s \<noteq> [] | JArr xs \<Rightarrow> xs \<noteq> [] | JObj es \<Rightarrow> es \<noteq> [])"

definition json_timestamp :: "adapter_libs \<Rightarrow> json \<Rightarrow> exn + seconds" where
  "json_timestamp al v = (case v of JInt i \<Rightarrow> al_timestamp al (of_int i) | JFloat x \<Rightarrow> al_timestamp al x | JBool b \<Rightarrow> al_timestamp al (if b then 1 else 0)
     | _ \<Rightarrow> Inl (type_error ''a number is required''))"

definition item_time :: "adapter_libs \<Rightarrow> json \<Rightarrow> exn + raw_value" where
  "item_time al item = (case py_len item of
     Inl e \<Rightarrow> Inl e
   | Inr n \<Rightarrow> if n \<le> 5 then Inr RNull
       else (case py_index item 5 of
           Inl e \<Rightarrow> Inl e
         | Inr cell \<Rightarrow> if \<not> json_truthy cell then Inr RNull
             else (case py_index cell 0 of
                 Inl e \<Rightarrow> Inl e
               | Inr t \<Rightarrow> if t = JNull then Inr RNull else map_sum id (RDatetime \<circ> utc) (json_timestamp al t))))"

datatype review_record = Raw_review raw_dict | Invalid_review "string list" "string list" | Not_a_dict

definition SAFE_REVIEW_FIELDS :: "string list" where
  "SAFE_REVIEW_FIELDS = [''record'', ''external_review_id'', ''source_at'', ''author_name'', ''thumbs_up_count'', ''score'', ''content'', ''position'',
     ''observed_at'', ''source_adapter'']"

definition safe_token :: "string \<Rightarrow> bool" where
  "safe_token s \<longleftrightarrow> s \<noteq> [] \<and> list_all (\<lambda>c. is_word_char c \<or> c = CHR ''.'' \<or> c = CHR ''-'') s"

definition safe_field_name :: "string \<Rightarrow> string" where
  "safe_field_name f = (if f \<in> set SAFE_REVIEW_FIELDS then f else ''record'')"

definition safe_error_type :: "string \<Rightarrow> string" where
  "safe_error_type t = (if safe_token t then t else ''validation_error'')"

definition invalid_review_record :: "string \<Rightarrow> exn \<Rightarrow> review_record" where
  "invalid_review_record field e = Invalid_review [safe_field_name field] [safe_error_type (exn_name e)]"

definition NORMALIZED_FIELD_NAMES :: "(string \<times> string) list" where
  "NORMALIZED_FIELD_NAMES = [(''reviewId'', ''external_review_id''), (''userName'', ''author_name''), (''score'', ''score''), (''content'', ''content''),
     (''thumbsUpCount'', ''thumbs_up_count'')]"

type_synonym element_specs = "(string \<times> (json \<Rightarrow> exn + raw_value)) list"

fun extract_fields :: "element_specs \<Rightarrow> json \<Rightarrow> raw_dict \<Rightarrow> exn + (raw_dict + review_record)" where
  "extract_fields [] item raw = Inr (Inl raw)"
| "extract_fields ((key, read_item) # specs) item raw = (case map_of NORMALIZED_FIELD_NAMES key of
     None \<Rightarrow> extract_fields specs item raw
   | Some field \<Rightarrow> (case read_item item of
       Inr v \<Rightarrow> extract_fields specs item (raw @ [(key, v)])
     | Inl e \<Rightarrow> if raised_as [''AttributeError'', ''IndexError'', ''KeyError'', ''TypeError''] e then Inr (Inr (invalid_review_record field e)) else Inl e))"

definition extract_review_item :: "adapter_libs \<Rightarrow> element_specs \<Rightarrow> json \<Rightarrow> exn + review_record" where
  "extract_review_item al specs item = (case extract_fields specs item [] of
     Inl e \<Rightarrow> Inl e
   | Inr (Inr r) \<Rightarrow> Inr r
   | Inr (Inl raw) \<Rightarrow> (case item_time al item of
       Inr v \<Rightarrow> Inr (Raw_review (raw @ [(''at'', v)]))
     | Inl e \<Rightarrow> if raised_as [''IndexError'', ''KeyError'', ''TypeError'', ''OverflowError'', ''OSError''] e then Inr (invalid_review_record ''source_at'' e)
         else Inl e))"

section \<open>Reviews\<close>

record review_dto =
  rd_external_review_id :: string
  rd_source_at :: seconds
  rd_author_name :: string
  rd_thumbs_up_count :: int
  rd_score :: int
  rd_content :: string
  rd_position :: int
  rd_observed_at :: seconds
  rd_source_adapter :: string

definition valid_review_dto :: "review_dto \<Rightarrow> bool" where
  "valid_review_dto d \<longleftrightarrow> rd_external_review_id d \<noteq> [] \<and> 0 \<le> rd_thumbs_up_count d \<and> 1 \<le> rd_score d \<and> rd_score d \<le> 5
     \<and> 1 \<le> rd_position d \<and> rd_position d \<le> 1000 \<and> rd_source_adapter d \<noteq> []"

definition review_dto_of :: "adapter_libs \<Rightarrow> raw_dict \<Rightarrow> seconds \<Rightarrow> nat \<Rightarrow> seconds \<Rightarrow> string \<Rightarrow> exn + review_dto" where
  "review_dto_of al raw source_at position observed_at adapter =
     (case (al_str al (raw_get raw ''reviewId''), al_str al (raw_get raw ''userName''), al_int al (raw_get raw ''thumbsUpCount''),
            al_int al (raw_get raw ''score''), al_str al (raw_get raw ''content'')) of
        (Some i, Some author, Some thumbs, Some score, Some content) \<Rightarrow>
          (let d = \<lparr>rd_external_review_id = i, rd_source_at = source_at, rd_author_name = author, rd_thumbs_up_count = thumbs, rd_score = score,
                 rd_content = content, rd_position = int position, rd_observed_at = observed_at, rd_source_adapter = adapter\<rparr>
           in if valid_review_dto d then Inr d else Inl (ValidationError ''ReviewDTO''))
      | _ \<Rightarrow> Inl (ValidationError ''ReviewDTO''))"

type_synonym review_normalizer = "raw_dict \<Rightarrow> nat \<Rightarrow> seconds \<Rightarrow> exn + review_dto"

definition gplay_normalize_review :: "adapter_libs \<Rightarrow> review_normalizer" where
  "gplay_normalize_review al raw position observed_at =
     (case (case raw_get raw ''at'' of RText s \<Rightarrow> map_sum id RDatetime (al_iso al s) | v \<Rightarrow> Inr v) of
        Inl e \<Rightarrow> Inl e
      | Inr (RDatetime d) \<Rightarrow> if dt_offset d = None then Inl (schema_failure ''gplay review timestamp is not timezone-aware'')
          else review_dto_of al raw (dt_instant d) position observed_at ''gplay-scraper''
      | Inr _ \<Rightarrow> Inl (schema_failure ''gplay review timestamp is not timezone-aware''))"

definition google_normalize_review :: "adapter_libs \<Rightarrow> review_normalizer" where
  "google_normalize_review al raw position observed_at =
     (case (case raw_get raw ''at'' of
              RNumber n \<Rightarrow> map_sum id (RDatetime \<circ> utc) (al_timestamp al n)
            | RBool b \<Rightarrow> map_sum id (RDatetime \<circ> utc) (al_timestamp al (if b then 1 else 0))
            | RText s \<Rightarrow> map_sum id RDatetime (al_iso al s) | v \<Rightarrow> Inr v) of
        Inl e \<Rightarrow> Inl e
      | Inr (RDatetime d) \<Rightarrow> if dt_offset d = None then Inl (schema_failure ''secondary review timestamp is ambiguous'')
          else review_dto_of al raw (dt_instant d) position observed_at ''google-play-scraper''
      | Inr _ \<Rightarrow> Inl (schema_failure ''secondary review timestamp is missing''))"

section \<open>The batch\<close>

record review_issue =
  is_source_position :: nat
  is_field_names :: "string list"
  is_error_types :: "string list"
  is_schema_failure :: "exn option"

definition issue_from_validation_error :: "adapter_libs \<Rightarrow> nat \<Rightarrow> exn \<Rightarrow> review_issue" where
  "issue_from_validation_error al position e =
     (let field_names = sort (remdups (map (\<lambda>(loc, t). safe_field_name (case loc of None \<Rightarrow> ''record'' | Some l \<Rightarrow> l)) (al_details al e)));
          error_types = sort (remdups (map (\<lambda>(loc, t). safe_error_type t) (al_details al e)))
      in \<lparr>is_source_position = position, is_field_names = (if field_names = [] then [''record''] else field_names),
          is_error_types = (if error_types = [] then [''validation_error''] else error_types), is_schema_failure = None\<rparr>)"

definition is_schema_failure_exn :: "exn \<Rightarrow> bool" where
  "is_schema_failure_exn e = (case e of Crawler c \<Rightarrow> err_isinstance c [SchemaFailure] | _ \<Rightarrow> False)"

text \<open>What becomes of one record: a review, an issue, or an exception that ends the batch.\<close>

definition normalize_record :: "adapter_libs \<Rightarrow> review_normalizer \<Rightarrow> seconds \<Rightarrow> nat \<Rightarrow> review_record \<Rightarrow> exn + (review_issue + review_dto)" where
  "normalize_record al normalizer observed_at position r =
     (let issue = (\<lambda>fs ts sf. Inr (Inl \<lparr>is_source_position = position, is_field_names = fs, is_error_types = ts, is_schema_failure = sf\<rparr>))
      in case r of
           Invalid_review field_names error_types \<Rightarrow> issue field_names error_types None
         | Not_a_dict \<Rightarrow> issue [''record''] [''invalid_record_type''] None
         | Raw_review raw \<Rightarrow>
             (case normalizer raw position observed_at of
                Inr d \<Rightarrow> Inr (Inr d)
              | Inl e \<Rightarrow>
                  if (case e of ValidationError _ \<Rightarrow> True | _ \<Rightarrow> False) then Inr (Inl (issue_from_validation_error al position e))
                  else if is_schema_failure_exn e then issue [''source_at''] [exn_name e] (Some e)
                  else if raised_as [''OverflowError'', ''OSError''] e then issue [''source_at''] [exn_name e] None
                  else Inl e))"

definition issues_of :: "(review_issue + review_dto) list \<Rightarrow> review_issue list" where
  "issues_of xs = map projl (filter isl xs)"

definition accepted_of :: "(review_issue + review_dto) list \<Rightarrow> review_dto list" where
  "accepted_of xs = map projr (filter (\<lambda>x. \<not> isl x) xs)"

text \<open>The issues, which are logged, and the accepted reviews or the exception.\<close>

definition normalize_review_batch ::
  "adapter_libs \<Rightarrow> review_normalizer \<Rightarrow> nat \<Rightarrow> seconds \<Rightarrow> review_record list \<Rightarrow> review_issue list \<times> (exn + review_dto list)" where
  "normalize_review_batch al normalizer effective_limit observed_at records =
     (let considered = take effective_limit records in
      case sum_map (\<lambda>(position, r). normalize_record al normalizer observed_at position r) (enumerate 1 considered) of
        Inl e \<Rightarrow> ([], Inl e)
      | Inr outcomes \<Rightarrow>
          (let issues = issues_of outcomes; accepted = accepted_of outcomes
           in (issues,
               if considered \<noteq> [] \<and> (accepted = [] \<or> length issues * 100 > length considered * 5)
               then Inl (case issues of [issue] \<Rightarrow> (case is_schema_failure issue of Some e \<Rightarrow> e
                           | None \<Rightarrow> schema_failure ''review batch exceeded the safe corruption threshold'')
                         | _ \<Rightarrow> schema_failure ''review batch exceeded the safe corruption threshold'')
               else Inr accepted)))"

section \<open>The pages\<close>

text \<open>
  The secondary adapter follows continuation tokens. The library is \<open>fetch\<close>, from the number of items and the token
  to the items, if they are a list, and the next token; its page size is \<open>Suc each\<close>.
\<close>

function review_fetch_loop ::
  "(nat \<Rightarrow> raw_value \<Rightarrow> ('s, json list option \<times> raw_value) act) \<Rightarrow> (json \<Rightarrow> exn + review_record) \<Rightarrow> nat \<Rightarrow> nat
     \<Rightarrow> review_record list \<Rightarrow> string list \<Rightarrow> raw_value \<Rightarrow> ('s, review_record list) act" where
  "review_fetch_loop fetch read_item each limit found seen token s =
     (if limit \<le> length found then (Inr found, s)
      else let fetch_count = min (limit - length found) (Suc each) in
        (case fetch fetch_count token s of
           (Inl e, s1) \<Rightarrow> (Inl e, s1)
         | (Inr (None, _), s1) \<Rightarrow> (Inl (parse_failure ''secondary reviews parser returned an invalid page''), s1)
         | (Inr (Some items, next_token), s1) \<Rightarrow>
             (case sum_map read_item (take fetch_count items) of
                Inl e \<Rightarrow> (Inl e, s1)
              | Inr fetched \<Rightarrow>
                  if items = [] \<or> limit \<le> length (found @ fetched) \<or> next_token = RNull then (Inr (found @ fetched), s1)
                  else (case next_token of
                      RText t \<Rightarrow> if t = [] \<or> t \<in> set seen then (Inl (parse_failure ''secondary reviews pagination token is invalid''), s1)
                        else review_fetch_loop fetch read_item each limit (found @ fetched) (t # seen) next_token s1
                    | _ \<Rightarrow> (Inl (parse_failure ''secondary reviews pagination token is invalid''), s1)))))"
  by pat_completeness auto

lemma sum_map_length: "sum_map f xs = Inr ys \<Longrightarrow> length ys = length xs"
  using sum_map_Inr by blast

lemma page_shrinks:
  "x \<noteq> [] \<Longrightarrow> \<not> l \<le> n \<Longrightarrow> l - (n + min (length x) (min (l - n) (Suc e))) < l - n"
  by (cases x) auto

termination review_fetch_loop
  by (relation "measure (\<lambda>(fetch, read_item, each, limit, found, seen, token, s). limit - length found)") (auto dest!: sum_map_length intro!: page_shrinks)

declare review_fetch_loop.simps [simp del]

definition default_review_fetcher :: "(nat \<Rightarrow> raw_value \<Rightarrow> ('s, json list option \<times> raw_value) act) \<Rightarrow> adapter_libs \<Rightarrow> element_specs \<Rightarrow> nat \<Rightarrow> nat
    \<Rightarrow> ('s, review_record list) act" where
  "default_review_fetcher fetch al specs each limit = review_fetch_loop fetch (extract_review_item al specs) each limit [] [] RNull"

definition positive_limit :: "int \<Rightarrow> exn + nat" where
  "positive_limit limit = (if min limit 1000 < 1 then Inl (value_error ''review limit must be positive'') else Inr (nat (min limit 1000)))"

definition google_get_reviews :: "adapter_libs \<Rightarrow> (nat \<Rightarrow> ('s, review_record list option) act) \<Rightarrow> seconds \<Rightarrow> string \<Rightarrow> int \<Rightarrow> ('s, review_dto list) act" where
  "google_get_reviews al review_fetcher now package_name limit s = (case validate_package package_name of
     Inl e \<Rightarrow> (Inl e, s)
   | Inr _ \<Rightarrow> (case positive_limit limit of
       Inl e \<Rightarrow> (Inl e, s)
     | Inr effective_limit \<Rightarrow> (case review_fetcher effective_limit s of
         (Inl e, s1) \<Rightarrow> (Inl e, s1)
       | (Inr None, s1) \<Rightarrow> (Inl (parse_failure ''secondary reviews parser returned an invalid response set''), s1)
       | (Inr (Some raw_reviews), s1) \<Rightarrow> (snd (normalize_review_batch al (google_normalize_review al) effective_limit now raw_reviews), s1))))"

text \<open>The primary adapter decodes the pages the scraper fetched; \<open>json.loads\<close> is the parameter \<open>loads\<close>.\<close>

fun after_marker :: "string \<Rightarrow> string option" where
  "after_marker [] = None"
| "after_marker (c # cs) = (if starts_with '')]}'' (c # cs) \<and> starts_with [CHR 0x27, CHR 0x0A, CHR 0x0A] (drop 3 (c # cs)) \<and> drop 6 (c # cs) \<noteq> []
     then Some (drop 6 (c # cs)) else after_marker cs)"

definition decode_gplay_review_response :: "(json \<Rightarrow> exn + json) \<Rightarrow> string \<Rightarrow> exn + json list" where
  "decode_gplay_review_response loads response = (case after_marker response of
     None \<Rightarrow> Inl (parse_failure ''gplay review response marker was not found'')
   | Some body \<Rightarrow> (case loads (JStr body) of
       Inl e \<Rightarrow> Inl e
     | Inr outer \<Rightarrow> (case py_index outer 0 of
         Inl e \<Rightarrow> Inl e
       | Inr first \<Rightarrow> (case py_index first 2 of
           Inl e \<Rightarrow> Inl e
         | Inr inner \<Rightarrow> (case loads inner of
             Inl e \<Rightarrow> Inl e
           | Inr data \<Rightarrow> if \<not> json_truthy data then Inr []
               else (case py_index data 0 of
                   Inl e \<Rightarrow> Inl e
                 | Inr items \<Rightarrow> if \<not> json_truthy items then Inr []
                     else (case items of JArr xs \<Rightarrow> Inr xs | _ \<Rightarrow> Inl (parse_failure ''gplay reviews parser returned an invalid page''))))))))"

text \<open>The two loops: items are taken until the limit is reached, and no page is decoded after it.\<close>

fun gplay_collect :: "(json \<Rightarrow> exn + json) \<Rightarrow> (json \<Rightarrow> exn + review_record) \<Rightarrow> nat \<Rightarrow> string list \<Rightarrow> review_record list \<Rightarrow> exn + review_record list" where
  "gplay_collect loads read_item limit [] parsed = Inr parsed"
| "gplay_collect loads read_item limit (response # responses) parsed = (case decode_gplay_review_response loads response of
     Inl e \<Rightarrow> Inl e
   | Inr items \<Rightarrow> (case sum_map read_item (take (limit - length parsed) items) of
       Inl e \<Rightarrow> Inl e
     | Inr fetched \<Rightarrow> if limit \<le> length (parsed @ fetched) then Inr (parsed @ fetched) else gplay_collect loads read_item limit responses (parsed @ fetched)))"

definition gplay_get_reviews :: "adapter_libs \<Rightarrow> (json \<Rightarrow> exn + json) \<Rightarrow> element_specs \<Rightarrow> (nat \<Rightarrow> ('s, string list option) act) \<Rightarrow> seconds \<Rightarrow> string \<Rightarrow> int
    \<Rightarrow> ('s, review_dto list) act" where
  "gplay_get_reviews al loads specs scrape now package_name limit s = (case validate_package package_name of
     Inl e \<Rightarrow> (Inl e, s)
   | Inr _ \<Rightarrow> (case positive_limit limit of
       Inl e \<Rightarrow> (Inl e, s)
     | Inr effective_limit \<Rightarrow> (case scrape effective_limit s of
         (Inl e, s1) \<Rightarrow> (Inl e, s1)
       | (Inr None, s1) \<Rightarrow> (Inl (parse_failure ''gplay reviews parser returned an invalid response set''), s1)
       | (Inr (Some responses), s1) \<Rightarrow> (case gplay_collect loads (extract_review_item al specs) effective_limit responses [] of
           Inl e \<Rightarrow> (Inl e, s1)
         | Inr parsed \<Rightarrow> (snd (normalize_review_batch al (gplay_normalize_review al) effective_limit now parsed), s1)))))"

section \<open>Publication\<close>

definition app_stats_payload :: "uuid \<Rightarrow> application_ref \<Rightarrow> app_details_dto \<Rightarrow> app_stats_collected" where
  "app_stats_payload task app d = \<lparr>as_crawl_task_id = task, as_application_id = ar_application_id app, as_package_name = ar_package_name app,
     as_collected_at = ad_collected_at d, as_min_installs = ad_min_installs d, as_score = ad_score d, as_ratings_count = ad_ratings_count d,
     as_reviews_count = ad_reviews_count d, as_store_updated_on = ad_store_updated_on d, as_version = ad_version d,
     as_ad_supported = ad_ad_supported d, as_source_adapter = ad_source_adapter d\<rparr>"

definition review_payload :: "uuid \<Rightarrow> application_ref \<Rightarrow> review_dto \<Rightarrow> review_observed" where
  "review_payload task app d = \<lparr>ro_crawl_task_id = task, ro_application_id = ar_application_id app, ro_package_name = ar_package_name app,
     ro_observed_at = rd_observed_at d, ro_position = rd_position d, ro_external_review_id = rd_external_review_id d, ro_source_at = rd_source_at d,
     ro_author_name = rd_author_name d, ro_thumbs_up_count = rd_thumbs_up_count d, ro_score = rd_score d, ro_content = rd_content d,
     ro_source_adapter = rd_source_adapter d\<rparr>"

definition is_producer_error :: "exn \<Rightarrow> bool" where
  "is_producer_error e = (case e of
     Py p \<Rightarrow> exn_type p \<in> {''ProducerClosedError'', ''ProducerPublishError'', ''ProducerFlushError'', ''ProducerDeliveryError''} | _ \<Rightarrow> False)"

definition publish_messages :: "'b producer_lib \<Rightarrow> (supported_event \<Rightarrow> exn + bytes) \<Rightarrow> supported_event batch_message list \<Rightarrow> ('b kafka_producer, unit) act" where
  "publish_messages lib dump messages p = (case pr_publish_batch lib dump messages p of
     (Inl e, p1) \<Rightarrow> (Inl (if is_producer_error e then Crawler (mk_err MessagingPublishFailure ''Kafka delivery boundary failed'') else e), p1)
   | (Inr u, p1) \<Rightarrow> (Inr u, p1))"

definition publish_app_stats :: "'b producer_lib \<Rightarrow> (supported_event \<Rightarrow> exn + bytes) \<Rightarrow> uuid \<Rightarrow> uuid \<Rightarrow> application_ref \<Rightarrow> app_details_dto
    \<Rightarrow> ('b kafka_producer, unit) act" where
  "publish_app_stats lib dump fresh task app d p =
     (if valid_app_stats (app_stats_payload task app d) then publish_messages lib dump [app_stats_message fresh (app_stats_payload task app d)] p
      else (Inl (ValidationError ''AppStatsCollectedV1''), p))"

definition publish_reviews :: "'b producer_lib \<Rightarrow> (supported_event \<Rightarrow> exn + bytes) \<Rightarrow> (nat \<Rightarrow> uuid) \<Rightarrow> uuid \<Rightarrow> application_ref \<Rightarrow> review_dto list
    \<Rightarrow> ('b kafka_producer, unit) act" where
  "publish_reviews lib dump fresh task app reviews p =
     (case sum_map (\<lambda>(k, d). if valid_review_observed (review_payload task app d) then Inr (review_message (fresh k) (review_payload task app d))
                             else Inl (ValidationError ''ReviewObservedV1'')) (enumerate 0 reviews) of
        Inl e \<Rightarrow> (Inl e, p)
      | Inr messages \<Rightarrow> publish_messages lib dump messages p)"

section \<open>What the batch keeps\<close>

lemma review_dto_of_ok:
  assumes "review_dto_of al raw t position now adapter = Inr d"
  shows "valid_review_dto d \<and> rd_position d = int position"
  using assms by (auto simp: review_dto_of_def Let_def split: option.splits if_splits)

definition good_normalizer :: "review_normalizer \<Rightarrow> bool" where
  "good_normalizer f \<longleftrightarrow> (\<forall>raw position now d. f raw position now = Inr d \<longrightarrow> valid_review_dto d \<and> rd_position d = int position)"

lemma normalizers_good: "good_normalizer (gplay_normalize_review al)" "good_normalizer (google_normalize_review al)"
  unfolding good_normalizer_def gplay_normalize_review_def google_normalize_review_def
  by (auto split: sum.splits raw_value.splits if_splits dest: review_dto_of_ok)

lemma normalize_record_position:
  assumes "good_normalizer f" "normalize_record al f now position r = Inr x"
  shows "case x of Inl i \<Rightarrow> is_source_position i = position | Inr d \<Rightarrow> valid_review_dto d \<and> rd_position d = int position"
  using assms unfolding normalize_record_def good_normalizer_def Let_def
  by (auto simp: issue_from_validation_error_def Let_def split: review_record.splits sum.splits if_splits)

text \<open>The positions of the outcomes are those of the records.\<close>

definition outcome_position :: "review_issue + review_dto \<Rightarrow> int" where
  "outcome_position x = (case x of Inl i \<Rightarrow> int (is_source_position i) | Inr d \<Rightarrow> rd_position d)"

lemma outcome_positions:
  assumes "good_normalizer f"
    and "sum_map (\<lambda>(position, r). normalize_record al f now position r) (enumerate n rs) = Inr xs"
  shows "map outcome_position xs = map int [n ..< n + length rs] \<and> list_all (\<lambda>x. case x of Inl _ \<Rightarrow> True | Inr d \<Rightarrow> valid_review_dto d) xs"
proof -
  note s = sum_map_Inr [OF assms(2)]
  have each: "outcome_position (xs ! k) = int (n + k) \<and> (case xs ! k of Inl _ \<Rightarrow> True | Inr d \<Rightarrow> valid_review_dto d)" if "k < length rs" for k
  proof -
    have "normalize_record al f now (n + k) (rs ! k) = Inr (xs ! k)" using s that by (simp add: nth_enumerate_eq)
    from normalize_record_position [OF assms(1) this] show ?thesis by (auto simp: outcome_position_def split: sum.splits)
  qed
  have len: "length xs = length rs" using s by simp
  have "map outcome_position xs = map int [n ..< n + length rs]" using each len by (intro nth_equalityI) auto
  then show ?thesis using each len by (simp add: list_all_length)
qed

lemma accepted_positions:
  assumes "map outcome_position xs = map int [n ..< m]"
  shows "sorted_wrt (<) (map rd_position (accepted_of xs)) \<and> length (accepted_of xs) + length (issues_of xs) = length xs"
proof
  have "sorted_wrt (<) (map int [n ..< m])" by (simp add: sorted_wrt_map)
  then have "sorted_wrt (<) (map outcome_position xs)" using assms by simp
  then have "sorted_wrt (<) (map outcome_position (filter (\<lambda>x. \<not> isl x) xs))" by (auto simp: sorted_wrt_map intro: sorted_wrt_filter)
  moreover have "map rd_position (accepted_of xs) = map outcome_position (filter (\<lambda>x. \<not> isl x) xs)"
    by (auto simp: accepted_of_def outcome_position_def split: sum.splits)
  ultimately show "sorted_wrt (<) (map rd_position (accepted_of xs))" by simp
  show "length (accepted_of xs) + length (issues_of xs) = length xs"
    using sum_length_filter_compl [of isl xs] by (simp add: accepted_of_def issues_of_def)
qed

text \<open>A batch that is returned: in order, valid, and with at most one record in twenty missing.\<close>

lemma returned_batch:
  assumes "good_normalizer f" "normalize_review_batch al f limit now records = (issues, Inr rs)"
  shows "length rs + length issues = min limit (length records) \<and> sorted_wrt (<) (map rd_position rs) \<and> list_all valid_review_dto rs
    \<and> list_all (\<lambda>d. rd_position d \<le> int (min limit (length records))) rs \<and> 20 * length issues \<le> length rs + length issues"
proof -
  let ?run = "sum_map (\<lambda>(position, r). normalize_record al f now position r) (enumerate 1 (take limit records))"
  obtain xs where run: "?run = Inr xs" using assms(2) by (cases ?run) (auto simp: normalize_review_batch_def)
  then have x: "?run = Inr xs" "rs = accepted_of xs" "issues = issues_of xs"
    "take limit records = [] \<or> \<not> length issues * 100 > length (take limit records) * 5"
    using assms(2) unfolding normalize_review_batch_def Let_def run sum.case by (simp_all split: if_splits) blast
  note o = outcome_positions [OF assms(1) x(1)]
  have len: "length xs = length (take limit records)" using sum_map_Inr [OF x(1)] by simp
  have a: "sorted_wrt (<) (map rd_position rs)" "length rs + length issues = length xs" using accepted_positions o x(2,3) by blast+
  have mem: "Inr d \<in> set xs" if "d \<in> set rs" for d using that by (auto simp: x(2) accepted_of_def)
  have "valid_review_dto d \<and> rd_position d \<le> int (length xs)" if "d \<in> set rs" for d
  proof -
    have "outcome_position (Inr d) \<in> set (map outcome_position xs)" using mem [OF that] by simp
    moreover have "set (map outcome_position xs) = int ` {1 ..< 1 + length (take limit records)}" using o by (metis list.set_map set_upt)
    ultimately have "rd_position d \<in> int ` {1 ..< 1 + length (take limit records)}" by (simp only: outcome_position_def sum.case)
    then show ?thesis using o mem [OF that] len by (fastforce simp: list_all_iff)
  qed
  moreover have "20 * length issues \<le> length rs + length issues"
  proof (cases "take limit records = []")
    case False
    then show ?thesis using x(4) a(2) len by linarith
  next
    case True
    then have "length rs + length issues = 0" using a(2) len by (simp only: list.size)
    then show ?thesis by simp
  qed
  ultimately show ?thesis using a len by (auto simp: list_all_iff min_def)
qed

lemma valid_dto_payload: "valid_review_dto d \<Longrightarrow> ar_package_name app \<noteq> [] \<Longrightarrow> valid_review_observed (review_payload task app d)"
  by (simp add: valid_review_dto_def valid_review_observed_def review_payload_def)

lemma sum_map_total: "(\<And>x. x \<in> set xs \<Longrightarrow> f x = Inr (g x)) \<Longrightarrow> sum_map f xs = Inr (map g xs)"
  by (induction xs) auto

lemma publish_valid_reviews:
  assumes "list_all valid_review_dto rs" "ar_package_name app \<noteq> []"
  shows "publish_reviews lib dump fresh task app rs p
    = publish_messages lib dump (map (\<lambda>(k, d). review_message (fresh k) (review_payload task app d)) (enumerate 0 rs)) p"
proof -
  have "d \<in> set rs" if "(k, d) \<in> set (enumerate 0 rs)" for k d using that by (auto simp: in_set_enumerate_eq)
  then have "sum_map (\<lambda>(k, d). if valid_review_observed (review_payload task app d) then Inr (review_message (fresh k) (review_payload task app d))
      else Inl (ValidationError ''ReviewObservedV1'')) (enumerate 0 rs)
    = Inr (map (\<lambda>(k, d). review_message (fresh k) (review_payload task app d)) (enumerate 0 rs))"
    using assms by (intro sum_map_total) (auto simp: list_all_iff valid_dto_payload)
  then show ?thesis by (simp add: publish_reviews_def)
qed

text \<open>The field names in the log are those of the allow-list: a record the adapters extract marks no other.\<close>

definition marks_safe :: "review_record \<Rightarrow> bool" where
  "marks_safe r = (case r of Invalid_review fs ts \<Rightarrow> set fs \<subseteq> set SAFE_REVIEW_FIELDS \<and> list_all safe_token ts | _ \<Rightarrow> True)"

lemma safe_names [simp]: "safe_field_name f \<in> set SAFE_REVIEW_FIELDS" "safe_token (safe_error_type t)"
  by (auto simp: safe_field_name_def safe_error_type_def safe_token_def SAFE_REVIEW_FIELDS_def is_word_char_def is_letter_def is_lower_def)

lemma extract_fields_safe: "extract_fields specs item raw = Inr (Inr r) \<Longrightarrow> marks_safe r"
  by (induction specs item raw rule: extract_fields.induct)
    (auto simp: invalid_review_record_def marks_safe_def split: option.splits sum.splits if_splits)

lemma extract_review_item_safe: "extract_review_item al specs item = Inr r \<Longrightarrow> marks_safe r"
  unfolding extract_review_item_def
  by (auto simp: invalid_review_record_def marks_safe_def dest!: extract_fields_safe split: sum.splits if_splits)

lemma logged_fields_safe:
  assumes "marks_safe r" "normalize_record al f now position r = Inr (Inl i)"
  shows "set (is_field_names i) \<subseteq> set SAFE_REVIEW_FIELDS"
proof -
  have "''record'' \<in> set SAFE_REVIEW_FIELDS" "''source_at'' \<in> set SAFE_REVIEW_FIELDS" by (simp_all add: SAFE_REVIEW_FIELDS_def)
  then show ?thesis using assms unfolding normalize_record_def Let_def
    by (auto simp: issue_from_validation_error_def marks_safe_def Let_def split: review_record.splits sum.splits if_splits)
qed

section \<open>Properties\<close>

text \<open>The records an adapter considers, from what the library returned.\<close>

definition collected :: "adapter_libs \<Rightarrow> seconds \<Rightarrow> nat \<Rightarrow> review_record list \<Rightarrow> review_dto list \<Rightarrow> bool" where
  "collected al now limit records rs \<longleftrightarrow> (\<exists>f issues. good_normalizer f \<and> normalize_review_batch al f limit now records = (issues, Inr rs))"

lemma positive_limit_Inr: "positive_limit limit = Inr n \<Longrightarrow> 1 \<le> n \<and> n \<le> 1000 \<and> int n \<le> limit"
  by (auto simp: positive_limit_def split: if_splits)

lemma google_collected:
  assumes "google_get_reviews al review_fetcher now package_name limit s = (Inr rs, s')"
  obtains n records where "package_pattern package_name" "positive_limit limit = Inr n" "collected al now n records rs" "review_fetcher n s = (Inr (Some records), s')"
  using assms normalizers_good(2) [of al] that
  by (auto simp: google_get_reviews_def validate_package_def collected_def split: if_splits sum.splits prod.splits option.splits) (metis prod.collapse)

lemma gplay_collected:
  assumes "gplay_get_reviews al loads specs scrape now package_name limit s = (Inr rs, s')"
  obtains n records where "package_pattern package_name" "positive_limit limit = Inr n" "collected al now n records rs"
  using assms normalizers_good(1) [of al] that
  by (auto simp: gplay_get_reviews_def validate_package_def collected_def split: if_splits sum.splits prod.splits option.splits) (metis prod.collapse)

lemma collected_ok:
  assumes "collected al now n records rs"
  shows "length rs \<le> n \<and> sorted_wrt (<) (map rd_position rs) \<and> list_all valid_review_dto rs \<and> 19 * (min n (length records) - length rs) \<le> length rs"
proof -
  obtain f issues where "good_normalizer f" "normalize_review_batch al f n now records = (issues, Inr rs)" using assms by (auto simp: collected_def)
  from returned_batch [OF this] show ?thesis by auto
qed


text \<open>The pages of the secondary adapter: no more than asked for.\<close>

lemma review_fetch_bound:
  "review_fetch_loop fetch read_item each limit found seen token s = (Inr rs, s') \<Longrightarrow> length found \<le> limit \<Longrightarrow> length rs \<le> limit"
proof (induction fetch read_item each limit found seen token s rule: review_fetch_loop.induct)
  case (1 fetch read_item each limit found seen token s)
  let ?n = "min (limit - length found) (Suc each)"
  show ?case
  proof (cases "limit \<le> length found")
    case True
    then have "rs = found" using 1(2) by (subst (asm) review_fetch_loop.simps) simp
    then show ?thesis using 1(3) by simp
  next
    case False
    then obtain items next_token s1 fetched where f: "fetch ?n token s = (Inr (Some items, next_token), s1)" "sum_map read_item (take ?n items) = Inr fetched"
      using 1(2) by (auto simp: review_fetch_loop.simps [of fetch read_item each limit found] Let_def split: prod.splits sum.splits option.splits)
    have len: "length (found @ fetched) \<le> limit" using sum_map_length [OF f(2)] False by auto
    show ?thesis
    proof (cases "items = [] \<or> limit \<le> length (found @ fetched) \<or> next_token = RNull")
      case True
      then have "rs = found @ fetched" using 1(2) f False by (auto simp: review_fetch_loop.simps [of fetch read_item each limit found] Let_def)
      then show ?thesis using len by simp
    next
      case more: False
      then obtain t where t: "next_token = RText t" "t \<noteq> []" "t \<notin> set seen"
        "review_fetch_loop fetch read_item each limit (found @ fetched) (t # seen) next_token s1 = (Inr rs, s')"
        using 1(2) f False by (auto simp: review_fetch_loop.simps [of fetch read_item each limit found] Let_def split: raw_value.splits if_splits)
      show ?thesis
        using 1(1) [OF False refl f(1) [symmetric] refl refl refl f(2) more t(1)] t len by blast
    qed
  qed
qed

definition demo_libs :: adapter_libs where
  "demo_libs = \<lparr>al_timestamp = (\<lambda>t. Inr t), al_iso = (\<lambda>_. Inl (value_error ''iso'')), al_strptime = (\<lambda>_ _. None), al_date = (\<lambda>_. 0),
     al_int = (\<lambda>v. case v of RNumber n \<Rightarrow> Some \<lfloor>n\<rfloor> | _ \<Rightarrow> None), al_float = (\<lambda>v. case v of RNumber n \<Rightarrow> Some n | _ \<Rightarrow> None),
     al_str = (\<lambda>v. case v of RText s \<Rightarrow> Some s | _ \<Rightarrow> None), al_details = (\<lambda>_. [])\<rparr>"

definition demo_raw :: review_record where
  "demo_raw = Raw_review [(''reviewId'', RText ''r1''), (''userName'', RText ''a''), (''thumbsUpCount'', RNumber 0), (''score'', RNumber 5),
     (''content'', RText ''ok''), (''at'', RNumber 7)]"

lemma demo_reviews: "google_get_reviews demo_libs (\<lambda>_ s. (Inr (Some [demo_raw]), s)) 9 ''a.b'' 10 ()
  = (Inr [\<lparr>rd_external_review_id = ''r1'', rd_source_at = 7, rd_author_name = ''a'', rd_thumbs_up_count = 0, rd_score = 5, rd_content = ''ok'',
      rd_position = 1, rd_observed_at = 9, rd_source_adapter = ''google-play-scraper''\<rparr>], ())"
  by code_simp


end
