(* ===== verification/Spec2Isabelle.thy ===== *)
theory Spec2Isabelle
  imports Sahabino_Prelude Crawler_Errors Resilience Proxy_Pool Crawl_Policies
    Crawl_Lifecycle Playstore_Client Crawl_Command Crawl_Service
    Event_Contracts Analysis_Results Kafka_Messaging Kafka_Admin Ingestion_Store Ingestion
    Network_Metrics Metrics_Contract Capture_Tables Capture_Service Capture_Analyzer Analyzer_Worker
    Capture_Invariant Capture_Histories Analyzer_Attempts App_Registry Registry_Histories
    Sentiment_Inference Sentiment_Worker Sentiment_Postgres Sentiment_Histories
    Review_Adapters
begin

text \<open>
  Sahabino collects data about mobile applications: it crawls the Play Store, records network captures,
  and stores what it learns. This development models its Python code (under \<open>src/src/sahabino\<close>, and
  \<open>src/sentiment\<close> for the sentiment worker) and proves that the parts do what they promise.

  \<^bold>\<open>The program.\<close> The \<^emph>\<open>registry\<close> (\<open>app_registry/\<close>) lists applications. The \<^emph>\<open>crawler\<close> (\<open>crawler/\<close>) opens a run, fetches for
  each application its details and reviews through a resilient client (proxy pool, retries, circuit
  breaker, rate limiter), and publishes what it found to Kafka. The \<^emph>\<open>capture service\<close> (\<open>network/service.py\<close>)
  registers captures, hands out upload URLs of an object storage and announces uploaded captures on Kafka;
  the \<^emph>\<open>analyzer worker\<close> (\<open>network/worker.py\<close>) takes these events, downloads a capture, has \<open>tshark\<close> list its
  packets, aggregates them into metrics and publishes the analysis. The \<^emph>\<open>ingestion worker\<close> (\<open>ingestion/\<close>)
  stores all published events in PostgreSQL, exactly once. The \<^emph>\<open>sentiment worker\<close> (\<open>sentiment/\<close>) reads the stored
  observations of reviews that are pending and writes the language and sentiment of their text beside them.

  \<^bold>\<open>Theories.\<close>
  \<^item> \<open>Sahabino_Prelude\<close>: types, Python's string operations, shared lemmas.
  \<^item> \<open>Crawler_Errors\<close>: the exception classes (\<open>crawler/domain/errors.py\<close>), HTTP and library error classification,
    the redaction of stored messages. An exception is a value of type \<open>exn\<close>; a call that may raise has type
    \<open>('s, 'r) act\<close>, a function from the state to a result or exception and the new state.
  \<^item> \<open>Resilience\<close>: circuit breaker and token bucket. The interface of the breaker to its client is the locale
    \<open>circuit_port\<close>, interpreted by the breaker's operations. Interleavings of callers are sequences of critical sections.
  \<^item> \<open>Proxy_Pool\<close>: endpoints, leases (objects on an explicit heap, because contexts share them), the pool and the
    provider without proxies; both interpret the locale \<open>proxy_provider\<close> the client relies on.
  \<^item> \<open>Crawl_Policies\<close>, \<open>Playstore_Client\<close>, \<open>Crawl_Command\<close>, \<open>Crawl_Service\<close>, \<open>Crawl_Lifecycle\<close>: retry, network and
    fallback policies, the client, the command for one application, one crawl with its scheduler, and the tables of
    runs and tasks. The lemmas show that every exit path closes contexts, tasks and runs, and that finished tasks are final.
  \<^item> \<open>Review_Adapters\<close>: what the adapters make of the answers of the scraping libraries (package names, pages and
    continuation tokens, extraction, the threshold for corrupt batches), and the crawler's publisher. What is collected
    satisfies the event contract.
  \<^item> \<open>App_Registry\<close>, \<open>Registry_Histories\<close>: tables, schemas, repository and service of the registry and the crawler's client
    of it; the invariant of the registry over all histories, and that the client reads exactly its active applications.
  \<^item> \<open>Event_Contracts\<close>, \<open>Analysis_Results\<close>: envelope, payloads and their constraints (\<open>messaging/\<close>), and the table of
    analysis results; a valid analysis event always satisfies the table's constraints.
  \<^item> \<open>Kafka_Messaging\<close>, \<open>Kafka_Admin\<close>: producer, consumer and topic provisioning over \<open>confluent_kafka\<close>.
  \<^item> \<open>Ingestion_Store\<close>, \<open>Ingestion\<close>: the tables, repository, handlers and the worker. The reviews table refines the stream
    of observations, redelivery changes nothing, and no record below the committed offset is lost, over every
    history of crashes and restarts.
  \<^item> \<open>Network_Metrics\<close>, \<open>Metrics_Contract\<close>: the aggregation of packets (\<open>network/metrics.py\<close>), its statistics against
    reference definitions, and exactly when its result satisfies the event contract.
  \<^item> \<open>Capture_Tables\<close>, \<open>Capture_Service\<close>: tables, repository, storage adapter, publisher and request schema of the capture
    service, its requests, and the maintenance operations (\<open>network/operations.py\<close>).
  \<^item> \<open>Capture_Analyzer\<close>, \<open>Analyzer_Worker\<close>: the analysis of one file, and the worker with its transactions.
  \<^item> \<open>Capture_Invariant\<close>: the invariant of the capture tables and the histories \<open>net_reaches\<close> of all network
    components in any order; each operation keeps the invariant and the identity of captures and keys.
  \<^item> \<open>Capture_Histories\<close>, \<open>Analyzer_Attempts\<close>: the promises over whole histories: idempotent creation, well-formed
    announcements, analyses that ingestion accepts, safe cleanup, and attempts that always settle their capture.
  \<^item> \<open>Sentiment_Inference\<close>: results, language detection, the Persian model's labels and the batches; a batch gives what its texts
    give one by one.
  \<^item> \<open>Sentiment_Worker\<close>: the drain, the locked loop and the exit codes over a record of store operations. The store protocol is
    the locale \<open>sentiment_store\<close>, and a store that answers the locale \<open>calm_store\<close>; the lemmas about a drain are proved in them.
  \<^item> \<open>Sentiment_Postgres\<close>: the statements of \<open>PostgresStore\<close>, with a connection that may be lost at any of them, and the
    interpretations of both locales. A drain ends, settles each text as a whole, and settles all of them when it returns.
  \<^item> \<open>Sentiment_Histories\<close>: deliveries and drains in any order; all observations of one text of a review that have a
    result have the same.
  \<^item> This theory: the registry seen from the network components.

  \<^bold>\<open>State and operations.\<close> Each class with state is a record and each of its methods a function on it, under the name of
  the source where it is free. A table is a list of rows in order of insertion, with the constraints of the models as
  guards. A \<open>with session.begin()\<close> block is one atomic step. This is serializable isolation: where the code takes an
  advisory lock, the lock provides it, and where it takes none (retry, reconciliation, completion) the model does not show
  races inside a transaction. Where other processes can commit between two transactions of one operation, their effect
  is an argument (\<open>others\<close>), which histories restrict to what the components can do. Commands of the crawler's thread pool are
  interleaved as wholes. Clock readings and generated identifiers are arguments; identifiers are natural numbers. Python
  floats are exact rationals, and rounding is not modelled. Strings hold 8-bit characters; message keys and values are code
  points and bytes with UTF-8 written out. Log records are omitted.

  \<^bold>\<open>Parameters.\<close> Code outside the sources is a parameter: \<open>confluent_kafka\<close>, \<open>boto3\<close>, \<open>tenacity\<close>'s loop, \<open>pydantic\<close>'s JSON codec,
  \<open>tshark\<close> with \<open>csv.reader\<close>, the scraping libraries, \<open>langdetect\<close>, VADER and the Persian model, SHA-256, the number parsers. What a theorem needs of one is a named
  hypothesis (such as \<open>log_contract\<close> for a partition of Kafka, or that a digest does not collide on two requests) and its
  witness instantiates it.

  \<^bold>\<open>Loops.\<close> Loops are recursive functions that end. The wait of the rate limiter is shown to end within the configured
  time; the loops of the workers take the list of their turns and the theorems hold for every list. The drain of the sentiment
  worker is a partial function into \<open>option\<close>, shown to return on every store that keeps the contract.

  \<^bold>\<open>Not modelled.\<close> The HTTP routes and command line entry points, settings, engines and dependency wiring, log records, the
  HTTP transports of the crawler (calls of third-party libraries), and loading the Persian model. The rows of
  \<open>review_observations\<close> do not change under a running drain: ingestion happens between drains. The
  BI and deployment scripts (HTTP calls to Metabase, docker and file system operations) and the migrations are outside the running program.
\<close>

section \<open>The registry and the network components\<close>

text \<open>What the network components see of the registry.\<close>

definition package_names :: "registry_db \<Rightarrow> (uuid \<times> string) list" where
  "package_names db = map (\<lambda>(i, a). (i, ap_package_name a)) (rg_applications db)"

lemma names_of_change:
  assumes "distinct (map fst l)" and "map_of l i = Some a"
  shows "map (\<lambda>(j, b). (j, ap_package_name b)) (map (\<lambda>(j, b). (j, if j = i then c else b)) l)
    = AList.update i (ap_package_name c) (map (\<lambda>(j, b). (j, ap_package_name b)) l)"
  using assms
proof (induction l)
  case (Cons x l)
  obtain j b where x: "x = (j, b)" by fastforce
  show ?case
  proof (cases "j = i")
    case True
    then have "\<forall>y \<in> set l. fst y \<noteq> i" using Cons.prems(1) by (force simp: x)
    then have "map (\<lambda>(j, b). (j, if j = i then c else b)) l = l" by (intro map_idI) auto
    then show ?thesis using True by (simp add: x)
  qed (use Cons in \<open>simp add: x\<close>)
qed simp

lemma names_of_new: "map_of l i = None \<Longrightarrow> map (\<lambda>(j, b). (j, ap_package_name b)) (l @ [(i, c)])
    = AList.update i (ap_package_name c) (map (\<lambda>(j, b). (j, ap_package_name b)) l)"
  by (induction l) (auto split: if_splits)

lemma changed_names:
  assumes "registry_ok db'" and "registry_ok db" and "map_of (rg_applications db) i = Some a"
    and "rg_applications db' = map (\<lambda>(j, b). (j, if j = i then c else b)) (rg_applications db)"
  shows "package_names db' = AList.update i (ap_package_name c) (package_names db) \<and> stripped (ap_package_name c)"
proof
  show "package_names db' = AList.update i (ap_package_name c) (package_names db)"
    unfolding package_names_def assms(4) by (rule names_of_change [OF registry_okD(1) [OF assms(2)] assms(3)])
  have "(i, c) \<in> set (rg_applications db')" using map_of_SomeD [OF assms(3)] by (force simp: assms(4))
  then show "stripped (ap_package_name c)" using registry_okD(3) [OF assms(1)] by (auto simp: application_ok_def)
qed

text \<open>
  C12: every history of the registry is a history of the applications the network components may meet: whatever the
  registry does, each of its steps adds one application or renames one, to a package name with no
  surrounding blanks, so the theorems on network histories hold with the real registry running beside.
\<close>

theorem registry_feeds_network:
  assumes "registry_reaches db0 db" and "registry_ok db0" and "ns_applications s = package_names db0"
  shows "net_reaches ports conf digest s (s\<lparr>ns_applications := package_names db\<rparr>)"
  using assms
proof (induction rule: registry_reaches.induct)
  case (unchanged db)
  then show ?case using net_reaches.start [of ports conf digest s] by (metis net_state.surjective net_state.update_convs(3))
next
  case (created db0 db d i now a db')
  have ok: "registry_ok db" using registry_reaches_ok [OF created.hyps(1) created.prems(1)] ..
  note c = create_application_ok [OF created.hyps(3) ok created.hyps(2)]
  have "package_names db' = AList.update i (ap_package_name a) (package_names db)"
    unfolding package_names_def c(2) by (rule names_of_new [OF c(3)])
  moreover have "stripped (ap_package_name a)" using created.hyps(2) c(4) by (simp add: valid_application_create_def)
  ultimately show ?case using net_reaches.application [OF created.IH [OF created.prems], of "ap_package_name a" i] by simp
next
  case (updated db0 db u i now a db')
  have ok: "registry_ok db" using registry_reaches_ok [OF updated.hyps(1) updated.prems(1)] ..
  have "package_names db' = AList.update i (ap_package_name a) (package_names db) \<and> stripped (ap_package_name a)"
    using update_application_ok [OF updated.hyps(3) ok updated.hyps(2)] changed_names [OF _ ok] by blast
  then show ?case using net_reaches.application [OF updated.IH [OF updated.prems], of "ap_package_name a" i] by simp
next
  case (deactivated db0 db i now v db')
  have ok: "registry_ok db" using registry_reaches_ok [OF deactivated.hyps(1) deactivated.prems(1)] ..
  obtain a b where b: "registry_ok db'" "map_of (rg_applications db) i = Some b"
    "rg_applications db' = map (\<lambda>(j, b). (j, if j = i then a else b)) (rg_applications db)"
    using deactivate_application_ok [OF deactivated.hyps(2) ok] by blast
  have "package_names db' = AList.update i (ap_package_name a) (package_names db) \<and> stripped (ap_package_name a)"
    by (rule changed_names [OF b(1) ok b(2,3)])
  then show ?case using net_reaches.application [OF deactivated.IH [OF deactivated.prems], of "ap_package_name a" i] by simp
qed

theorem registry_feeds_network_witness:
  "net_reaches calm_ports sample_settings sample_digest (empty_net\<lparr>ns_applications := []\<rparr>) (empty_net\<lparr>ns_applications := [(5, ''org.shop'')]\<rparr>)"
proof -
  let ?s = "empty_net\<lparr>ns_applications := []\<rparr>"
  have n: "package_names shop_registry = []" "package_names (shop_registry\<lparr>rg_applications := [(5, shop_application)]\<rparr>) = [(5, ''org.shop'')]"
    by (simp_all add: package_names_def shop_registry_def shop_application_def new_application_def shop_request_def)
  have "ns_applications ?s = package_names shop_registry" by (simp add: n)
  from registry_feeds_network [OF shop_reached shop_registry_ok this, of calm_ports sample_settings sample_digest]
  show ?thesis unfolding n by simp
qed

end
